(* ===== verification/Prelude.thy ===== *)
theory Prelude
  imports Complex_Main "HOL-Library.Product_Lexorder" "HOL-Library.Multiset"
begin

text \<open>
  Shared vocabulary of the development: the exceptions of the program, results as sums,
  the clock, Python's stable sort and \<^verbatim>\<open>itertools.groupby\<close>, in-place updates of
  a list of rows, and the lemmas on them that the components use.
\<close>

named_theorems status_simps \<open>evaluation of the status enumerations\<close>
named_theorems row_simps \<open>effect of row updates on the fields of the rows\<close>

section \<open>Errors and results\<close>

text \<open>
  The exceptions the modelled code raises. The first group are the classes of
  \<^verbatim>\<open>core/errors.py\<close>, the second the built-in exceptions of Python that the modelled
  code raises itself or runs into, and SQLAlchemy's exceptions for a missing or ambiguous row.
\<close>

datatype error =
    ServerClientError string
  | ResourceNotExistsError
  | ResourceExistsError
  | BackendNotAvailable
  | RepoDoesNotExistError string
  | GatewayError string
  | ForbiddenError
  | ServerErr
  | BackendError
  | NoCapacityError
  | ProvisioningError
  | PlacementGroupInUseError
  | SSHError
  | ValueError
  | KeyError
  | TypeError
  | AssertionError
  | IndexError
  | ZeroDivisionError
  | UnboundLocalError
  | AttributeError
  | NotImplementedError
  | NoResultFound
  | MultipleResultsFound
  | RequestError
  | ShimHTTPError
  | ShimAPIVersionError
  | LogStorageError
  | IntegrityError

text \<open>\<^verbatim>\<open>except ServerError\<close> and \<^verbatim>\<open>except ServerClientError\<close>: the class hierarchy.\<close>

fun is_ServerClientError :: "error \<Rightarrow> bool" where
  "is_ServerClientError (ServerClientError _) = True"
| "is_ServerClientError ResourceNotExistsError = True"
| "is_ServerClientError ResourceExistsError = True"
| "is_ServerClientError BackendNotAvailable = True"
| "is_ServerClientError (RepoDoesNotExistError _) = True"
| "is_ServerClientError (GatewayError _) = True"
| "is_ServerClientError _ = False"

fun is_ServerError :: "error \<Rightarrow> bool" where
  "is_ServerError ServerErr = True"
| "is_ServerError ForbiddenError = True"
| "is_ServerError e = is_ServerClientError e"

fun is_BackendError :: "error \<Rightarrow> bool" where
  "is_BackendError BackendError = True"
| "is_BackendError NoCapacityError = True"
| "is_BackendError ProvisioningError = True"
| "is_BackendError PlacementGroupInUseError = True"
| "is_BackendError _ = False"

text \<open>\<^verbatim>\<open>except DstackError\<close>: besides these two families, SSH errors and those of the shim client and the log storage.\<close>

definition is_DstackError :: "error \<Rightarrow> bool" where
  "is_DstackError e \<longleftrightarrow> is_ServerError e \<or> is_BackendError e \<or> e \<in> {SSHError, ShimHTTPError, ShimAPIVersionError, LogStorageError}"

type_synonym 'a result = "error + 'a"

definition bindE :: "'a result \<Rightarrow> ('a \<Rightarrow> 'b result) \<Rightarrow> 'b result" where
  "bindE r f = (case r of Inl e \<Rightarrow> Inl e | Inr x \<Rightarrow> f x)"

lemma bindE_simps [simp]:
  "bindE (Inl e) f = Inl e"
  "bindE (Inr x) f = f x"
  by (simp_all add: bindE_def)

lemma bindE_Inr_conv: "bindE r f = Inr y \<longleftrightarrow> (\<exists>x. r = Inr x \<and> f x = Inr y)"
  by (cases r) auto

lemma bindE_Inl_conv: "bindE r f = Inl e \<longleftrightarrow> r = Inl e \<or> (\<exists>x. r = Inr x \<and> f x = Inl e)"
  by (cases r) auto

definition fmapE :: "('a \<Rightarrow> 'b) \<Rightarrow> 'a result \<Rightarrow> 'b result" where
  "fmapE f r = bindE r (\<lambda>x. Inr (f x))"

lemma fmapE_simps [simp]: "fmapE f (Inl e) = Inl e" "fmapE f (Inr x) = Inr (f x)"
  by (simp_all add: fmapE_def)

lemma fmapE_Inr_conv: "fmapE f r = Inr y \<longleftrightarrow> (\<exists>x. r = Inr x \<and> y = f x)"
  by (cases r) auto

text \<open>
  A handler that an exception interrupts after it has changed rows returns them as they are at that
  point, with the exception; when the caller rolls back, only the exception counts.
\<close>

fun completed :: "'a \<times> error option \<Rightarrow> 'a result" where
  "completed (x, None) = Inr x"
| "completed (x, Some e) = Inl e"

lemma completed_Inr_conv: "completed p = Inr x \<longleftrightarrow> p = (x, None)"
  by (cases p rule: completed.cases) auto

lemma completed_Inl_conv: "completed p = Inl e \<longleftrightarrow> snd p = Some e"
  by (cases p rule: completed.cases) auto

fun mapE :: "('a \<Rightarrow> 'b result) \<Rightarrow> 'a list \<Rightarrow> 'b list result" where
  "mapE f [] = Inr []"
| "mapE f (x # xs) = bindE (f x) (\<lambda>y. bindE (mapE f xs) (\<lambda>ys. Inr (y # ys)))"

lemma mapE_Inr_conv:
  "mapE f xs = Inr ys \<longleftrightarrow> list_all2 (\<lambda>x y. f x = Inr y) xs ys"
  by (induction xs arbitrary: ys) (auto simp: bindE_Inr_conv list_all2_Cons1)

definition get_or_error :: "'a option \<Rightarrow> 'a result" where
  "get_or_error v = (case v of None \<Rightarrow> Inl ValueError | Some x \<Rightarrow> Inr x)"

lemma get_or_error_simps [simp]:
  "get_or_error None = Inl ValueError"
  "get_or_error (Some x) = Inr x"
  by (simp_all add: get_or_error_def)

section \<open>Time\<close>

text \<open>
  A \<^verbatim>\<open>datetime\<close> (UTC) is the number of microseconds since the epoch, the resolution of
  Python's \<^verbatim>\<open>datetime\<close>; a \<^verbatim>\<open>timedelta\<close> is a number of microseconds.
\<close>

type_synonym time = int

definition seconds :: "int \<Rightarrow> time" where
  "seconds n = n * 1000000"

lemma seconds_mono_iff [simp]: "seconds a \<le> seconds b \<longleftrightarrow> a \<le> b"
  by (simp add: seconds_def)

lemma seconds_0 [simp]: "seconds 0 = 0"
  by (simp add: seconds_def)

section \<open>Python's groupby\<close>

text \<open>
  \<^verbatim>\<open>itertools.groupby(xs, key)\<close>: the maximal runs of consecutive elements with the same
  key. \<^verbatim>\<open>sorted(xs, key=...)\<close> is \<open>sort_key\<close>, which is stable as Python's sort is.
\<close>

function groupby :: "('a \<Rightarrow> 'k) \<Rightarrow> 'a list \<Rightarrow> ('k \<times> 'a list) list" where
  "groupby k [] = []"
| "groupby k (x # xs) =
     (k x, x # takeWhile (\<lambda>y. k y = k x) xs) # groupby k (dropWhile (\<lambda>y. k y = k x) xs)"
  by pat_completeness auto
termination
  by (relation "measure (\<lambda>(k, xs). length xs)") (auto simp: le_imp_less_Suc length_dropWhile_le)

lemma concat_groupby: "concat (map snd (groupby k xs)) = xs"
  by (induction k xs rule: groupby.induct) simp_all

lemma groupby_ne: "(v, g) \<in> set (groupby k xs) \<Longrightarrow> g \<noteq> []"
  by (induction k xs rule: groupby.induct) auto

lemma groupby_key: "(v, g) \<in> set (groupby k xs) \<Longrightarrow> x \<in> set g \<Longrightarrow> k x = v"
  by (induction k xs rule: groupby.induct) (auto dest: set_takeWhileD)

lemma groupby_subset: "(v, g) \<in> set (groupby k xs) \<Longrightarrow> set g \<subseteq> set xs"
  by (induction k xs rule: groupby.induct) (auto dest: set_takeWhileD set_dropWhileD)

lemma keys_groupby: "fst ` set (groupby k xs) = k ` set xs"
proof -
  have "k ` set xs = (\<Union>(v, g) \<in> set (groupby k xs). k ` set g)"
    by (subst (1) concat_groupby [of k xs, symmetric]) force
  also have "\<dots> = (\<Union>(v, g) \<in> set (groupby k xs). {v})"
  proof (rule SUP_cong [OF refl])
    fix p assume p: "p \<in> set (groupby k xs)"
    obtain v g where vg: "p = (v, g)" by force
    with p have "g \<noteq> []" and "\<forall>x \<in> set g. k x = v"
      by (auto dest: groupby_ne groupby_key)
    then have "k ` set g = {v}" by (cases g) auto
    then show "(case p of (v, g) \<Rightarrow> k ` set g) = (case p of (v, g) \<Rightarrow> {v})"
      by (simp add: vg)
  qed
  also have "\<dots> = fst ` set (groupby k xs)" by force
  finally show ?thesis by simp
qed

text \<open>On a list sorted by the key, every key starts exactly one group, which holds all its elements.\<close>

lemma sorted_dropWhile_key:
  assumes "sorted (map k (x # xs))"
  shows "\<forall>y \<in> set (dropWhile (\<lambda>y. k y = k x) xs). k x < k y"
  using assms
proof (induction xs)
  case Nil
  then show ?case by simp
next
  case (Cons a xs)
  show ?case
  proof (cases "k a = k x")
    case True
    with Cons show ?thesis by simp
  next
    case False
    with Cons.prems have "k x < k a" by (auto simp: less_le)
    with Cons.prems False show ?thesis by fastforce
  qed
qed

lemma sorted_map_dropWhile: "sorted (map k xs) \<Longrightarrow> sorted (map k (dropWhile P xs))"
  by (induction xs) auto

lemma filter_key_hd:
  assumes "sorted (map k (x # xs))"
  shows "filter (\<lambda>y. k y = k x) xs = takeWhile (\<lambda>y. k y = k x) xs"
  using assms
proof (induction xs)
  case Nil
  then show ?case by simp
next
  case (Cons a xs)
  show ?case
  proof (cases "k a = k x")
    case True
    with Cons show ?thesis by simp
  next
    case False
    with Cons.prems have "k x < k a" by (auto simp: less_le)
    with Cons.prems have "\<forall>y \<in> set xs. k y \<noteq> k x" by fastforce
    with False show ?thesis by (simp add: filter_empty_conv)
  qed
qed

lemma filter_key_later:
  assumes "v \<noteq> k x"
  shows "filter (\<lambda>y. k y = v) (x # xs) = filter (\<lambda>y. k y = v) (dropWhile (\<lambda>y. k y = k x) xs)"
  using assms by (induction xs) auto

lemma groupby_keys_gt:
  assumes "sorted (map k (x # xs))"
    and "v \<in> fst ` set (groupby k (dropWhile (\<lambda>y. k y = k x) xs))"
  shows "k x < v"
  using assms sorted_dropWhile_key [of k x xs] by (auto simp: keys_groupby)

lemma groupby_sorted: "sorted (map k xs) \<Longrightarrow> sorted_wrt (<) (map fst (groupby k xs))"
proof (induction k xs rule: groupby.induct)
  case (2 k x xs)
  then have "sorted (map k (dropWhile (\<lambda>y. k y = k x) xs))"
    by (auto intro: sorted_map_dropWhile)
  with 2 show ?case by (auto intro: groupby_keys_gt)
qed simp

lemma groupby_filter:
  assumes "sorted (map k xs)" and "(v, g) \<in> set (groupby k xs)"
  shows "g = filter (\<lambda>y. k y = v) xs"
  using assms
proof (induction k xs rule: groupby.induct)
  case (2 k x xs)
  let ?d = "dropWhile (\<lambda>y. k y = k x) xs"
  from "2.prems"(2) consider "v = k x" "g = x # takeWhile (\<lambda>y. k y = k x) xs"
    | "(v, g) \<in> set (groupby k ?d)" by auto
  then show ?case
  proof cases
    case 1
    with filter_key_hd [OF "2.prems"(1)] show ?thesis by simp
  next
    case later: 2
    then have "k x < v" using groupby_keys_gt [OF "2.prems"(1)] by force
    moreover have "g = filter (\<lambda>y. k y = v) ?d"
      using later "2.IH" "2.prems"(1) by (auto intro: sorted_map_dropWhile)
    ultimately show ?thesis by (simp only: filter_key_later [of v k x] less_imp_neq not_sym)
  qed
qed simp

section \<open>Rows updated in place\<close>

text \<open>
  The code mutates the objects of a loaded collection; an object is identified by its
  primary key. \<open>map_rows\<close> applies an update to the rows that satisfy a predicate and
  keeps the others, in order.
\<close>

definition map_rows :: "('r \<Rightarrow> bool) \<Rightarrow> ('r \<Rightarrow> 'r) \<Rightarrow> 'r list \<Rightarrow> 'r list" where
  "map_rows P f rs = map (\<lambda>r. if P r then f r else r) rs"

lemma map_rows_simps [simp]:
  "map_rows P f [] = []"
  "map_rows P f (r # rs) = (if P r then f r else r) # map_rows P f rs"
  by (simp_all add: map_rows_def)

lemma length_map_rows [simp]: "length (map_rows P f rs) = length rs"
  by (simp add: map_rows_def)

lemma set_map_rows: "set (map_rows P f rs) = f ` {r \<in> set rs. P r} \<union> {r \<in> set rs. \<not> P r}"
  by (auto simp: map_rows_def)

lemma map_rows_id [simp]: "\<forall>r \<in> set rs. \<not> P r \<Longrightarrow> map_rows P f rs = rs"
  by (induction rs) auto

lemma map_map_rows: "(\<And>r. P r \<Longrightarrow> g (f r) = g r) \<Longrightarrow> map g (map_rows P f rs) = map g rs"
  by (induction rs) auto

section \<open>Transition systems\<close>

inductive reach :: "('s \<Rightarrow> bool) \<Rightarrow> ('s \<Rightarrow> 's \<Rightarrow> bool) \<Rightarrow> 's \<Rightarrow> bool" for init step where
  reach_init: "init s \<Longrightarrow> reach init step s"
| reach_step: "reach init step s \<Longrightarrow> step s t \<Longrightarrow> reach init step t"

text \<open>The interface of an invariant: it holds initially and every step keeps it.\<close>

locale invariant_system =
  fixes init :: "'s \<Rightarrow> bool" and step :: "'s \<Rightarrow> 's \<Rightarrow> bool" and inv :: "'s \<Rightarrow> bool"
  assumes inv_init: "init s \<Longrightarrow> inv s"
    and inv_step: "step s t \<Longrightarrow> inv s \<Longrightarrow> inv t"
begin

lemma reach_inv: "reach init step s \<Longrightarrow> inv s"
  by (induction rule: reach.induct) (auto intro: inv_init inv_step)

lemma steps_inv: "step\<^sup>*\<^sup>* s t \<Longrightarrow> inv s \<Longrightarrow> inv t"
  by (induction rule: rtranclp_induct) (auto intro: inv_step)

end

end
