(* ===== verification/Locking.thy ===== *)
theory Locking
  imports Prelude
begin

text \<open>
  \<^verbatim>\<open>server/services/locking.py\<close>: the in-memory resource locker. A namespace holds the
  set of its locked keys; \<^verbatim>\<open>lock_ctx\<close> acquires a list of keys by repeated attempts
  (\<^verbatim>\<open>_wait_to_lock_many\<close>) and removes them from the set when it is left. The background
  tasks take single rows with a test under the namespace lock (\<^verbatim>\<open>get_lockset\<close>).
  The coroutines of the server interleave at the \<^verbatim>\<open>await\<close> points only, so every block
  under the \<^verbatim>\<open>asyncio.Lock\<close> is one step of the relation \<open>lock_step\<close>.
\<close>

section \<open>The locker\<close>

type_synonym 'k locker = "string \<rightharpoonup> 'k set"

definition get_lockset :: "'k locker \<Rightarrow> string \<Rightarrow> 'k set \<times> 'k locker" where
  "get_lockset m ns = (case m ns of Some s \<Rightarrow> (s, m) | None \<Rightarrow> ({}, m(ns \<mapsto> {})))"

text \<open>
  The \<^verbatim>\<open>for\<close> loop of \<^verbatim>\<open>_wait_to_lock_many\<close>: lock keys from the front until one is
  taken; the result is the new set and \<^verbatim>\<open>locked_now_num\<close>.
\<close>

fun lock_now :: "'k set \<Rightarrow> 'k list \<Rightarrow> 'k set \<times> nat" where
  "lock_now locked [] = (locked, 0)"
| "lock_now locked (key # keys) =
     (if key \<in> locked then (locked, 0)
      else (let (locked', n) = lock_now (insert key locked) keys in (locked', Suc n)))"

text \<open>One turn of its \<^verbatim>\<open>while\<close> loop.\<close>

definition wait_to_lock_iter :: "'k set \<Rightarrow> 'k list \<Rightarrow> 'k set \<times> 'k list" where
  "wait_to_lock_iter locked left_to_lock =
     (let (locked', n) = lock_now locked left_to_lock in (locked', drop n left_to_lock))"

section \<open>Coroutines sharing a namespace\<close>

datatype 'k proc =
    Outside
  | Waiting "'k list" "'k list"   \<comment> \<open>\<open>keys\<close> of the context and \<open>left_to_lock\<close>\<close>
  | Inside "'k list"              \<comment> \<open>in the body of the context\<close>

record 'k lock_state =
  lockset :: "'k set"
  procs :: "'k proc list"

inductive lock_step :: "'k lock_state \<Rightarrow> 'k lock_state \<Rightarrow> bool" where
  enter: "i < length (procs s) \<Longrightarrow> procs s ! i = Outside \<Longrightarrow>
    lock_step s (s\<lparr>procs := (procs s)[i := Waiting keys keys]\<rparr>)"
| attempt: "i < length (procs s) \<Longrightarrow> procs s ! i = Waiting keys left \<Longrightarrow> left \<noteq> [] \<Longrightarrow>
    wait_to_lock_iter (lockset s) left = (locked', left') \<Longrightarrow>
    lock_step s (s\<lparr>lockset := locked', procs := (procs s)[i := Waiting keys left']\<rparr>)"
| acquired: "i < length (procs s) \<Longrightarrow> procs s ! i = Waiting keys [] \<Longrightarrow>
    lock_step s (s\<lparr>procs := (procs s)[i := Inside keys]\<rparr>)"
| try_lock: "i < length (procs s) \<Longrightarrow> procs s ! i = Outside \<Longrightarrow> key \<notin> lockset s \<Longrightarrow>
    lock_step s (s\<lparr>lockset := insert key (lockset s), procs := (procs s)[i := Inside [key]]\<rparr>)"
| release: "i < length (procs s) \<Longrightarrow> procs s ! i = Inside keys \<Longrightarrow>
    lock_step s (s\<lparr>lockset := lockset s - set keys, procs := (procs s)[i := Outside]\<rparr>)"
| give_up: "i < length (procs s) \<Longrightarrow> procs s ! i = Waiting keys left \<Longrightarrow> set left \<inter> lockset s = {} \<Longrightarrow>
    lock_step s (s\<lparr>lockset := lockset s - set keys, procs := (procs s)[i := Outside]\<rparr>)"

text \<open>
  An exception inside the wait (a cancelled task) also runs the \<^verbatim>\<open>finally\<close> block, which
  removes all keys of the context from the set, locked by it or not. In \<open>lock_step\<close> a task gives up only
  while nobody holds the keys it has not locked yet; \<open>lock_step_cancel\<close> adds the other moments.
\<close>

inductive lock_step_cancel :: "'k lock_state \<Rightarrow> 'k lock_state \<Rightarrow> bool" where
  regular: "lock_step s t \<Longrightarrow> lock_step_cancel s t"
| cancel: "i < length (procs s) \<Longrightarrow> procs s ! i = Waiting keys left \<Longrightarrow>
    lock_step_cancel s (s\<lparr>lockset := lockset s - set keys, procs := (procs s)[i := Outside]\<rparr>)"

definition init_locks :: "nat \<Rightarrow> 'k lock_state" where
  "init_locks n = \<lparr>lockset = {}, procs = replicate n Outside\<rparr>"

fun owned :: "'k proc \<Rightarrow> 'k set" where
  "owned Outside = {}"
| "owned (Waiting keys left) = set (take (length keys - length left) keys)"
| "owned (Inside keys) = set keys"

fun wf_proc :: "'k proc \<Rightarrow> bool" where
  "wf_proc (Waiting keys left) = (length left \<le> length keys \<and> left = drop (length keys - length left) keys)"
| "wf_proc _ = True"

definition lock_inv :: "'k lock_state \<Rightarrow> bool" where
  "lock_inv s \<longleftrightarrow> (\<forall>i < length (procs s). wf_proc (procs s ! i))
     \<and> lockset s = (\<Union>i < length (procs s). owned (procs s ! i))
     \<and> (\<forall>i < length (procs s). \<forall>j < length (procs s). i \<noteq> j \<longrightarrow>
          owned (procs s ! i) \<inter> owned (procs s ! j) = {})"

section \<open>What an attempt locks\<close>

lemma lock_now_spec:
  assumes "lock_now locked keys = (locked', n)"
  shows "n \<le> length keys" and "locked' = locked \<union> set (take n keys)"
    and "set (take n keys) \<inter> locked = {}"
    and "n < length keys \<Longrightarrow> keys ! n \<in> locked'"
  using assms
proof (induction locked keys arbitrary: locked' n rule: lock_now.induct)
  case (1 locked)
  { case 1 then show ?case by simp next case 2 then show ?case by simp
  next case 3 then show ?case by simp next case 4 then show ?case by simp }
next
  case (2 locked key keys)
  { case 1 then show ?case using "2.IH"(1) by (auto split: if_splits prod.splits)
  next case 2 then show ?case using "2.IH"(2) by (auto split: if_splits prod.splits)
  next case 3 then show ?case using "2.IH"(3) by (fastforce split: if_splits prod.splits)
  next case 4 then show ?case using "2.IH"(4) by (auto split: if_splits prod.splits) }
qed

lemma wait_to_lock_iter_spec:
  assumes "wait_to_lock_iter locked left = (locked', left')"
  obtains got where "left = got @ left'" and "locked' = locked \<union> set got"
    and "set got \<inter> locked = {}" and "left' \<noteq> [] \<Longrightarrow> hd left' \<in> locked'"
proof -
  obtain n where n: "lock_now locked left = (locked', n)" and l: "left' = drop n left"
    using assms by (auto simp: wait_to_lock_iter_def split: prod.splits)
  show thesis
    by (rule that [of "take n left"])
      (use lock_now_spec [OF n] l in \<open>auto simp: hd_drop_conv_nth\<close>)
qed

text \<open>An attempt makes progress exactly when the next key is free.\<close>

lemma wait_to_lock_iter_progress:
  assumes "left \<noteq> []" and "hd left \<notin> locked"
  shows "length (snd (wait_to_lock_iter locked left)) < length left"
  using assms by (cases left) (auto simp: wait_to_lock_iter_def split: prod.splits)

section \<open>Mutual exclusion\<close>

lemma wf_proc_Waiting: "wf_proc (Waiting keys left) \<longleftrightarrow> (\<exists>pre. keys = pre @ left)"
proof
  assume "wf_proc (Waiting keys left)"
  then have "keys = take (length keys - length left) keys @ left"
    using append_take_drop_id [of "length keys - length left" keys] by simp
  then show "\<exists>pre. keys = pre @ left" ..
next
  assume "\<exists>pre. keys = pre @ left"
  then show "wf_proc (Waiting keys left)" by auto
qed

lemma owned_Waiting: "owned (Waiting (pre @ left) left) = set pre"
  by simp

declare owned.simps(2) [simp del] wf_proc.simps(1) [simp del]

text \<open>Replacing the state of one coroutine, with the lock set adjusted to what it now owns.\<close>

lemma lock_inv_update:
  assumes inv: "lock_inv s" and i: "i < length (procs s)" and wf: "wf_proc p"
    and free: "owned p \<inter> (lockset s - owned (procs s ! i)) = {}"
    and L: "L = (lockset s - owned (procs s ! i)) \<union> owned p"
  shows "lock_inv (s\<lparr>lockset := L, procs := (procs s)[i := p]\<rparr>)"
proof -
  let ?ps = "procs s"
  have dis: "owned (?ps ! j) \<inter> owned (?ps ! k) = {}"
    if "j < length ?ps" "k < length ?ps" "j \<noteq> k" for j k
    using inv that unfolding lock_inv_def by blast
  have ls: "lockset s = (\<Union>j < length ?ps. owned (?ps ! j))"
    using inv unfolding lock_inv_def by blast
  have others: "lockset s - owned (?ps ! i) = (\<Union>j \<in> {..<length ?ps} - {i}. owned (?ps ! j))"
    unfolding ls using dis i by blast
  have "L = (\<Union>j < length ?ps. owned (?ps[i := p] ! j))"
  proof -
    have "(\<Union>j < length ?ps. owned (?ps[i := p] ! j))
        = owned p \<union> (\<Union>j \<in> {..<length ?ps} - {i}. owned (?ps[i := p] ! j))"
      using i by (auto simp: nth_list_update split: if_splits)
    also have "(\<Union>j \<in> {..<length ?ps} - {i}. owned (?ps[i := p] ! j))
        = (\<Union>j \<in> {..<length ?ps} - {i}. owned (?ps ! j))"
      by (intro SUP_cong) auto
    finally show ?thesis unfolding L others by blast
  qed
  moreover have "owned p \<inter> owned (?ps ! j) = {}" if "j < length ?ps" "j \<noteq> i" for j
    using free that unfolding others by blast
  ultimately show ?thesis
    using inv i wf unfolding lock_inv_def by (auto simp: nth_list_update)
qed

lemma lock_inv_wf: "lock_inv s \<Longrightarrow> i < length (procs s) \<Longrightarrow> wf_proc (procs s ! i)"
  by (simp add: lock_inv_def)

lemma lock_inv_owned: "lock_inv s \<Longrightarrow> i < length (procs s) \<Longrightarrow> owned (procs s ! i) \<subseteq> lockset s"
  by (auto simp: lock_inv_def)

lemma lock_inv_init: "lock_inv (init_locks n)"
  by (simp add: lock_inv_def init_locks_def)

lemma lock_step_inv: "lock_step s t \<Longrightarrow> lock_inv s \<Longrightarrow> lock_inv t"
proof (induction rule: lock_step.induct)
  case (enter i s keys)
  then have "lock_inv (s\<lparr>lockset := lockset s, procs := (procs s)[i := Waiting keys keys]\<rparr>)"
    by (intro lock_inv_update) (simp_all add: wf_proc_Waiting owned.simps(2))
  then show ?case by simp
next
  case (attempt i s keys left locked' left')
  from attempt(4) obtain got where got: "left = got @ left'" "locked' = lockset s \<union> set got"
    "set got \<inter> lockset s = {}" by (rule wait_to_lock_iter_spec)
  from lock_inv_wf [OF attempt(5,1)] attempt(2) obtain pre where pre: "keys = pre @ left"
    by (auto simp: wf_proc_Waiting)
  have own: "owned (procs s ! i) = set pre" "owned (Waiting keys left') = set pre \<union> set got"
    using owned_Waiting [of "pre @ got" left'] attempt(2) pre got(1)
    by (simp_all add: owned_Waiting)
  with attempt got pre lock_inv_owned [OF attempt(5,1)] show ?case
    by (intro lock_inv_update) (auto simp: wf_proc_Waiting)
next
  case (acquired i s keys)
  then have "lock_inv (s\<lparr>lockset := lockset s, procs := (procs s)[i := Inside keys]\<rparr>)"
    using lock_inv_owned [OF acquired(3,1)]
    by (intro lock_inv_update) (auto simp: owned.simps(2))
  then show ?case by simp
next
  case (try_lock i s key)
  then show ?case by (intro lock_inv_update) auto
next
  case (release i s keys)
  then show ?case by (intro lock_inv_update) auto
next
  case (give_up i s keys left)
  from lock_inv_wf [OF give_up(4,1)] give_up(2) obtain pre where pre: "keys = pre @ left"
    by (auto simp: wf_proc_Waiting)
  then have own: "owned (procs s ! i) = set pre" using give_up(2) by (simp add: owned_Waiting)
  have "lockset s - set keys = lockset s - set pre" using give_up(3) pre by auto
  with give_up own show ?case by (intro lock_inv_update) auto
qed

interpretation locks: invariant_system "\<lambda>s. s = init_locks n" lock_step lock_inv for n
  by unfold_locales (auto simp: lock_inv_init lock_step_inv)

section \<open>Deadlock freedom\<close>

text \<open>
  The callers sort the keys (\<^verbatim>\<open>sorted([r.id for r in ...])\<close>), which are distinct primary
  keys.
\<close>

fun ordered_proc :: "'k::linorder proc \<Rightarrow> bool" where
  "ordered_proc (Waiting keys left) = sorted_wrt (<) keys"
| "ordered_proc _ = True"

text \<open>A coroutine that can do something useful: leave its body, enter it, or lock its next key.\<close>

fun can_proceed :: "'k set \<Rightarrow> 'k proc \<Rightarrow> bool" where
  "can_proceed L Outside = False"
| "can_proceed L (Waiting keys left) = (case left of [] \<Rightarrow> True | key # _ \<Rightarrow> key \<notin> L)"
| "can_proceed L (Inside keys) = True"

fun next_key :: "'k proc \<Rightarrow> 'k set" where
  "next_key (Waiting keys (key # _)) = {key}"
| "next_key _ = {}"

lemma owned_less_next_key:
  assumes "wf_proc p" and "ordered_proc p" and "x \<in> owned p" and "y \<in> next_key p"
  shows "x < y"
  using assms by (cases p rule: next_key.cases) (auto simp: wf_proc_Waiting owned_Waiting sorted_wrt_append)

lemma blocked_next_key:
  "p \<noteq> Outside \<Longrightarrow> \<not> can_proceed L p \<Longrightarrow> \<exists>y. next_key p = {y} \<and> y \<in> L"
  by (cases p rule: next_key.cases) auto

lemma finite_next_keys: "finite (\<Union>i < length ps. next_key (ps ! i))"
proof -
  have "finite (next_key p)" for p :: "'k proc" by (cases p rule: next_key.cases) auto
  then show ?thesis by blast
qed

text \<open>
  The coroutine that waits for the largest key: the key has an owner, which must be blocked
  on a larger key still.
\<close>

lemma ordered_no_deadlock:
  assumes inv: "lock_inv s" and ord: "\<forall>p \<in> set (procs s). ordered_proc p"
    and busy: "\<exists>p \<in> set (procs s). p \<noteq> Outside"
  shows "\<exists>p \<in> set (procs s). can_proceed (lockset s) p"
proof (rule ccontr)
  assume stuck: "\<not> ?thesis"
  define N where "N = (\<Union>i < length (procs s). next_key (procs s ! i))"
  from busy stuck obtain i0 y0 where "i0 < length (procs s)" "next_key (procs s ! i0) = {y0}"
    by (metis blocked_next_key in_set_conv_nth)
  then have "N \<noteq> {}" unfolding N_def by blast
  moreover have "finite N" unfolding N_def by (rule finite_next_keys)
  ultimately have max: "Max N \<in> N" and ge: "\<forall>y \<in> N. y \<le> Max N" by simp_all
  from max obtain i where i: "i < length (procs s)" "Max N \<in> next_key (procs s ! i)"
    unfolding N_def by blast
  then have "procs s ! i \<noteq> Outside" by auto
  with i stuck have "Max N \<in> lockset s"
    using blocked_next_key [of "procs s ! i" "lockset s"] by auto
  with inv obtain j where j: "j < length (procs s)" "Max N \<in> owned (procs s ! j)"
    unfolding lock_inv_def by blast
  then have "procs s ! j \<noteq> Outside" by auto
  with j stuck obtain y where y: "next_key (procs s ! j) = {y}"
    using blocked_next_key [of "procs s ! j" "lockset s"] by auto
  with j ord have "Max N < y"
    using owned_less_next_key [of "procs s ! j"] lock_inv_wf [OF inv j(1)] by auto
  moreover have "y \<in> N" unfolding N_def using j y by blast
  ultimately show False using ge by auto
qed

section \<open>Properties\<close>

text \<open>
  C11. Mutual exclusion: in every reachable state of coroutines that use \<^verbatim>\<open>lock_ctx\<close> and
  the locksets of the background tasks, the lockset is exactly the union of the keys they hold, those
  that wait for more included, and two coroutines never hold the same key. A wait may be given up
  while the keys that are still missing are free.
\<close>

theorem lock_mutual_exclusion:
  assumes "reach (\<lambda>s. s = init_locks n) lock_step s"
  shows "lockset s = (\<Union>p \<in> set (procs s). owned p)
    \<and> (\<forall>i j. i < length (procs s) \<and> j < length (procs s) \<and> i \<noteq> j \<longrightarrow> owned (procs s ! i) \<inter> owned (procs s ! j) = {})
    \<and> (\<forall>keys left. Waiting keys left \<in> set (procs s) \<longrightarrow> (\<exists>got. keys = got @ left \<and> owned (Waiting keys left) = set got))
    \<and> (\<forall>keys. Inside keys \<in> set (procs s) \<longrightarrow> set keys \<subseteq> lockset s)"
proof -
  have inv: "lock_inv s" using assms by (rule locks.reach_inv)
  have "(\<Union>i < length (procs s). owned (procs s ! i)) = (\<Union>p \<in> set (procs s). owned p)"
    by (force simp: set_conv_nth)
  then have l: "lockset s = (\<Union>p \<in> set (procs s). owned p)" using inv by (simp add: lock_inv_def)
  have "\<exists>got. keys = got @ left \<and> owned (Waiting keys left) = set got" if "Waiting keys left \<in> set (procs s)" for keys left
  proof -
    from that obtain i where "i < length (procs s)" "procs s ! i = Waiting keys left" by (auto simp: in_set_conv_nth)
    with lock_inv_wf [OF inv] have "wf_proc (Waiting keys left)" by force
    then obtain got where "keys = got @ left" by (auto simp: wf_proc_Waiting)
    then show ?thesis by (intro exI [of _ got]) (simp add: owned_Waiting)
  qed
  moreover have "set keys \<subseteq> lockset s" if "Inside keys \<in> set (procs s)" for keys
    unfolding l using that by force
  ultimately show ?thesis using l inv unfolding lock_inv_def by blast
qed

text \<open>
  Three coroutines: the first waits for a key of the second, which waited for a key of the third.
\<close>

definition contended :: "nat lock_state" where
  "contended = \<lparr>lockset = {1, 2}, procs = [Waiting [1, 2] [2], Waiting [2, 3] [3], Outside]\<rparr>"

lemma contended_reach: "reach (\<lambda>s. s = init_locks 3) lock_step contended"
proof -
  let ?R = "reach (\<lambda>s. s = init_locks 3) lock_step :: nat lock_state \<Rightarrow> bool"
  have r0: "?R (init_locks 3)" by (simp add: reach_init)
  have r1: "?R \<lparr>lockset = {3}, procs = [Outside, Outside, Inside [3]]\<rparr>"
    using reach_step [OF r0 try_lock [of 2 _ 3]] by (simp add: init_locks_def numeral_eq_Suc)
  have r2: "?R \<lparr>lockset = {3}, procs = [Outside, Waiting [2, 3] [2, 3], Inside [3]]\<rparr>"
    using reach_step [OF r1 enter [of 1 _ "[2, 3]"]] by simp
  have "wait_to_lock_iter {3::nat} [2, 3] = ({2, 3}, [3])" by (simp add: wait_to_lock_iter_def)
  then have r3: "?R \<lparr>lockset = {2, 3}, procs = [Outside, Waiting [2, 3] [3], Inside [3]]\<rparr>"
    using reach_step [OF r2 attempt [of 1 _ "[2, 3]" "[2, 3]" "{2, 3}" "[3]"]] by simp
  have r4: "?R \<lparr>lockset = {2, 3}, procs = [Waiting [1, 2] [1, 2], Waiting [2, 3] [3], Inside [3]]\<rparr>"
    using reach_step [OF r3 enter [of 0 _ "[1, 2]"]] by simp
  have "wait_to_lock_iter {2::nat, 3} [1, 2] = ({1, 2, 3}, [2])" by (simp add: wait_to_lock_iter_def)
  then have r5: "?R \<lparr>lockset = {1, 2, 3}, procs = [Waiting [1, 2] [2], Waiting [2, 3] [3], Inside [3]]\<rparr>"
    using reach_step [OF r4 attempt [of 0 _ "[1, 2]" "[1, 2]" "{1, 2, 3}" "[2]"]] by simp
  have "{1, 2, 3} - {3} = {1, 2::nat}" by auto
  then show ?thesis
    using reach_step [OF r5 release [of 2 _ "[3]"]] by (simp add: contended_def numeral_2_eq_2)
qed

theorem lock_mutual_exclusion_witness:
  "lockset contended = owned (Waiting [1, 2] [2]) \<union> owned (Waiting [2, 3] [3]) \<and> owned (Waiting [1::nat, 2] [2]) \<inter> owned (Waiting [2, 3] [3]) = {}
   \<and> owned (Waiting [1::nat, 2] [2]) = {1} \<and> owned (Waiting [2::nat, 3] [3]) = {2}"
proof -
  note m = lock_mutual_exclusion [OF contended_reach]
  have "owned (procs contended ! 0) \<inter> owned (procs contended ! 1) = {}"
    using m by (auto simp: contended_def)
  moreover have "lockset contended = (\<Union>p \<in> set (procs contended). owned p)" using m by blast
  ultimately show ?thesis by (auto simp: contended_def owned.simps(2))
qed

text \<open>
  C12. Deadlock freedom: when every waiting coroutine passed its keys in ascending order, a
  reachable state with a coroutine in or before its critical section always has one that
  can go on (leave, enter, or lock its next key).
\<close>

theorem lock_deadlock_free:
  assumes "reach (\<lambda>s. s = init_locks n) lock_step s"
    and "\<forall>p \<in> set (procs s). ordered_proc p" and "\<exists>p \<in> set (procs s). p \<noteq> Outside"
  shows "\<exists>p \<in> set (procs s). can_proceed (lockset s) p"
  using locks.reach_inv [OF assms(1)] assms(2,3) by (rule ordered_no_deadlock)

text \<open>Two coroutines wait, one for a key of the other; the other can go on.\<close>

theorem lock_deadlock_free_witness:
  "\<not> can_proceed (lockset contended) (Waiting [1, 2] [2]) \<and> can_proceed (lockset contended) (Waiting [2, 3] [3])"
proof -
  have "\<forall>p \<in> set (procs contended). ordered_proc p" "\<exists>p \<in> set (procs contended). p \<noteq> Outside"
    by (simp_all add: contended_def)
  from lock_deadlock_free [OF contended_reach this] show ?thesis by (simp add: contended_def)
qed

text \<open>
  An exception while \<^verbatim>\<open>lock_ctx\<close> waits breaks mutual exclusion: its \<^verbatim>\<open>finally\<close>
  block unlocks keys that another coroutine holds, after which a third party locks them
  while the first holder is still inside.
\<close>

theorem lock_cancel_breaks_exclusion:
  "\<exists>s. reach (\<lambda>s. s = init_locks 2) lock_step_cancel s
     \<and> procs s ! 0 = Inside [7::nat] \<and> procs s ! 1 = Inside [7]"
proof -
  let ?R = "reach (\<lambda>s. s = init_locks 2) lock_step_cancel :: nat lock_state \<Rightarrow> bool"
  have r0: "?R (init_locks 2)" by (simp add: reach_init)
  have r1: "?R \<lparr>lockset = {7}, procs = [Inside [7], Outside]\<rparr>"
    using reach_step [OF r0 regular [OF try_lock [of 0 _ 7]]]
    by (simp add: init_locks_def numeral_2_eq_2)
  have r2: "?R \<lparr>lockset = {7}, procs = [Inside [7], Waiting [7] [7]]\<rparr>"
    using reach_step [OF r1 regular [OF enter [of 1 _ "[7]"]]] by simp
  have r3: "?R \<lparr>lockset = {}, procs = [Inside [7], Outside]\<rparr>"
    using reach_step [OF r2 cancel [of 1 _ "[7]" "[7]"]] by simp
  have r4: "?R \<lparr>lockset = {7}, procs = [Inside [7], Inside [7]]\<rparr>"
    using reach_step [OF r3 regular [OF try_lock [of 1 _ 7]]] by simp
  then show ?thesis by (intro exI conjI) (rule r4, simp_all)
qed

end
