(* ===== verification/Common_Utils.thy ===== *)
theory Common_Utils
  imports Py_Strings
begin

text \<open>
  \<^verbatim>\<open>utils/common.py\<close> (durations, chunking, URL paths, pretty resources), the \<^verbatim>\<open>Duration\<close>
  type of \<^verbatim>\<open>core/models/common.py\<close> and the duration validators of
  \<^verbatim>\<open>core/models/profiles.py\<close>.
\<close>

section \<open>Durations\<close>

fun unit_multiplier :: "char \<Rightarrow> int option" where
  "unit_multiplier c =
     (if c = CHR ''s'' then Some 1
      else if c = CHR ''m'' then Some 60
      else if c = CHR ''h'' then Some 3600
      else if c = CHR ''d'' then Some (24 * 3600)
      else if c = CHR ''w'' then Some (7 * 24 * 3600)
      else None)"

text \<open>
  The part of the pattern after the amount: one unit letter, then \<^verbatim>\<open>$\<close>, which in Python
  also matches before a final newline.
\<close>

fun match_unit :: "string \<Rightarrow> int option" where
  "match_unit [u] = unit_multiplier u"
| "match_unit [u, nl] = (if nl = CHR 0x0A then unit_multiplier u else None)"
| "match_unit _ = None"

definition parse_pretty_duration :: "string \<Rightarrow> int result" where
  "parse_pretty_duration duration =
     (let amount = takeWhile is_digit duration; rest = dropWhile is_digit duration in
      if amount = [] then Inl ValueError
      else (case match_unit rest of
              None \<Rightarrow> Inl ValueError
            | Some multiplier \<Rightarrow> Inr (int (nat_of_digits amount) * multiplier)))"

definition DURATION_UNITS_DESC :: "(char \<times> int) list" where
  "DURATION_UNITS_DESC =
     [(CHR ''w'', 7 * 24 * 3600), (CHR ''d'', 24 * 3600), (CHR ''h'', 3600), (CHR ''m'', 60),
      (CHR ''s'', 1)]"

fun format_in_units :: "(char \<times> int) list \<Rightarrow> int \<Rightarrow> string" where
  "format_in_units [] secs = show_int secs @ ''s''"
| "format_in_units ((u, multiplier) # us) secs =
     (if secs mod multiplier = 0 then show_int (secs div multiplier) @ [u]
      else format_in_units us secs)"

definition format_pretty_duration :: "int \<Rightarrow> string result" where
  "format_pretty_duration secs =
     (if secs = 0 then Inr ''0s''
      else if secs < 0 then Inl ValueError
      else Inr (format_in_units DURATION_UNITS_DESC secs))"

text \<open>The loop of \<^verbatim>\<open>format_duration_multiunit\<close>: the accumulated text and the seconds left.\<close>

fun multiunit_loop :: "(char \<times> int) list \<Rightarrow> string \<Rightarrow> int \<Rightarrow> string" where
  "multiunit_loop [] res secs = res"
| "multiunit_loop ((u, multiplier) # us) res secs =
     (let unit_value = secs div multiplier in
      if unit_value \<noteq> 0
      then multiunit_loop us (res @ '' '' @ show_int unit_value @ [u]) (secs - unit_value * multiplier)
      else multiunit_loop us res secs)"

definition format_duration_multiunit :: "int \<Rightarrow> string result" where
  "format_duration_multiunit secs =
     (if secs < 0 then Inl ValueError
      else (let res = lstrip (multiunit_loop DURATION_UNITS_DESC [] secs) in
            Inr (if res = [] then ''0s'' else res)))"

text \<open>\<^verbatim>\<open>Duration.parse\<close>; \<^verbatim>\<open>isinstance(v, (int, float))\<close> also holds of booleans.\<close>

definition py_trunc :: "rat \<Rightarrow> int" where
  "py_trunc r = (if r < 0 then - floor (- r) else floor r)"

definition Duration_parse :: "yaml \<Rightarrow> int result" where
  "Duration_parse v = (case v of
      YInt i \<Rightarrow> Inr i
    | YBool b \<Rightarrow> Inr (if b then 1 else 0)
    | YFloat r \<Rightarrow> Inr (py_trunc r)
    | YStr s \<Rightarrow>
        (case py_int s of
           Some i \<Rightarrow> Inr i
         | None \<Rightarrow>
             (let amount = takeWhile is_digit s;
                  rest = dropWhile (\<lambda>c. c = CHR '' '') (dropWhile is_digit s) in
              if amount = [] then Inl ValueError
              else (case match_unit rest of
                      None \<Rightarrow> Inl ValueError
                    | Some multiplier \<Rightarrow> Inr (int (nat_of_digits amount) * multiplier))))
    | _ \<Rightarrow> Inl ValueError)"

section \<open>Duration fields of profiles\<close>

datatype off_duration = Off | Unset | Secs int

definition parse_duration :: "yaml \<Rightarrow> int option result" where
  "parse_duration v = (if v = YNull then Inr None else bindE (Duration_parse v) (\<lambda>d. Inr (Some d)))"

definition parse_off_duration :: "yaml \<Rightarrow> off_duration result" where
  "parse_off_duration v =
     (if v = YStr ''off'' \<or> v = YBool False then Inr Off
      else if v = YBool True then Inr Unset
      else bindE (parse_duration v)
             (\<lambda>d. Inr (case d of None \<Rightarrow> Unset | Some n \<Rightarrow> Secs n)))"

definition parse_max_duration :: "yaml \<Rightarrow> off_duration result" where
  "parse_max_duration v = parse_off_duration v"

definition parse_stop_duration :: "yaml \<Rightarrow> off_duration result" where
  "parse_stop_duration v = parse_off_duration v"

definition parse_idle_duration :: "yaml \<Rightarrow> int option result" where
  "parse_idle_duration v =
     (if v = YBool False then Inr (Some (-1))
      else if v = YBool True then Inr None
      else parse_duration v)"

section \<open>Chunks\<close>

text \<open>The generator of \<^verbatim>\<open>split_chunks\<close>, with the chunk under construction.\<close>

fun chunk_loop :: "nat \<Rightarrow> 'a list \<Rightarrow> 'a list \<Rightarrow> 'a list list" where
  "chunk_loop n chunk [] = (if chunk = [] then [] else [chunk])"
| "chunk_loop n chunk (item # items) =
     (if length (chunk @ [item]) = n then (chunk @ [item]) # chunk_loop n [] items
      else chunk_loop n (chunk @ [item]) items)"

definition split_chunks :: "'a list \<Rightarrow> int \<Rightarrow> 'a list list result" where
  "split_chunks xs chunk_size =
     (if chunk_size < 1 then Inl ValueError else Inr (chunk_loop (nat chunk_size) [] xs))"

text \<open>
  \<^verbatim>\<open>batched\<close> calls \<^verbatim>\<open>list(islice(it, n))\<close> until it returns the empty list;
  \<^verbatim>\<open>islice\<close> refuses a negative count.
\<close>

function batch_loop :: "nat \<Rightarrow> 'a list \<Rightarrow> 'a list list" where
  "batch_loop n xs = (if take n xs = [] then [] else take n xs # batch_loop n (drop n xs))"
  by pat_completeness auto
termination
  by (relation "measure (\<lambda>(n, xs). length xs)") auto

declare batch_loop.simps [simp del]

definition batched :: "'a list \<Rightarrow> int \<Rightarrow> 'a list list result" where
  "batched xs n = (if n < 0 then Inl ValueError else Inr (batch_loop (nat n) xs))"

section \<open>Text\<close>

definition remove_prefix :: "string \<Rightarrow> string \<Rightarrow> string" where
  "remove_prefix txt prefix = (if startswith txt prefix then drop (length prefix) txt else txt)"

definition concat_url_path :: "string \<Rightarrow> string \<Rightarrow> string" where
  "concat_url_path a b = (if b = [] then a else removesuffix a ''/'' @ ''/'' @ removeprefix b ''/'')"

text \<open>
  \<^verbatim>\<open>pretty_resources\<close>; the arguments are already formatted texts, a falsy
  \<^verbatim>\<open>gpu_count\<close> or \<^verbatim>\<open>disk_size\<close> is \<open>None\<close>.
\<close>

definition pretty_resources ::
    "string option \<Rightarrow> string option \<Rightarrow> string option \<Rightarrow> string option \<Rightarrow> string option \<Rightarrow>
     string option \<Rightarrow> string option \<Rightarrow> string option \<Rightarrow> string" where
  "pretty_resources cpus mem gpu_count gpu_name gpu_memory total_gpu_memory
       compute_capability disk_size =
     (let opt = (\<lambda>v f. case v of None \<Rightarrow> [] | Some t \<Rightarrow> [f t]);
          gpu_parts = opt gpu_memory id @ opt total_gpu_memory (\<lambda>t. ''total '' @ t)
            @ opt compute_capability id;
          gpu = (\<lambda>n. n @ ''x'' @ (case gpu_name of None \<Rightarrow> ''GPU'' | Some [] \<Rightarrow> ''GPU'' | Some g \<Rightarrow> g)
            @ (if gpu_parts = [] then [] else '' ('' @ join '', '' gpu_parts @ '')''))
      in join '', '' (opt cpus (\<lambda>t. t @ ''xCPU'') @ opt mem id @ opt gpu_count gpu
           @ opt disk_size (\<lambda>t. t @ '' (disk)'')))"

section \<open>Lemmas on durations\<close>

lemma unit_not_digit: "unit_multiplier u = Some m \<Longrightarrow> \<not> is_digit u \<and> \<not> is_space u \<and> u \<noteq> CHR '' ''"
  by (auto simp: is_digit_def is_space_def split: if_splits)

lemma takeWhile_digits_snoc:
  assumes "list_all is_digit ds" and "\<not> is_digit u"
  shows "takeWhile is_digit (ds @ [u]) = ds" and "dropWhile is_digit (ds @ [u]) = [u]"
  using assms by (induction ds) auto

lemma parse_pretty_duration_digits:
  assumes "unit_multiplier u = Some m"
  shows "parse_pretty_duration (show_nat n @ [u]) = Inr (int n * m)"
  using assms takeWhile_digits_snoc [OF show_nat_digits, of u n] unit_not_digit [OF assms]
  by (simp add: parse_pretty_duration_def del: unit_multiplier.simps)

lemma Duration_parse_digits:
  assumes "unit_multiplier u = Some m"
  shows "Duration_parse (YStr (show_nat n @ [u])) = Inr (int n * m)"
proof -
  have u: "\<not> is_digit u" "\<not> is_space u" "u \<noteq> CHR '' ''" using unit_not_digit [OF assms] by auto
  then have "py_int (show_nat n @ [u]) = None" by (intro py_int_letter) auto
  then show ?thesis
    using assms takeWhile_digits_snoc [OF show_nat_digits u(1), of n] u
    by (simp add: Duration_parse_def del: unit_multiplier.simps)
qed

text \<open>The units of the table agree with those of the parsers.\<close>

lemma units_desc: "(u, m) \<in> set DURATION_UNITS_DESC \<Longrightarrow> unit_multiplier u = Some m \<and> 0 < m"
  by (auto simp: DURATION_UNITS_DESC_def)

declare unit_multiplier.simps [simp del]

text \<open>Every formatted duration is an amount, in a unit that divides it exactly.\<close>

lemma format_in_units_spec:
  assumes "0 \<le> secs" and "\<forall>(u, m) \<in> set us. unit_multiplier u = Some m \<and> 0 < m"
  shows "\<exists>n u m. format_in_units us secs = show_nat n @ [u] \<and> unit_multiplier u = Some m
     \<and> secs = int n * m"
  using assms
proof (induction us secs rule: format_in_units.induct)
  case (1 secs)
  then show ?case
    by (intro exI [of _ "nat secs"] exI [of _ "CHR ''s''"] exI [of _ 1])
      (simp add: show_int_def unit_multiplier.simps)
next
  case (2 u m us secs)
  show ?case
  proof (cases "secs mod m = 0")
    case True
    with 2(2,3) show ?thesis
      by (intro exI [of _ "nat (secs div m)"] exI [of _ u] exI [of _ m])
        (auto simp: show_int_def pos_imp_zdiv_neg_iff pos_imp_zdiv_nonneg_iff
          minus_mod_eq_mult_div [symmetric] mult.commute)
  next
    case False
    with 2 show ?thesis by auto
  qed
qed

text \<open>The parts of the multi-unit format: the non-zero amounts, with their unit.\<close>

fun unit_parts :: "(char \<times> int) list \<Rightarrow> int \<Rightarrow> (nat \<times> char \<times> int) list" where
  "unit_parts [] secs = []"
| "unit_parts ((u, m) # us) secs =
     (if secs div m \<noteq> 0 then (nat (secs div m), u, m) # unit_parts us (secs - secs div m * m)
      else unit_parts us secs)"

definition show_part :: "nat \<times> char \<times> int \<Rightarrow> string" where
  "show_part p = (case p of (n, u, _) \<Rightarrow> show_nat n @ [u])"

lemma multiunit_loop_parts:
  assumes "0 \<le> secs" and "\<forall>(u, m) \<in> set us. 0 < m"
  shows "multiunit_loop us res secs
    = res @ concat (map (\<lambda>p. CHR '' '' # show_part p) (unit_parts us secs))"
  using assms
proof (induction us secs arbitrary: res rule: unit_parts.induct)
  case (2 u m us secs)
  then have "0 \<le> secs div m" and "0 \<le> secs - secs div m * m"
    by (auto simp: pos_imp_zdiv_nonneg_iff minus_div_mult_eq_mod)
  with 2 show ?case by (auto simp: show_part_def show_int_def Let_def)
qed simp

lemma unit_parts_sum:
  assumes "0 \<le> secs" and "\<forall>(u, m) \<in> set us. 0 < m" and "us \<noteq> []" and "snd (last us) = 1"
  shows "(\<Sum>(n, u, m) \<leftarrow> unit_parts us secs. int n * m) = secs"
  using assms
proof (induction us secs rule: unit_parts.induct)
  case (2 u m us secs)
  have m: "0 < m" using 2 by simp
  then have nn: "0 \<le> secs div m" "0 \<le> secs - secs div m * m"
    using 2 by (auto simp: pos_imp_zdiv_nonneg_iff minus_div_mult_eq_mod)
  show ?case
  proof (cases "us = []")
    case True
    with 2 nn show ?thesis by simp
  next
    case False
    with 2 nn m show ?thesis by (auto simp: mult.commute)
  qed
qed simp

lemma unit_parts_units: "(n, u, m) \<in> set (unit_parts us secs) \<Longrightarrow> (u, m) \<in> set us"
  by (induction us secs rule: unit_parts.induct) (auto split: if_splits)

lemma lstrip_digit: "is_digit c \<Longrightarrow> lstrip (CHR '' '' # c # s) = c # s"
  by (simp add: lstrip_def is_space_def is_digit_def)

lemma hd_show_nat_digit: "\<exists>c s. show_nat n = c # s \<and> is_digit c"
  using show_nat_digits [of n] by (cases "show_nat n") (simp_all add: list_all_iff)

lemma format_multiunit_join:
  assumes "0 < secs"
  shows "format_duration_multiunit secs
    = Inr (join '' '' (map show_part (unit_parts DURATION_UNITS_DESC secs)))"
proof -
  let ?ps = "unit_parts DURATION_UNITS_DESC secs"
  have pos: "\<forall>(u, m) \<in> set DURATION_UNITS_DESC. 0 < m" using units_desc by blast
  have "(\<Sum>(n, u, m) \<leftarrow> ?ps. int n * m) = secs"
    by (rule unit_parts_sum) (use assms pos in \<open>auto simp: DURATION_UNITS_DESC_def\<close>)
  with assms have "?ps \<noteq> []" by auto
  then obtain p ps where ps: "?ps = p # ps" by (cases ?ps) auto
  obtain n u m where p: "p = (n, u, m)" by (cases p) auto
  obtain c cs where c: "show_nat n = c # cs" "is_digit c" using hd_show_nat_digit by blast
  have "multiunit_loop DURATION_UNITS_DESC [] secs
      = CHR '' '' # show_part p @ concat (map (\<lambda>p. CHR '' '' # show_part p) ps)"
    using multiunit_loop_parts [of secs DURATION_UNITS_DESC "[]"] assms pos ps by simp
  then have "lstrip (multiunit_loop DURATION_UNITS_DESC [] secs)
      = show_part p @ concat (map (\<lambda>p. CHR '' '' # show_part p) ps)"
    using c by (simp add: p show_part_def lstrip_digit)
  with assms ps c p show ?thesis
    by (simp add: format_duration_multiunit_def join_def show_part_def comp_def)
qed

lemma show_part_no_space:
  assumes "unit_multiplier (fst (snd p)) = Some m"
  shows "CHR '' '' \<notin> set (show_part p)"
proof -
  obtain n u k where p: "p = (n, u, k)" by (cases p) auto
  have "\<not> is_digit (CHR '' '')" by (simp add: is_digit_def)
  then have "CHR '' '' \<notin> set (show_nat n)" using show_nat_digits [of n] by (auto simp: list_all_iff)
  with unit_not_digit [of u m] assms p show ?thesis by (auto simp: show_part_def)
qed

section \<open>Lemmas on chunks\<close>

lemma concat_chunk_loop: "concat (chunk_loop n chunk xs) = chunk @ xs"
  by (induction n chunk xs rule: chunk_loop.induct) auto

lemma chunk_loop_eq_batch_loop:
  assumes "length chunk < n"
  shows "chunk_loop n chunk xs = batch_loop n (chunk @ xs)"
  using assms
proof (induction n chunk xs rule: chunk_loop.induct)
  case (1 n chunk)
  then show ?case
    by (cases chunk) (auto simp: batch_loop.simps [of n chunk] batch_loop.simps [of n "[]"]
        batch_loop.simps [of n "_ # _"])
next
  case (2 n chunk item items)
  show ?case
  proof (cases "length (chunk @ [item]) = n")
    case True
    then have "take n (chunk @ item # items) = chunk @ [item]"
      and "drop n (chunk @ item # items) = items" by auto
    with True 2 show ?thesis by (simp add: batch_loop.simps [of n "chunk @ item # items"])
  next
    case False
    with 2 show ?thesis by simp
  qed
qed

lemma batch_loop_lengths:
  "c \<in> set (batch_loop n xs) \<Longrightarrow> c \<noteq> [] \<and> length c \<le> n"
  by (induction n xs rule: batch_loop.induct) (subst (asm) (2) batch_loop.simps, auto split: if_splits)

lemma batch_loop_full:
  "Suc i < length (batch_loop n xs) \<Longrightarrow> length (batch_loop n xs ! i) = n"
proof (induction n xs arbitrary: i rule: batch_loop.induct)
  case (1 n xs)
  let ?r = "batch_loop n (drop n xs)"
  from 1(2) have ne: "take n xs \<noteq> []" by (subst (asm) batch_loop.simps) (auto split: if_splits)
  then have unf: "batch_loop n xs = take n xs # ?r" by (subst batch_loop.simps) simp
  show ?case
  proof (cases i)
    case 0
    with 1(2) unf have "?r \<noteq> []" by auto
    then have "drop n xs \<noteq> []" by (auto simp: batch_loop.simps [of n "[]"])
    with 0 unf show ?thesis by simp
  next
    case (Suc j)
    with 1 unf ne show ?thesis by simp
  qed
qed

section \<open>Properties\<close>

text \<open>
  Formatting a duration and parsing it back gives the duration, by
  \<^verbatim>\<open>parse_pretty_duration\<close> and by \<^verbatim>\<open>Duration.parse\<close>; only negative numbers are
  refused.
\<close>

theorem format_pretty_duration_roundtrip:
  "if secs < 0 then format_pretty_duration secs = Inl ValueError
   else \<exists>d. format_pretty_duration secs = Inr d
          \<and> parse_pretty_duration d = Inr secs \<and> Duration_parse (YStr d) = Inr secs"
proof (cases "secs = 0")
  case True
  have z: "''0s'' = show_nat 0 @ [CHR ''s'']"
    by code_simp
  have u: "unit_multiplier (CHR ''s'') = Some 1" by (simp add: unit_multiplier.simps)
  show ?thesis using True parse_pretty_duration_digits [OF u, of 0] Duration_parse_digits [OF u, of 0]
    by (simp add: format_pretty_duration_def z)
next
  case False
  show ?thesis
  proof (cases "secs < 0")
    case True
    then show ?thesis by (simp add: format_pretty_duration_def)
  next
    case pos: False
    have units: "\<forall>(u, m) \<in> set DURATION_UNITS_DESC. unit_multiplier u = Some m \<and> 0 < m"
      using units_desc by blast
    obtain n u m where "format_in_units DURATION_UNITS_DESC secs = show_nat n @ [u]"
      and "unit_multiplier u = Some m" and "secs = int n * m"
      using format_in_units_spec [OF _ units, of secs] pos by (auto simp: not_less)
    with pos False show ?thesis
      by (simp add: format_pretty_duration_def parse_pretty_duration_digits Duration_parse_digits)
  qed
qed

text \<open>
  The multi-unit format of a positive duration (\<^verbatim>\<open>1h 15m 45s\<close>) is a sequence of
  parts separated by one space, each of which parses as a duration; the parsed parts add up
  to the formatted value.
\<close>

theorem format_duration_multiunit_sum:
  assumes "0 < secs"
  shows "\<exists>d vs. format_duration_multiunit secs = Inr d
     \<and> map parse_pretty_duration (split_on CHR '' '' d) = map Inr vs \<and> sum_list vs = secs"
proof -
  let ?ps = "unit_parts DURATION_UNITS_DESC secs"
  let ?v = "\<lambda>(n, u, m). int n * m :: int"
  have pos: "\<forall>(u, m) \<in> set DURATION_UNITS_DESC. 0 < m" using units_desc by blast
  have sum: "(\<Sum>p \<leftarrow> ?ps. ?v p) = secs"
    by (rule unit_parts_sum) (use assms pos in \<open>auto simp: DURATION_UNITS_DESC_def\<close>)
  then have ne: "?ps \<noteq> []" using assms by auto
  have unit: "unit_multiplier u = Some m" if "(n, u, m) \<in> set ?ps" for n u m
    using unit_parts_units [OF that] units_desc by blast
  then have "\<forall>s \<in> set (map show_part ?ps). CHR '' '' \<notin> set s"
    using show_part_no_space by fastforce
  then have split: "split_on CHR '' '' (join '' '' (map show_part ?ps)) = map show_part ?ps"
    using ne by (intro split_on_join) auto
  have "map parse_pretty_duration (map show_part ?ps) = map Inr (map ?v ?ps)"
    using unit parse_pretty_duration_digits by (fastforce simp: show_part_def)
  with sum split format_multiunit_join [OF assms] show ?thesis by (metis (no_types, lifting))
qed

theorem format_duration_multiunit_sum_witness:
  "\<exists>d vs. format_duration_multiunit 4545 = Inr d
     \<and> map parse_pretty_duration (split_on CHR '' '' d) = map Inr vs \<and> sum_list vs = 4545"
  by (rule format_duration_multiunit_sum) simp

text \<open>
  Chunking: for a positive chunk size \<^verbatim>\<open>split_chunks\<close> and \<^verbatim>\<open>batched\<close> return the
  same chunks, which concatenate to the input; every chunk is non-empty, none is longer than
  the size and all but the last have exactly the size. A size below one is refused.
\<close>

theorem split_chunks_correct:
  "if n < 1 then split_chunks xs n = Inl ValueError
   else \<exists>cs. split_chunks xs n = Inr cs \<and> batched xs n = Inr cs \<and> concat cs = xs
     \<and> (\<forall>c \<in> set cs. c \<noteq> [] \<and> length c \<le> nat n)
     \<and> (\<forall>i. Suc i < length cs \<longrightarrow> length (cs ! i) = nat n)"
proof (cases "n < 1")
  case True
  then show ?thesis by (simp add: split_chunks_def)
next
  case False
  then have eq: "chunk_loop (nat n) [] xs = batch_loop (nat n) xs"
    by (simp add: chunk_loop_eq_batch_loop)
  then have "concat (batch_loop (nat n) xs) = xs"
    using concat_chunk_loop [of "nat n" "[]" xs] by simp
  with False eq show ?thesis
    by (auto simp: split_chunks_def batched_def dest: batch_loop_lengths batch_loop_full)
qed

theorem split_chunks_correct_witness:
  "\<exists>cs. split_chunks [1, 2, 3, 4, 5::nat] 2 = Inr cs \<and> batched [1, 2, 3, 4, 5::nat] 2 = Inr cs
     \<and> concat cs = [1, 2, 3, 4, 5]"
  using split_chunks_correct [of 2 "[1, 2, 3, 4, 5::nat]"] by auto

text \<open>
  \<^verbatim>\<open>idle_duration\<close> documents \<^verbatim>\<open>off\<close> for an unlimited duration, as
  \<^verbatim>\<open>max_duration\<close> and \<^verbatim>\<open>stop_duration\<close> do; the text \<^verbatim>\<open>"off"\<close> is accepted by
  their validators and refused by the one of \<^verbatim>\<open>idle_duration\<close>, which takes only the
  boolean.
\<close>

theorem idle_duration_off_refused:
  "parse_off_duration (YStr ''off'') = Inr Off \<and> parse_off_duration (YBool False) = Inr Off
   \<and> parse_idle_duration (YBool False) = Inr (Some (-1))
   \<and> parse_idle_duration (YStr ''off'') = Inl ValueError"
  by (simp add: parse_off_duration_def parse_idle_duration_def parse_duration_def
      Duration_parse_def py_int_def py_nat_def strip_def is_space_def is_digit_def)

end
