(* ===== verification/Resources.thy ===== *)
theory Resources
  imports Common_Utils
begin

text \<open>
  \<^verbatim>\<open>core/models/resources.py\<close>: ranges with optional bounds, the textual GPU specification,
  and the resource requirements record. The coercion of a bound to its type is done by
  pydantic, outside the repository, and is the parameter \<open>coerce\<close>; \<open>cast\<close> stands for
  \<^verbatim>\<open>gpuhunt.AcceleratorVendor.cast\<close>.
\<close>

section \<open>Range\<close>

record 'a range =
  rmin :: "'a option"
  rmax :: "'a option"

text \<open>\<^verbatim>\<open>Range._post_validate\<close>\<close>

definition range_post_validate :: "'a::linorder range \<Rightarrow> 'a range result" where
  "range_post_validate r = (case (rmin r, rmax r) of
      (None, None) \<Rightarrow> Inl ValueError
    | (Some a, Some b) \<Rightarrow> if a > b then Inl ValueError else Inr r
    | _ \<Rightarrow> Inr r)"

text \<open>\<^verbatim>\<open>Range._parse\<close>: the dictionary of raw bounds, or the value as it is.\<close>

definition or_null :: "string \<Rightarrow> yaml" where
  "or_null s = (if s = [] then YNull else YStr s)"

definition range_parse :: "yaml \<Rightarrow> yaml result" where
  "range_parse v = (case v of
      YStr s \<Rightarrow>
        (if contains_dots s then
           (case split_dots (remove_spaces s) of
              [lo, hi] \<Rightarrow> Inr (YMap [(''min'', or_null lo), (''max'', or_null hi)])
            | _ \<Rightarrow> Inl ValueError)
         else Inr (YMap [(''min'', v), (''max'', v)]))
    | YInt _ \<Rightarrow> Inr (YMap [(''min'', v), (''max'', v)])
    | YBool _ \<Rightarrow> Inr (YMap [(''min'', v), (''max'', v)])
    | YFloat _ \<Rightarrow> Inr (YMap [(''min'', v), (''max'', v)])
    | _ \<Rightarrow> Inr v)"

definition range_bound :: "(yaml \<Rightarrow> 'a result) \<Rightarrow> (string \<times> yaml) list \<Rightarrow> string \<Rightarrow> 'a option result" where
  "range_bound coerce kvs key = (case map_of kvs key of
      None \<Rightarrow> Inr None
    | Some YNull \<Rightarrow> Inr None
    | Some v \<Rightarrow> bindE (coerce v) (\<lambda>x. Inr (Some x)))"

text \<open>
  The two validators in sequence: \<^verbatim>\<open>_parse\<close>, then the model's own validation of the
  dictionary (extra keys are forbidden), which ends with \<^verbatim>\<open>_post_validate\<close>.
\<close>

definition Range_validate :: "(yaml \<Rightarrow> 'a::linorder result) \<Rightarrow> yaml \<Rightarrow> 'a range result" where
  "Range_validate coerce v = bindE (range_parse v) (\<lambda>d. case d of
      YMap kvs \<Rightarrow>
        (if fst ` set kvs \<subseteq> {''min'', ''max''} then
           bindE (range_bound coerce kvs ''min'') (\<lambda>lo.
           bindE (range_bound coerce kvs ''max'') (\<lambda>hi.
           range_post_validate \<lparr>rmin = lo, rmax = hi\<rparr>))
         else Inl ValueError)
    | _ \<Rightarrow> Inl ValueError)"

text \<open>\<^verbatim>\<open>Range.__str__\<close>, given the text of a bound.\<close>

definition range_str :: "('a \<Rightarrow> string) \<Rightarrow> 'a range \<Rightarrow> string" where
  "range_str show r =
     (let lo = (case rmin r of None \<Rightarrow> [] | Some a \<Rightarrow> show a);
          hi = (case rmax r of None \<Rightarrow> [] | Some b \<Rightarrow> show b)
      in if rmin r = rmax r then lo else lo @ ''..'' @ hi)"

text \<open>
  \<^verbatim>\<open>Range.intersect\<close>: a missing lower bound is minus infinity, a missing upper bound plus
  infinity; the result goes through the constructor and its validation.
\<close>

definition max_lo :: "'a::linorder option \<Rightarrow> 'a option \<Rightarrow> 'a option" where
  "max_lo a b = (case (a, b) of (None, y) \<Rightarrow> y | (x, None) \<Rightarrow> x | (Some x, Some y) \<Rightarrow> Some (max x y))"

definition min_hi :: "'a::linorder option \<Rightarrow> 'a option \<Rightarrow> 'a option" where
  "min_hi a b = (case (a, b) of (None, y) \<Rightarrow> y | (x, None) \<Rightarrow> x | (Some x, Some y) \<Rightarrow> Some (min x y))"

definition range_intersect :: "'a::linorder range \<Rightarrow> 'a range \<Rightarrow> 'a range option result" where
  "range_intersect r s =
     (let lo = max_lo (rmin r) (rmin s); hi = min_hi (rmax r) (rmax s) in
      if (case (lo, hi) of (Some a, Some b) \<Rightarrow> a > b | _ \<Rightarrow> False) then Inr None
      else bindE (range_post_validate \<lparr>rmin = lo, rmax = hi\<rparr>) (\<lambda>x. Inr (Some x)))"

section \<open>GPU specification\<close>

datatype AcceleratorVendor = NVIDIA | AMD | GOOGLE | INTEL

definition vendor_from_string ::
    "(string \<Rightarrow> AcceleratorVendor option) \<Rightarrow> string \<Rightarrow> AcceleratorVendor option" where
  "vendor_from_string cast v = (if lower v = ''tpu'' then Some GOOGLE else cast (lower v))"

text \<open>The dictionary \<^verbatim>\<open>spec\<close> built by \<^verbatim>\<open>GPUSpec.parse\<close>.\<close>

record gpu_raw =
  gr_vendor :: "AcceleratorVendor option"
  gr_name :: "string list option"
  gr_memory :: "string option"
  gr_count :: "string option"

definition empty_gpu_raw :: gpu_raw where
  "empty_gpu_raw = \<lparr>gr_vendor = None, gr_name = None, gr_memory = None, gr_count = None\<rparr>"

text \<open>The body of the loop over the tokens.\<close>

definition gpu_token ::
    "(string \<Rightarrow> AcceleratorVendor option) \<Rightarrow> string \<Rightarrow> gpu_raw \<Rightarrow> gpu_raw result" where
  "gpu_token cast token spec = (case token of
      [] \<Rightarrow> Inl ValueError
    | c # _ \<Rightarrow>
        (case vendor_from_string cast token of
           Some vendor \<Rightarrow>
             if gr_vendor spec \<noteq> None then Inl ValueError
             else Inr (spec\<lparr>gr_vendor := Some vendor\<rparr>)
         | None \<Rightarrow>
             if is_alpha c then
               if gr_name spec \<noteq> None then Inl ValueError
               else if [] \<in> set (split_on CHR '','' token) then Inl ValueError
               else Inr (spec\<lparr>gr_name := Some (split_on CHR '','' token)\<rparr>)
             else if list_ex is_alpha token then
               if gr_memory spec \<noteq> None then Inl ValueError
               else Inr (spec\<lparr>gr_memory := Some token\<rparr>)
             else
               if gr_count spec \<noteq> None then Inl ValueError
               else Inr (spec\<lparr>gr_count := Some token\<rparr>)))"

definition gpu_tokens :: "string \<Rightarrow> string list" where
  "gpu_tokens v = split_on CHR '':'' (remove_spaces v)"

definition GPUSpec_parse ::
    "(string \<Rightarrow> AcceleratorVendor option) \<Rightarrow> string \<Rightarrow> gpu_raw result" where
  "GPUSpec_parse cast v =
     fold (\<lambda>token r. bindE r (gpu_token cast token)) (gpu_tokens v) (Inr empty_gpu_raw)"

text \<open>\<^verbatim>\<open>GPUSpec._validate_name\<close>: the deprecated prefix is cut off.\<close>

definition gpu_validate_name :: "string list option \<Rightarrow> string list option" where
  "gpu_validate_name v = map_option (map (\<lambda>n. if startswith n ''tpu-'' then drop 4 n else n)) v"

record GPUSpec =
  gpu_vendor :: "AcceleratorVendor option"
  gpu_name :: "string list option"
  gpu_count :: "int range"
  gpu_memory :: "rat range option"
  gpu_total_memory :: "rat range option"
  gpu_compute_capability :: "(int \<times> int) option"

record ResourcesSpec =
  rs_cpu :: "int range"
  rs_memory :: "rat range"
  rs_shm_size :: "rat option"
  rs_gpu :: "GPUSpec option"
  rs_disk :: "rat range option"

definition DEFAULT_CPU_COUNT :: "int range" where
  "DEFAULT_CPU_COUNT = \<lparr>rmin = Some 2, rmax = None\<rparr>"

definition DEFAULT_MEMORY_SIZE :: "rat range" where
  "DEFAULT_MEMORY_SIZE = \<lparr>rmin = Some 8, rmax = None\<rparr>"

definition DEFAULT_GPU_COUNT :: "int range" where
  "DEFAULT_GPU_COUNT = \<lparr>rmin = Some 1, rmax = Some 1\<rparr>"

definition DEFAULT_DISK :: "rat range" where
  "DEFAULT_DISK = \<lparr>rmin = Some 100, rmax = None\<rparr>"

definition default_resources :: ResourcesSpec where
  "default_resources = \<lparr>rs_cpu = DEFAULT_CPU_COUNT, rs_memory = DEFAULT_MEMORY_SIZE,
     rs_shm_size = None, rs_gpu = None, rs_disk = Some DEFAULT_DISK\<rparr>"

text \<open>\<^verbatim>\<open>ComputeCapability.validate\<close> on text: \<^verbatim>\<open>v.strip().split(".")\<close>.\<close>

definition compute_capability_parse :: "string \<Rightarrow> (int \<times> int) result" where
  "compute_capability_parse v = (case split_on CHR ''.'' (strip v) of
      [a, b] \<Rightarrow> (case (py_int a, py_int b) of (Some x, Some y) \<Rightarrow> Inr (x, y) | _ \<Rightarrow> Inl ValueError)
    | _ \<Rightarrow> Inl ValueError)"

definition compute_capability_str :: "int \<times> int \<Rightarrow> string" where
  "compute_capability_str cc = show_int (fst cc) @ ''.'' @ show_int (snd cc)"

section \<open>Lemmas\<close>

definition in_range :: "'a::linorder \<Rightarrow> 'a range \<Rightarrow> bool" where
  "in_range x r \<longleftrightarrow> (case rmin r of None \<Rightarrow> True | Some a \<Rightarrow> a \<le> x)
     \<and> (case rmax r of None \<Rightarrow> True | Some b \<Rightarrow> x \<le> b)"

definition valid_range :: "'a::linorder range \<Rightarrow> bool" where
  "valid_range r \<longleftrightarrow> range_post_validate r = Inr r"

lemma valid_range_cases:
  assumes "valid_range r"
  obtains (lo) a where "r = \<lparr>rmin = Some a, rmax = None\<rparr>"
    | (hi) b where "r = \<lparr>rmin = None, rmax = Some b\<rparr>"
    | (both) a b where "r = \<lparr>rmin = Some a, rmax = Some b\<rparr>" and "a \<le> b"
  using assms unfolding valid_range_def range_post_validate_def
  by (cases r; cases "rmin r"; cases "rmax r") (auto split: if_splits)

lemma range_post_validate_valid: "range_post_validate r = Inr s \<Longrightarrow> s = r \<and> valid_range r"
  by (auto simp: valid_range_def range_post_validate_def split: option.splits if_splits)

text \<open>A token decides which field it sets, and to what; setting a field twice is an error.\<close>

datatype gpu_field = Bad | Vendor AcceleratorVendor | Names "string list" | Mem string | Num string

definition classify_token :: "(string \<Rightarrow> AcceleratorVendor option) \<Rightarrow> string \<Rightarrow> gpu_field" where
  "classify_token cast token = (case token of [] \<Rightarrow> Bad | c # _ \<Rightarrow>
     (case vendor_from_string cast token of Some v \<Rightarrow> Vendor v
      | None \<Rightarrow> if is_alpha c then
          if [] \<in> set (split_on CHR '','' token) then Bad else Names (split_on CHR '','' token)
        else if list_ex is_alpha token then Mem token else Num token))"

fun set_field :: "gpu_field \<Rightarrow> gpu_raw \<Rightarrow> gpu_raw result" where
  "set_field Bad spec = Inl ValueError"
| "set_field (Vendor v) spec =
     (if gr_vendor spec \<noteq> None then Inl ValueError else Inr (spec\<lparr>gr_vendor := Some v\<rparr>))"
| "set_field (Names ns) spec =
     (if gr_name spec \<noteq> None then Inl ValueError else Inr (spec\<lparr>gr_name := Some ns\<rparr>))"
| "set_field (Mem m) spec =
     (if gr_memory spec \<noteq> None then Inl ValueError else Inr (spec\<lparr>gr_memory := Some m\<rparr>))"
| "set_field (Num n) spec =
     (if gr_count spec \<noteq> None then Inl ValueError else Inr (spec\<lparr>gr_count := Some n\<rparr>))"

lemma gpu_token_set_field: "gpu_token cast token spec = set_field (classify_token cast token) spec"
  by (simp add: gpu_token_def classify_token_def split: list.split option.split)

lemma set_field_comm: "bindE (set_field f spec) (set_field g) = bindE (set_field g spec) (set_field f)"
  by (cases f; cases g) simp_all

lemma gpu_token_comm:
  "bindE (bindE r (gpu_token cast s)) (gpu_token cast t)
   = bindE (bindE r (gpu_token cast t)) (gpu_token cast s)"
proof (cases r)
  case (Inr spec)
  have "gpu_token cast u = set_field (classify_token cast u)" for u
    by (rule ext) (rule gpu_token_set_field)
  with Inr show ?thesis by (simp add: set_field_comm)
qed simp

text \<open>The text of a bound, as the round trip needs it.\<close>

lemma split_dots_app:
  assumes "CHR ''.'' \<notin> set s"
  shows "split_dots (s @ ''..'' @ t) = s # split_dots t"
  using assms
proof (induction s rule: split_dots.induct)
  case 1
  then show ?case by simp
next
  case (2 x y zs)
  then show ?case by (auto split: if_splits)
next
  case (3 x)
  then show ?case by simp
qed

lemma split_dots_none: "CHR ''.'' \<notin> set s \<Longrightarrow> split_dots s = [s]"
  by (induction s rule: split_dots.induct) auto

lemma contains_dots_none: "CHR ''.'' \<notin> set s \<Longrightarrow> \<not> contains_dots s"
  by (induction s rule: contains_dots.induct) auto

lemma contains_dots_mid: "contains_dots (s @ ''..'' @ t)"
proof (induction s)
  case (Cons c s)
  then show ?case by (cases s) auto
qed simp

lemma remove_spaces_id: "CHR '' '' \<notin> set s \<Longrightarrow> remove_spaces s = s"
  by (induction s) (auto simp: remove_spaces_def)

lemma remove_spaces_append [simp]: "remove_spaces (s @ t) = remove_spaces s @ remove_spaces t"
  by (simp add: remove_spaces_def)

lemma show_int_chars: "CHR ''.'' \<notin> set (show_int i)" "CHR '' '' \<notin> set (show_int i)" "show_int i \<noteq> []"
proof -
  have "\<forall>c \<in> set (show_nat n). is_digit c" for n
    using show_nat_digits [of n] by (simp add: list_all_iff)
  moreover have "\<not> is_digit CHR ''.''" "\<not> is_digit CHR '' ''" by (simp_all add: is_digit_def)
  ultimately show "CHR ''.'' \<notin> set (show_int i)" "CHR '' '' \<notin> set (show_int i)" "show_int i \<noteq> []"
    by (auto simp: show_int_def)
qed

lemma range_parse_pair:
  assumes "CHR ''.'' \<notin> set lo" "CHR '' '' \<notin> set lo" "CHR ''.'' \<notin> set hi" "CHR '' '' \<notin> set hi"
  shows "range_parse (YStr (lo @ ''..'' @ hi)) = Inr (YMap [(''min'', or_null lo), (''max'', or_null hi)])"
proof -
  have "remove_spaces (lo @ ''..'' @ hi) = lo @ ''..'' @ hi"
    using assms by (intro remove_spaces_id) auto
  moreover have "split_dots (lo @ ''..'' @ hi) = [lo, hi]"
    using split_dots_app [OF assms(1)] split_dots_none [OF assms(3)] by simp
  ultimately show ?thesis
    by (simp only: range_parse_def yaml.case contains_dots_mid if_True list.case)
qed

lemma py_int_show_int: "py_int (show_int i) = Some i"
proof (cases "i < 0")
  case True
  let ?d = "show_nat (nat (- i))"
  have "last ?d \<in> set ?d" by simp
  then have "is_digit (last ?d)" using show_nat_digits [of "nat (- i)"] by (simp add: list_all_iff)
  then have "strip (CHR ''-'' # ?d) = CHR ''-'' # ?d"
    by (intro strip_id) (auto simp: is_space_def is_digit_def)
  moreover have "py_nat ?d = Some (- i)"
    using True by (simp add: py_nat_def digits_ok_digits list_all_filter)
  ultimately show ?thesis using True by (simp add: py_int_def show_int_def)
next
  case False
  then show ?thesis by (simp add: show_int_def)
qed

section \<open>Properties\<close>

text \<open>
  Intersection of two valid ranges never raises; a value is in both ranges exactly when
  the intersection exists and contains it, and the intersection is again a valid range.
\<close>

theorem range_intersect_correct:
  assumes "valid_range r" and "valid_range s"
  shows "\<exists>o'. range_intersect r s = Inr o'
     \<and> (\<forall>x. in_range x r \<and> in_range x s \<longleftrightarrow> (case o' of None \<Rightarrow> False | Some t \<Rightarrow> in_range x t))
     \<and> (case o' of None \<Rightarrow> True | Some t \<Rightarrow> valid_range t)"
proof -
  note defs = range_intersect_def in_range_def valid_range_def range_post_validate_def max_lo_def
    min_hi_def
  show ?thesis
    by (rule valid_range_cases [OF assms(1)]; rule valid_range_cases [OF assms(2)])
      (auto simp: defs Let_def less_max_iff_disj min_less_iff_disj)
qed

theorem range_intersect_correct_witness:
  "\<exists>o'. range_intersect \<lparr>rmin = Some (1::int), rmax = Some 8\<rparr> \<lparr>rmin = Some 4, rmax = None\<rparr> = Inr o'
     \<and> (\<forall>x. in_range x \<lparr>rmin = Some 1, rmax = Some 8\<rparr> \<and> in_range x \<lparr>rmin = Some 4, rmax = None\<rparr>
          \<longleftrightarrow> (case o' of None \<Rightarrow> False | Some t \<Rightarrow> in_range x t))"
  using range_intersect_correct [of "\<lparr>rmin = Some (1::int), rmax = Some 8\<rparr>" "\<lparr>rmin = Some 4, rmax = None\<rparr>"]
  by (auto simp: valid_range_def range_post_validate_def)

text \<open>
  C40. Printing an integer range (the numbers of CPUs and GPUs, of replicas) and validating the text gives the
  range back, for every valid range, when the coercion of a bound reads a decimal text as \<^verbatim>\<open>int()\<close>
  does. Ranges of memory sizes are not meant: their text is rounded to six digits.
\<close>

theorem range_str_roundtrip:
  assumes "valid_range r"
    and "\<forall>s i. py_int s = Some i \<longrightarrow> coerce (YStr s) = Inr i"
  shows "Range_validate coerce (YStr (range_str show_int r)) = Inr r"
proof -
  have c: "coerce (YStr (show_int i)) = Inr i" for i using assms(2) py_int_show_int by blast
  note simps = Range_validate_def range_str_def range_bound_def or_null_def
    range_post_validate_def show_int_chars c
  from assms(1) show ?thesis
  proof (cases rule: valid_range_cases)
    case (lo a)
    then show ?thesis using range_parse_pair [of "show_int a" "[]"] by (simp add: simps)
  next
    case (hi b)
    then show ?thesis using range_parse_pair [of "[]" "show_int b"] by (simp add: simps)
  next
    case (both a b)
    show ?thesis
    proof (cases "a = b")
      case True
      with both show ?thesis by (simp add: simps range_parse_def contains_dots_none)
    next
      case False
      with both show ?thesis using range_parse_pair [of "show_int a" "show_int b"]
        by (simp add: simps)
    qed
  qed
qed

definition int_coerce :: "yaml \<Rightarrow> int result" where
  "int_coerce v = (case v of
      YInt i \<Rightarrow> Inr i
    | YStr s \<Rightarrow> (case py_int s of None \<Rightarrow> Inl ValueError | Some i \<Rightarrow> Inr i)
    | _ \<Rightarrow> Inl ValueError)"

theorem range_str_roundtrip_witness:
  "Range_validate int_coerce (YStr (range_str show_int \<lparr>rmin = Some 2, rmax = None\<rparr>))
   = Inr \<lparr>rmin = Some 2, rmax = None\<rparr>"
  by (rule range_str_roundtrip)
    (auto simp: valid_range_def range_post_validate_def int_coerce_def)

text \<open>
  The order of the colon-separated tokens of a GPU specification does not matter: two
  texts with the same tokens give the same specification or fail alike.
\<close>

theorem gpu_parse_order_irrelevant:
  assumes "mset (gpu_tokens v) = mset (gpu_tokens w)"
  shows "GPUSpec_parse cast v = GPUSpec_parse cast w"
proof -
  have "fold (\<lambda>t r. bindE r (gpu_token cast t)) (gpu_tokens v)
      = fold (\<lambda>t r. bindE r (gpu_token cast t)) (gpu_tokens w)"
    using assms by (intro fold_multiset_equiv) (auto simp: fun_eq_iff gpu_token_comm)
  then show ?thesis by (simp add: GPUSpec_parse_def)
qed

theorem gpu_parse_order_irrelevant_witness:
  "GPUSpec_parse (\<lambda>_. None) ''A100:40GB:2'' = GPUSpec_parse (\<lambda>_. None) ''2:A100:40GB''"
  by (rule gpu_parse_order_irrelevant) (simp add: gpu_tokens_def remove_spaces_def)

end
