(* ===== verification/Instance_Models.thy ===== *)
theory Instance_Models
  imports Resources
begin

text \<open>
  The data of \<^verbatim>\<open>core/models/backends/base.py\<close>, \<^verbatim>\<open>core/models/instances.py\<close>,
  \<^verbatim>\<open>core/models/volumes.py\<close> and \<^verbatim>\<open>core/models/profiles.py\<close>, with the functions of
  \<^verbatim>\<open>core/services/profiles.py\<close> and the mount point parser.
\<close>

section \<open>Backends\<close>

datatype BackendType =
  AWS | AZURE | CUDO | DATACRUNCH | DSTACK | GCP | KUBERNETES | LAMBDA | LOCAL | REMOTE | NEBIUS
  | OCI | RUNPOD | TENSORDOCK | VASTAI | VULTR

definition BACKENDS_WITH_MULTINODE_SUPPORT :: "BackendType list" where
  "BACKENDS_WITH_MULTINODE_SUPPORT = [AWS, AZURE, GCP, REMOTE, OCI, VULTR]"

definition BACKENDS_WITH_CREATE_INSTANCE_SUPPORT :: "BackendType list" where
  "BACKENDS_WITH_CREATE_INSTANCE_SUPPORT =
     [AWS, DSTACK, AZURE, CUDO, DATACRUNCH, GCP, LAMBDA, OCI, TENSORDOCK, VULTR]"

definition BACKENDS_WITH_RESERVATION_SUPPORT :: "BackendType list" where
  "BACKENDS_WITH_RESERVATION_SUPPORT = [AWS]"

definition BACKENDS_WITH_VOLUMES_SUPPORT :: "BackendType list" where
  "BACKENDS_WITH_VOLUMES_SUPPORT = [AWS, GCP, LOCAL, RUNPOD]"

section \<open>Instances and offers\<close>

record Gpu =
  g_name :: string
  g_memory_mib :: int
  g_vendor :: AcceleratorVendor

text \<open>\<^verbatim>\<open>Gpu.validate_name_and_vendor\<close>: the vendor is always set, \<^verbatim>\<open>tpu-\<close> is cut off.\<close>

definition Gpu_validate ::
    "(string \<Rightarrow> AcceleratorVendor option) \<Rightarrow> string \<Rightarrow> int \<Rightarrow> string option \<Rightarrow> Gpu result" where
  "Gpu_validate cast name memory_mib vendor =
     (let is_tpu = startswith name ''tpu-'';
          name' = (if is_tpu then drop 4 name else name)
      in case vendor of
           None \<Rightarrow> Inr \<lparr>g_name = name', g_memory_mib = memory_mib,
                        g_vendor = (if is_tpu then GOOGLE else NVIDIA)\<rparr>
         | Some v \<Rightarrow>
             (case cast v of None \<Rightarrow> Inl ValueError
              | Some w \<Rightarrow> Inr \<lparr>g_name = name', g_memory_mib = memory_mib, g_vendor = w\<rparr>))"

record inst_resources =
  res_cpus :: int
  res_memory_mib :: int
  res_gpus :: "Gpu list"
  res_spot :: bool
  res_disk_mib :: int
  res_description :: string

record InstanceType =
  it_name :: string
  it_resources :: inst_resources

datatype InstanceRuntime = SHIM | RUNNER

datatype InstanceAvailability =
  A_UNKNOWN | A_AVAILABLE | A_NOT_AVAILABLE | A_NO_QUOTA | A_IDLE | A_BUSY

definition availability_is_available :: "InstanceAvailability \<Rightarrow> bool" where
  "availability_is_available a \<longleftrightarrow> a \<in> {A_UNKNOWN, A_AVAILABLE, A_IDLE}"

record InstanceOffer =
  of_backend :: BackendType
  of_instance :: InstanceType
  of_region :: string
  of_price :: rat
  of_availability :: InstanceAvailability
  of_availability_zones :: "string list option"
  of_instance_runtime :: InstanceRuntime
  of_blocks :: int
  of_total_blocks :: int

datatype InstanceStatus = I_PENDING | I_PROVISIONING | I_IDLE | I_BUSY | I_TERMINATING | I_TERMINATED

definition instance_finished_statuses :: "InstanceStatus list" where
  "instance_finished_statuses = [I_TERMINATING, I_TERMINATED]"

definition instance_is_available :: "InstanceStatus \<Rightarrow> bool" where
  "instance_is_available s \<longleftrightarrow> s \<in> {I_IDLE, I_BUSY}"

definition instance_is_active :: "InstanceStatus \<Rightarrow> bool" where
  "instance_is_active s \<longleftrightarrow> s \<notin> set instance_finished_statuses"

section \<open>Volumes\<close>

datatype VolumeStatus = V_SUBMITTED | V_PROVISIONING | V_ACTIVE | V_FAILED

definition volume_is_active :: "VolumeStatus \<Rightarrow> bool" where
  "volume_is_active s \<longleftrightarrow> s \<notin> set [V_FAILED]"

record VolumeConfiguration =
  vc_name :: "string option"
  vc_backend :: BackendType
  vc_region :: string
  vc_availability_zone :: "string option"
  vc_size :: "rat option"
  vc_volume_id :: "string option"

record VolumeProvisioningData =
  vpd_backend :: "BackendType option"
  vpd_volume_id :: string
  vpd_size_gb :: int
  vpd_availability_zone :: "string option"
  vpd_attachable :: bool
  vpd_detachable :: bool

record Volume =
  vol_id :: nat
  vol_name :: string
  vol_configuration :: VolumeConfiguration
  vol_external :: bool
  vol_status :: VolumeStatus
  vol_deleted :: bool
  vol_volume_id :: "string option"
  vol_provisioning_data :: "VolumeProvisioningData option"

text \<open>A row of the \<^verbatim>\<open>volumes\<close> table; the JSON columns hold the values they encode.\<close>

record VolumeModel =
  vm_id :: nat
  vm_name :: string
  vm_user_id :: nat
  vm_project_id :: nat
  vm_created_at :: time
  vm_last_processed_at :: time
  vm_deleted :: bool
  vm_deleted_at :: "time option"
  vm_status :: VolumeStatus
  vm_status_message :: "string option"
  vm_configuration :: VolumeConfiguration
  vm_provisioning_data :: "VolumeProvisioningData option"

definition volume_model_to_volume :: "VolumeModel \<Rightarrow> Volume" where
  "volume_model_to_volume v =
     (let vpd = map_option (\<lambda>d. if vpd_backend d = None
                  then d\<lparr>vpd_backend := Some (vc_backend (vm_configuration v))\<rparr> else d)
                (vm_provisioning_data v)
      in \<lparr>vol_id = vm_id v, vol_name = vm_name v, vol_configuration = vm_configuration v,
          vol_external = (vc_volume_id (vm_configuration v) \<noteq> None), vol_status = vm_status v,
          vol_deleted = vm_deleted v, vol_volume_id = map_option vpd_volume_id vpd,
          vol_provisioning_data = vpd\<rparr>)"

subsection \<open>Mount points\<close>

datatype volume_names = OneName string | ManyNames "string list"

datatype MountPoint =
    VolumeMountPoint volume_names string
  | InstanceMountPoint string string bool

fun mount_path :: "MountPoint \<Rightarrow> string" where
  "mount_path (VolumeMountPoint _ p) = p"
| "mount_path (InstanceMountPoint _ p _) = p"

definition split_mount_point :: "string \<Rightarrow> (string \<times> string) result" where
  "split_mount_point mp = (case split_on CHR '':'' mp of
      [src, dest] \<Rightarrow> Inr (src, dest) | _ \<Rightarrow> Inl ValueError)"

text \<open>
  \<^verbatim>\<open>PurePosixPath(path)\<close>: the parts between slashes without empty ones and \<^verbatim>\<open>.\<close>; two
  leading slashes (and not three) are kept by POSIX rules.
\<close>

definition posix_parts :: "string \<Rightarrow> string list" where
  "posix_parts p = filter (\<lambda>c. c \<noteq> [] \<and> c \<noteq> ''.'') (split_on CHR ''/'' p)"

definition posix_root :: "string \<Rightarrow> string" where
  "posix_root p = (if startswith p ''//'' \<and> \<not> startswith p ''///'' then ''//''
     else if startswith p ''/'' then ''/'' else [])"

definition posix_str :: "string \<Rightarrow> string" where
  "posix_str p = (let s = posix_root p @ join ''/'' (posix_parts p) in if s = [] then ''.'' else s)"

definition validate_mount_point_path :: "string \<Rightarrow> string result" where
  "validate_mount_point_path path =
     (if path = [] then Inl ValueError
      else if posix_root path = [] then Inl ValueError
      else if ''..'' \<in> set (posix_parts path) then Inl ValueError
      else Inr (posix_str path))"

definition parse_mount_point :: "string \<Rightarrow> MountPoint result" where
  "parse_mount_point v = bindE (split_mount_point v) (\<lambda>(src, dest).
     if CHR ''/'' \<in> set src then
       bindE (validate_mount_point_path src) (\<lambda>ip.
       bindE (validate_mount_point_path dest) (\<lambda>p. Inr (InstanceMountPoint ip p False)))
     else bindE (validate_mount_point_path dest) (\<lambda>p. Inr (VolumeMountPoint (OneName src) p)))"

section \<open>Profiles\<close>

datatype SpotPolicy = SPOT | ONDEMAND | AUTO
datatype CreationPolicy = REUSE | REUSE_OR_CREATE
datatype TerminationPolicy = DONT_DESTROY | DESTROY_AFTER_IDLE
datatype RetryEvent = NO_CAPACITY | INTERRUPTION | ERROR

definition DEFAULT_RETRY_DURATION :: int where "DEFAULT_RETRY_DURATION = 3600"
definition DEFAULT_RUN_TERMINATION_IDLE_TIME :: int where "DEFAULT_RUN_TERMINATION_IDLE_TIME = 5 * 60"
definition DEFAULT_POOL_TERMINATION_IDLE_TIME :: int where
  "DEFAULT_POOL_TERMINATION_IDLE_TIME = 72 * 60 * 60"
definition DEFAULT_POOL_NAME :: string where "DEFAULT_POOL_NAME = ''default-pool''"
definition DEFAULT_STOP_DURATION :: int where "DEFAULT_STOP_DURATION = 300"

datatype ProfileRetry = RetryFlag bool | RetryOn "RetryEvent list" "int option"

record ProfileRetryPolicy =
  prp_retry :: bool
  prp_duration :: "int option"

record ProfileParams =
  pp_backends :: "BackendType list option"
  pp_regions :: "string list option"
  pp_availability_zones :: "string list option"
  pp_instance_types :: "string list option"
  pp_reservation :: "string option"
  pp_spot_policy :: "SpotPolicy option"
  pp_retry :: "ProfileRetry option"
  pp_max_duration :: "off_duration option"
  pp_stop_duration :: "off_duration option"
  pp_max_price :: "rat option"
  pp_creation_policy :: "CreationPolicy option"
  pp_idle_duration :: "int option"
  pp_termination_policy :: "TerminationPolicy option"
  pp_termination_idle_time :: "int option"
  pp_pool_name :: "string option"
  pp_instance_name :: "string option"
  pp_retry_policy :: "ProfileRetryPolicy option"

definition no_params :: ProfileParams where
  "no_params = \<lparr>pp_backends = None, pp_regions = None, pp_availability_zones = None,
     pp_instance_types = None, pp_reservation = None, pp_spot_policy = None, pp_retry = None,
     pp_max_duration = None, pp_stop_duration = None, pp_max_price = None,
     pp_creation_policy = None, pp_idle_duration = None, pp_termination_policy = None,
     pp_termination_idle_time = None, pp_pool_name = None, pp_instance_name = None,
     pp_retry_policy = None\<rparr>"

record Profile =
  pr_name :: string
  pr_default :: bool
  pr_params :: ProfileParams

record Retry =
  on_events :: "RetryEvent list"
  retry_duration :: int

definition get_retry :: "ProfileParams \<Rightarrow> Retry option" where
  "get_retry p = (case pp_retry p of
      None \<Rightarrow>
        (case pp_retry_policy p of
           None \<Rightarrow> None
         | Some rp \<Rightarrow>
             if \<not> prp_retry rp then None
             else Some \<lparr>on_events = [NO_CAPACITY, INTERRUPTION, ERROR],
                    retry_duration = (case prp_duration rp of None \<Rightarrow> DEFAULT_RETRY_DURATION
                      | Some d \<Rightarrow> if d = 0 then DEFAULT_RETRY_DURATION else d)\<rparr>)
    | Some (RetryFlag b) \<Rightarrow>
        if b then Some \<lparr>on_events = [NO_CAPACITY, INTERRUPTION, ERROR],
                        retry_duration = DEFAULT_RETRY_DURATION\<rparr>
        else None
    | Some (RetryOn evs d) \<Rightarrow>
        Some \<lparr>on_events = evs,
              retry_duration = (case d of None \<Rightarrow> DEFAULT_RETRY_DURATION | Some n \<Rightarrow> n)\<rparr>)"

definition get_termination :: "ProfileParams \<Rightarrow> int \<Rightarrow> TerminationPolicy \<times> int" where
  "get_termination p default_idle =
     (let policy = (case pp_termination_policy p of None \<Rightarrow> DESTROY_AFTER_IDLE | Some t \<Rightarrow> t);
          idle = (case pp_termination_idle_time p of None \<Rightarrow> default_idle | Some t \<Rightarrow> t);
          (policy, idle) = (case pp_idle_duration p of
              None \<Rightarrow> (policy, idle)
            | Some d \<Rightarrow> if d < 0 then (DONT_DESTROY, idle) else (policy, d))
      in (policy, if policy = DONT_DESTROY then -1 else idle))"

text \<open>\<^verbatim>\<open>ProfilesConfig.default\<close> and \<^verbatim>\<open>ProfilesConfig.get\<close>\<close>

definition profiles_default :: "Profile list \<Rightarrow> Profile option" where
  "profiles_default ps = find pr_default ps"

definition profiles_get :: "Profile list \<Rightarrow> string \<Rightarrow> Profile result" where
  "profiles_get ps name = (case find (\<lambda>p. pr_name p = name) ps of
      None \<Rightarrow> Inl KeyError | Some p \<Rightarrow> Inr p)"

section \<open>Lemmas and properties\<close>

lemma split_on_parts_no_sep: "p \<in> set (split_on c s) \<Longrightarrow> c \<notin> set p"
proof (induction s arbitrary: p)
  case (Cons x s)
  then show ?case by (cases "split_on c s") (auto split: if_splits)
qed simp

lemma split_on_prepend:
  assumes "c \<notin> set a"
  shows "split_on c (a @ s) = (a @ hd (split_on c s)) # tl (split_on c s)"
  using assms
proof (induction a)
  case (Cons x a)
  then show ?case by (auto split: list.splits)
qed simp

lemma posix_parts_join:
  assumes "\<forall>p \<in> set ps. CHR ''/'' \<notin> set p \<and> p \<noteq> [] \<and> p \<noteq> ''.''"
  shows "posix_parts (join ''/'' ps) = ps"
proof (cases ps)
  case Nil
  then show ?thesis by (simp add: posix_parts_def join_def)
next
  case (Cons q qs)
  then have "split_on CHR ''/'' (join ''/'' ps) = ps" using assms by (intro split_on_join) auto
  then show ?thesis using assms by (simp add: posix_parts_def)
qed

lemma posix_parts_slash [simp]: "posix_parts (CHR ''/'' # s) = posix_parts s"
  by (simp add: posix_parts_def)

lemma posix_parts_parts: "\<forall>p \<in> set (posix_parts s). CHR ''/'' \<notin> set p \<and> p \<noteq> [] \<and> p \<noteq> ''.''"
  by (auto simp: posix_parts_def dest: split_on_parts_no_sep)

lemma posix_root_cases: "posix_root p = [] \<or> posix_root p = ''/'' \<or> posix_root p = ''//''"
  by (simp add: posix_root_def)

lemma join_parts_hd:
  assumes "ps \<noteq> []" and "\<forall>p \<in> set ps. CHR ''/'' \<notin> set p \<and> p \<noteq> []"
  shows "\<exists>c cs. join ''/'' ps = c # cs \<and> c \<noteq> CHR ''/''"
proof -
  obtain q qs where ps: "ps = q # qs" using assms by (cases ps) auto
  then obtain c cs where "q = c # cs" using assms by (cases q) auto
  with assms ps show ?thesis by (auto simp: join_def)
qed

lemma posix_root_str:
  assumes "\<forall>p \<in> set ps. CHR ''/'' \<notin> set p \<and> p \<noteq> []" and "r = ''/'' \<or> r = ''//''"
  shows "posix_root (r @ join ''/'' ps) = r"
proof (cases ps)
  case Nil
  with assms(2) show ?thesis by (auto simp: posix_root_def startswith_def join_def)
next
  case (Cons q qs)
  then obtain c cs where "join ''/'' ps = c # cs" "c \<noteq> CHR ''/''" using join_parts_hd assms by blast
  with assms(2) show ?thesis by (auto simp: posix_root_def startswith_def)
qed

text \<open>
  A validated mount path is normalised: it is absolute, has no \<^verbatim>\<open>..\<close> component, and
  validating it again returns it unchanged.
\<close>

theorem validate_mount_point_path_idem:
  assumes "validate_mount_point_path path = Inr p"
  shows "startswith p ''/'' \<and> ''..'' \<notin> set (posix_parts p) \<and> validate_mount_point_path p = Inr p"
proof -
  from assms have ne: "posix_root path \<noteq> []" and dd: "''..'' \<notin> set (posix_parts path)"
    and p: "p = posix_root path @ join ''/'' (posix_parts path)"
    by (auto simp: validate_mount_point_path_def posix_str_def split: if_splits)
  have root: "posix_root path = ''/'' \<or> posix_root path = ''//''"
    using ne posix_root_cases by blast
  have r: "posix_root p = posix_root path"
    unfolding p using root posix_parts_parts by (intro posix_root_str) blast+
  have q: "posix_parts p = posix_parts path"
    using root posix_parts_join [OF posix_parts_parts [of path]] by (auto simp: p)
  have "startswith p ''/''" using root by (auto simp: p startswith_def)
  moreover have "posix_str p = p" using p r q ne by (simp add: posix_str_def)
  ultimately show ?thesis using r q ne dd p by (auto simp: validate_mount_point_path_def)
qed

theorem validate_mount_point_path_idem_witness:
  "startswith ''/data/x'' ''/'' \<and> ''..'' \<notin> set (posix_parts ''/data/x'')
   \<and> validate_mount_point_path ''/data/x'' = Inr ''/data/x''"
  by (rule validate_mount_point_path_idem [of "''/data//./x/''"])
    (simp add: validate_mount_point_path_def posix_root_def posix_parts_def posix_str_def
      startswith_def join_def)

text \<open>
  Idle termination of instances: the effective idle time is \<^verbatim>\<open>-1\<close> exactly when the
  effective policy is not to destroy; a non-negative \<^verbatim>\<open>idle_duration\<close> overrides the
  deprecated idle time, and a negative one disables termination whatever the deprecated
  policy says.
\<close>

theorem get_termination_correct:
  assumes "0 \<le> default_idle"
    and "\<forall>t. pp_termination_idle_time p = Some t \<longrightarrow> 0 \<le> t"
  shows "(case get_termination p default_idle of (policy, idle) \<Rightarrow>
     (policy = DONT_DESTROY \<longleftrightarrow> idle = -1) \<and> (policy = DESTROY_AFTER_IDLE \<longrightarrow> 0 \<le> idle)
     \<and> (\<forall>d. pp_idle_duration p = Some d \<longrightarrow> d < 0 \<longrightarrow> policy = DONT_DESTROY)
     \<and> (\<forall>d. pp_idle_duration p = Some d \<longrightarrow> 0 \<le> d \<longrightarrow> policy = DESTROY_AFTER_IDLE \<longrightarrow> idle = d)
     \<and> (pp_idle_duration p = None \<longrightarrow> pp_termination_policy p = None \<longrightarrow> policy = DESTROY_AFTER_IDLE))"
  using assms
  by (cases "pp_termination_policy p"; cases "pp_idle_duration p"; cases "pp_termination_idle_time p")
    (auto simp: get_termination_def Let_def intro: TerminationPolicy.exhaust)

theorem get_termination_correct_witness:
  "case get_termination (no_params\<lparr>pp_idle_duration := Some (-1)\<rparr>) 300 of (policy, idle) \<Rightarrow>
     (policy = DONT_DESTROY \<longleftrightarrow> idle = -1)"
  using get_termination_correct [of 300 "no_params\<lparr>pp_idle_duration := Some (-1)\<rparr>"]
  by (auto simp: no_params_def)

end
