(* ===== verification/Configurations.thy ===== *)
theory Configurations
  imports Instance_Models
begin

text \<open>
  \<^verbatim>\<open>core/models/configurations.py\<close> (run configurations and their validators),
  \<^verbatim>\<open>core/models/unix.py\<close>, \<^verbatim>\<open>core/models/envs.py\<close> and \<^verbatim>\<open>core/services/ssh/ports.py\<close>.
  A validator takes the value that pydantic's coercion hands to it; a
  \<^verbatim>\<open>ValidationError\<close> is a \<^verbatim>\<open>ValueError\<close>. Regular expressions are written out as
  predicates on byte strings.
\<close>

section \<open>Ports\<close>

record PortMapping =
  pm_local_port :: "int option"
  pm_container_port :: int

definition valid_port :: "int \<Rightarrow> bool" where
  "valid_port p \<longleftrightarrow> 0 < p \<and> p \<le> 65536"

definition mk_PortMapping :: "int option \<Rightarrow> int \<Rightarrow> PortMapping result" where
  "mk_PortMapping l c =
     (if (case l of None \<Rightarrow> True | Some p \<Rightarrow> valid_port p) \<and> valid_port c
      then Inr \<lparr>pm_local_port = l, pm_container_port = c\<rparr> else Inl ValueError)"

text \<open>\<^verbatim>\<open>$\<close> matches at the end and before one final newline.\<close>

definition chomp :: "string \<Rightarrow> string" where
  "chomp s = (if s \<noteq> [] \<and> last s = CHR 0x0A then butlast s else s)"

definition all_digits :: "string \<Rightarrow> bool" where
  "all_digits s \<longleftrightarrow> s \<noteq> [] \<and> list_all is_digit s"

text \<open>
  The groups of \<^verbatim>\<open>^(?:(\d+|\*):)?(\d+)?$\<close>: \<open>None\<close> when the text does not match, and
  an optional text for each group.
\<close>

definition port_groups :: "string \<Rightarrow> (string option \<times> string option) option" where
  "port_groups v = (case split_on (CHR '':'') (chomp v) of
      [c] \<Rightarrow> if c = [] then Some (None, None)
             else if all_digits c then Some (None, Some c) else None
    | [l, c] \<Rightarrow>
        if all_digits l \<or> l = ''*'' then
          if c = [] then Some (Some l, None) else if all_digits c then Some (Some l, Some c) else None
        else None
    | _ \<Rightarrow> None)"

definition int_of_group :: "string option \<Rightarrow> int result" where
  "int_of_group g = (case g of None \<Rightarrow> Inl TypeError
     | Some s \<Rightarrow> (case py_int s of None \<Rightarrow> Inl ValueError | Some i \<Rightarrow> Inr i))"

definition PortMapping_parse :: "string \<Rightarrow> PortMapping result" where
  "PortMapping_parse v = (case port_groups v of
      None \<Rightarrow> Inl ValueError
    | Some (local_port, container_port) \<Rightarrow>
        bindE (case local_port of
                 None \<Rightarrow> fmapE Some (int_of_group container_port)
               | Some l \<Rightarrow> if l = ''*'' then Inr None else fmapE Some (int_of_group (Some l)))
          (\<lambda>l. bindE (int_of_group container_port) (\<lambda>c. mk_PortMapping l c)))"

datatype port_arg = PInt int | PStr string | PMapping PortMapping

definition convert_ports :: "port_arg \<Rightarrow> PortMapping result" where
  "convert_ports v = (case v of
      PInt p \<Rightarrow> mk_PortMapping (Some p) p
    | PStr s \<Rightarrow> PortMapping_parse s
    | PMapping m \<Rightarrow> Inr m)"

definition convert_port :: "port_arg \<Rightarrow> PortMapping result" where
  "convert_port v = (case v of
      PInt p \<Rightarrow> mk_PortMapping (Some 80) p
    | PStr s \<Rightarrow> PortMapping_parse s
    | PMapping m \<Rightarrow> Inr m)"

definition RESERVED_PORTS_START :: int where "RESERVED_PORTS_START = 10000"
definition RESERVED_PORTS_END :: int where "RESERVED_PORTS_END = 10999"

definition filter_reserved_ports :: "PortMapping list \<Rightarrow> PortMapping list" where
  "filter_reserved_ports ports =
     filter (\<lambda>pm. \<not> (RESERVED_PORTS_START \<le> pm_container_port pm \<and> pm_container_port pm \<le> RESERVED_PORTS_END)) ports"

section \<open>Users\<close>

record UnixUser =
  uu_uid :: "int option"
  uu_gid :: "int option"
  uu_username :: "string option"
  uu_groupname :: "string option"

text \<open>A name or a number: the number when \<^verbatim>\<open>int\<close> accepts the text.\<close>

definition name_or_id :: "string \<Rightarrow> (int option \<times> string option) result" where
  "name_or_id s =
     (if s = [] then Inl ValueError
      else case py_int s of
          Some i \<Rightarrow> if i < 0 then Inl ValueError else Inr (Some i, None)
        | None \<Rightarrow> Inr (None, Some s))"

definition UnixUser_parse :: "string \<Rightarrow> UnixUser result" where
  "UnixUser_parse v = (case split_on (CHR '':'') v of
      [u] \<Rightarrow> bindE (name_or_id u) (\<lambda>(uid, username).
        Inr \<lparr>uu_uid = uid, uu_gid = None, uu_username = username, uu_groupname = None\<rparr>)
    | [u, g] \<Rightarrow> bindE (name_or_id u) (\<lambda>(uid, username).
        bindE (name_or_id g) (\<lambda>(gid, groupname).
        Inr \<lparr>uu_uid = uid, uu_gid = gid, uu_username = username, uu_groupname = groupname\<rparr>))
    | _ \<Rightarrow> Inl ValueError)"

text \<open>The \<^verbatim>\<open><user>[:<group>]\<close> text of a user, the format \<^verbatim>\<open>parse\<close> reads.\<close>

definition id_text :: "int option \<Rightarrow> string option \<Rightarrow> string" where
  "id_text i n = (case i of Some k \<Rightarrow> show_int k | None \<Rightarrow> (case n of Some s \<Rightarrow> s | None \<Rightarrow> []))"

definition user_text :: "UnixUser \<Rightarrow> string" where
  "user_text u = id_text (uu_uid u) (uu_username u) @
     (if uu_gid u = None \<and> uu_groupname u = None then []
      else CHR '':'' # id_text (uu_gid u) (uu_groupname u))"

section \<open>Environment variables\<close>

datatype env_value = EnvStr string | EnvSentinel string

text \<open>A dictionary in insertion order.\<close>

type_synonym Env = "(string \<times> env_value) list"

definition from_env :: "string \<Rightarrow> (string \<times> string) list \<Rightarrow> string result" where
  "from_env key env = (case map_of env key of Some v \<Rightarrow> Inr v | None \<Rightarrow> Inl ValueError)"

definition env_first_char :: "char \<Rightarrow> bool" where
  "env_first_char c \<longleftrightarrow> is_alpha c \<or> c = CHR ''_''"

definition env_name_char :: "char \<Rightarrow> bool" where
  "env_name_char c \<longleftrightarrow> env_first_char c \<or> is_digit c"

definition env_name :: "string \<Rightarrow> bool" where
  "env_name s \<longleftrightarrow> s \<noteq> [] \<and> env_first_char (hd s) \<and> list_all env_name_char (tl s)"

text \<open>\<^verbatim>\<open>v.split("=", 1)\<close> for a text that has the separator.\<close>

definition split_eq :: "string \<Rightarrow> string \<times> string" where
  "split_eq v = (takeWhile (\<lambda>c. c \<noteq> CHR ''='') v, tl (dropWhile (\<lambda>c. c \<noteq> CHR ''='') v))"

text \<open>
  \<^verbatim>\<open>^([a-zA-Z_][a-zA-Z0-9_]*)(=.*$|$)\<close>; \<^verbatim>\<open>.\<close> matches no newline, \<^verbatim>\<open>$\<close> also before
  a final one.
\<close>

definition env_string :: "string \<Rightarrow> bool" where
  "env_string v \<longleftrightarrow>
     (if CHR ''='' \<in> set v
      then env_name (fst (split_eq v)) \<and> CHR 0x0A \<notin> set (chomp (snd (split_eq v)))
      else env_name (chomp v))"

text \<open>\<^verbatim>\<open>EnvVarTuple.parse\<close>\<close>

definition EnvVarTuple_parse :: "string \<Rightarrow> (string \<times> env_value) result" where
  "EnvVarTuple_parse v =
     (if \<not> env_string v then Inl ValueError
      else if CHR ''='' \<in> set v then Inr (fst (split_eq v), EnvStr (snd (split_eq v)))
      else Inr (chomp v, EnvSentinel (chomp v)))"

text \<open>\<^verbatim>\<open>Env.validate_root\<close> on a list, the dictionary so far as accumulator.\<close>

fun validate_root :: "string list \<Rightarrow> Env \<Rightarrow> Env result" where
  "validate_root [] d = Inr d"
| "validate_root (var # vars) d =
     (if CHR ''='' \<notin> set var then
        if var \<in> fst ` set d then Inl ValueError
        else validate_root vars (d @ [(var, EnvSentinel var)])
      else let (k, val) = split_eq var in
        if k \<in> fst ` set d then Inl ValueError
        else validate_root vars (d @ [(k, EnvStr val)]))"

text \<open>\<^verbatim>\<open>dict.update\<close>: an existing key keeps its place, a new one is appended.\<close>

fun dict_set :: "'k \<Rightarrow> 'v \<Rightarrow> ('k \<times> 'v) list \<Rightarrow> ('k \<times> 'v) list" where
  "dict_set k v [] = [(k, v)]"
| "dict_set k v ((k', v') # d) = (if k = k' then (k, v) # d else (k', v') # dict_set k v d)"

definition Env_update :: "Env \<Rightarrow> Env \<Rightarrow> Env" where
  "Env_update d e = fold (\<lambda>(k, v) d. dict_set k v d) e d"

definition as_dict :: "Env \<Rightarrow> (string \<times> string) list result" where
  "as_dict d =
     (if \<exists>kv \<in> set d. (case snd kv of EnvSentinel _ \<Rightarrow> True | EnvStr _ \<Rightarrow> False) then Inl ValueError
      else Inr (map (\<lambda>(k, v). (k, case v of EnvStr s \<Rightarrow> s | EnvSentinel s \<Rightarrow> s)) d))"

section \<open>Run configurations\<close>

datatype RunConfigurationType = DEV_ENVIRONMENT | TASK | SERVICE

datatype PythonVersion = PY38 | PY39 | PY310 | PY311 | PY312 | PY313

fun python_value :: "PythonVersion \<Rightarrow> string" where
  "python_value PY38 = ''3.8''"
| "python_value PY39 = ''3.9''"
| "python_value PY310 = ''3.10''"
| "python_value PY311 = ''3.11''"
| "python_value PY312 = ''3.12''"
| "python_value PY313 = ''3.13''"

definition PythonVersion_of :: "string \<Rightarrow> PythonVersion result" where
  "PythonVersion_of s =
     (case find (\<lambda>p. python_value p = s) [PY38, PY39, PY310, PY311, PY312, PY313] of
        None \<Rightarrow> Inl ValueError | Some p \<Rightarrow> Inr p)"

text \<open>A float carries the text \<^verbatim>\<open>str\<close> gives for it.\<close>

datatype python_arg = PyNone | PyFloat string | PyStr string

definition convert_python :: "string option \<Rightarrow> python_arg \<Rightarrow> PythonVersion option result" where
  "convert_python img v =
     (if v \<noteq> PyNone \<and> img \<noteq> None \<and> img \<noteq> Some [] then Inl KeyError
      else case v of
          PyNone \<Rightarrow> Inr None
        | PyFloat s \<Rightarrow> fmapE Some (PythonVersion_of (if s = ''3.1'' then ''3.10'' else s))
        | PyStr s \<Rightarrow> fmapE Some (PythonVersion_of s))"

definition validate_user :: "string option \<Rightarrow> string option result" where
  "validate_user v = (case v of None \<Rightarrow> Inr None
     | Some s \<Rightarrow> bindE (UnixUser_parse s) (\<lambda>_. Inr (Some s)))"

definition check_image_or_commands_present :: "string list \<Rightarrow> string option \<Rightarrow> bool" where
  "check_image_or_commands_present commands img \<longleftrightarrow>
     \<not> (commands = [] \<and> (img = None \<or> img = Some []))"

definition parse_inactivity_duration :: "yaml \<Rightarrow> int option result" where
  "parse_inactivity_duration v =
     fmapE (\<lambda>d. case d of Secs n \<Rightarrow> Some n | _ \<Rightarrow> None) (parse_off_duration v)"

record ScalingSpec =
  sc_target :: rat
  sc_scale_up_delay :: int
  sc_scale_down_delay :: int

text \<open>The models of \<^verbatim>\<open>core/models/services.py\<close>: name and format parameters.\<close>

datatype ChatModel =
    TGIChatModel string "string option" "string option"
  | OpenAIChatModel string string

fun model_name :: "ChatModel \<Rightarrow> string" where
  "model_name (TGIChatModel n _ _) = n"
| "model_name (OpenAIChatModel n _) = n"

datatype model_arg = ModelStr string | ModelSpec ChatModel

definition convert_model :: "model_arg option \<Rightarrow> ChatModel option" where
  "convert_model v = map_option (\<lambda>m. case m of
      ModelStr s \<Rightarrow> OpenAIChatModel s ''/v1'' | ModelSpec c \<Rightarrow> c) v"

datatype gateway_ref = GatewayBool bool | GatewayName string

record BaseRunConfiguration =
  bc_name :: "string option"
  bc_image :: "string option"
  bc_user :: "string option"
  bc_privileged :: bool
  bc_entrypoint :: "string option"
  bc_working_dir :: "string option"
  bc_home_dir :: string
  bc_registry_auth :: "(string \<times> string) option"
  bc_python :: "PythonVersion option"
  bc_nvcc :: "bool option"
  bc_single_branch :: "bool option"
  bc_env :: Env
  bc_setup :: "string list"
  bc_resources :: ResourcesSpec
  bc_volumes :: "MountPoint list"
  bc_params :: ProfileParams

record DevParams =
  dv_ports :: "PortMapping list"
  dv_version :: "string option"
  dv_init :: "string list"
  dv_inactivity_duration :: "int option"

record TaskParams =
  tk_commands :: "string list"
  tk_ports :: "PortMapping list"
  tk_nodes :: nat

record ServiceParams =
  sv_commands :: "string list"
  sv_port :: PortMapping
  sv_gateway :: "gateway_ref option"
  sv_strip_prefix :: bool
  sv_model :: "ChatModel option"
  sv_https :: bool
  sv_auth :: bool
  sv_min_replicas :: int
  sv_max_replicas :: int
  sv_scaling :: "ScalingSpec option"

datatype RunConfiguration =
    DevEnvironmentConfiguration BaseRunConfiguration DevParams
  | TaskConfiguration BaseRunConfiguration TaskParams
  | ServiceConfiguration BaseRunConfiguration ServiceParams

fun conf_type :: "RunConfiguration \<Rightarrow> RunConfigurationType" where
  "conf_type (DevEnvironmentConfiguration _ _) = DEV_ENVIRONMENT"
| "conf_type (TaskConfiguration _ _) = TASK"
| "conf_type (ServiceConfiguration _ _) = SERVICE"

fun conf_base :: "RunConfiguration \<Rightarrow> BaseRunConfiguration" where
  "conf_base (DevEnvironmentConfiguration b _) = b"
| "conf_base (TaskConfiguration b _) = b"
| "conf_base (ServiceConfiguration b _) = b"

fun conf_service :: "RunConfiguration \<Rightarrow> ServiceParams option" where
  "conf_service (ServiceConfiguration _ s) = Some s"
| "conf_service _ = None"

fun conf_nodes :: "RunConfiguration \<Rightarrow> nat" where
  "conf_nodes (TaskConfiguration _ t) = tk_nodes t"
| "conf_nodes _ = 1"

text \<open>
  \<^verbatim>\<open>convert_replicas\<close> receives an integer, a text that matches \<^verbatim>\<open>^[0-9]+..[1-9][0-9]*$\<close>
  (where each dot matches any character), or a range.
\<close>

datatype replicas_arg = ReplicasInt int | ReplicasStr string | ReplicasRange "int range"

definition replicas_coerce :: "yaml \<Rightarrow> int result" where
  "replicas_coerce v = (case v of
      YInt i \<Rightarrow> Inr i
    | YStr s \<Rightarrow> (case py_int s of Some i \<Rightarrow> Inr i | None \<Rightarrow> Inl ValueError)
    | _ \<Rightarrow> Inl ValueError)"

definition check_replicas :: "int range \<Rightarrow> (int \<times> int) result" where
  "check_replicas r = (case rmax r of
      None \<Rightarrow> Inl ValueError
    | Some hi \<Rightarrow> (case rmin r of
        None \<Rightarrow> Inl TypeError
      | Some lo \<Rightarrow> if lo < 0 then Inl ValueError else if hi < lo then Inl ValueError else Inr (lo, hi)))"

definition convert_replicas :: "replicas_arg \<Rightarrow> (int \<times> int) result" where
  "convert_replicas v = (case v of
      ReplicasStr s \<Rightarrow>
        if contains_dots s then (case split_dots (remove_spaces s) of
            [lo, hi] \<Rightarrow>
              bindE (Range_validate replicas_coerce
                  (YMap [(''min'', if lo = [] then YInt 0 else YStr lo), (''max'', or_null hi)]))
                check_replicas
          | _ \<Rightarrow> Inl ValueError)
        else Inl AttributeError
    | ReplicasInt i \<Rightarrow> check_replicas \<lparr>rmin = Some i, rmax = Some i\<rparr>
    | ReplicasRange r \<Rightarrow> check_replicas r)"

definition validate_gateway :: "gateway_ref option \<Rightarrow> gateway_ref option result" where
  "validate_gateway v = (if v = Some (GatewayBool True) then Inl ValueError else Inr v)"

definition validate_scaling :: "int \<times> int \<Rightarrow> ScalingSpec option \<Rightarrow> unit result" where
  "validate_scaling replicas scaling =
     (if fst replicas \<noteq> snd replicas \<and> scaling = None then Inl ValueError
      else if fst replicas = snd replicas \<and> scaling \<noteq> None then Inl ValueError
      else Inr ())"

section \<open>Properties\<close>

lemma show_nat_no_colon: "CHR '':'' \<notin> set (show_nat n)"
  using show_nat_digits [of n] by (auto simp: list_all_iff is_digit_def)

lemma name_or_id_Inr:
  "name_or_id s = Inr (i, n) \<longleftrightarrow> s \<noteq> [] \<and>
     ((\<exists>k. py_int s = Some k \<and> 0 \<le> k \<and> i = Some k \<and> n = None) \<or> (py_int s = None \<and> i = None \<and> n = Some s))"
  by (cases "py_int s") (auto simp: name_or_id_def)

lemma name_or_id_text:
  assumes "name_or_id s = Inr (i, n)" and "CHR '':'' \<notin> set s"
  shows "name_or_id (id_text i n) = Inr (i, n) \<and> CHR '':'' \<notin> set (id_text i n)"
proof -
  from assms(1) consider k where "0 \<le> k" "i = Some k" "n = None"
    | "s \<noteq> []" "py_int s = None" "i = None" "n = Some s" by (auto simp: name_or_id_Inr)
  then show ?thesis
    using assms(2) by cases (simp_all add: name_or_id_Inr id_text_def show_int_def show_nat_no_colon)
qed

lemma name_or_id_some: "name_or_id s = Inr (i, n) \<Longrightarrow> \<not> (i = None \<and> n = None)"
  by (auto simp: name_or_id_Inr)

lemma name_or_id_nonneg: "name_or_id s = Inr (Some i, n) \<Longrightarrow> 0 \<le> i"
  by (auto simp: name_or_id_Inr)

lemma split_on_parts: "x \<in> set (split_on c s) \<Longrightarrow> c \<notin> set x"
  by (induction s arbitrary: x) (auto split: if_splits list.splits)

text \<open>
  A user that \<^verbatim>\<open>UnixUser.parse\<close> accepts is read back from its \<^verbatim>\<open>user[:group]\<close>
  text, and no accepted identifier is negative.
\<close>

theorem UnixUser_parse_roundtrip:
  assumes "UnixUser_parse v = Inr u"
  shows "UnixUser_parse (user_text u) = Inr u
    \<and> (\<forall>i. uu_uid u = Some i \<or> uu_gid u = Some i \<longrightarrow> 0 \<le> i)"
proof -
  from assms consider
    (one) a uid un where "split_on (CHR '':'') v = [a]" "name_or_id a = Inr (uid, un)"
      "u = \<lparr>uu_uid = uid, uu_gid = None, uu_username = un, uu_groupname = None\<rparr>"
  | (two) a b uid un gid gn where "split_on (CHR '':'') v = [a, b]" "name_or_id a = Inr (uid, un)"
      "name_or_id b = Inr (gid, gn)"
      "u = \<lparr>uu_uid = uid, uu_gid = gid, uu_username = un, uu_groupname = gn\<rparr>"
    by (auto simp: UnixUser_parse_def bindE_Inr_conv split: list.splits prod.splits)
  then show ?thesis
  proof cases
    case one
    then have "CHR '':'' \<notin> set a" using split_on_parts [of a "CHR '':''" v] by simp
    from name_or_id_text [OF one(2) this] one name_or_id_nonneg show ?thesis
      by (auto simp: UnixUser_parse_def user_text_def split_on_no_sep)
  next
    case two
    then have "CHR '':'' \<notin> set a" "CHR '':'' \<notin> set b"
      using split_on_parts [of _ "CHR '':''" v] by simp_all
    with two name_or_id_text [OF two(2)] name_or_id_text [OF two(3)] name_or_id_some [OF two(3)]
    have "UnixUser_parse (user_text u) = Inr u"
      by (auto simp: UnixUser_parse_def user_text_def split_on_no_sep split_on_append)
    moreover have "\<forall>i. uu_uid u = Some i \<or> uu_gid u = Some i \<longrightarrow> 0 \<le> i"
      using two name_or_id_nonneg by auto
    ultimately show ?thesis ..
  qed
qed

lemma demo_user_parse:
  "UnixUser_parse ''1000:staff'' = Inr \<lparr>uu_uid = Some 1000, uu_gid = None, uu_username = None, uu_groupname = Some ''staff''\<rparr>"
  by code_simp

theorem UnixUser_parse_roundtrip_witness:
  "UnixUser_parse (user_text \<lparr>uu_uid = Some 1000, uu_gid = None, uu_username = None, uu_groupname = Some ''staff''\<rparr>)
   = Inr \<lparr>uu_uid = Some 1000, uu_gid = None, uu_username = None, uu_groupname = Some ''staff''\<rparr>"
  using UnixUser_parse_roundtrip [OF demo_user_parse] by simp

lemma check_replicas_Inr: "check_replicas r = Inr (lo, hi) \<Longrightarrow> 0 \<le> lo \<and> lo \<le> hi"
  by (auto simp: check_replicas_def split: option.split_asm if_split_asm)

lemma convert_replicas_Inr:
  assumes "convert_replicas v = Inr (lo, hi)" shows "0 \<le> lo \<and> lo \<le> hi"
proof -
  from assms obtain r where "check_replicas r = Inr (lo, hi)"
    by (auto simp: convert_replicas_def bindE_Inr_conv
        split: replicas_arg.split_asm list.split_asm if_split_asm)
  then show ?thesis by (rule check_replicas_Inr)
qed

text \<open>
  A service configuration that passes \<^verbatim>\<open>convert_replicas\<close> and \<^verbatim>\<open>validate_scaling\<close> has a
  range \<open>0 \<le> min \<le> max\<close>, and scaling rules exactly when the range is proper.
\<close>

theorem replicas_validated:
  assumes "convert_replicas v = Inr (lo, hi)" and "validate_scaling (lo, hi) scaling = Inr ()"
  shows "0 \<le> lo \<and> lo \<le> hi \<and> (scaling = None \<longleftrightarrow> lo = hi)"
  using convert_replicas_Inr [OF assms(1)] assms(2) by (auto simp: validate_scaling_def split: if_splits)

lemma demo_convert_replicas: "convert_replicas (ReplicasStr ''1..4'') = Inr (1, 4)"
  by code_simp

theorem replicas_validated_witness:
  "0 \<le> (1::int) \<and> (1::int) \<le> 4 \<and>
   (Some \<lparr>sc_target = 10, sc_scale_up_delay = 300, sc_scale_down_delay = 600\<rparr> = None \<longleftrightarrow> (1::int) = 4)"
  by (rule replicas_validated [OF demo_convert_replicas]) (simp add: validate_scaling_def)

definition env_item :: "string \<Rightarrow> string \<times> env_value" where
  "env_item var = (if CHR ''='' \<in> set var then (fst (split_eq var), EnvStr (snd (split_eq var)))
     else (var, EnvSentinel var))"

lemma validate_root_gen:
  "validate_root vars d =
     (if distinct (map fst (map env_item vars)) \<and> fst ` set d \<inter> fst ` env_item ` set vars = {}
      then Inr (d @ map env_item vars) else Inl ValueError)"
proof (induction vars arbitrary: d)
  case Nil
  then show ?case by simp
next
  case (Cons var vars)
  have "validate_root (var # vars) d =
    (if fst (env_item var) \<in> fst ` set d then Inl ValueError else validate_root vars (d @ [env_item var]))"
    by (simp add: env_item_def Let_def split_def)
  with Cons [of "d @ [env_item var]"] show ?case by auto
qed

text \<open>
  A list of environment variables is accepted exactly when the names are distinct; the
  dictionary then has one entry for each element, in order, and resolving it gives the values
  when every element has one.
\<close>

theorem validate_root_correct:
  "validate_root vars [] =
     (if distinct (map (fst \<circ> env_item) vars) then Inr (map env_item vars) else Inl ValueError)
   \<and> ((\<forall>v \<in> set vars. CHR ''='' \<in> set v) \<longrightarrow> as_dict (map env_item vars) = Inr (map split_eq vars))
   \<and> ((\<exists>v \<in> set vars. CHR ''='' \<notin> set v) \<longrightarrow> as_dict (map env_item vars) = Inl ValueError)"
proof -
  have "(case snd (env_item v) of EnvSentinel _ \<Rightarrow> True | EnvStr _ \<Rightarrow> False) \<longleftrightarrow> CHR ''='' \<notin> set v" for v
    by (simp add: env_item_def)
  then have "as_dict (map env_item vars) = (if \<exists>v \<in> set vars. CHR ''='' \<notin> set v then Inl ValueError
      else Inr (map (\<lambda>(k, v). (k, case v of EnvStr s \<Rightarrow> s | EnvSentinel s \<Rightarrow> s)) (map env_item vars)))"
    by (simp add: as_dict_def)
  then show ?thesis by (auto simp: validate_root_gen env_item_def o_def)
qed

theorem validate_root_correct_witness:
  "validate_root [''A=1'', ''B=x=y''] [] = Inr [(''A'', EnvStr ''1''), (''B'', EnvStr ''x=y'')]
   \<and> as_dict (map env_item [''A=1'', ''B=x=y'']) = Inr [(''A'', ''1''), (''B'', ''x=y'')]"
  using validate_root_correct [of "[''A=1'', ''B=x=y'']"]
  by (simp add: env_item_def split_eq_def)

text \<open>
  A port mapping whose container port is missing matches the pattern and fails with a type
  error, not the value error of the other malformed texts; port 65536 is accepted.
\<close>

theorem port_mapping_boundaries:
  "PortMapping_parse ''80:'' = Inl TypeError \<and> PortMapping_parse [] = Inl TypeError
   \<and> PortMapping_parse ''a:80'' = Inl ValueError
   \<and> PortMapping_parse ''*:65536'' = Inr \<lparr>pm_local_port = None, pm_container_port = 65536\<rparr>
   \<and> PortMapping_parse ''65537'' = Inl ValueError"
  by (simp add: PortMapping_parse_def port_groups_def chomp_def all_digits_def is_digit_def
      int_of_group_def py_int_digits nat_of_digits_def digit_val_def mk_PortMapping_def valid_port_def)

text \<open>
  The pattern of the \<^verbatim>\<open>replicas\<close> texts has unescaped dots: a text such as
  \<^verbatim>\<open>1-25\<close> passes it and then fails on an attribute of a string instead of being refused.
\<close>

theorem replicas_unescaped_dots:
  "convert_replicas (ReplicasStr ''1-25'') = Inl AttributeError
   \<and> convert_replicas (ReplicasStr ''1..25'') = Inr (1, 25)"
  by code_simp

end
