(* ===== verification/Run_Models.thy ===== *)
theory Run_Models
  imports Configurations
begin

text \<open>
  \<^verbatim>\<open>core/models/runs.py\<close> and the rows of \<^verbatim>\<open>server/models.py\<close> for runs, jobs, instances,
  fleets and pools. JSON columns hold the value they encode
  (pydantic writes and reads them). Primary keys are natural numbers.
\<close>

section \<open>Statuses and termination reasons\<close>

datatype JobStatus =
  J_SUBMITTED | J_PROVISIONING | J_PULLING | J_RUNNING | J_TERMINATING | J_TERMINATED | J_ABORTED
  | J_FAILED | J_DONE

definition job_finished_statuses :: "JobStatus list" where
  "job_finished_statuses = [J_TERMINATED, J_ABORTED, J_FAILED, J_DONE]"

definition job_is_finished :: "JobStatus \<Rightarrow> bool" where
  "job_is_finished s \<longleftrightarrow> s \<in> set job_finished_statuses"

datatype RunStatus =
  R_PENDING | R_SUBMITTED | R_PROVISIONING | R_RUNNING | R_TERMINATING | R_TERMINATED | R_FAILED
  | R_DONE

definition run_finished_statuses :: "RunStatus list" where
  "run_finished_statuses = [R_TERMINATED, R_FAILED, R_DONE]"

definition run_is_finished :: "RunStatus \<Rightarrow> bool" where
  "run_is_finished s \<longleftrightarrow> s \<in> set run_finished_statuses"

datatype JobTerminationReason =
    FAILED_TO_START_DUE_TO_NO_CAPACITY
  | INTERRUPTED_BY_NO_CAPACITY
  | WAITING_INSTANCE_LIMIT_EXCEEDED
  | WAITING_RUNNER_LIMIT_EXCEEDED
  | TERMINATED_BY_USER
  | VOLUME_ERROR
  | GATEWAY_ERROR
  | SCALED_DOWN
  | DONE_BY_RUNNER
  | J_ABORTED_BY_USER
  | TERMINATED_BY_SERVER
  | INACTIVITY_DURATION_EXCEEDED
  | CONTAINER_EXITED_WITH_ERROR
  | PORTS_BINDING_FAILED
  | CREATING_CONTAINER_ERROR
  | EXECUTOR_ERROR
  | MAX_DURATION_EXCEEDED

fun job_reason_to_status :: "JobTerminationReason \<Rightarrow> JobStatus" where
  "job_reason_to_status FAILED_TO_START_DUE_TO_NO_CAPACITY = J_FAILED"
| "job_reason_to_status INTERRUPTED_BY_NO_CAPACITY = J_FAILED"
| "job_reason_to_status WAITING_INSTANCE_LIMIT_EXCEEDED = J_FAILED"
| "job_reason_to_status WAITING_RUNNER_LIMIT_EXCEEDED = J_FAILED"
| "job_reason_to_status TERMINATED_BY_USER = J_TERMINATED"
| "job_reason_to_status VOLUME_ERROR = J_FAILED"
| "job_reason_to_status GATEWAY_ERROR = J_FAILED"
| "job_reason_to_status SCALED_DOWN = J_TERMINATED"
| "job_reason_to_status DONE_BY_RUNNER = J_DONE"
| "job_reason_to_status J_ABORTED_BY_USER = J_ABORTED"
| "job_reason_to_status TERMINATED_BY_SERVER = J_TERMINATED"
| "job_reason_to_status INACTIVITY_DURATION_EXCEEDED = J_TERMINATED"
| "job_reason_to_status CONTAINER_EXITED_WITH_ERROR = J_FAILED"
| "job_reason_to_status PORTS_BINDING_FAILED = J_FAILED"
| "job_reason_to_status CREATING_CONTAINER_ERROR = J_FAILED"
| "job_reason_to_status EXECUTOR_ERROR = J_FAILED"
| "job_reason_to_status MAX_DURATION_EXCEEDED = J_TERMINATED"

text \<open>The values of the enumeration, the texts in which runner and shim report a reason.\<close>

fun job_reason_value :: "JobTerminationReason \<Rightarrow> string" where
  "job_reason_value FAILED_TO_START_DUE_TO_NO_CAPACITY = ''failed_to_start_due_to_no_capacity''"
| "job_reason_value INTERRUPTED_BY_NO_CAPACITY = ''interrupted_by_no_capacity''"
| "job_reason_value WAITING_INSTANCE_LIMIT_EXCEEDED = ''waiting_instance_limit_exceeded''"
| "job_reason_value WAITING_RUNNER_LIMIT_EXCEEDED = ''waiting_runner_limit_exceeded''"
| "job_reason_value TERMINATED_BY_USER = ''terminated_by_user''"
| "job_reason_value VOLUME_ERROR = ''volume_error''"
| "job_reason_value GATEWAY_ERROR = ''gateway_error''"
| "job_reason_value SCALED_DOWN = ''scaled_down''"
| "job_reason_value DONE_BY_RUNNER = ''done_by_runner''"
| "job_reason_value J_ABORTED_BY_USER = ''aborted_by_user''"
| "job_reason_value TERMINATED_BY_SERVER = ''terminated_by_server''"
| "job_reason_value INACTIVITY_DURATION_EXCEEDED = ''inactivity_duration_exceeded''"
| "job_reason_value CONTAINER_EXITED_WITH_ERROR = ''container_exited_with_error''"
| "job_reason_value PORTS_BINDING_FAILED = ''ports_binding_failed''"
| "job_reason_value CREATING_CONTAINER_ERROR = ''creating_container_error''"
| "job_reason_value EXECUTOR_ERROR = ''executor_error''"
| "job_reason_value MAX_DURATION_EXCEEDED = ''max_duration_exceeded''"

definition all_job_reasons :: "JobTerminationReason list" where
  "all_job_reasons = [FAILED_TO_START_DUE_TO_NO_CAPACITY, INTERRUPTED_BY_NO_CAPACITY,
     WAITING_INSTANCE_LIMIT_EXCEEDED, WAITING_RUNNER_LIMIT_EXCEEDED, TERMINATED_BY_USER,
     VOLUME_ERROR, GATEWAY_ERROR, SCALED_DOWN, DONE_BY_RUNNER, J_ABORTED_BY_USER,
     TERMINATED_BY_SERVER, INACTIVITY_DURATION_EXCEEDED, CONTAINER_EXITED_WITH_ERROR,
     PORTS_BINDING_FAILED, CREATING_CONTAINER_ERROR, EXECUTOR_ERROR, MAX_DURATION_EXCEEDED]"

text \<open>\<^verbatim>\<open>JobTerminationReason(value)\<close>\<close>

definition job_reason_of_value :: "string \<Rightarrow> JobTerminationReason result" where
  "job_reason_of_value s = (case find (\<lambda>r. job_reason_value r = s) all_job_reasons of
      None \<Rightarrow> Inl ValueError | Some r \<Rightarrow> Inr r)"

datatype RunTerminationReason =
  ALL_JOBS_DONE | JOB_FAILED | RETRY_LIMIT_EXCEEDED | STOPPED_BY_USER | ABORTED_BY_USER | SERVER_ERROR

fun run_reason_name :: "RunTerminationReason \<Rightarrow> string" where
  "run_reason_name ALL_JOBS_DONE = ''ALL_JOBS_DONE''"
| "run_reason_name JOB_FAILED = ''JOB_FAILED''"
| "run_reason_name RETRY_LIMIT_EXCEEDED = ''RETRY_LIMIT_EXCEEDED''"
| "run_reason_name STOPPED_BY_USER = ''STOPPED_BY_USER''"
| "run_reason_name ABORTED_BY_USER = ''ABORTED_BY_USER''"
| "run_reason_name SERVER_ERROR = ''SERVER_ERROR''"

fun to_job_termination_reason :: "RunTerminationReason \<Rightarrow> JobTerminationReason" where
  "to_job_termination_reason ALL_JOBS_DONE = DONE_BY_RUNNER"
| "to_job_termination_reason JOB_FAILED = TERMINATED_BY_SERVER"
| "to_job_termination_reason RETRY_LIMIT_EXCEEDED = TERMINATED_BY_SERVER"
| "to_job_termination_reason STOPPED_BY_USER = TERMINATED_BY_USER"
| "to_job_termination_reason ABORTED_BY_USER = J_ABORTED_BY_USER"
| "to_job_termination_reason SERVER_ERROR = TERMINATED_BY_SERVER"

fun run_reason_to_status :: "RunTerminationReason \<Rightarrow> RunStatus" where
  "run_reason_to_status ALL_JOBS_DONE = R_DONE"
| "run_reason_to_status JOB_FAILED = R_FAILED"
| "run_reason_to_status RETRY_LIMIT_EXCEEDED = R_FAILED"
| "run_reason_to_status STOPPED_BY_USER = R_TERMINATED"
| "run_reason_to_status ABORTED_BY_USER = R_TERMINATED"
| "run_reason_to_status SERVER_ERROR = R_FAILED"

section \<open>Specifications\<close>

record Requirements =
  rq_resources :: ResourcesSpec
  rq_max_price :: "rat option"
  rq_spot :: "bool option"
  rq_reservation :: "string option"

definition get_policy_map :: "SpotPolicy option \<Rightarrow> SpotPolicy \<Rightarrow> bool option" where
  "get_policy_map spot_policy dflt =
     (case (case spot_policy of None \<Rightarrow> dflt | Some p \<Rightarrow> p) of
        AUTO \<Rightarrow> None | SPOT \<Rightarrow> Some True | ONDEMAND \<Rightarrow> Some False)"

record AppSpec =
  app_port :: int
  app_map_to_port :: "int option"
  app_name :: string

record JobSpec =
  js_replica_num :: nat
  js_job_num :: nat
  js_job_name :: string
  js_jobs_per_replica :: nat
  js_app_specs :: "AppSpec list option"
  js_commands :: "string list"
  js_env :: "(string \<times> string) list"
  js_home_dir :: "string option"
  js_image_name :: string
  js_user :: "UnixUser option"
  js_privileged :: bool
  js_single_branch :: "bool option"
  js_max_duration :: "int option"
  js_stop_duration :: "int option"
  js_registry_auth :: "(string \<times> string) option"
  js_requirements :: Requirements
  js_retry :: "Retry option"
  js_volumes :: "MountPoint list option"
  js_working_dir :: "string option"

record SSHConnectionParams =
  sp_hostname :: string
  sp_username :: string
  sp_port :: int

text \<open>
  \<^verbatim>\<open>backend_data\<close> is a JSON object written by a backend; the modelled code reads its key
  \<^verbatim>\<open>base_backend\<close> only.
\<close>

record BackendData =
  bd_base_backend :: "BackendType option"

record JobProvisioningData =
  jpd_backend :: BackendType
  jpd_base_backend :: "BackendType option"
  jpd_instance_type :: InstanceType
  jpd_instance_id :: string
  jpd_hostname :: "string option"
  jpd_internal_ip :: "string option"
  jpd_public_ip_enabled :: bool
  jpd_instance_network :: "string option"
  jpd_region :: string
  jpd_availability_zone :: "string option"
  jpd_reservation :: "string option"
  jpd_price :: rat
  jpd_username :: string
  jpd_ssh_port :: "int option"
  jpd_dockerized :: bool
  jpd_ssh_proxy :: "SSHConnectionParams option"
  jpd_backend_data :: "BackendData option"

definition get_base_backend :: "JobProvisioningData \<Rightarrow> BackendType" where
  "get_base_backend jpd = (case jpd_base_backend jpd of Some b \<Rightarrow> b | None \<Rightarrow> jpd_backend jpd)"

datatype NetworkMode = HOST | BRIDGE

record JobRuntimeData =
  jrd_network_mode :: NetworkMode
  jrd_gpu :: "int option"
  jrd_cpu :: "rat option"
  jrd_memory :: "rat option"
  jrd_ports :: "(int \<times> int) list option"
  jrd_volume_names :: "string list option"
  jrd_offer :: "InstanceOffer option"

record ClusterInfo =
  ci_job_ips :: "string list"
  ci_master_job_ip :: string
  ci_gpus_per_job :: nat

record JobSubmission =
  sub_id :: nat
  sub_submission_num :: nat
  sub_submitted_at :: time
  sub_last_processed_at :: time
  sub_finished_at :: "time option"
  sub_inactivity_secs :: "int option"
  sub_status :: JobStatus
  sub_termination_reason :: "JobTerminationReason option"
  sub_termination_reason_message :: "string option"
  sub_job_provisioning_data :: "JobProvisioningData option"
  sub_job_runtime_data :: "JobRuntimeData option"

definition submission_age :: "time \<Rightarrow> JobSubmission \<Rightarrow> time" where
  "submission_age now s = now - sub_submitted_at s"

definition submission_duration :: "time \<Rightarrow> JobSubmission \<Rightarrow> time" where
  "submission_duration now s =
     (case sub_finished_at s of None \<Rightarrow> now | Some t \<Rightarrow> t) - sub_submitted_at s"

record Job =
  job_spec :: JobSpec
  job_submissions :: "JobSubmission list"

subsection \<open>Run specifications\<close>

record RunSpec =
  spec_run_name :: "string option"
  spec_repo_id :: "string option"
  spec_repo_data :: "string option"
  spec_repo_code_hash :: "string option"
  spec_working_dir :: "string option"
  spec_configuration_path :: "string option"
  spec_configuration :: RunConfiguration
  spec_profile :: "Profile option"
  spec_ssh_key_pub :: string
  spec_merged_profile :: Profile

text \<open>
  \<^verbatim>\<open>RunSpec._merged_profile\<close>: the parameters set in the configuration override those of the
  profile; the creation policy gets a default.
\<close>

definition over :: "'a option \<Rightarrow> 'a option \<Rightarrow> 'a option" where
  "over conf prof = (case conf of None \<Rightarrow> prof | Some x \<Rightarrow> Some x)"

definition merge_params :: "ProfileParams \<Rightarrow> ProfileParams \<Rightarrow> ProfileParams" where
  "merge_params c p = \<lparr>
     pp_backends = over (pp_backends c) (pp_backends p),
     pp_regions = over (pp_regions c) (pp_regions p),
     pp_availability_zones = over (pp_availability_zones c) (pp_availability_zones p),
     pp_instance_types = over (pp_instance_types c) (pp_instance_types p),
     pp_reservation = over (pp_reservation c) (pp_reservation p),
     pp_spot_policy = over (pp_spot_policy c) (pp_spot_policy p),
     pp_retry = over (pp_retry c) (pp_retry p),
     pp_max_duration = over (pp_max_duration c) (pp_max_duration p),
     pp_stop_duration = over (pp_stop_duration c) (pp_stop_duration p),
     pp_max_price = over (pp_max_price c) (pp_max_price p),
     pp_creation_policy = over (pp_creation_policy c) (pp_creation_policy p),
     pp_idle_duration = over (pp_idle_duration c) (pp_idle_duration p),
     pp_termination_policy = over (pp_termination_policy c) (pp_termination_policy p),
     pp_termination_idle_time = over (pp_termination_idle_time c) (pp_termination_idle_time p),
     pp_pool_name = over (pp_pool_name c) (pp_pool_name p),
     pp_instance_name = over (pp_instance_name c) (pp_instance_name p),
     pp_retry_policy = over (pp_retry_policy c) (pp_retry_policy p)\<rparr>"

definition merged_profile :: "RunConfiguration \<Rightarrow> Profile option \<Rightarrow> Profile" where
  "merged_profile conf prof =
     (let base = (case prof of Some p \<Rightarrow> p
            | None \<Rightarrow> \<lparr>pr_name = ''default'', pr_default = False, pr_params = no_params\<rparr>);
          ps = merge_params (bc_params (conf_base conf)) (pr_params base)
      in base\<lparr>pr_params := ps\<lparr>pp_creation_policy := over (pp_creation_policy ps) (Some REUSE_OR_CREATE)\<rparr>\<rparr>)"

record ServiceModelSpec =
  sm_name :: string
  sm_base_url :: string
  sm_type :: string

record ServiceSpec =
  ss_url :: string
  ss_model :: "ServiceModelSpec option"
  ss_options :: "ChatModel option"

section \<open>Rows\<close>

record JobModel =
  jm_id :: nat
  jm_project_id :: nat
  jm_run_id :: nat
  jm_run_name :: string
  jm_job_num :: nat
  jm_job_name :: string
  jm_submission_num :: nat
  jm_submitted_at :: time
  jm_last_processed_at :: time
  jm_status :: JobStatus
  jm_termination_reason :: "JobTerminationReason option"
  jm_termination_reason_message :: "string option"
  jm_job_spec :: JobSpec
  jm_job_provisioning_data :: "JobProvisioningData option"
  jm_runner_timestamp :: "int option"
  jm_inactivity_secs :: "int option"
  jm_remove_at :: "time option"
  jm_volumes_detached_at :: "time option"
  jm_instance_assigned :: bool
  jm_instance_id :: "nat option"
  jm_used_instance_id :: "nat option"
  jm_replica_num :: nat
  jm_job_runtime_data :: "JobRuntimeData option"

record RunModel =
  rm_id :: nat
  rm_deleted :: bool
  rm_project_id :: nat
  rm_user_id :: nat
  rm_repo_id :: nat
  rm_fleet_id :: "nat option"
  rm_run_name :: string
  rm_submitted_at :: time
  rm_last_processed_at :: time
  rm_status :: RunStatus
  rm_termination_reason :: "RunTerminationReason option"
  rm_run_spec :: RunSpec
  rm_service_spec :: "ServiceSpec option"
  rm_jobs :: "JobModel list"
  rm_gateway_id :: "nat option"

record SSHKey =
  sk_public :: string
  sk_private :: "string option"

record RemoteConnectionInfo =
  rci_host :: string
  rci_port :: int
  rci_ssh_user :: string
  rci_ssh_keys :: "SSHKey list"
  rci_ssh_proxy :: "SSHConnectionParams option"
  rci_ssh_proxy_keys :: "SSHKey list option"
  rci_env :: Env

record InstanceConfiguration =
  icf_project_name :: string
  icf_instance_name :: string
  icf_user :: string
  icf_ssh_keys :: "SSHKey list"
  icf_instance_id :: "string option"
  icf_placement_group_name :: "string option"
  icf_reservation :: "string option"
  icf_volumes :: "Volume list option"

definition get_public_keys :: "InstanceConfiguration \<Rightarrow> string list" where
  "get_public_keys c = map (strip \<circ> sk_public) (icf_ssh_keys c)"

text \<open>
  The association of volumes with an instance, \<^verbatim>\<open>VolumeAttachmentModel\<close>, is the list of
  volume keys of the instance row.
\<close>

record InstanceModel =
  im_id :: nat
  im_name :: string
  im_instance_num :: nat
  im_created_at :: time
  im_last_processed_at :: time
  im_deleted :: bool
  im_deleted_at :: "time option"
  im_project_id :: nat
  im_pool_id :: nat
  im_fleet_id :: "nat option"
  im_status :: InstanceStatus
  im_unreachable :: bool
  im_started_at :: "time option"
  im_finished_at :: "time option"
  im_profile :: "Profile option"
  im_requirements :: "Requirements option"
  im_instance_configuration :: "InstanceConfiguration option"
  im_termination_policy :: "TerminationPolicy option"
  im_termination_idle_time :: int
  im_last_retry_at :: "time option"
  im_termination_deadline :: "time option"
  im_termination_reason :: "string option"
  im_health_status :: "string option"
  im_first_termination_retry_at :: "time option"
  im_last_termination_retry_at :: "time option"
  im_backend :: "BackendType option"
  im_backend_data :: "string option"
  im_offer :: "InstanceOffer option"
  im_region :: "string option"
  im_price :: "rat option"
  im_job_provisioning_data :: "JobProvisioningData option"
  im_remote_connection_info :: "RemoteConnectionInfo option"
  im_total_blocks :: "int option"
  im_busy_blocks :: int
  im_last_job_processed_at :: "time option"
  im_volume_attachments :: "nat list"

section \<open>Errors shown for a run\<close>

definition get_run_job_termination_reason :: "Job list \<Rightarrow> JobTerminationReason option" where
  "get_run_job_termination_reason jobs =
     (case find (\<lambda>j. job_submissions j \<noteq> [] \<and> sub_termination_reason (last (job_submissions j)) \<noteq> None) jobs of
        None \<Rightarrow> None
      | Some j \<Rightarrow> sub_termination_reason (last (job_submissions j)))"

text \<open>The name of a job termination reason is its value in capitals.\<close>

definition job_reason_name :: "JobTerminationReason \<Rightarrow> string" where
  "job_reason_name r = map (\<lambda>c. if is_lower c then char_of ((of_char c :: nat) - 32) else c) (job_reason_value r)"

definition get_run_error :: "RunTerminationReason option \<Rightarrow> Job list \<Rightarrow> string" where
  "get_run_error reason jobs = (case reason of
      None \<Rightarrow> []
    | Some r \<Rightarrow>
        if length jobs > 1 then run_reason_name r
        else (case get_run_job_termination_reason jobs of
            Some jr \<Rightarrow>
              if r \<in> {JOB_FAILED, SERVER_ERROR, RETRY_LIMIT_EXCEEDED}
              then run_reason_name r @ [CHR 0x0A] @ ''('' @ job_reason_name jr @ '')''
              else run_reason_name r
          | None \<Rightarrow> run_reason_name r))"

section \<open>Sample rows\<close>

text \<open>Concrete values on which the theorems of the components are evaluated.\<close>

definition sample_base :: BaseRunConfiguration where
  "sample_base = \<lparr>bc_name = None, bc_image = Some ''ubuntu'', bc_user = Some ''root'', bc_privileged = False,
     bc_entrypoint = None, bc_working_dir = None, bc_home_dir = ''/root'', bc_registry_auth = None,
     bc_python = None, bc_nvcc = None, bc_single_branch = None, bc_env = [], bc_setup = [],
     bc_resources = default_resources, bc_volumes = [], bc_params = no_params\<rparr>"

definition sample_task :: RunConfiguration where
  "sample_task = TaskConfiguration sample_base \<lparr>tk_commands = [''train''], tk_ports = [], tk_nodes = 2\<rparr>"

definition sample_service_params :: ServiceParams where
  "sample_service_params = \<lparr>sv_commands = [''serve''], sv_port = \<lparr>pm_local_port = Some 80, pm_container_port = 8000\<rparr>,
     sv_gateway = None, sv_strip_prefix = True, sv_model = None, sv_https = True, sv_auth = True,
     sv_min_replicas = 1, sv_max_replicas = 4,
     sv_scaling = Some \<lparr>sc_target = 10, sc_scale_up_delay = 300, sc_scale_down_delay = 600\<rparr>\<rparr>"

definition sample_service :: RunConfiguration where
  "sample_service = ServiceConfiguration sample_base sample_service_params"

definition sample_run_spec :: "RunConfiguration \<Rightarrow> RunSpec" where
  "sample_run_spec conf = \<lparr>spec_run_name = Some ''demo'', spec_repo_id = None, spec_repo_data = None,
     spec_repo_code_hash = None, spec_working_dir = None, spec_configuration_path = None, spec_configuration = conf, spec_profile = None,
     spec_ssh_key_pub = ''ssh-rsa'', spec_merged_profile = merged_profile conf None\<rparr>"

definition sample_job_spec :: "nat \<Rightarrow> nat \<Rightarrow> JobSpec" where
  "sample_job_spec r n = \<lparr>js_replica_num = r, js_job_num = n, js_job_name = ''demo'', js_jobs_per_replica = 1,
     js_app_specs = None, js_commands = [''train''], js_env = [], js_home_dir = None, js_image_name = ''ubuntu'',
     js_user = None, js_privileged = False, js_single_branch = None, js_max_duration = None,
     js_stop_duration = Some 300, js_registry_auth = None,
     js_requirements = \<lparr>rq_resources = default_resources, rq_max_price = None, rq_spot = None, rq_reservation = None\<rparr>,
     js_retry = None, js_volumes = Some [], js_working_dir = None\<rparr>"

text \<open>A job by key, replica, number in the replica, submission and status.\<close>

definition sample_job :: "nat \<Rightarrow> nat \<Rightarrow> nat \<Rightarrow> nat \<Rightarrow> JobStatus \<Rightarrow> JobModel" where
  "sample_job i r n s st = \<lparr>jm_id = i, jm_project_id = 1, jm_run_id = 1, jm_run_name = ''demo'', jm_job_num = n,
     jm_job_name = ''demo'', jm_submission_num = s, jm_submitted_at = 0, jm_last_processed_at = 0,
     jm_status = st, jm_termination_reason = None, jm_termination_reason_message = None,
     jm_job_spec = sample_job_spec r n, jm_job_provisioning_data = None, jm_runner_timestamp = None,
     jm_inactivity_secs = None, jm_remove_at = None, jm_volumes_detached_at = None,
     jm_instance_assigned = False, jm_instance_id = None, jm_used_instance_id = None, jm_replica_num = r,
     jm_job_runtime_data = None\<rparr>"

definition sample_run :: "RunConfiguration \<Rightarrow> RunStatus \<Rightarrow> JobModel list \<Rightarrow> RunModel" where
  "sample_run conf st jobs = \<lparr>rm_id = 1, rm_deleted = False, rm_project_id = 1, rm_user_id = 1, rm_repo_id = 1,
     rm_fleet_id = None, rm_run_name = ''demo'', rm_submitted_at = 0, rm_last_processed_at = 0, rm_status = st,
     rm_termination_reason = None, rm_run_spec = sample_run_spec conf, rm_service_spec = None,
     rm_jobs = jobs, rm_gateway_id = None\<rparr>"

definition sample_jpd :: JobProvisioningData where
  "sample_jpd = \<lparr>jpd_backend = AWS, jpd_base_backend = None,
     jpd_instance_type = \<lparr>it_name = ''p3'', it_resources = \<lparr>res_cpus = 8, res_memory_mib = 1024, res_gpus = [],
        res_spot = False, res_disk_mib = 100, res_description = []\<rparr>\<rparr>,
     jpd_instance_id = ''i-1'', jpd_hostname = Some ''host'', jpd_internal_ip = Some ''10.0.0.1'',
     jpd_public_ip_enabled = True, jpd_instance_network = None, jpd_region = ''us'',
     jpd_availability_zone = None, jpd_reservation = None, jpd_price = 1, jpd_username = ''ubuntu'', jpd_ssh_port = Some 22,
     jpd_dockerized = True, jpd_ssh_proxy = None, jpd_backend_data = None\<rparr>"

definition sample_instance :: "nat \<Rightarrow> InstanceStatus \<Rightarrow> int \<Rightarrow> InstanceModel" where
  "sample_instance i st busy = \<lparr>im_id = i, im_name = ''inst'', im_instance_num = 0, im_created_at = 0,
     im_last_processed_at = 0, im_deleted = False, im_deleted_at = None, im_project_id = 1, im_pool_id = 1,
     im_fleet_id = None, im_status = st, im_unreachable = False, im_started_at = None, im_finished_at = None,
     im_profile = None, im_requirements = None, im_instance_configuration = None, im_termination_policy = None, im_termination_idle_time = 300,
     im_last_retry_at = None, im_termination_deadline = None, im_termination_reason = None,
     im_health_status = None, im_first_termination_retry_at = None, im_last_termination_retry_at = None,
     im_backend = Some AWS, im_backend_data = None, im_offer = None, im_region = Some ''us'', im_price = Some 1,
     im_job_provisioning_data = Some sample_jpd, im_remote_connection_info = None, im_total_blocks = Some 1,
     im_busy_blocks = busy, im_last_job_processed_at = None, im_volume_attachments = []\<rparr>"

definition sample_volume :: "nat \<Rightarrow> VolumeModel" where
  "sample_volume i = \<lparr>vm_id = i, vm_name = ''vol'', vm_user_id = 1, vm_project_id = 1, vm_created_at = 0, vm_last_processed_at = 0,
     vm_deleted = False, vm_deleted_at = None, vm_status = V_ACTIVE, vm_status_message = None,
     vm_configuration = \<lparr>vc_name = Some ''vol'', vc_backend = AWS, vc_region = ''us'', vc_availability_zone = None,
       vc_size = None, vc_volume_id = None\<rparr>,
     vm_provisioning_data = Some \<lparr>vpd_backend = Some AWS, vpd_volume_id = ''v-1'', vpd_size_gb = 100,
       vpd_availability_zone = None, vpd_attachable = True, vpd_detachable = True\<rparr>\<rparr>"

lemmas sample_row_simps [row_simps] = sample_jpd_def sample_instance_def sample_volume_def sample_job_def sample_run_def sample_job_spec_def

section \<open>Evaluation of the enumerations\<close>

lemma job_is_finished_simps [status_simps, simp]:
  "\<not> job_is_finished J_SUBMITTED" "\<not> job_is_finished J_PROVISIONING"
  "\<not> job_is_finished J_PULLING" "\<not> job_is_finished J_RUNNING" "\<not> job_is_finished J_TERMINATING"
  "job_is_finished J_TERMINATED" "job_is_finished J_ABORTED" "job_is_finished J_FAILED"
  "job_is_finished J_DONE"
  by (simp_all add: job_is_finished_def job_finished_statuses_def)

lemma run_is_finished_simps [status_simps, simp]:
  "\<not> run_is_finished R_PENDING" "\<not> run_is_finished R_SUBMITTED"
  "\<not> run_is_finished R_PROVISIONING" "\<not> run_is_finished R_RUNNING" "\<not> run_is_finished R_TERMINATING"
  "run_is_finished R_TERMINATED" "run_is_finished R_FAILED" "run_is_finished R_DONE"
  by (simp_all add: run_is_finished_def run_finished_statuses_def)

lemma job_reason_finished [simp]: "job_is_finished (job_reason_to_status r)"
  by (cases r) simp_all

lemma run_reason_finished [simp]: "run_is_finished (run_reason_to_status r)"
  by (cases r) simp_all

lemma set_all_job_reasons: "r \<in> set all_job_reasons"
  by (cases r) (simp_all add: all_job_reasons_def)

lemma job_reason_value_inj: "job_reason_value r = job_reason_value s \<Longrightarrow> r = s"
  by (cases r; cases s) simp_all

lemma job_reason_of_value_value: "job_reason_of_value (job_reason_value r) = Inr r"
proof -
  obtain q where "find (\<lambda>q. job_reason_value q = job_reason_value r) all_job_reasons = Some q"
    using set_all_job_reasons [of r]
    by (cases "find (\<lambda>q. job_reason_value q = job_reason_value r) all_job_reasons")
      (auto simp: find_None_iff)
  moreover from this have "q = r" by (auto simp: find_Some_iff dest: job_reason_value_inj)
  ultimately show ?thesis by (simp add: job_reason_of_value_def)
qed

end
