(* ===== verification/Autoscalers.thy ===== *)
theory Autoscalers
  imports Run_Models
begin

text \<open>
  \<^verbatim>\<open>server/services/services/autoscalers.py\<close>: how many replicas of a service to add or
  remove. A scaler is a value with its parameters, as the two classes of the source; the
  locale \<open>service_scaler\<close> is the contract of \<^verbatim>\<open>BaseServiceScaler.scale\<close> on which the processing
  of runs relies, and both classes are interpretations of it. Request rates and targets are
  exact rationals where the code has floating point.
\<close>

section \<open>Data\<close>

record ReplicaInfo =
  ri_active :: bool
  ri_timestamp :: time

record Stat =
  st_requests :: nat
  st_request_time :: rat

text \<open>\<^verbatim>\<open>PerWindowStats\<close>: statistics by the length of the window in seconds.\<close>

type_synonym PerWindowStats = "(nat \<times> Stat) list"

definition active_replicas :: "ReplicaInfo list \<Rightarrow> ReplicaInfo list" where
  "active_replicas replicas = filter ri_active replicas"

definition active_count :: "ReplicaInfo list \<Rightarrow> int" where
  "active_count replicas = int (length (active_replicas replicas))"

definition clip_replicas :: "int \<Rightarrow> int \<Rightarrow> int \<Rightarrow> int" where
  "clip_replicas min_replicas max_replicas n = min (max n min_replicas) max_replicas"

section \<open>Scalers\<close>

record ManualScaler =
  ms_min_replicas :: int
  ms_max_replicas :: int

definition ManualScaler_scale ::
    "ManualScaler \<Rightarrow> time \<Rightarrow> ReplicaInfo list \<Rightarrow> PerWindowStats option \<Rightarrow> int result" where
  "ManualScaler_scale self now replicas stats =
     (let target_replicas = active_count replicas;
          target_replicas = clip_replicas (ms_min_replicas self) (ms_max_replicas self) target_replicas
      in Inr (target_replicas - active_count replicas))"

record RPSAutoscaler =
  rs_min_replicas :: int
  rs_max_replicas :: int
  rs_target :: rat
  rs_scale_up_delay :: int
  rs_scale_down_delay :: int

definition last_scaled_at :: "ReplicaInfo list \<Rightarrow> time option" where
  "last_scaled_at replicas =
     (if replicas = [] then None else Some (Max (ri_timestamp ` set replicas)))"

text \<open>\<^verbatim>\<open>last_scaled_at is not None and (now - last_scaled_at).total_seconds() < delay\<close>\<close>

definition too_early :: "time \<Rightarrow> ReplicaInfo list \<Rightarrow> int \<Rightarrow> bool" where
  "too_early now replicas delay = (case last_scaled_at replicas of
      None \<Rightarrow> False | Some t \<Rightarrow> now - t < seconds delay)"

definition rps_target :: "RPSAutoscaler \<Rightarrow> Stat \<Rightarrow> int" where
  "rps_target self s =
     clip_replicas (rs_min_replicas self) (rs_max_replicas self)
       \<lceil>(of_nat (st_requests s) / 60) / rs_target self\<rceil>"

definition RPSAutoscaler_scale ::
    "RPSAutoscaler \<Rightarrow> time \<Rightarrow> ReplicaInfo list \<Rightarrow> PerWindowStats option \<Rightarrow> int result" where
  "RPSAutoscaler_scale self now replicas stats = (case stats of
      None \<Rightarrow> Inr 0
    | Some [] \<Rightarrow> Inr 0
    | Some ws \<Rightarrow> (case map_of ws 60 of
        None \<Rightarrow> Inl KeyError
      | Some s \<Rightarrow>
          if rs_target self = 0 then Inl ZeroDivisionError
          else let target_replicas = rps_target self s; n = active_count replicas in
            if target_replicas > n then
              if n = 0 then Inr target_replicas
              else if too_early now replicas (rs_scale_up_delay self) then Inr 0
              else Inr (target_replicas - n)
            else if target_replicas < n then
              if too_early now replicas (rs_scale_down_delay self) then Inr 0
              else Inr (target_replicas - n)
            else Inr 0))"

datatype BaseServiceScaler = Manual ManualScaler | RPS RPSAutoscaler

fun scale :: "BaseServiceScaler \<Rightarrow> time \<Rightarrow> ReplicaInfo list \<Rightarrow> PerWindowStats option \<Rightarrow> int result" where
  "scale (Manual s) = ManualScaler_scale s"
| "scale (RPS s) = RPSAutoscaler_scale s"

text \<open>
  \<^verbatim>\<open>ScalingSpec.metric\<close> has the single value \<^verbatim>\<open>rps\<close>, so the last \<^verbatim>\<open>raise\<close> of the source
  has no configuration that reaches it.
\<close>

definition get_service_scaler :: "ServiceParams \<Rightarrow> BaseServiceScaler" where
  "get_service_scaler conf = (case sv_scaling conf of
      None \<Rightarrow> Manual \<lparr>ms_min_replicas = sv_min_replicas conf, ms_max_replicas = sv_max_replicas conf\<rparr>
    | Some sc \<Rightarrow> RPS \<lparr>rs_min_replicas = sv_min_replicas conf, rs_max_replicas = sv_max_replicas conf,
        rs_target = sc_target sc, rs_scale_up_delay = sc_scale_up_delay sc,
        rs_scale_down_delay = sc_scale_down_delay sc\<rparr>)"

section \<open>The contract of a scaler\<close>

locale service_scaler =
  fixes scaler :: "time \<Rightarrow> ReplicaInfo list \<Rightarrow> PerWindowStats option \<Rightarrow> int result"
    and lo hi :: int
  assumes in_bounds:
    "lo \<le> hi \<Longrightarrow> scaler now replicas stats = Inr d \<Longrightarrow> d \<noteq> 0 \<Longrightarrow>
     lo \<le> active_count replicas + d \<and> active_count replicas + d \<le> hi"
begin

lemma no_scale_down_below_min:
  "lo \<le> hi \<Longrightarrow> scaler now replicas stats = Inr d \<Longrightarrow> d < 0 \<Longrightarrow> \<not> active_count replicas + d < lo"
  using in_bounds by fastforce

lemma no_scale_up_above_max:
  "lo \<le> hi \<Longrightarrow> scaler now replicas stats = Inr d \<Longrightarrow> 0 < d \<Longrightarrow> \<not> active_count replicas + d > hi"
  using in_bounds by fastforce

text \<open>With no active replica a nonnegative minimum gives a nonnegative answer.\<close>

lemma initial_nonneg:
  assumes "lo \<le> hi" and "0 \<le> lo" and "scaler now [] stats = Inr d"
  shows "0 \<le> d \<and> (d \<noteq> 0 \<longrightarrow> lo \<le> d \<and> d \<le> hi)"
  using assms in_bounds [of now "[]" stats d]
  by (cases "d = 0") (auto simp: active_count_def active_replicas_def)

end

lemma clip_bounds:
  "lo \<le> hi \<Longrightarrow> lo \<le> clip_replicas lo hi n"
  "clip_replicas lo hi n \<le> hi"
  by (auto simp: clip_replicas_def)

interpretation manual: service_scaler "ManualScaler_scale s" "ms_min_replicas s" "ms_max_replicas s" for s
  by unfold_locales (auto simp: ManualScaler_scale_def Let_def clip_bounds)

lemma rps_nonzero:
  assumes "RPSAutoscaler_scale self now replicas stats = Inr d" and "d \<noteq> 0"
  obtains s where "active_count replicas + d = rps_target self s"
    and "map_of (the stats) 60 = Some s" and "rs_target self \<noteq> 0"
  using assms
  by (auto simp: RPSAutoscaler_scale_def Let_def split: option.splits list.splits if_splits)

interpretation rps: service_scaler "RPSAutoscaler_scale s" "rs_min_replicas s" "rs_max_replicas s" for s
proof
  fix now replicas stats d
  assume *: "rs_min_replicas s \<le> rs_max_replicas s" "RPSAutoscaler_scale s now replicas stats = Inr d" "d \<noteq> 0"
  then obtain st where "active_count replicas + d = rps_target s st"
    by (auto elim: rps_nonzero)
  with *(1) show "rs_min_replicas s \<le> active_count replicas + d \<and> active_count replicas + d \<le> rs_max_replicas s"
    by (simp add: rps_target_def clip_bounds)
qed

lemma rps_eval:
  assumes "map_of ws 60 = Some s" and "rs_target self \<noteq> 0"
  shows "RPSAutoscaler_scale self now replicas (Some ws) =
     (let t = rps_target self s; n = active_count replicas in
       if t > n then if n = 0 then Inr t
         else if too_early now replicas (rs_scale_up_delay self) then Inr 0 else Inr (t - n)
       else if t < n then
         if too_early now replicas (rs_scale_down_delay self) then Inr 0 else Inr (t - n)
       else Inr 0)"
  using assms by (cases ws) (auto simp: RPSAutoscaler_scale_def)

interpretation conf_scaler: service_scaler "scale (get_service_scaler conf)" "sv_min_replicas conf"
  "sv_max_replicas conf" for conf
proof
  fix now replicas stats d
  assume *: "sv_min_replicas conf \<le> sv_max_replicas conf"
    "scale (get_service_scaler conf) now replicas stats = Inr d" "d \<noteq> 0"
  show "sv_min_replicas conf \<le> active_count replicas + d \<and> active_count replicas + d \<le> sv_max_replicas conf"
  proof (cases "get_service_scaler conf")
    case (Manual s)
    with manual.in_bounds [of s now replicas stats d] * show ?thesis
      by (auto simp: get_service_scaler_def split: option.splits)
  next
    case (RPS s)
    with rps.in_bounds [of s now replicas stats d] * show ?thesis
      by (auto simp: get_service_scaler_def split: option.splits)
  qed
qed

section \<open>Properties\<close>

text \<open>
  C32. The scaler of a service whose replica range is proper never asks for a number of
  active replicas outside the range: a nonzero answer leads to a count in it.
\<close>

theorem scaler_in_bounds:
  assumes "sv_min_replicas conf \<le> sv_max_replicas conf"
    and "scale (get_service_scaler conf) now replicas stats = Inr d" and "d \<noteq> 0"
  shows "sv_min_replicas conf \<le> active_count replicas + d \<and> active_count replicas + d \<le> sv_max_replicas conf"
  using assms by (rule conf_scaler.in_bounds)

definition demo_replicas :: "ReplicaInfo list" where
  "demo_replicas = [\<lparr>ri_active = True, ri_timestamp = 0\<rparr>, \<lparr>ri_active = False, ri_timestamp = seconds 5\<rparr>]"

lemma demo_scale:
  "scale (get_service_scaler sample_service_params) (seconds 1000) demo_replicas
     (Some [(60, \<lparr>st_requests = 1500, st_request_time = 1\<rparr>)]) = Inr 2"
  by code_simp

theorem scaler_in_bounds_witness:
  "sv_min_replicas sample_service_params \<le> active_count demo_replicas + 2 \<and>
   active_count demo_replicas + 2 \<le> sv_max_replicas sample_service_params"
  by (rule scaler_in_bounds [OF _ demo_scale]) (simp_all add: sample_service_params_def)

text \<open>
  The behaviour of the request-rate autoscaler with statistics for the last minute and a
  positive target. Without active replicas it answers the clipped target at once. Otherwise it
  closes the gap to the clipped target, unless a replica was started or stopped within the delay
  of that direction, in which case it changes nothing. The unclipped target is the least number
  of replicas whose capacity is at least the rate.
\<close>

theorem rps_autoscaler_correct:
  assumes "map_of ws 60 = Some s" and "rs_target self > 0"
  shows "(let n = active_count replicas; t = rps_target self s;
            r = RPSAutoscaler_scale self now replicas (Some ws) in
      (n = 0 \<and> t > 0 \<longrightarrow> r = Inr t) \<and>
      (n > 0 \<and> t > n \<longrightarrow> r = Inr (if too_early now replicas (rs_scale_up_delay self) then 0 else t - n)) \<and>
      (t < n \<longrightarrow> r = Inr (if too_early now replicas (rs_scale_down_delay self) then 0 else t - n)) \<and>
      (t = n \<longrightarrow> r = Inr 0)) \<and>
    (\<exists>need. rps_target self s = clip_replicas (rs_min_replicas self) (rs_max_replicas self) need \<and>
      (\<forall>k. need \<le> k \<longleftrightarrow> of_nat (st_requests s) / 60 \<le> of_int k * rs_target self))"
proof -
  have n: "active_count replicas \<ge> 0" by (simp add: active_count_def)
  have t: "rs_target self \<noteq> 0" using assms(2) by simp
  let ?need = "\<lceil>(of_nat (st_requests s) / 60) / rs_target self\<rceil>"
  have "\<forall>k. ?need \<le> k \<longleftrightarrow> of_nat (st_requests s) / 60 \<le> of_int k * rs_target self"
    using assms(2) by (simp add: ceiling_le_iff pos_divide_le_eq ac_simps)
  then have "\<exists>need. rps_target self s = clip_replicas (rs_min_replicas self) (rs_max_replicas self) need \<and>
      (\<forall>k. need \<le> k \<longleftrightarrow> of_nat (st_requests s) / 60 \<le> of_int k * rs_target self)"
    unfolding rps_target_def by blast
  then show ?thesis
    using n by (simp add: rps_eval [OF assms(1) t] Let_def)
qed

definition demo_rps :: RPSAutoscaler where
  "demo_rps = \<lparr>rs_min_replicas = 0, rs_max_replicas = 5, rs_target = 10, rs_scale_up_delay = 300,
     rs_scale_down_delay = 600\<rparr>"

theorem rps_autoscaler_correct_witness:
  "RPSAutoscaler_scale demo_rps 0 [] (Some [(60, \<lparr>st_requests = 1500, st_request_time = 1\<rparr>)]) = Inr 3"
proof -
  have t: "rps_target demo_rps \<lparr>st_requests = 1500, st_request_time = 1\<rparr> = 3" by code_simp
  show ?thesis
    using rps_autoscaler_correct [of "[(60, \<lparr>st_requests = 1500, st_request_time = 1\<rparr>)]"
        "\<lparr>st_requests = 1500, st_request_time = 1\<rparr>" demo_rps "[]" 0]
    by (simp add: t Let_def active_count_def active_replicas_def demo_rps_def [THEN arg_cong, of rs_target])
qed

text \<open>
  A scaling target of zero, which the configuration model accepts, makes every scaling step
  with statistics fail with a division by zero.
\<close>

theorem rps_zero_target:
  "RPSAutoscaler_scale (self\<lparr>rs_target := 0\<rparr>) now replicas (Some [(60, s)]) = Inl ZeroDivisionError"
  by (simp add: RPSAutoscaler_scale_def)

end
