(* ===== verification/Services.thy ===== *)
theory Services
  imports Autoscalers
begin

text \<open>
  \<^verbatim>\<open>server/services/services/__init__.py\<close> and \<^verbatim>\<open>options.py\<close>: registration of a service
  and of its replicas. A gateway's HTTP client is outside the server: the parameter \<open>request\<close> is the
  outcome of opening the connection and of the one request a function makes, an error being the
  exception it raises. \<open>tokenizer_config\<close> is the answer of the Hugging Face hub.
\<close>

datatype GatewayStatus = G_SUBMITTED | G_PROVISIONING | G_RUNNING | G_FAILED

datatype GatewayCertificate = LetsEncrypt | ACM string

record GatewayModel =
  gw_id :: nat
  gw_name :: string
  gw_project_id :: nat
  gw_wildcard_domain :: "string option"
  gw_certificate :: "GatewayCertificate option"
  gw_status :: GatewayStatus
  gw_compute_id :: "nat option"

section \<open>Models of a service\<close>

definition dict_get :: "(string \<times> 'v) list \<Rightarrow> string \<Rightarrow> 'v result" where
  "dict_get d k = (case map_of d k of None \<Rightarrow> Inl KeyError | Some v \<Rightarrow> Inr v)"

definition complete_service_model ::
    "(string \<Rightarrow> string option \<Rightarrow> (string \<times> string) list result) \<Rightarrow> ChatModel \<Rightarrow> (string \<times> string) list
     \<Rightarrow> ChatModel result" where
  "complete_service_model tokenizer_config model_info env = (case model_info of
      TGIChatModel name chat_template eos_token \<Rightarrow>
        if chat_template = None \<or> eos_token = None then
          let hf_token = (case map_of env ''HF_TOKEN'' of Some t \<Rightarrow> Some t
                          | None \<Rightarrow> map_of env ''HUGGING_FACE_HUB_TOKEN'') in
          bindE (tokenizer_config name hf_token) (\<lambda>config.
          bindE (case chat_template of Some t \<Rightarrow> Inr t | None \<Rightarrow> dict_get config ''chat_template'') (\<lambda>t.
          bindE (case eos_token of Some e \<Rightarrow> Inr e | None \<Rightarrow> dict_get config ''eos_token'') (\<lambda>e.
          Inr (TGIChatModel name (Some t) (Some e)))))
        else Inr model_info
    | OpenAIChatModel _ _ \<Rightarrow> Inr model_info)"

definition get_service_options ::
    "(string \<Rightarrow> string option \<Rightarrow> (string \<times> string) list result) \<Rightarrow> BaseRunConfiguration \<Rightarrow> ServiceParams
     \<Rightarrow> ChatModel option result" where
  "get_service_options tokenizer_config base conf = (case sv_model conf of
      None \<Rightarrow> Inr None
    | Some m \<Rightarrow> bindE (as_dict (bc_env base)) (\<lambda>env.
        fmapE Some (complete_service_model tokenizer_config m env)))"

definition get_service_spec ::
    "(string \<Rightarrow> string option \<Rightarrow> (string \<times> string) list result) \<Rightarrow> BaseRunConfiguration \<Rightarrow> ServiceParams
     \<Rightarrow> string \<Rightarrow> string \<Rightarrow> ServiceSpec result" where
  "get_service_spec tokenizer_config base conf service_url model_url = (case sv_model conf of
      None \<Rightarrow> Inr \<lparr>ss_url = service_url, ss_model = None, ss_options = None\<rparr>
    | Some m \<Rightarrow> bindE (get_service_options tokenizer_config base conf) (\<lambda>opts.
        Inr \<lparr>ss_url = service_url,
          ss_model = Some \<lparr>sm_name = model_name m, sm_base_url = model_url, sm_type = ''chat''\<rparr>,
          ss_options = opts\<rparr>))"

section \<open>Registering a service\<close>

definition get_service_https :: "ServiceParams \<Rightarrow> GatewayCertificate option \<Rightarrow> bool" where
  "get_service_https conf certificate =
     (sv_https conf \<and> (case certificate of Some (ACM _) \<Rightarrow> False | _ \<Rightarrow> True))"

definition get_gateway_https :: "GatewayCertificate option \<Rightarrow> bool" where
  "get_gateway_https certificate = (case certificate of Some LetsEncrypt \<Rightarrow> True | _ \<Rightarrow> False)"

definition protocol :: "bool \<Rightarrow> string" where
  "protocol https = (if https then ''https'' else ''http'')"

text \<open>The exceptions of the registration request.\<close>

definition register_request :: "unit result \<Rightarrow> unit result" where
  "register_request request = (case request of
      Inr _ \<Rightarrow> Inr ()
    | Inl e \<Rightarrow> if e = SSHError then Inl (ServerClientError ''Gateway tunnel is not working'')
        else if e = RequestError then Inl (GatewayError ''Gateway is not working'')
        else Inl e)"

definition register_service_in_gateway ::
    "(string \<Rightarrow> string option \<Rightarrow> (string \<times> string) list result) \<Rightarrow> unit result \<Rightarrow> string
     \<Rightarrow> BaseRunConfiguration \<Rightarrow> ServiceParams \<Rightarrow> GatewayModel \<Rightarrow> ServiceSpec result" where
  "register_service_in_gateway tokenizer_config request run_name base conf gateway =
     (if gw_compute_id gateway = None then Inl (ServerClientError ''Gateway has no instance associated with it'')
      else if gw_status gateway \<noteq> G_RUNNING then Inl (ServerClientError ''Gateway status is not running'')
      else let service_https = get_service_https conf (gw_certificate gateway) in
        if service_https \<and> gw_certificate gateway = None
        then Inl (ServerClientError ''Cannot run HTTPS service on gateway with no SSL certificates configured'')
        else (case gw_wildcard_domain gateway of
            None \<Rightarrow> Inl (ServerClientError ''Domain is required for gateway'')
          | Some [] \<Rightarrow> Inl (ServerClientError ''Domain is required for gateway'')
          | Some d \<Rightarrow>
              let domain = dropWhile (\<lambda>c. c \<in> set ''*.'') d;
                  url = protocol service_https @ ''://'' @ run_name @ ''.'' @ domain;
                  model_url = protocol (get_gateway_https (gw_certificate gateway)) @ ''://gateway.'' @ domain in
              bindE (get_service_spec tokenizer_config base conf url model_url) (\<lambda>spec.
              bindE (register_request request) (\<lambda>_. Inr spec))))"

definition register_service_in_server ::
    "(string \<Rightarrow> string option \<Rightarrow> (string \<times> string) list result) \<Rightarrow> string \<Rightarrow> string
     \<Rightarrow> BaseRunConfiguration \<Rightarrow> ServiceParams \<Rightarrow> ServiceSpec result" where
  "register_service_in_server tokenizer_config project_name run_name base conf =
     (if \<not> sv_https conf then Inl (ServerClientError ''https'')
      else if sv_min_replicas conf \<noteq> sv_max_replicas conf then Inl (ServerClientError ''auto-scaling'')
      else get_service_spec tokenizer_config base conf
        (''/proxy/services/'' @ project_name @ ''/'' @ run_name @ ''/'')
        (''/proxy/models/'' @ project_name @ ''/''))"

text \<open>\<^verbatim>\<open>register_service\<close>: the gateway it registers with and the specification it stores.\<close>

definition register_service ::
    "(string \<Rightarrow> string option \<Rightarrow> (string \<times> string) list result) \<Rightarrow> unit result \<Rightarrow> bool
     \<Rightarrow> GatewayModel list \<Rightarrow> nat option \<Rightarrow> string \<Rightarrow> RunModel \<Rightarrow> RunConfiguration \<Rightarrow> RunModel result" where
  "register_service tokenizer_config request forbid_without_gateway gateways default_gateway project_name run conf =
     (case conf of
        ServiceConfiguration base sv \<Rightarrow>
          bindE (case sv_gateway sv of
              Some (GatewayName n) \<Rightarrow>
                (case find (\<lambda>g. gw_project_id g = rm_project_id run \<and> gw_name g = n) gateways of
                   None \<Rightarrow> Inl ResourceNotExistsError | Some g \<Rightarrow> Inr (Some g))
            | Some (GatewayBool False) \<Rightarrow> Inr None
            | _ \<Rightarrow> Inr (case default_gateway of None \<Rightarrow> None | Some i \<Rightarrow> find (\<lambda>g. gw_id g = i) gateways))
          (\<lambda>gateway. case gateway of
              Some g \<Rightarrow>
                bindE (register_service_in_gateway tokenizer_config request (rm_run_name run) base sv g)
                  (\<lambda>spec. Inr (run\<lparr>rm_gateway_id := Some (gw_id g), rm_service_spec := Some spec\<rparr>))
            | None \<Rightarrow>
                if \<not> forbid_without_gateway then
                  bindE (register_service_in_server tokenizer_config project_name (rm_run_name run) base sv)
                    (\<lambda>spec. Inr (run\<lparr>rm_service_spec := Some spec\<rparr>))
                else Inl ResourceNotExistsError)
      | _ \<Rightarrow> Inl AssertionError)"

section \<open>Replicas\<close>

text \<open>The translation of the exceptions of a request, with or without ignoring gateway errors.\<close>

definition gateway_request :: "bool \<Rightarrow> unit result \<Rightarrow> unit result" where
  "gateway_request ignore_gateway_error request = (case request of
      Inr _ \<Rightarrow> Inr ()
    | Inl (GatewayError m) \<Rightarrow> if ignore_gateway_error then Inr () else Inl (GatewayError m)
    | Inl RequestError \<Rightarrow> Inl (GatewayError ''request'')
    | Inl SSHError \<Rightarrow> Inl (GatewayError ''request'')
    | Inl e \<Rightarrow> Inl e)"

definition register_replica :: "unit result \<Rightarrow> nat option \<Rightarrow> unit result" where
  "register_replica request gateway_id =
     (case gateway_id of None \<Rightarrow> Inr () | Some _ \<Rightarrow> gateway_request False request)"

definition unregister_service :: "unit result \<Rightarrow> RunModel \<Rightarrow> unit result" where
  "unregister_service request run =
     (case rm_gateway_id run of None \<Rightarrow> Inr () | Some _ \<Rightarrow> gateway_request True request)"

definition unregister_replica :: "unit result \<Rightarrow> RunModel \<Rightarrow> unit result" where
  "unregister_replica request run =
     (case rm_gateway_id run of None \<Rightarrow> Inr () | Some _ \<Rightarrow> gateway_request True request)"

text \<open>A registered service has a gateway or is served from the server.\<close>

lemma register_service_cases:
  assumes "register_service tc request forbid gateways default_gw project run (ServiceConfiguration base sv) = Inr run'"
  shows "(\<exists>g spec. g \<in> set gateways \<and> register_service_in_gateway tc request (rm_run_name run) base sv g = Inr spec
      \<and> run' = run\<lparr>rm_gateway_id := Some (gw_id g), rm_service_spec := Some spec\<rparr>)
    \<or> (\<exists>spec. \<not> forbid \<and> register_service_in_server tc project (rm_run_name run) base sv = Inr spec
      \<and> run' = run\<lparr>rm_service_spec := Some spec\<rparr>)"
  using assms
  by (auto simp: register_service_def bindE_Inr_conv find_Some_iff
      split: option.split_asm gateway_ref.split_asm bool.split_asm if_split_asm)
    (metis find_Some_iff nth_mem)+

lemma register_service_rest:
  assumes "register_service tc rq forbid gws dg project run conf = Inr run'"
  shows "run' = run\<lparr>rm_gateway_id := rm_gateway_id run', rm_service_spec := rm_service_spec run'\<rparr>"
proof -
  obtain base sv where conf: "conf = ServiceConfiguration base sv"
    using assms by (cases conf) (auto simp: register_service_def)
  from register_service_cases [OF assms [unfolded conf]] show ?thesis by auto
qed

section \<open>Properties\<close>

lemma get_service_spec_url:
  "get_service_spec tc base conf url model_url = Inr spec \<Longrightarrow> ss_url spec = url"
  by (auto simp: get_service_spec_def bindE_Inr_conv split: option.split_asm)

lemma register_request_Inr: "register_request r = Inr u \<longleftrightarrow> r = Inr ()"
  by (cases r) (simp_all add: register_request_def)

lemma register_in_gateway_ok:
  assumes "register_service_in_gateway tc request name base sv g = Inr spec"
  shows "gw_status g = G_RUNNING \<and> gw_compute_id g \<noteq> None \<and> request = Inr () \<and>
    (\<exists>d. gw_wildcard_domain g = Some d \<and>
      ss_url spec = protocol (get_service_https sv (gw_certificate g)) @ ''://'' @
        name @ ''.'' @ dropWhile (\<lambda>c. c \<in> set ''*.'') d)"
  using assms
  by (auto simp: register_service_in_gateway_def Let_def bindE_Inr_conv register_request_Inr
      dest!: get_service_spec_url split: if_split_asm option.split_asm list.split_asm)

lemma register_in_server_ok:
  assumes "register_service_in_server tc project name base sv = Inr spec"
  shows "sv_min_replicas sv = sv_max_replicas sv
    \<and> ss_url spec = ''/proxy/services/'' @ project @ ''/'' @ name @ ''/''"
  using assms
  by (auto simp: register_service_in_server_def dest: get_service_spec_url split: if_split_asm)

text \<open>
  A service that \<^verbatim>\<open>register_service\<close> accepts without a gateway has a fixed number of
  replicas and is served from the server's own proxy; with a gateway, the gateway is running, has an
  instance, and its address is the run name under the gateway's domain. Nothing but the gateway and
  the specification of the run row changes.
\<close>

theorem register_service_correct:
  assumes "register_service tc request forbid gateways default_gw project run conf = Inr run'"
  shows "\<exists>base sv. conf = ServiceConfiguration base sv \<and>
    (\<exists>spec. run' = run\<lparr>rm_gateway_id := rm_gateway_id run', rm_service_spec := Some spec\<rparr> \<and>
      (rm_gateway_id run' = rm_gateway_id run \<and> \<not> forbid \<and> sv_min_replicas sv = sv_max_replicas sv
         \<and> ss_url spec = ''/proxy/services/'' @ project @ ''/'' @ rm_run_name run @ ''/''
       \<or> (\<exists>g \<in> set gateways. rm_gateway_id run' = Some (gw_id g) \<and> gw_status g = G_RUNNING
            \<and> gw_compute_id g \<noteq> None \<and> request = Inr ()
            \<and> (\<exists>d. gw_wildcard_domain g = Some d \<and>
                 ss_url spec = protocol (get_service_https sv (gw_certificate g)) @ ''://'' @
                   rm_run_name run @ ''.'' @ dropWhile (\<lambda>c. c \<in> set ''*.'') d))))"
proof -
  obtain base sv where conf: "conf = ServiceConfiguration base sv"
    using assms by (cases conf) (auto simp: register_service_def)
  from assms have cases: "(\<exists>g spec. g \<in> set gateways \<and> register_service_in_gateway tc request (rm_run_name run) base sv g = Inr spec
      \<and> run' = run\<lparr>rm_gateway_id := Some (gw_id g), rm_service_spec := Some spec\<rparr>)
    \<or> (\<exists>spec. \<not> forbid \<and> register_service_in_server tc project (rm_run_name run) base sv = Inr spec
      \<and> run' = run\<lparr>rm_service_spec := Some spec\<rparr>)"
    unfolding conf by (rule register_service_cases)
  then consider
    (gateway) g spec where "g \<in> set gateways" "register_service_in_gateway tc request (rm_run_name run) base sv g = Inr spec"
      "run' = run\<lparr>rm_gateway_id := Some (gw_id g), rm_service_spec := Some spec\<rparr>"
  | (server) spec where "\<not> forbid" "register_service_in_server tc project (rm_run_name run) base sv = Inr spec"
      "run' = run\<lparr>rm_service_spec := Some spec\<rparr>"
    by blast
  then show ?thesis
  proof cases
    case gateway
    with register_in_gateway_ok [OF gateway(2)] show ?thesis unfolding conf by auto
  next
    case server
    with register_in_server_ok [OF server(2)] show ?thesis unfolding conf by auto
  qed
qed

definition demo_gateway :: GatewayModel where
  "demo_gateway = \<lparr>gw_id = 7, gw_name = ''gw'', gw_project_id = 1, gw_wildcard_domain = Some ''*.example.com'',
     gw_certificate = Some LetsEncrypt, gw_status = G_RUNNING, gw_compute_id = Some 1\<rparr>"

definition demo_registered :: RunModel where
  "demo_registered = (sample_run sample_service R_SUBMITTED [])\<lparr>rm_gateway_id := Some 7,
     rm_service_spec := Some \<lparr>ss_url = ''https://demo.example.com'', ss_model = None, ss_options = None\<rparr>\<rparr>"

lemma demo_register:
  "register_service (\<lambda>_ _. Inl KeyError) (Inr ()) False [demo_gateway] (Some 7) ''main''
     (sample_run sample_service R_SUBMITTED []) sample_service = Inr demo_registered"
  by (simp add: register_service_def sample_service_def sample_service_params_def demo_gateway_def
      demo_registered_def register_service_in_gateway_def get_service_spec_def get_service_https_def
      protocol_def register_request_def row_simps)

theorem register_service_correct_witness:
  "\<exists>base sv. sample_service = ServiceConfiguration base sv \<and>
    (\<exists>spec. demo_registered = (sample_run sample_service R_SUBMITTED [])\<lparr>rm_gateway_id := Some 7, rm_service_spec := Some spec\<rparr>)"
proof -
  have gw: "rm_gateway_id demo_registered = Some 7" by (simp add: demo_registered_def)
  from register_service_correct [OF demo_register, unfolded gw] show ?thesis by blast
qed

end
