(* ===== verification/Jobs.thy ===== *)
theory Jobs
  imports Services
begin

text \<open>
  \<^verbatim>\<open>server/services/jobs/__init__.py\<close>, the part on job rows: their view as submissions, the
  grouping of a run's jobs by replica with the latest submission of each, and the volumes of a job.
\<close>

section \<open>Submissions\<close>

text \<open>
  \<^verbatim>\<open>get_job_provisioning_data\<close> as the submission shows it. For the marketplace backend the shown
  backend is the base backend of \<^verbatim>\<open>backend_data\<close>; a missing key raises.
\<close>

definition shown_provisioning_data :: "JobModel \<Rightarrow> JobProvisioningData option result" where
  "shown_provisioning_data j = (case jm_job_provisioning_data j of
      None \<Rightarrow> Inr None
    | Some jpd \<Rightarrow>
        if jpd_backend jpd = DSTACK then
          (case jpd_backend_data jpd of
             None \<Rightarrow> Inr (Some jpd)
           | Some d \<Rightarrow> (case bd_base_backend d of
               None \<Rightarrow> Inl KeyError
             | Some b \<Rightarrow> Inr (Some (jpd\<lparr>jpd_backend := b\<rparr>))))
        else Inr (Some jpd))"

definition job_model_to_job_submission :: "JobModel \<Rightarrow> JobSubmission result" where
  "job_model_to_job_submission j =
     bindE (shown_provisioning_data j) (\<lambda>jpd. Inr \<lparr>
       sub_id = jm_id j, sub_submission_num = jm_submission_num j, sub_submitted_at = jm_submitted_at j,
       sub_last_processed_at = jm_last_processed_at j,
       sub_finished_at = (if job_is_finished (jm_status j) then Some (jm_last_processed_at j) else None),
       sub_inactivity_secs = jm_inactivity_secs j, sub_status = jm_status j,
       sub_termination_reason = jm_termination_reason j,
       sub_termination_reason_message = jm_termination_reason_message j,
       sub_job_provisioning_data = jpd, sub_job_runtime_data = jm_job_runtime_data j\<rparr>)"

definition find_job :: "Job list \<Rightarrow> nat \<Rightarrow> nat \<Rightarrow> Job result" where
  "find_job jobs replica_num job_num =
     (case find (\<lambda>j. js_replica_num (job_spec j) = replica_num \<and> js_job_num (job_spec j) = job_num) jobs of
        Some j \<Rightarrow> Inr j | None \<Rightarrow> Inl ResourceNotExistsError)"

text \<open>
  \<^verbatim>\<open>get_run_job_model\<close>: of the non-deleted runs of the project with the name, the job with the
  numbers and the greatest submission number.
\<close>

definition get_run_job_model :: "RunModel list \<Rightarrow> nat \<Rightarrow> string \<Rightarrow> nat \<Rightarrow> nat \<Rightarrow> JobModel option" where
  "get_run_job_model runs project_id run_name replica_num job_num =
     (let jobs = [j. r \<leftarrow> runs, rm_project_id r = project_id \<and> rm_run_name r = run_name \<and> \<not> rm_deleted r,
                     j \<leftarrow> rm_jobs r, jm_replica_num j = replica_num \<and> jm_job_num j = job_num]
      in case rev (sort_key jm_submission_num jobs) of [] \<Rightarrow> None | j # _ \<Rightarrow> Some j)"

definition delay_job_instance_termination :: "time \<Rightarrow> JobModel \<Rightarrow> JobModel" where
  "delay_job_instance_termination now j = j\<lparr>jm_remove_at := Some (now + seconds 15)\<rparr>"

section \<open>The latest submission of each job\<close>

definition job_key :: "JobModel \<Rightarrow> nat \<times> nat \<times> nat" where
  "job_key j = (jm_replica_num j, jm_job_num j, jm_submission_num j)"

definition group_jobs_by_replica_latest :: "JobModel list \<Rightarrow> (nat \<times> JobModel list) list" where
  "group_jobs_by_replica_latest jobs =
     map (\<lambda>(replica_num, all_replica_jobs).
            (replica_num, map (\<lambda>(job_num, job_submissions). last job_submissions)
                            (groupby jm_job_num all_replica_jobs)))
       (groupby jm_replica_num (sort_key job_key jobs))"

section \<open>Volumes of a job\<close>

text \<open>\<^verbatim>\<open>list_project_volume_models\<close> and \<^verbatim>\<open>get_project_volume_model_by_name\<close>\<close>

definition list_project_volume_models :: "VolumeModel list \<Rightarrow> nat \<Rightarrow> string list option \<Rightarrow> bool \<Rightarrow> VolumeModel list" where
  "list_project_volume_models volumes project_id names include_deleted =
     filter (\<lambda>v. vm_project_id v = project_id
       \<and> (case names of None \<Rightarrow> True | Some ns \<Rightarrow> vm_name v \<in> set ns)
       \<and> (include_deleted \<or> \<not> vm_deleted v)) volumes"

definition get_project_volume_model_by_name :: "VolumeModel list \<Rightarrow> nat \<Rightarrow> string \<Rightarrow> VolumeModel option" where
  "get_project_volume_model_by_name volumes project_id name =
     find (\<lambda>v. vm_name v = name \<and> vm_project_id v = project_id \<and> \<not> vm_deleted v) volumes"

fun mount_point_names :: "volume_names \<Rightarrow> string list" where
  "mount_point_names (OneName n) = [n]"
| "mount_point_names (ManyNames ns) = ns"

text \<open>
  \<^verbatim>\<open>get_job_configured_volume_models\<close>: \<open>configured\<close> is the interpolation of the
  configuration's mount points for the job, used when the job specification has none.
\<close>

definition get_job_configured_volume_models ::
    "VolumeModel list \<Rightarrow> nat \<Rightarrow> MountPoint list result \<Rightarrow> JobSpec option \<Rightarrow> VolumeModel list list result" where
  "get_job_configured_volume_models volumes project_id configured spec =
     bindE (case spec of
              Some s \<Rightarrow> (case js_volumes s of Some ms \<Rightarrow> Inr ms | None \<Rightarrow> configured)
            | None \<Rightarrow> configured)
       (\<lambda>mount_points. mapE (\<lambda>names. mapE (\<lambda>n.
            case get_project_volume_model_by_name volumes project_id n of
              None \<Rightarrow> Inl ResourceNotExistsError | Some v \<Rightarrow> Inr v) names)
          (List.map_filter (\<lambda>m. case m of VolumeMountPoint ns _ \<Rightarrow> Some (mount_point_names ns)
             | InstanceMountPoint _ _ _ \<Rightarrow> None) mount_points))"

definition get_job_configured_volumes ::
    "VolumeModel list \<Rightarrow> nat \<Rightarrow> MountPoint list result \<Rightarrow> JobSpec option \<Rightarrow> Volume list list result" where
  "get_job_configured_volumes volumes project_id configured spec =
     fmapE (map (map volume_model_to_volume))
       (get_job_configured_volume_models volumes project_id configured spec)"

definition volume_backends :: "Volume list \<Rightarrow> BackendType set" where
  "volume_backends vs = (\<lambda>v. vc_backend (vol_configuration v)) ` set vs"

definition volume_regions :: "Volume list \<Rightarrow> string set" where
  "volume_regions vs = (\<lambda>v. vc_region (vol_configuration v)) ` set vs"

fun check_mount_points :: "BackendType set \<Rightarrow> string set \<Rightarrow> Volume list list \<Rightarrow> unit result" where
  "check_mount_points backends regions [] = Inr ()"
| "check_mount_points backends regions (vs # vss) =
     (if volume_backends vs \<noteq> backends
      then Inl (ServerClientError ''Volumes from different backends specified for different mount points'')
      else if volume_regions vs \<noteq> regions
      then Inl (ServerClientError ''Volumes from different regions specified for different mount points'')
      else if \<exists>v \<in> set vs. vol_status v \<noteq> V_ACTIVE
      then Inl (ServerClientError ''Cannot mount volumes that are not active'')
      else check_mount_points backends regions vss)"

definition check_can_attach_job_volumes :: "Volume list list \<Rightarrow> unit result" where
  "check_can_attach_job_volumes volumes = (case volumes of
      [] \<Rightarrow> Inr ()
    | vs # _ \<Rightarrow>
        bindE (check_mount_points (volume_backends vs)
                 (volume_regions vs) volumes)
          (\<lambda>_. if distinct (map vol_name (concat volumes)) then Inr ()
               else Inl (ServerClientError ''Cannot attach the same volume at different mount points'')))"

definition volume_fits :: "JobProvisioningData \<Rightarrow> Volume \<Rightarrow> bool" where
  "volume_fits jpd v \<longleftrightarrow>
     vc_backend (vol_configuration v) = get_base_backend jpd
     \<and> vc_region (vol_configuration v) = jpd_region jpd
     \<and> \<not> (\<exists>d vz jz. vol_provisioning_data v = Some d \<and> vpd_availability_zone d = Some vz
          \<and> jpd_availability_zone jpd = Some jz \<and> vz \<noteq> jz)"

lemma volume_fits_code [code]:
  "volume_fits jpd v \<longleftrightarrow> vc_backend (vol_configuration v) = get_base_backend jpd \<and> vc_region (vol_configuration v) = jpd_region jpd
     \<and> (case (Option.bind (vol_provisioning_data v) vpd_availability_zone, jpd_availability_zone jpd) of
          (Some vz, Some jz) \<Rightarrow> vz = jz | _ \<Rightarrow> True)"
  by (auto simp: volume_fits_def split: option.splits bind_splits)

definition get_job_mount_point_attached_volume :: "Volume list \<Rightarrow> JobProvisioningData \<Rightarrow> Volume result" where
  "get_job_mount_point_attached_volume volumes jpd = (case find (volume_fits jpd) volumes of
      Some v \<Rightarrow> Inr v
    | None \<Rightarrow> Inl (ServerClientError ''Failed to find an eligible volume for the mount point''))"

definition get_job_attached_volumes ::
    "VolumeModel list \<Rightarrow> nat \<Rightarrow> MountPoint list result \<Rightarrow> JobProvisioningData \<Rightarrow> Volume list result" where
  "get_job_attached_volumes volumes project_id configured jpd =
     bindE (get_job_configured_volumes volumes project_id configured None)
       (mapE (\<lambda>vs. get_job_mount_point_attached_volume vs jpd))"

text \<open>\<^verbatim>\<open>get_instances_ids_with_detaching_volumes\<close>\<close>

definition get_instances_ids_with_detaching_volumes :: "JobModel list \<Rightarrow> nat list" where
  "get_instances_ids_with_detaching_volumes jobs =
     List.map_filter (\<lambda>j. if jm_status j = J_TERMINATING \<and> jm_volumes_detached_at j \<noteq> None
        then jm_used_instance_id j else None) jobs"

section \<open>Lemmas on the grouping\<close>

definition unique_submissions :: "JobModel list \<Rightarrow> bool" where
  "unique_submissions jobs \<longleftrightarrow> distinct (map job_key jobs)"

definition is_latest :: "JobModel list \<Rightarrow> JobModel \<Rightarrow> bool" where
  "is_latest jobs j \<longleftrightarrow> j \<in> set jobs \<and> (\<forall>j' \<in> set jobs. jm_replica_num j' = jm_replica_num j
     \<and> jm_job_num j' = jm_job_num j \<longrightarrow> jm_submission_num j' \<le> jm_submission_num j)"

lemma sorted_last_max:
  assumes "sorted (map k xs)" and "x \<in> set xs"
  shows "k x \<le> k (last xs)"
proof -
  from assms(2) have ne: "xs \<noteq> []" by auto
  with assms have "sorted (map k (butlast xs @ [last xs]))" by simp
  then have "\<forall>y \<in> set (butlast xs). k y \<le> k (last xs)" by (simp add: sorted_append)
  moreover have "set xs = insert (last xs) (set (butlast xs))"
    using ne by (metis append_butlast_last_id list.set(1) list.set(2) rotate1.simps(2) set_rotate1)
  ultimately show ?thesis using assms(2) by auto
qed

lemma sorted_job_key_replica:
  "sorted (map job_key xs) \<Longrightarrow> sorted (map jm_replica_num xs)"
  unfolding sorted_map
  by (erule sorted_wrt_mono_rel [rotated]) (auto simp: job_key_def less_eq_prod_def)

lemma sorted_job_key_job_num:
  assumes "sorted (map job_key xs)"
  shows "sorted (map jm_job_num (filter (\<lambda>j. jm_replica_num j = r) xs))"
proof -
  have "sorted_wrt (\<lambda>x y. job_key x \<le> job_key y) (filter (\<lambda>j. jm_replica_num j = r) xs)"
    using assms unfolding sorted_map by (rule sorted_wrt_filter)
  then show ?thesis unfolding sorted_map
    by (rule sorted_wrt_mono_rel [rotated]) (auto simp: job_key_def less_eq_prod_def)
qed

lemma sorted_job_key_submission:
  assumes "sorted (map job_key xs)"
  shows "sorted (map jm_submission_num (filter (\<lambda>j. jm_replica_num j = r \<and> jm_job_num j = n) xs))"
proof -
  have "sorted_wrt (\<lambda>x y. job_key x \<le> job_key y) (filter (\<lambda>j. jm_replica_num j = r \<and> jm_job_num j = n) xs)"
    using assms unfolding sorted_map by (rule sorted_wrt_filter)
  then show ?thesis unfolding sorted_map
    by (rule sorted_wrt_mono_rel [rotated]) (auto simp: job_key_def less_eq_prod_def)
qed

lemma groupby_sorted_job_key [simp]: "sorted (map job_key (sort_key job_key jobs))"
  by simp

text \<open>What a group of the grouping is.\<close>

definition replica_jobs :: "JobModel list \<Rightarrow> nat \<Rightarrow> JobModel list" where
  "replica_jobs jobs r = filter (\<lambda>j. jm_replica_num j = r) (sort_key job_key jobs)"

definition submissions_of :: "JobModel list \<Rightarrow> nat \<Rightarrow> nat \<Rightarrow> JobModel list" where
  "submissions_of jobs r n = filter (\<lambda>j. jm_replica_num j = r \<and> jm_job_num j = n) (sort_key job_key jobs)"

lemma group_replica_nums:
  "map fst (group_jobs_by_replica_latest jobs) = map fst (groupby jm_replica_num (sort_key job_key jobs))"
  by (simp add: group_jobs_by_replica_latest_def o_def split_def)

lemma group_replica_sorted: "sorted_wrt (<) (map fst (group_jobs_by_replica_latest jobs))"
  unfolding group_replica_nums by (rule groupby_sorted) (simp add: sorted_job_key_replica)

lemma group_replica_set: "fst ` set (group_jobs_by_replica_latest jobs) = jm_replica_num ` set jobs"
proof -
  have "set (map fst (group_jobs_by_replica_latest jobs)) = jm_replica_num ` set (sort_key job_key jobs)"
    unfolding group_replica_nums by (simp add: keys_groupby)
  then show ?thesis by simp
qed

lemma group_member:
  assumes "(r, ls) \<in> set (group_jobs_by_replica_latest jobs)"
  shows "ls = map (last \<circ> snd) (groupby jm_job_num (replica_jobs jobs r))"
proof -
  from assms obtain g where g: "(r, g) \<in> set (groupby jm_replica_num (sort_key job_key jobs))"
    and ls: "ls = map (last \<circ> snd) (groupby jm_job_num g)"
    by (auto simp: group_jobs_by_replica_latest_def split_def o_def)
  from groupby_filter [OF sorted_job_key_replica [OF groupby_sorted_job_key] g]
  show ?thesis unfolding ls replica_jobs_def by simp
qed

lemma subgroup_member:
  assumes "(n, g) \<in> set (groupby jm_job_num (replica_jobs jobs r))"
  shows "g = submissions_of jobs r n" and "g \<noteq> []"
proof -
  have s: "sorted (map jm_job_num (replica_jobs jobs r))"
    unfolding replica_jobs_def by (rule sorted_job_key_job_num) simp
  from groupby_filter [OF s assms] show "g = submissions_of jobs r n"
    by (simp add: replica_jobs_def submissions_of_def conj_commute)
  from groupby_ne [OF assms] show "g \<noteq> []" .
qed

lemma latest_of_submissions:
  assumes "submissions_of jobs r n \<noteq> []"
  shows "is_latest jobs (last (submissions_of jobs r n))"
    and "jm_replica_num (last (submissions_of jobs r n)) = r"
    and "jm_job_num (last (submissions_of jobs r n)) = n"
proof -
  let ?l = "last (submissions_of jobs r n)"
  have mem: "?l \<in> set (submissions_of jobs r n)" using assms by (rule last_in_set)
  then show rn: "jm_replica_num ?l = r" "jm_job_num ?l = n" by (auto simp: submissions_of_def)
  have "sorted (map jm_submission_num (submissions_of jobs r n))"
    unfolding submissions_of_def by (rule sorted_job_key_submission) simp
  from sorted_last_max [OF this] mem rn show "is_latest jobs ?l"
    by (auto simp: is_latest_def submissions_of_def)
qed

lemma group_latest:
  assumes "(r, ls) \<in> set (group_jobs_by_replica_latest jobs)" and "j \<in> set ls"
  shows "is_latest jobs j" and "jm_replica_num j = r" and "j \<in> set jobs"
proof -
  from assms group_member [OF assms(1)] obtain n g
    where g: "(n, g) \<in> set (groupby jm_job_num (replica_jobs jobs r))" and j: "j = last g" by auto
  note sub = subgroup_member [OF g]
  from latest_of_submissions [of jobs r n] sub j show "is_latest jobs j" "jm_replica_num j = r" by auto
  then show "j \<in> set jobs" by (simp add: is_latest_def)
qed

lemma group_job_nums:
  assumes "(r, ls) \<in> set (group_jobs_by_replica_latest jobs)"
  shows "map jm_job_num ls = map fst (groupby jm_job_num (replica_jobs jobs r))"
  unfolding group_member [OF assms]
  using latest_of_submissions(3) subgroup_member by fastforce

lemma group_job_nums_sorted:
  assumes "(r, ls) \<in> set (group_jobs_by_replica_latest jobs)"
  shows "sorted_wrt (<) (map jm_job_num ls)"
    and "set (map jm_job_num ls) = {jm_job_num j | j. j \<in> set jobs \<and> jm_replica_num j = r}"
proof -
  have s: "sorted (map jm_job_num (replica_jobs jobs r))"
    unfolding replica_jobs_def by (rule sorted_job_key_job_num) simp
  show "sorted_wrt (<) (map jm_job_num ls)"
    unfolding group_job_nums [OF assms] by (rule groupby_sorted [OF s])
  show "set (map jm_job_num ls) = {jm_job_num j | j. j \<in> set jobs \<and> jm_replica_num j = r}"
    unfolding group_job_nums [OF assms] by (auto simp: keys_groupby replica_jobs_def)
qed

lemma group_complete:
  assumes "unique_submissions jobs" and "is_latest jobs j"
    and "(jm_replica_num j, ls) \<in> set (group_jobs_by_replica_latest jobs)"
  shows "j \<in> set ls"
proof -
  from assms(2) have "jm_job_num j \<in> set (map jm_job_num ls)"
    unfolding group_job_nums_sorted(2) [OF assms(3)] by (auto simp: is_latest_def)
  then obtain l where l: "l \<in> set ls" "jm_job_num l = jm_job_num j" by auto
  note gl = group_latest [OF assms(3) l(1)]
  have "jm_submission_num l = jm_submission_num j"
    using gl assms(2) l(2) by (auto simp: is_latest_def intro: antisym)
  then have "job_key l = job_key j" using gl(2) l(2) by (simp add: job_key_def)
  moreover have "l \<in> set jobs" "j \<in> set jobs" using gl(3) assms(2) by (auto simp: is_latest_def)
  ultimately have "l = j" using assms(1) by (auto simp: unique_submissions_def distinct_map inj_on_def)
  with l show ?thesis by simp
qed

lemma group_ne: "(r, ls) \<in> set (group_jobs_by_replica_latest jobs) \<Longrightarrow> ls \<noteq> []"
  using group_job_nums_sorted(2) [of r ls jobs] group_replica_set [of jobs]
  by (force simp: image_iff)

lemma check_mount_points_iff:
  "check_mount_points bs rs vss = Inr () \<longleftrightarrow>
     (\<forall>vs \<in> set vss. volume_backends vs = bs
        \<and> volume_regions vs = rs \<and> (\<forall>v \<in> set vs. vol_status v = V_ACTIVE))"
proof (induction vss)
  case Nil
  then show ?case by simp
next
  case (Cons vs vss)
  show ?case
    by (cases "\<exists>v \<in> set vs. vol_status v \<noteq> V_ACTIVE") (use Cons in auto)
qed

section \<open>Properties\<close>

text \<open>
  \<^verbatim>\<open>group_jobs_by_replica_latest\<close> on rows with unique submission keys: the replica numbers
  ascend and are exactly those of the rows; in each replica the jobs ascend by job number, and a row is
  in its replica's list exactly when its submission is the latest of its job.
\<close>

theorem group_jobs_by_replica_latest_correct:
  assumes "unique_submissions jobs"
  shows "sorted_wrt (<) (map fst (group_jobs_by_replica_latest jobs))
    \<and> fst ` set (group_jobs_by_replica_latest jobs) = jm_replica_num ` set jobs
    \<and> (\<forall>(r, ls) \<in> set (group_jobs_by_replica_latest jobs). sorted_wrt (<) (map jm_job_num ls)
         \<and> set ls = {j. jm_replica_num j = r \<and> is_latest jobs j})"
proof (intro conjI ballI)
  show "sorted_wrt (<) (map fst (group_jobs_by_replica_latest jobs))" by (rule group_replica_sorted)
  show "fst ` set (group_jobs_by_replica_latest jobs) = jm_replica_num ` set jobs" by (rule group_replica_set)
  fix g assume "g \<in> set (group_jobs_by_replica_latest jobs)"
  then obtain r ls where g: "g = (r, ls)" "(r, ls) \<in> set (group_jobs_by_replica_latest jobs)"
    by (metis surj_pair)
  have "set ls = {j. jm_replica_num j = r \<and> is_latest jobs j}"
  proof (intro equalityI subsetI)
    fix j assume "j \<in> set ls"
    with group_latest [OF g(2)] show "j \<in> {j. jm_replica_num j = r \<and> is_latest jobs j}" by blast
  next
    fix j assume "j \<in> {j. jm_replica_num j = r \<and> is_latest jobs j}"
    then have "jm_replica_num j = r" "is_latest jobs j" by simp_all
    then show "j \<in> set ls" using group_complete [OF assms, of j ls] g(2) by simp
  qed
  with group_job_nums_sorted(1) [OF g(2)]
  show "case g of (r, ls) \<Rightarrow> sorted_wrt (<) (map jm_job_num ls) \<and> set ls = {j. jm_replica_num j = r \<and> is_latest jobs j}"
    by (simp add: g(1))
qed

definition demo_jobs :: "JobModel list" where
  "demo_jobs = [sample_job 3 1 0 0 J_RUNNING, sample_job 1 0 0 0 J_FAILED, sample_job 2 0 0 1 J_SUBMITTED]"

lemma demo_jobs_unique: "unique_submissions demo_jobs"
  by (simp add: unique_submissions_def demo_jobs_def job_key_def row_simps)

theorem group_jobs_by_replica_latest_correct_witness:
  "fst ` set (group_jobs_by_replica_latest demo_jobs) = {0, 1}"
  using group_jobs_by_replica_latest_correct [OF demo_jobs_unique]
  by (auto simp: demo_jobs_def row_simps)

text \<open>
  \<^verbatim>\<open>check_can_attach_job_volumes\<close> accepts mount points exactly when all of them have the
  same set of backends and the same set of regions, every volume is active, and no volume name
  occurs twice.
\<close>

theorem check_can_attach_job_volumes_iff:
  "check_can_attach_job_volumes volumes = Inr () \<longleftrightarrow>
     (\<forall>vs \<in> set volumes. \<forall>ws \<in> set volumes.
        volume_backends vs = volume_backends ws
        \<and> volume_regions vs = volume_regions ws)
     \<and> (\<forall>v \<in> set (concat volumes). vol_status v = V_ACTIVE)
     \<and> distinct (map vol_name (concat volumes))"
proof (cases volumes)
  case Nil
  then show ?thesis by (simp add: check_can_attach_job_volumes_def)
next
  case (Cons vs vss)
  have "check_can_attach_job_volumes volumes = Inr () \<longleftrightarrow>
    check_mount_points (volume_backends vs) (volume_regions vs) volumes = Inr () \<and> distinct (map vol_name (concat volumes))"
    unfolding Cons check_can_attach_job_volumes_def by (auto simp: bindE_Inr_conv)
  moreover have "(\<forall>ws \<in> set volumes. volume_backends ws = volume_backends vs \<and> volume_regions ws = volume_regions vs)
    \<longleftrightarrow> (\<forall>vs \<in> set volumes. \<forall>ws \<in> set volumes.
          volume_backends vs = volume_backends ws \<and> volume_regions vs = volume_regions ws)"
    by (simp add: Cons) metis
  moreover have "(\<forall>v \<in> set (concat volumes). vol_status v = V_ACTIVE)
    \<longleftrightarrow> (\<forall>ws \<in> set volumes. \<forall>v \<in> set ws. vol_status v = V_ACTIVE)" by auto
  moreover have "check_mount_points (volume_backends vs) (volume_regions vs) volumes = Inr () \<longleftrightarrow>
      (\<forall>ws \<in> set volumes. volume_backends ws = volume_backends vs \<and> volume_regions ws = volume_regions vs)
      \<and> (\<forall>ws \<in> set volumes. \<forall>v \<in> set ws. vol_status v = V_ACTIVE)"
    unfolding check_mount_points_iff by blast
  ultimately show ?thesis by argo
qed

theorem check_can_attach_job_volumes_iff_witness:
  "check_can_attach_job_volumes [[volume_model_to_volume (sample_volume 9)]] = Inr ()"
  by (subst check_can_attach_job_volumes_iff)
    (simp add: volume_model_to_volume_def volume_backends_def volume_regions_def row_simps)

end
