(* ===== verification/Fleet_Models.thy ===== *)
theory Fleet_Models
  imports Run_Models
begin

text \<open>
  The data of \<^verbatim>\<open>core/models/fleets.py\<close> and \<^verbatim>\<open>core/models/placement.py\<close>, and the rows
  of \<^verbatim>\<open>server/models.py\<close> for fleets, pools and placement groups. The instances and runs of a
  fleet are the rows that refer to it.
\<close>

section \<open>Fleet configurations\<close>

datatype FleetStatus = F_SUBMITTED | F_ACTIVE | F_TERMINATING | F_TERMINATED | F_FAILED

datatype InstanceGroupPlacement = ANY | CLUSTER

datatype blocks_arg = AutoBlocks | Blocks int

record SSHProxyParams =
  spx_hostname :: string
  spx_port :: "int option"
  spx_user :: string
  spx_identity_file :: string
  spx_ssh_key :: "SSHKey option"

record SSHHostParams =
  hp_hostname :: string
  hp_port :: "int option"
  hp_user :: "string option"
  hp_identity_file :: "string option"
  hp_proxy_jump :: "SSHProxyParams option"
  hp_internal_ip :: "string option"
  hp_ssh_key :: "SSHKey option"
  hp_blocks :: blocks_arg

datatype ssh_host = HostName string | HostParams SSHHostParams

fun host_name :: "ssh_host \<Rightarrow> string" where
  "host_name (HostName h) = h"
| "host_name (HostParams p) = hp_hostname p"

record SSHParams =
  sh_user :: "string option"
  sh_port :: "int option"
  sh_identity_file :: "string option"
  sh_ssh_key :: "SSHKey option"
  sh_proxy_jump :: "SSHProxyParams option"
  sh_hosts :: "ssh_host list"
  sh_network :: "string option"

text \<open>
  \<open>fc_params\<close> holds the profile parameters that a fleet configuration can set, its reservation
  included; the others are unset.
\<close>

record FleetConfiguration =
  fc_name :: "string option"
  fc_env :: Env
  fc_ssh_config :: "SSHParams option"
  fc_nodes :: "int range option"
  fc_placement :: "InstanceGroupPlacement option"
  fc_resources :: "ResourcesSpec option"
  fc_blocks :: blocks_arg
  fc_params :: ProfileParams

record FleetSpec =
  fs_configuration :: FleetConfiguration
  fs_configuration_path :: "string option"
  fs_profile :: Profile
  fs_autocreated :: bool
  fs_merged_profile :: Profile

text \<open>\<^verbatim>\<open>FleetSpec._merged_profile\<close>\<close>

definition fleet_merged_profile :: "FleetConfiguration \<Rightarrow> Profile \<Rightarrow> Profile" where
  "fleet_merged_profile conf prof =
     (let ps = merge_params (fc_params conf) (pr_params prof)
      in prof\<lparr>pr_params := ps\<lparr>pp_spot_policy := over (pp_spot_policy ps) (Some ONDEMAND),
                              pp_retry := over (pp_retry ps) (Some (RetryFlag False))\<rparr>\<rparr>)"

definition mk_FleetSpec :: "FleetConfiguration \<Rightarrow> string option \<Rightarrow> Profile \<Rightarrow> bool \<Rightarrow> FleetSpec" where
  "mk_FleetSpec conf path prof autocreated = \<lparr>fs_configuration = conf, fs_configuration_path = path,
     fs_profile = prof, fs_autocreated = autocreated, fs_merged_profile = fleet_merged_profile conf prof\<rparr>"

section \<open>Rows\<close>

record FleetModel =
  flm_id :: nat
  flm_name :: string
  flm_project_id :: nat
  flm_created_at :: time
  flm_last_processed_at :: time
  flm_deleted :: bool
  flm_deleted_at :: "time option"
  flm_status :: FleetStatus
  flm_status_message :: "string option"
  flm_spec :: FleetSpec

record PoolModel =
  plm_id :: nat
  plm_name :: string
  plm_created_at :: time
  plm_deleted :: bool
  plm_deleted_at :: "time option"
  plm_project_id :: nat

datatype PlacementStrategy = PS_CLUSTER

record PlacementGroupConfiguration =
  pgc_backend :: BackendType
  pgc_region :: string
  pgc_placement_strategy :: PlacementStrategy

record PlacementGroupProvisioningData =
  pgd_backend :: BackendType
  pgd_backend_data :: "string option"

record PlacementGroupModel =
  pgm_id :: nat
  pgm_name :: string
  pgm_project_id :: nat
  pgm_fleet_id :: nat
  pgm_fleet_deleted :: bool
  pgm_created_at :: time
  pgm_last_processed_at :: time
  pgm_deleted :: bool
  pgm_deleted_at :: "time option"
  pgm_configuration :: PlacementGroupConfiguration
  pgm_provisioning_data :: "PlacementGroupProvisioningData option"

text \<open>\<^verbatim>\<open>services/placement.py\<close>\<close>

record PlacementGroup =
  pg_name :: string
  pg_project_name :: string
  pg_configuration :: PlacementGroupConfiguration
  pg_provisioning_data :: "PlacementGroupProvisioningData option"

definition placement_group_model_to_placement_group :: "string \<Rightarrow> PlacementGroupModel \<Rightarrow> PlacementGroup" where
  "placement_group_model_to_placement_group project_name m = \<lparr>pg_name = pgm_name m, pg_project_name = project_name,
     pg_configuration = pgm_configuration m, pg_provisioning_data = pgm_provisioning_data m\<rparr>"

definition get_fleet_placement_groups :: "string \<Rightarrow> PlacementGroupModel list \<Rightarrow> nat \<Rightarrow> PlacementGroup list" where
  "get_fleet_placement_groups project_name groups fleet_id =
     map (placement_group_model_to_placement_group project_name) (filter (\<lambda>m. pgm_fleet_id m = fleet_id) groups)"

section \<open>Sample rows\<close>

definition sample_fleet_conf :: FleetConfiguration where
  "sample_fleet_conf = \<lparr>fc_name = Some ''fleet'', fc_env = [], fc_ssh_config = None,
     fc_nodes = Some \<lparr>rmin = Some 2, rmax = Some 2\<rparr>, fc_placement = None, fc_resources = Some default_resources,
     fc_blocks = Blocks 1, fc_params = no_params\<rparr>"

definition sample_profile :: Profile where
  "sample_profile = \<lparr>pr_name = ''default'', pr_default = False, pr_params = no_params\<rparr>"

definition sample_fleet :: "nat \<Rightarrow> FleetModel" where
  "sample_fleet i = \<lparr>flm_id = i, flm_name = ''fleet'', flm_project_id = 1, flm_created_at = 0, flm_last_processed_at = 0,
     flm_deleted = False, flm_deleted_at = None, flm_status = F_ACTIVE, flm_status_message = None,
     flm_spec = mk_FleetSpec sample_fleet_conf None sample_profile False\<rparr>"

definition sample_pool :: "nat \<Rightarrow> PoolModel" where
  "sample_pool i = \<lparr>plm_id = i, plm_name = DEFAULT_POOL_NAME, plm_created_at = 0, plm_deleted = False,
     plm_deleted_at = None, plm_project_id = 1\<rparr>"

lemmas sample_fleet_simps [row_simps] = sample_fleet_conf_def sample_profile_def sample_fleet_def sample_pool_def

end
