(* ===== verification/Database.thy ===== *)
theory Database
  imports Fleet_Models
begin

text \<open>
  The tables the background tasks share (\<^verbatim>\<open>server/models.py\<close>). Jobs are the rows of their run's
  collection. A handler that loads objects, changes them and commits is a function that replaces the
  rows by their keys.
\<close>

record db =
  db_runs :: "RunModel list"
  db_instances :: "InstanceModel list"
  db_volumes :: "VolumeModel list"
  db_fleets :: "FleetModel list"
  db_pools :: "PoolModel list"
  db_placement_groups :: "PlacementGroupModel list"

definition put_row :: "('r \<Rightarrow> nat) \<Rightarrow> 'r \<Rightarrow> 'r list \<Rightarrow> 'r list" where
  "put_row key r rs = map_rows (\<lambda>x. key x = key r) (\<lambda>_. r) rs"

definition db_jobs :: "db \<Rightarrow> JobModel list" where
  "db_jobs d = concat (map rm_jobs (db_runs d))"

definition db_put_job :: "JobModel \<Rightarrow> db \<Rightarrow> db" where
  "db_put_job j d = d\<lparr>db_runs := map (\<lambda>r. r\<lparr>rm_jobs := put_row jm_id j (rm_jobs r)\<rparr>) (db_runs d)\<rparr>"

definition db_put_instance :: "InstanceModel \<Rightarrow> db \<Rightarrow> db" where
  "db_put_instance i d = d\<lparr>db_instances := put_row im_id i (db_instances d)\<rparr>"

definition db_instance :: "db \<Rightarrow> nat \<Rightarrow> InstanceModel option" where
  "db_instance d i = find (\<lambda>m. im_id m = i) (db_instances d)"

definition db_run_of_job :: "db \<Rightarrow> JobModel \<Rightarrow> RunModel option" where
  "db_run_of_job d j = find (\<lambda>r. rm_id r = jm_run_id j) (db_runs d)"

text \<open>\<^verbatim>\<open>InstanceModel.jobs\<close>\<close>

definition instance_jobs :: "db \<Rightarrow> nat \<Rightarrow> JobModel list" where
  "instance_jobs d i = filter (\<lambda>j. jm_instance_id j = Some i) (db_jobs d)"

text \<open>
  \<^verbatim>\<open>get_instance_ssh_private_keys\<close> of \<^verbatim>\<open>services/pools.py\<close>, given the key of the
  project.
\<close>

definition get_instance_ssh_private_keys :: "string \<Rightarrow> InstanceModel \<Rightarrow> (string \<times> string option) result" where
  "get_instance_ssh_private_keys project_key inst = (case im_remote_connection_info inst of
      None \<Rightarrow> Inr (project_key, None)
    | Some rci \<Rightarrow>
        if rci_ssh_proxy rci = None then Inr (project_key, None)
        else (case rci_ssh_proxy_keys rci of
            None \<Rightarrow> Inl ValueError
          | Some keys \<Rightarrow> (case List.map_filter sk_private keys of
              [] \<Rightarrow> Inl ValueError
            | k # _ \<Rightarrow> Inr (project_key, Some k))))"

text \<open>Primary keys are unique.\<close>

definition keys_ok :: "db \<Rightarrow> bool" where
  "keys_ok d \<longleftrightarrow> distinct (map jm_id (db_jobs d)) \<and> distinct (map im_id (db_instances d))
     \<and> distinct (map rm_id (db_runs d))"

section \<open>Replacing a row\<close>

lemma put_row_simps [simp]:
  "put_row key r [] = []"
  "put_row key r (x # xs) = (if key x = key r then r else x) # put_row key r xs"
  by (simp_all add: put_row_def)

lemma put_row_keys [simp]: "map key (put_row key r rs) = map key rs"
  unfolding put_row_def by (rule map_map_rows) simp

lemma set_put_row:
  "set (put_row key r rs) \<subseteq> insert r (set rs)"
  by (auto simp: put_row_def set_map_rows)

lemma put_row_absent: "key r \<notin> key ` set rs \<Longrightarrow> put_row key r rs = rs"
  unfolding put_row_def by (rule map_rows_id) (metis imageI)

lemma set_put_row_eq:
  assumes "distinct (map key rs)" and "r \<in> set rs" and "key r' = key r"
  shows "set (put_row key r' rs) = insert r' (set rs - {r})"
  using assms by (auto simp: put_row_def set_map_rows distinct_map inj_on_def image_iff)

lemma find_put_row:
  assumes "k \<in> key ` set rs"
  shows "find (\<lambda>x. key x = k) (put_row key r rs) =
     (if k = key r then Some r else find (\<lambda>x. key x = k) rs)"
  using assms
proof (induction rs)
  case (Cons x rs)
  then show ?case by (cases "key x = k"; cases "k = key r") auto
qed simp

lemma find_key:
  assumes "distinct (map key rs)" and "r \<in> set rs"
  shows "find (\<lambda>x. key x = key r) rs = Some r"
  using assms by (induction rs) auto

text \<open>How the sum of a quantity over the rows with a property changes when one row is replaced.\<close>

lemma sum_put_row:
  fixes f :: "'r \<Rightarrow> int"
  assumes "distinct (map key rs)" and "r \<in> set rs" and "key r' = key r"
  shows "sum_list (map f (filter P (put_row key r' rs))) =
    sum_list (map f (filter P rs)) - (if P r then f r else 0) + (if P r' then f r' else 0)"
  using assms
proof (induction rs)
  case Nil
  then show ?case by simp
next
  case (Cons x rs)
  show ?case
  proof (cases "x = r")
    case True
    with Cons.prems have "key r' \<notin> key ` set rs" by auto
    with True Cons.prems(3) show ?thesis
      by (simp add: put_row_absent)
  next
    case False
    with Cons.prems have "r \<in> set rs" "key x \<noteq> key r'" by auto
    with Cons show ?thesis by simp
  qed
qed

lemma map_concat_put: "concat (map (put_row key r) xss) = put_row key r (concat xss)"
  by (induction xss) (auto simp: put_row_def map_rows_def)

lemma db_jobs_put_job [simp]: "db_jobs (db_put_job j d) = put_row jm_id j (db_jobs d)"
  by (simp add: db_jobs_def db_put_job_def o_def map_concat_put [symmetric])

lemma db_put_simps [simp]:
  "db_instances (db_put_job j d) = db_instances d"
  "db_volumes (db_put_job j d) = db_volumes d"
  "db_fleets (db_put_job j d) = db_fleets d"
  "db_pools (db_put_job j d) = db_pools d"
  "db_placement_groups (db_put_job j d) = db_placement_groups d"
  "db_runs (db_put_instance i d) = db_runs d"
  "db_volumes (db_put_instance i d) = db_volumes d"
  "db_fleets (db_put_instance i d) = db_fleets d"
  "db_pools (db_put_instance i d) = db_pools d"
  "db_placement_groups (db_put_instance i d) = db_placement_groups d"
  "db_instances (db_put_instance i d) = put_row im_id i (db_instances d)"
  "db_jobs (db_put_instance i d) = db_jobs d"
  "instance_jobs (db_put_instance i d) k = instance_jobs d k"
  by (simp_all add: db_put_job_def db_put_instance_def db_jobs_def instance_jobs_def)

lemma keys_ok_put [simp]:
  "keys_ok (db_put_job j d) \<longleftrightarrow> keys_ok d"
  "keys_ok (db_put_instance i d) \<longleftrightarrow> keys_ok d"
proof -
  have "map rm_id (db_runs (db_put_job j d)) = map rm_id (db_runs d)" by (simp add: db_put_job_def o_def)
  then show "keys_ok (db_put_job j d) \<longleftrightarrow> keys_ok d" by (simp add: keys_ok_def)
qed (simp add: keys_ok_def)

section \<open>Blocks of an instance\<close>

text \<open>The blocks a job takes on its instance: those of its offer, one for old jobs.\<close>

definition job_blocks :: "JobModel \<Rightarrow> int" where
  "job_blocks j = (case jm_job_runtime_data j of
      None \<Rightarrow> 1
    | Some jrd \<Rightarrow> (case jrd_offer jrd of None \<Rightarrow> 1 | Some off \<Rightarrow> of_blocks off))"

text \<open>
  The busy blocks of every instance are those of the jobs assigned to it, less what has been given back
  twice: the ledger \<open>twice\<close> records it for each instance.
\<close>

definition blocks_inv :: "(nat \<Rightarrow> int) \<Rightarrow> db \<Rightarrow> bool" where
  "blocks_inv twice d \<longleftrightarrow> (\<forall>i \<in> set (db_instances d).
     im_busy_blocks i = sum_list (map job_blocks (instance_jobs d (im_id i))) - twice (im_id i))"

text \<open>
  Replacing a job and an instance together keeps the accounting when the busy blocks of the
  instance follow the job's assignment and the ledger, and no other instance is concerned.
\<close>

lemma blocks_inv_put_twice:
  assumes "keys_ok d" and "blocks_inv twice d"
    and j: "j \<in> set (db_jobs d)" "jm_id j' = jm_id j"
    and i: "i \<in> set (db_instances d)" "im_id i' = im_id i"
    and only: "jm_instance_id j \<in> {None, Some (im_id i)}" "jm_instance_id j' \<in> {None, Some (im_id i)}"
    and ledger: "\<And>k. k \<noteq> im_id i \<Longrightarrow> twice' k = twice k"
    and busy: "im_busy_blocks i' = im_busy_blocks i
      - (if jm_instance_id j = Some (im_id i) then job_blocks j else 0)
      + (if jm_instance_id j' = Some (im_id i) then job_blocks j' else 0) - (twice' (im_id i) - twice (im_id i))"
  shows "blocks_inv twice' (db_put_job j' (db_put_instance i' d))"
proof -
  have dj: "distinct (map jm_id (db_jobs d))" and di: "distinct (map im_id (db_instances d))"
    using assms(1) by (simp_all add: keys_ok_def)
  have sum: "sum_list (map job_blocks (instance_jobs (db_put_job j' (db_put_instance i' d)) k)) =
      sum_list (map job_blocks (instance_jobs d k))
      - (if jm_instance_id j = Some k then job_blocks j else 0)
      + (if jm_instance_id j' = Some k then job_blocks j' else 0)" for k
    unfolding instance_jobs_def using sum_put_row [OF dj j] by simp
  show ?thesis unfolding blocks_inv_def
  proof
    fix m assume "m \<in> set (db_instances (db_put_job j' (db_put_instance i' d)))"
    then have "m = i' \<or> m \<in> set (db_instances d) \<and> m \<noteq> i"
      by (simp add: set_put_row_eq [OF di i])
    then show "im_busy_blocks m =
      sum_list (map job_blocks (instance_jobs (db_put_job j' (db_put_instance i' d)) (im_id m))) - twice' (im_id m)"
    proof
      assume m: "m = i'"
      have "im_busy_blocks i = sum_list (map job_blocks (instance_jobs d (im_id i))) - twice (im_id i)"
        using assms(2) i(1) by (simp add: blocks_inv_def)
      with busy show ?thesis unfolding m i(2) sum by simp
    next
      assume m: "m \<in> set (db_instances d) \<and> m \<noteq> i"
      then have "im_id m \<noteq> im_id i" using di i(1) by (auto simp: distinct_map inj_on_def)
      with only m assms(2) ledger show ?thesis unfolding sum by (auto simp: blocks_inv_def)
    qed
  qed
qed

lemma blocks_inv_put:
  assumes "keys_ok d" and "blocks_inv twice d" and "j \<in> set (db_jobs d)" and "jm_id j' = jm_id j"
    and "i \<in> set (db_instances d)" and "im_id i' = im_id i"
    and "jm_instance_id j \<in> {None, Some (im_id i)}" and "jm_instance_id j' \<in> {None, Some (im_id i)}"
    and "im_busy_blocks i' = im_busy_blocks i
      - (if jm_instance_id j = Some (im_id i) then job_blocks j else 0)
      + (if jm_instance_id j' = Some (im_id i) then job_blocks j' else 0)"
  shows "blocks_inv twice (db_put_job j' (db_put_instance i' d))"
  using assms by (intro blocks_inv_put_twice [OF assms(1-6)]) simp_all

end
