(* ===== verification/Terminating_Jobs.thy ===== *)
theory Terminating_Jobs
  imports Jobs Database
begin

text \<open>
  The termination of jobs: \<^verbatim>\<open>process_terminating_job\<close> and \<^verbatim>\<open>process_volumes_detaching\<close> of
  \<^verbatim>\<open>server/services/jobs/__init__.py\<close> with the detaching of volumes, and the background task
  \<^verbatim>\<open>process_terminating_jobs.py\<close>. The cloud backends, the shim and the gateway are the
  fields of \<open>term_env\<close>: what each call answers while the handler runs. The calls that reach them
  are returned, in order.
\<close>

record term_env =
  te_now :: time
  te_backend :: "BackendType \<Rightarrow> bool"
  te_detach_volume :: "Volume \<Rightarrow> string \<Rightarrow> bool \<Rightarrow> unit result"
  te_is_volume_detached :: "Volume \<Rightarrow> string \<Rightarrow> bool result"
  te_gateway :: "unit result"
  te_project_key :: string

datatype call =
    StopContainer nat
  | DetachVolume nat bool
  | UnregisterReplica nat

section \<open>Detaching volumes\<close>

definition MIN_FORCE_DETACH_WAIT_PERIOD :: time where
  "MIN_FORCE_DETACH_WAIT_PERIOD = seconds 60"

definition should_force_detach_volume :: "time \<Rightarrow> JobModel \<Rightarrow> int option \<Rightarrow> bool" where
  "should_force_detach_volume now job stop_duration = (case jm_volumes_detached_at job of
      None \<Rightarrow> False
    | Some t \<Rightarrow> now > t + MIN_FORCE_DETACH_WAIT_PERIOD
        \<and> (jm_termination_reason job = Some J_ABORTED_BY_USER
           \<or> (case stop_duration of None \<Rightarrow> False | Some s \<Rightarrow> now > t + seconds s)))"

text \<open>
  \<^verbatim>\<open>_detach_volume_from_job_instance\<close>: every exception is caught, and the value of
  \<^verbatim>\<open>detached\<close> at that point is returned.
\<close>

definition detach_volume_from_job_instance ::
    "term_env \<Rightarrow> JobModel \<Rightarrow> JobProvisioningData \<Rightarrow> VolumeModel \<Rightarrow> bool \<times> call list" where
  "detach_volume_from_job_instance env job jpd volume_model =
     (let volume = volume_model_to_volume volume_model; iid = jpd_instance_id jpd in
      if (case vol_provisioning_data volume of None \<Rightarrow> True | Some d \<Rightarrow> \<not> vpd_detachable d) then (True, [])
      else if jm_volumes_detached_at job = None then
        (case te_detach_volume env volume iid False of
           Inl _ \<Rightarrow> True
         | Inr _ \<Rightarrow> (case te_is_volume_detached env volume iid of Inl _ \<Rightarrow> True | Inr b \<Rightarrow> b),
         [DetachVolume (vm_id volume_model) False])
      else (case te_is_volume_detached env volume iid of
          Inl _ \<Rightarrow> (True, [])
        | Inr detached \<Rightarrow>
            (detached,
             if \<not> detached \<and> should_force_detach_volume (te_now env) job (js_stop_duration (jm_job_spec job))
             then [DetachVolume (vm_id volume_model) True] else [])))"

record detach_result =
  dr_all_detached :: bool
  dr_job :: JobModel
  dr_instance :: InstanceModel
  dr_calls :: "call list"

definition detach_volumes_from_job_instance ::
    "term_env \<Rightarrow> JobModel \<Rightarrow> JobProvisioningData \<Rightarrow> InstanceModel \<Rightarrow> VolumeModel list \<Rightarrow> detach_result" where
  "detach_volumes_from_job_instance env job jpd inst volume_models =
     (if \<not> te_backend env (jpd_backend jpd)
      then \<lparr>dr_all_detached = False, dr_job = job, dr_instance = inst, dr_calls = []\<rparr>
      else
        let outcome = detach_volume_from_job_instance env job jpd;
            detached_ids = map vm_id (filter (fst \<circ> outcome) volume_models) in
        \<lparr>dr_all_detached = list_all (fst \<circ> outcome) volume_models,
         dr_job = (if jm_volumes_detached_at job = None
                   then job\<lparr>jm_volumes_detached_at := Some (te_now env)\<rparr> else job),
         dr_instance = inst\<lparr>im_volume_attachments :=
             filter (\<lambda>v. v \<notin> set detached_ids) (im_volume_attachments inst)\<rparr>,
         dr_calls = concat (map (snd \<circ> outcome) volume_models)\<rparr>)"

section \<open>Terminating a job\<close>

definition set_job_termination_status :: "JobModel \<Rightarrow> JobModel" where
  "set_job_termination_status job = job\<lparr>jm_status :=
     (case jm_termination_reason job of Some r \<Rightarrow> job_reason_to_status r | None \<Rightarrow> J_FAILED)\<rparr>"

text \<open>The volumes to detach: those named in the runtime data, else those attached to the instance.\<close>

definition volumes_to_detach :: "VolumeModel list \<Rightarrow> JobModel \<Rightarrow> InstanceModel \<Rightarrow> VolumeModel list" where
  "volumes_to_detach volumes job inst =
     (case jm_job_runtime_data job of
        Some jrd \<Rightarrow> (case jrd_volume_names jrd of
            Some names \<Rightarrow> list_project_volume_models volumes (im_project_id inst) (Some names) False
          | None \<Rightarrow> List.map_filter (\<lambda>i. find (\<lambda>v. vm_id v = i) volumes) (im_volume_attachments inst))
      | None \<Rightarrow> List.map_filter (\<lambda>i. find (\<lambda>v. vm_id v = i) volumes) (im_volume_attachments inst))"

definition stop_and_detach ::
    "term_env \<Rightarrow> VolumeModel list \<Rightarrow> JobModel \<Rightarrow> InstanceModel \<Rightarrow> detach_result" where
  "stop_and_detach env volumes job inst = (case jm_job_provisioning_data job of
      None \<Rightarrow> \<lparr>dr_all_detached = True, dr_job = job, dr_instance = inst, dr_calls = []\<rparr>
    | Some jpd \<Rightarrow>
        let stop = (if jpd_dockerized jpd then [StopContainer (jm_id job)] else []);
            vs = volumes_to_detach volumes job inst in
        if vs \<noteq> [] then
          (let r = detach_volumes_from_job_instance env job jpd inst vs in r\<lparr>dr_calls := stop @ dr_calls r\<rparr>)
        else \<lparr>dr_all_detached = True, dr_job = job, dr_instance = inst, dr_calls = stop\<rparr>)"

definition released_status :: "JobModel \<Rightarrow> nat list \<Rightarrow> InstanceStatus \<Rightarrow> InstanceStatus" where
  "released_status job jobs_on_instance st =
     (let st' = (if st = I_BUSY then
                   if filter (\<lambda>i. i \<noteq> jm_id job) jobs_on_instance = [] then I_IDLE else I_BUSY
                 else if st \<noteq> I_TERMINATED then I_TERMINATING else st)
      in case jm_job_provisioning_data job of
           None \<Rightarrow> I_TERMINATING
         | Some jpd \<Rightarrow> if \<not> jpd_dockerized jpd then I_TERMINATING else st')"

text \<open>
  \<open>jobs_on_instance\<close> are the keys of the jobs that refer to the instance; \<open>run\<close> is the job's
  run, which \<^verbatim>\<open>unregister_replica\<close> reads.
\<close>

definition process_terminating_job ::
    "term_env \<Rightarrow> VolumeModel list \<Rightarrow> RunModel \<Rightarrow> nat list \<Rightarrow> JobModel \<Rightarrow> InstanceModel option
     \<Rightarrow> (JobModel \<times> InstanceModel option \<times> call list) result" where
  "process_terminating_job env volumes run jobs_on_instance job instance_model =
     (if (case jm_remove_at job of Some t \<Rightarrow> t > te_now env | None \<Rightarrow> False)
      then Inr (job, instance_model, [])
      else (case instance_model of
          None \<Rightarrow>
            bindE (unregister_replica (te_gateway env) run)
              (\<lambda>_. Inr (set_job_termination_status job, None, [UnregisterReplica (jm_id job)]))
        | Some inst \<Rightarrow>
            bindE (if jm_job_provisioning_data job = None then Inr ()
                   else fmapE (\<lambda>_. ()) (get_instance_ssh_private_keys (te_project_key env) inst)) (\<lambda>_.
            let r = stop_and_detach env volumes job inst;
                inst' = (dr_instance r)\<lparr>im_busy_blocks := im_busy_blocks inst - job_blocks job,
                           im_status := released_status job jobs_on_instance (im_status inst),
                           im_last_job_processed_at := Some (te_now env)\<rparr>;
                job' = (dr_job r)\<lparr>jm_instance_id := None\<rparr> in
            bindE (unregister_replica (te_gateway env) run)
              (\<lambda>_. Inr (if dr_all_detached r then set_job_termination_status job' else job',
                        Some inst', dr_calls r @ [UnregisterReplica (jm_id job)])))))"

definition process_volumes_detaching ::
    "term_env \<Rightarrow> VolumeModel list \<Rightarrow> JobModel \<Rightarrow> InstanceModel \<Rightarrow> (JobModel \<times> InstanceModel \<times> call list) result" where
  "process_volumes_detaching env volumes job inst =
     bindE (get_or_error (jm_job_provisioning_data job)) (\<lambda>jpd.
       let r = detach_volumes_from_job_instance env job jpd inst (volumes_to_detach volumes job inst) in
       Inr (if dr_all_detached r then set_job_termination_status (dr_job r) else dr_job r,
            dr_instance r, dr_calls r))"

section \<open>The background task\<close>

text \<open>
  \<^verbatim>\<open>_process_next_terminating_job\<close>: the unlocked terminating job that was processed least
  recently and whose removal time has passed; nothing when its instance is locked.
\<close>

definition terminating_candidates :: "time \<Rightarrow> nat set \<Rightarrow> JobModel list \<Rightarrow> JobModel list" where
  "terminating_candidates now job_lockset jobs =
     filter (\<lambda>j. jm_id j \<notin> job_lockset \<and> jm_status j = J_TERMINATING
       \<and> (case jm_remove_at j of None \<Rightarrow> True | Some t \<Rightarrow> t < now)) jobs"

definition next_terminating_job :: "time \<Rightarrow> nat set \<Rightarrow> nat set \<Rightarrow> db \<Rightarrow> JobModel option" where
  "next_terminating_job now job_lockset instance_lockset d =
     (case sort_key jm_last_processed_at (terminating_candidates now job_lockset (db_jobs d)) of
        [] \<Rightarrow> None
      | j # _ \<Rightarrow> (case jm_used_instance_id j of
            None \<Rightarrow> Some j
          | Some i \<Rightarrow> if db_instance d i = None \<or> i \<in> instance_lockset then None else Some j))"

text \<open>\<^verbatim>\<open>_process_job\<close>: the rows written at the commit, and the calls made.\<close>

definition process_job :: "term_env \<Rightarrow> db \<Rightarrow> JobModel \<Rightarrow> (db \<times> call list) result" where
  "process_job env d job =
     (let inst = (case jm_used_instance_id job of None \<Rightarrow> None | Some i \<Rightarrow> db_instance d i);
          put = (\<lambda>(job', inst', calls).
            (db_put_job (job'\<lparr>jm_last_processed_at := te_now env\<rparr>)
               (case inst' of None \<Rightarrow> d | Some i \<Rightarrow> db_put_instance i d), calls)) in
      if jm_volumes_detached_at job = None then
        bindE (get_or_error (db_run_of_job d job)) (\<lambda>run.
          fmapE put (process_terminating_job env (db_volumes d) run
             (case inst of None \<Rightarrow> [] | Some i \<Rightarrow> map jm_id (instance_jobs d (im_id i))) job inst))
      else
        bindE (get_or_error inst) (\<lambda>i.
          fmapE (\<lambda>(job', i', calls). put (job', Some i', calls)) (process_volumes_detaching env (db_volumes d) job i)))"

definition process_next_terminating_job ::
    "term_env \<Rightarrow> nat set \<Rightarrow> nat set \<Rightarrow> db \<Rightarrow> (db \<times> call list) result" where
  "process_next_terminating_job env job_lockset instance_lockset d =
     (case next_terminating_job (te_now env) job_lockset instance_lockset d of
        None \<Rightarrow> Inr (d, [])
      | Some j \<Rightarrow> process_job env d j)"

section \<open>What detaching keeps\<close>

lemma detach_keeps [row_simps, simp]:
  "jm_id (dr_job (detach_volumes_from_job_instance env job jpd inst vs)) = jm_id job"
  "jm_instance_id (dr_job (detach_volumes_from_job_instance env job jpd inst vs)) = jm_instance_id job"
  "jm_status (dr_job (detach_volumes_from_job_instance env job jpd inst vs)) = jm_status job"
  "jm_termination_reason (dr_job (detach_volumes_from_job_instance env job jpd inst vs)) = jm_termination_reason job"
  "jm_job_runtime_data (dr_job (detach_volumes_from_job_instance env job jpd inst vs)) = jm_job_runtime_data job"
  "im_id (dr_instance (detach_volumes_from_job_instance env job jpd inst vs)) = im_id inst"
  "im_busy_blocks (dr_instance (detach_volumes_from_job_instance env job jpd inst vs)) = im_busy_blocks inst"
  "im_status (dr_instance (detach_volumes_from_job_instance env job jpd inst vs)) = im_status inst"
  by (simp_all add: detach_volumes_from_job_instance_def Let_def)

lemma stop_and_detach_keeps [row_simps, simp]:
  "jm_id (dr_job (stop_and_detach env vs job inst)) = jm_id job"
  "jm_instance_id (dr_job (stop_and_detach env vs job inst)) = jm_instance_id job"
  "jm_status (dr_job (stop_and_detach env vs job inst)) = jm_status job"
  "jm_termination_reason (dr_job (stop_and_detach env vs job inst)) = jm_termination_reason job"
  "jm_job_runtime_data (dr_job (stop_and_detach env vs job inst)) = jm_job_runtime_data job"
  "im_id (dr_instance (stop_and_detach env vs job inst)) = im_id inst"
  "im_busy_blocks (dr_instance (stop_and_detach env vs job inst)) = im_busy_blocks inst"
  by (simp_all add: stop_and_detach_def Let_def split: option.splits)

lemma set_status_keeps [row_simps, simp]:
  "jm_id (set_job_termination_status job) = jm_id job"
  "jm_instance_id (set_job_termination_status job) = jm_instance_id job"
  "jm_job_runtime_data (set_job_termination_status job) = jm_job_runtime_data job"
  "jm_volumes_detached_at (set_job_termination_status job) = jm_volumes_detached_at job"
  by (simp_all add: set_job_termination_status_def)

lemma job_blocks_keeps [row_simps, simp]:
  "job_blocks (j\<lparr>jm_instance_id := x\<rparr>) = job_blocks j"
  "job_blocks (j\<lparr>jm_last_processed_at := t\<rparr>) = job_blocks j"
  "job_blocks (set_job_termination_status j) = job_blocks j"
  "job_blocks (dr_job (stop_and_detach env vs j inst)) = job_blocks j"
  "job_blocks (dr_job (detach_volumes_from_job_instance env j jpd inst ws)) = job_blocks j"
  by (simp_all add: job_blocks_def)

lemma set_status_finished [simp]: "job_is_finished (jm_status (set_job_termination_status job))"
  by (simp add: set_job_termination_status_def split: option.splits)

lemma not_detached_marks:
  assumes "\<not> dr_all_detached (stop_and_detach env vs job inst)"
  shows "(\<exists>t. jm_volumes_detached_at (dr_job (stop_and_detach env vs job inst)) = Some t)
    \<or> (\<exists>jpd. jm_job_provisioning_data job = Some jpd \<and> \<not> te_backend env (jpd_backend jpd))"
  using assms
  by (auto simp: stop_and_detach_def Let_def detach_volumes_from_job_instance_def
      split: option.splits if_splits)

section \<open>Force detach\<close>

lemma detach_volume_calls:
  assumes "c \<in> set (snd (detach_volume_from_job_instance env job jpd v))"
  shows "c = DetachVolume (vm_id v) False \<and> jm_volumes_detached_at job = None
    \<or> c = DetachVolume (vm_id v) True
        \<and> should_force_detach_volume (te_now env) job (js_stop_duration (jm_job_spec job))"
  using assms
  by (auto simp: detach_volume_from_job_instance_def Let_def split: if_splits option.splits sum.splits)

lemma detach_volumes_calls:
  assumes "c \<in> set (dr_calls (detach_volumes_from_job_instance env job jpd inst vs))"
  shows "\<exists>v. c = DetachVolume v False \<and> jm_volumes_detached_at job = None
    \<or> c = DetachVolume v True
        \<and> should_force_detach_volume (te_now env) job (js_stop_duration (jm_job_spec job))"
  using assms detach_volume_calls
  by (fastforce simp: detach_volumes_from_job_instance_def Let_def split: if_splits)

lemma stop_and_detach_calls:
  assumes "DetachVolume v f \<in> set (dr_calls (stop_and_detach env vs job inst))"
  shows "if f then should_force_detach_volume (te_now env) job (js_stop_duration (jm_job_spec job))
    else jm_volumes_detached_at job = None"
  using assms detach_volumes_calls [of "DetachVolume v f" env job]
  by (fastforce simp: stop_and_detach_def Let_def split: option.splits if_splits)

lemma process_job_calls:
  assumes "process_job env d j = Inr (d', calls)" and "DetachVolume v f \<in> set calls"
  shows "if f then should_force_detach_volume (te_now env) j (js_stop_duration (jm_job_spec j))
    else jm_volumes_detached_at j = None"
proof -
  from assms consider
    (soft) inst where "DetachVolume v f \<in> set (dr_calls (stop_and_detach env (db_volumes d) j inst))"
  | (wait) jpd inst where "DetachVolume v f \<in> set (dr_calls
        (detach_volumes_from_job_instance env j jpd inst (volumes_to_detach (db_volumes d) j inst)))"
    by (auto simp: process_job_def process_terminating_job_def process_volumes_detaching_def Let_def
        fmapE_Inr_conv bindE_Inr_conv split: if_split_asm option.split_asm)
  then show ?thesis
  proof cases
    case soft
    then show ?thesis by (rule stop_and_detach_calls)
  next
    case wait
    from detach_volumes_calls [OF this] show ?thesis by auto
  qed
qed

section \<open>Blocks\<close>

text \<open>A job that waits for its volumes has already released its instance.\<close>

definition assignment_ok :: "JobModel \<Rightarrow> bool" where
  "assignment_ok j \<longleftrightarrow> (if jm_volumes_detached_at j = None
     then jm_instance_id j = jm_used_instance_id j else jm_instance_id j = None)"

lemma db_instance_Some: "db_instance d i = Some m \<Longrightarrow> m \<in> set (db_instances d) \<and> im_id m = i"
  by (auto simp: db_instance_def find_Some_iff)

lemma blocks_inv_put_job:
  assumes "keys_ok d" and "blocks_inv twice d" and "j \<in> set (db_jobs d)" and "jm_id j' = jm_id j"
    and "jm_instance_id j' = jm_instance_id j" and "job_blocks j' = job_blocks j"
  shows "blocks_inv twice (db_put_job j' d)"
proof -
  have dj: "distinct (map jm_id (db_jobs d))" using assms(1) by (simp add: keys_ok_def)
  have "sum_list (map job_blocks (instance_jobs (db_put_job j' d) k)) =
      sum_list (map job_blocks (instance_jobs d k))" for k
    unfolding instance_jobs_def using sum_put_row [OF dj assms(3,4)] assms(5,6) by simp
  with assms(2) show ?thesis by (simp add: blocks_inv_def)
qed

lemma process_terminating_job_effect:
  assumes "process_terminating_job env vs run ks j (Some i) = Inr (j', oi, calls)"
  shows "\<exists>i'. oi = Some i' \<and> jm_id j' = jm_id j \<and> im_id i' = im_id i \<and> job_blocks j' = job_blocks j \<and>
    (if (case jm_remove_at j of Some t \<Rightarrow> t > te_now env | None \<Rightarrow> False) then j' = j \<and> i' = i
     else jm_instance_id j' = None \<and> im_busy_blocks i' = im_busy_blocks i - job_blocks j)"
proof (cases "case jm_remove_at j of Some t \<Rightarrow> t > te_now env | None \<Rightarrow> False")
  case True
  with assms have "oi = Some i" "j' = j" by (simp_all add: process_terminating_job_def)
  with True show ?thesis by simp
next
  case False
  then show ?thesis using assms
    by (simp add: process_terminating_job_def Let_def bindE_Inr_conv del: split_paired_Ex)
      (auto split: if_splits)
qed

lemma process_job_cases:
  assumes "process_job env d j = Inr (d', calls)"
  obtains (no_instance) run j' where "process_terminating_job env (db_volumes d) run [] j None = Inr (j', None, calls)"
      "d' = db_put_job (j'\<lparr>jm_last_processed_at := te_now env\<rparr>) d"
      "\<forall>i. jm_used_instance_id j = Some i \<longrightarrow> db_instance d i = None"
  | (terminating) run i m ks j' m' where "jm_used_instance_id j = Some i" "db_instance d i = Some m"
      "jm_volumes_detached_at j = None"
      "process_terminating_job env (db_volumes d) run ks j (Some m) = Inr (j', Some m', calls)"
      "d' = db_put_job (j'\<lparr>jm_last_processed_at := te_now env\<rparr>) (db_put_instance m' d)"
  | (detaching) i m j' m' where "jm_used_instance_id j = Some i" "db_instance d i = Some m"
      "jm_volumes_detached_at j \<noteq> None"
      "process_volumes_detaching env (db_volumes d) j m = Inr (j', m', calls)"
      "d' = db_put_job (j'\<lparr>jm_last_processed_at := te_now env\<rparr>) (db_put_instance m' d)"
proof (cases "case jm_used_instance_id j of None \<Rightarrow> None | Some i \<Rightarrow> db_instance d i")
  case None
  then have "\<forall>i. jm_used_instance_id j = Some i \<longrightarrow> db_instance d i = None" by auto
  with None assms show ?thesis using no_instance
    by (force simp: process_job_def Let_def bindE_Inr_conv fmapE_Inr_conv get_or_error_def
        process_terminating_job_def split: if_split_asm)
next
  case (Some m)
  then obtain i where i: "jm_used_instance_id j = Some i" "db_instance d i = Some m"
    by (auto split: option.split_asm)
  show ?thesis
  proof (cases "jm_volumes_detached_at j = None")
    case True
    with assms i obtain run j' oi where *: "process_terminating_job env (db_volumes d) run
        (map jm_id (instance_jobs d (im_id m))) j (Some m) = Inr (j', oi, calls)"
      "d' = db_put_job (j'\<lparr>jm_last_processed_at := te_now env\<rparr>) (case oi of None \<Rightarrow> d | Some i \<Rightarrow> db_put_instance i d)"
      by (auto simp: process_job_def bindE_Inr_conv fmapE_Inr_conv)
    with process_terminating_job_effect [OF *(1)] show ?thesis
      using terminating [OF i True] by auto
  next
    case False
    with assms i detaching [OF i False] show ?thesis
      by (auto simp: process_job_def bindE_Inr_conv fmapE_Inr_conv get_or_error_def)
  qed
qed

section \<open>Properties\<close>

text \<open>
  What a step on a terminating job gives back a second time. The job has released its instance already,
  but nothing marks the first pass as done.
\<close>

definition ledger_after :: "time \<Rightarrow> JobModel \<Rightarrow> (nat \<Rightarrow> int) \<Rightarrow> nat \<Rightarrow> int" where
  "ledger_after now j twice = (case jm_used_instance_id j of
      None \<Rightarrow> twice
    | Some k \<Rightarrow>
        if jm_instance_id j = None \<and> jm_volumes_detached_at j = None \<and> \<not> (case jm_remove_at j of Some t \<Rightarrow> t > now | None \<Rightarrow> False)
        then twice(k := twice k + job_blocks j) else twice)"

lemma ledger_after_assigned: "assignment_ok j \<Longrightarrow> ledger_after now j twice = twice"
  by (auto simp: ledger_after_def assignment_ok_def split: option.split)

lemma terminating_job_ledger:
  assumes "keys_ok d" and "blocks_inv twice d" and "j \<in> set (db_jobs d)" 
    and "assignment_ok j \<or> jm_instance_id j = None \<and> (\<exists>i m. jm_used_instance_id j = Some i \<and> db_instance d i = Some m)"
    and "process_job env d j = Inr (d', calls)"
  shows "keys_ok d' \<and> blocks_inv (ledger_after (te_now env) j twice) d'"
  using assms(5)
proof (cases rule: process_job_cases)
  case (no_instance run j')
  then have "jm_id j' = jm_id j" "jm_instance_id j' = jm_instance_id j" "job_blocks j' = job_blocks j"
    by (auto simp: process_terminating_job_def bindE_Inr_conv split: if_split_asm)
  moreover have "ledger_after (te_now env) j twice = twice" using assms(4) no_instance(3) ledger_after_assigned by auto
  ultimately show ?thesis
    using blocks_inv_put_job [OF assms(1,2,3), of "j'\<lparr>jm_last_processed_at := te_now env\<rparr>"] no_instance(2) assms(1) by simp
next
  case (terminating run i m ks j' m')
  note m = db_instance_Some [OF terminating(2)]
  have inst: "jm_instance_id j \<in> {None, Some (im_id m)}"
    using assms(4) terminating(1,3) m by (auto simp: assignment_ok_def)
  have eff: "jm_id j' = jm_id j" "im_id m' = im_id m"
    "if (case jm_remove_at j of Some t \<Rightarrow> t > te_now env | None \<Rightarrow> False) then j' = j \<and> m' = m
     else jm_instance_id j' = None \<and> im_busy_blocks m' = im_busy_blocks m - job_blocks j"
    using process_terminating_job_effect [OF terminating(4)] by auto
  have "blocks_inv (ledger_after (te_now env) j twice) (db_put_job (j'\<lparr>jm_last_processed_at := te_now env\<rparr>) (db_put_instance m' d))"
    by (rule blocks_inv_put_twice [OF assms(1,2,3), of _ m])
      (use m inst eff terminating(1,3) in \<open>auto simp: ledger_after_def split: if_splits\<close>)
  then show ?thesis using assms(1) terminating(5) by simp
next
  case (detaching i m j' m')
  note m = db_instance_Some [OF detaching(2)]
  have none: "jm_instance_id j = None" using assms(4) detaching(3) by (auto simp: assignment_ok_def)
  from detaching(4) have e: "jm_id j' = jm_id j" "jm_instance_id j' = None" "im_id m' = im_id m"
    "im_busy_blocks m' = im_busy_blocks m"
    by (auto simp: process_volumes_detaching_def Let_def bindE_Inr_conv none)
  have "ledger_after (te_now env) j twice = twice" using detaching(3) by (auto simp: ledger_after_def split: option.split)
  with e show ?thesis
    using blocks_inv_put [OF assms(1,2,3), of "j'\<lparr>jm_last_processed_at := te_now env\<rparr>" m m']
      m none assms(1) detaching(5) by auto
qed

text \<open>
  Processing a terminating job keeps the accounting of blocks: if the busy blocks of every
  instance are those of the jobs assigned to it, and a job that has not begun to detach its volumes still
  holds the instance it used, this is so after the step.
\<close>

theorem process_job_blocks:
  assumes "keys_ok d" and "blocks_inv twice d" and "j \<in> set (db_jobs d)" and "assignment_ok j"
    and "process_job env d j = Inr (d', calls)"
  shows "keys_ok d' \<and> blocks_inv twice d'"
  using terminating_job_ledger [OF assms(1-3) _ assms(5)] assms(4) by (simp add: ledger_after_assigned)

definition demo_env :: "bool \<Rightarrow> bool \<Rightarrow> time \<Rightarrow> term_env" where
  "demo_env backend detached now = \<lparr>te_now = now, te_backend = (\<lambda>_. backend), te_detach_volume = (\<lambda>_ _ _. Inr ()),
     te_is_volume_detached = (\<lambda>_ _. Inr detached), te_gateway = Inr (), te_project_key = ''key''\<rparr>"

definition demo_job :: "time option \<Rightarrow> JobModel" where
  "demo_job detached_at = (sample_job 1 0 0 0 J_TERMINATING)\<lparr>jm_termination_reason := Some TERMINATED_BY_USER,
     jm_job_provisioning_data := Some sample_jpd, jm_volumes_detached_at := detached_at,
     jm_instance_id := (if detached_at = None then Some 5 else None), jm_used_instance_id := Some 5\<rparr>"

definition demo_db :: "time option \<Rightarrow> db" where
  "demo_db detached_at = \<lparr>db_runs = [sample_run sample_task R_TERMINATING [demo_job detached_at]],
     db_instances = [(sample_instance 5 I_BUSY (if detached_at = None then 1 else 0))\<lparr>im_volume_attachments := [9]\<rparr>],
     db_volumes = [sample_volume 9], db_fleets = [], db_pools = [], db_placement_groups = []\<rparr>"

lemmas demo_eval = demo_env_def demo_job_def demo_db_def process_job_def process_terminating_job_def
  process_volumes_detaching_def stop_and_detach_def volumes_to_detach_def detach_volumes_from_job_instance_def
  detach_volume_from_job_instance_def should_force_detach_volume_def MIN_FORCE_DETACH_WAIT_PERIOD_def
  volume_model_to_volume_def unregister_replica_def get_or_error_def get_instance_ssh_private_keys_def db_run_of_job_def db_instance_def
  db_put_job_def db_put_instance_def db_jobs_def instance_jobs_def job_blocks_def released_status_def
  set_job_termination_status_def map_filter_def Let_def row_simps

lemma demo_ok:
  "keys_ok (demo_db t)" "blocks_inv (\<lambda>_. 0) (demo_db t)" "demo_job t \<in> set (db_jobs (demo_db t))" "assignment_ok (demo_job t)"
  by (simp_all add: keys_ok_def blocks_inv_def assignment_ok_def demo_eval)

theorem process_job_blocks_witness:
  "\<exists>d' calls. process_job (demo_env True True 0) (demo_db None) (demo_job None) = Inr (d', calls) \<and> blocks_inv (\<lambda>_. 0) d'"
proof -
  obtain d' calls where s: "process_job (demo_env True True 0) (demo_db None) (demo_job None) = Inr (d', calls)"
    by (simp add: demo_eval)
  from process_job_blocks [OF demo_ok this] s show ?thesis by blast
qed

text \<open>
  C15. Volumes are force detached only on a later pass: at least the minimum wait after the first
  attempt, and only for an aborted job or once the stop duration is over. The first attempt is soft.
\<close>

theorem force_detach_safe:
  assumes "process_job env d j = Inr (d', calls)" and "DetachVolume v f \<in> set calls"
  shows "(f \<longleftrightarrow> jm_volumes_detached_at j \<noteq> None) \<and>
    (f \<longrightarrow> (\<exists>t. jm_volumes_detached_at j = Some t \<and> te_now env > t + seconds 60 \<and>
      (jm_termination_reason j = Some J_ABORTED_BY_USER \<or>
       (\<exists>s. js_stop_duration (jm_job_spec j) = Some s \<and> te_now env > t + seconds s))))"
  using process_job_calls [OF assms]
  by (auto simp: should_force_detach_volume_def MIN_FORCE_DETACH_WAIT_PERIOD_def split: option.splits if_splits)

theorem force_detach_safe_witness:
  "\<exists>d' calls. process_job (demo_env True False (seconds 400)) (demo_db (Some 0)) (demo_job (Some 0)) = Inr (d', calls)
     \<and> DetachVolume 9 True \<in> set calls \<and> jm_volumes_detached_at (demo_job (Some 0)) \<noteq> None"
proof -
  obtain d' calls where s: "process_job (demo_env True False (seconds 400)) (demo_db (Some 0)) (demo_job (Some 0)) = Inr (d', calls)"
    "DetachVolume 9 True \<in> set calls"
    by (simp add: demo_eval seconds_def)
  from force_detach_safe [OF this] s show ?thesis by blast
qed

text \<open>
  A terminating job that is due is released: it no longer refers to the instance, its blocks
  are free, and the instance's status follows from its former status, the other jobs on it and whether
  it can be reused. The job ends with the status of its termination reason unless some volume is
  still attached; then the time of the first attempt is recorded or the backend is not available.
\<close>

theorem process_terminating_job_releases:
  assumes "process_terminating_job env vs run ks j (Some i) = Inr (j', Some i', calls)"
    and "\<forall>t. jm_remove_at j = Some t \<longrightarrow> t \<le> te_now env"
  shows "jm_instance_id j' = None \<and> im_busy_blocks i' = im_busy_blocks i - job_blocks j
    \<and> im_status i' = released_status j ks (im_status i)
    \<and> (if dr_all_detached (stop_and_detach env vs j i)
       then jm_status j' = (case jm_termination_reason j of Some r \<Rightarrow> job_reason_to_status r | None \<Rightarrow> J_FAILED)
       else jm_status j' = jm_status j \<and> (jm_volumes_detached_at j' \<noteq> None
            \<or> (\<exists>jpd. jm_job_provisioning_data j = Some jpd \<and> \<not> te_backend env (jpd_backend jpd))))"
proof -
  have due: "\<not> (case jm_remove_at j of Some t \<Rightarrow> t > te_now env | None \<Rightarrow> False)"
    using assms(2) by (auto split: option.splits)
  then show ?thesis using assms(1) not_detached_marks [of env vs j i]
    by (auto simp: process_terminating_job_def Let_def bindE_Inr_conv set_job_termination_status_def
        split: if_splits)
qed

theorem process_terminating_job_releases_witness:
  "\<exists>j' i' calls. process_terminating_job (demo_env True True 0) [] (sample_run sample_task R_TERMINATING [])
      [1] (demo_job None) (Some (sample_instance 5 I_BUSY 1)) = Inr (j', Some i', calls)
    \<and> jm_instance_id j' = None \<and> im_busy_blocks i' = 0"
proof -
  obtain j' i' calls where s: "process_terminating_job (demo_env True True 0) [] (sample_run sample_task R_TERMINATING [])
      [1] (demo_job None) (Some (sample_instance 5 I_BUSY 1)) = Inr (j', Some i', calls)"
    by (simp add: demo_eval)
  have "jm_instance_id j' = None \<and> im_busy_blocks i' = 0"
    using process_terminating_job_releases [OF s] by (simp add: demo_eval)
  with s show ?thesis by blast
qed

text \<open>
  The task serves the least recently processed candidate: the chosen job is terminating, not
  locked, past its removal time, and no such job was processed before it.
\<close>

theorem next_terminating_job_fair:
  assumes "next_terminating_job now jl il d = Some j"
  shows "j \<in> set (terminating_candidates now jl (db_jobs d))
    \<and> (\<forall>k \<in> set (terminating_candidates now jl (db_jobs d)). jm_last_processed_at j \<le> jm_last_processed_at k)"
proof -
  let ?s = "sort_key jm_last_processed_at (terminating_candidates now jl (db_jobs d))"
  from assms obtain ks where s: "?s = j # ks"
    by (auto simp: next_terminating_job_def split: list.split_asm option.split_asm if_split_asm)
  have "set ?s = set (terminating_candidates now jl (db_jobs d))" by simp
  moreover have "sorted (map jm_last_processed_at ?s)" by simp
  ultimately show ?thesis unfolding s by auto
qed

theorem next_terminating_job_fair_witness:
  "demo_job None \<in> set (terminating_candidates 0 {} (db_jobs (demo_db None)))"
proof -
  have "next_terminating_job 0 {} {} (demo_db None) = Some (demo_job None)"
    by (simp add: next_terminating_job_def terminating_candidates_def demo_eval)
  from next_terminating_job_fair [OF this] show ?thesis by blast
qed

text \<open>
  When the backend of a job's volumes is not available, nothing marks the first pass as done: the
  task takes the job again and releases the instance a second time, so that the busy blocks become
  negative.
\<close>

theorem unavailable_backend_releases_twice:
  "blocks_inv (\<lambda>_. 0) (demo_db None) \<and>
   (\<exists>d1 j1 d2. process_next_terminating_job (demo_env False False 1) {} {} (demo_db None) = Inr (d1, [StopContainer 1, UnregisterReplica 1])
      \<and> next_terminating_job 2 {} {} d1 = Some j1
      \<and> process_next_terminating_job (demo_env False False 2) {} {} d1 = Inr (d2, [StopContainer 1, UnregisterReplica 1])
      \<and> map im_busy_blocks (db_instances d2) = [-1] \<and> \<not> blocks_inv (\<lambda>_. 0) d2)"
  by (simp add: demo_ok process_next_terminating_job_def next_terminating_job_def terminating_candidates_def
      blocks_inv_def demo_eval)

end
