(* ===== verification/Interpolator.thy ===== *)
theory Interpolator
  imports Py_Strings
begin

text \<open>
  \<^verbatim>\<open>utils/interpolator.py\<close>: references \<^verbatim>\<open>${{ ns.name }}\<close> in texts. The loop of
  \<^verbatim>\<open>interpolate\<close> over positions is a recursion on the rest of the text; an
  \<^verbatim>\<open>InterpolatorError\<close> is a \<^verbatim>\<open>ValueError\<close>.
\<close>

text \<open>\<^verbatim>\<open>s.find(p)\<close>\<close>

fun find_sub :: "string \<Rightarrow> string \<Rightarrow> nat option" where
  "find_sub p [] = (if p = [] then Some 0 else None)"
| "find_sub p (c # s) = (if startswith (c # s) p then Some 0 else map_option Suc (find_sub p s))"

definition pattern_opening :: string where "pattern_opening = ''${{''"
definition pattern_closing :: string where "pattern_closing = ''}}''"

definition name_first_char :: "char \<Rightarrow> bool" where
  "name_first_char c \<longleftrightarrow> is_alpha c \<or> c = CHR ''_''"

definition name_char :: "char \<Rightarrow> bool" where
  "name_char c \<longleftrightarrow> name_first_char c \<or> is_digit c \<or> c = CHR ''.''"

definition validate_name :: "string \<Rightarrow> bool" where
  "validate_name s = (case split_on (CHR ''.'') s of
      [a, b] \<Rightarrow> a \<noteq> [] \<and> b \<noteq> [] \<and> name_first_char (hd a) \<and> name_first_char (hd b) \<and> list_all name_char s
    | _ \<Rightarrow> False)"

definition prepend :: "string \<Rightarrow> string list \<Rightarrow> (string \<times> string list) result \<Rightarrow> (string \<times> string list) result" where
  "prepend pre missing r = fmapE (\<lambda>(t, m). (pre @ t, missing @ m)) r"

text \<open>
  The joined tokens and the missing names. \<open>vars\<close> are the variables by their full name, \<open>skip\<close>
  the namespaces whose references are kept.
\<close>

function interpolate :: "(string \<times> string) list \<Rightarrow> string list \<Rightarrow> string \<Rightarrow> (string \<times> string list) result" where
  "interpolate vars skip s =
     (if s = [] then Inr ([], [])
      else case find_sub ''$'' s of
          None \<Rightarrow> Inr (s, [])
        | Some dollar \<Rightarrow>
            if dollar = length s - 1 then Inr (s, [])
            else if s ! (dollar + 1) = CHR ''$'' then
              prepend (take (dollar + 1) s) [] (interpolate vars skip (drop (dollar + 2) s))
            else (case find_sub pattern_opening s of
                None \<Rightarrow> Inr (s, [])
              | Some o' \<Rightarrow> (case find_sub pattern_closing (drop o' s) of
                    None \<Rightarrow> Inl ValueError
                  | Some c \<Rightarrow>
                      let name = strip (take (c - 3) (drop (o' + 3) s));
                          rest = drop (o' + c + 2) s in
                      if \<not> validate_name name then Inl ValueError
                      else if hd (split_on (CHR ''.'') name) \<in> set skip
                      then prepend (take (o' + c + 2) s) [] (interpolate vars skip rest)
                      else (case map_of vars name of
                          Some v \<Rightarrow> prepend (take o' s @ v) [] (interpolate vars skip rest)
                        | None \<Rightarrow> prepend (take o' s) [name] (interpolate vars skip rest)))))"
  by pat_completeness auto
termination
  by (relation "measure (\<lambda>(_, _, s). length s)") auto

declare interpolate.simps [simp del]

definition interpolate_or_error :: "(string \<times> string) list \<Rightarrow> string list \<Rightarrow> string \<Rightarrow> string result" where
  "interpolate_or_error vars skip s = bindE (interpolate vars skip s)
     (\<lambda>(res, missing). if missing = [] then Inr res else Inl ValueError)"

section \<open>Searching\<close>

lemma find_sub_char_None: "c \<notin> set s \<Longrightarrow> find_sub [c] s = None"
  by (induction s) (auto simp: startswith_def)

lemma find_sub_char_append: "c \<notin> set a \<Longrightarrow> find_sub [c] (a @ c # s) = Some (length a)"
  by (induction a) (auto simp: startswith_def)

section \<open>Properties\<close>

text \<open>Every dollar sign doubled.\<close>

definition escape :: "string \<Rightarrow> string" where
  "escape s = concat (map (\<lambda>c. if c = CHR ''$'' then ''$$'' else [c]) s)"

lemma escape_no_dollar: "CHR ''$'' \<notin> set s \<Longrightarrow> escape s = s"
  by (induction s) (auto simp: escape_def)

lemma escape_append [simp]: "escape (s @ t) = escape s @ escape t"
  by (simp add: escape_def)

text \<open>
  Escaping is undone by interpolation: a text in which every dollar sign is doubled is read
  back as it was, whatever the variables, and no name is missing.
\<close>

theorem interpolate_escape: "interpolate vars skip (escape s) = Inr (s, [])"
proof (induction "length s" arbitrary: s rule: less_induct)
  case less
  show ?case
  proof (cases "CHR ''$'' \<in> set s")
    case False
    then show ?thesis
      by (subst interpolate.simps) (simp add: escape_no_dollar find_sub_char_None)
  next
    case True
    then obtain a b where s: "s = a @ CHR ''$'' # b" and a: "CHR ''$'' \<notin> set a"
      by (meson split_list_first)
    have e: "escape s = a @ CHR ''$'' # CHR ''$'' # escape b"
      using a by (simp add: s escape_no_dollar) (simp add: escape_def)
    have "interpolate vars skip (escape b) = Inr (b, [])" by (rule less) (simp add: s)
    then show ?thesis unfolding e
      by (subst interpolate.simps)
        (use a in \<open>simp add: find_sub_char_append nth_append prepend_def s\<close>)
  qed
qed

text \<open>
  The escape is honoured only while no lone dollar sign precedes it: after one, the search for
  the next reference starts before the doubled sign and replaces the escaped reference.
\<close>

theorem interpolate_escape_after_dollar:
  "interpolate [(''dstack.job_num'', ''3'')] [] ''$${{dstack.job_num}}'' = Inr (''${{dstack.job_num}}'', [])
   \<and> interpolate [(''dstack.job_num'', ''3'')] [] ''$x-$${{dstack.job_num}}'' = Inr (''$x-$3'', [])"
  by code_simp

end
