(* ===== verification/Job_Configurators.thy ===== *)
theory Job_Configurators
  imports Run_Models Interpolator
begin

text \<open>
  \<^verbatim>\<open>server/services/jobs/configurators/\<close>: the job specifications of a run. The registry that
  answers for an image is the field \<open>jc_image_config\<close>, the interpreter's version \<open>jc_python\<close> and
  the version of the base image \<open>jc_base_image\<close>. \<^verbatim>\<open>_join_shell_commands\<close> writes into the list it
  is given, which for tasks and services is the configuration's own list: the run specification is
  threaded through the jobs of a replica.
\<close>

record ImageConfig =
  ic_user :: "string option"
  ic_entrypoint :: "string list option"
  ic_cmd :: "string list option"

record jc_env =
  jc_image_config :: "string \<Rightarrow> (string \<times> string) option \<Rightarrow> ImageConfig result"
  jc_python :: string
  jc_base_image :: string

section \<open>Splitting an entrypoint\<close>

text \<open>
  \<^verbatim>\<open>shlex.split\<close>: between tokens, in a word, in quotes, and after a backslash in a word or in
  double quotes. The current token and whether it was quoted are accumulators.
\<close>

datatype shlex_state = ShSpace | ShWord | ShQuote char | ShEscape "char option"

definition sh_space :: "char \<Rightarrow> bool" where
  "sh_space c \<longleftrightarrow> c \<in> {CHR '' '', CHR 0x09, CHR 0x0D, CHR 0x0A}"

definition sh_quote :: "char \<Rightarrow> bool" where
  "sh_quote c \<longleftrightarrow> c \<in> {CHR 0x27, CHR 0x22}"

definition sh_backslash :: char where "sh_backslash = CHR 0x5C"

fun shlex :: "shlex_state \<Rightarrow> string \<Rightarrow> bool \<Rightarrow> string \<Rightarrow> string list result" where
  "shlex (ShQuote q) tok quoted [] = Inl ValueError"
| "shlex (ShEscape q) tok quoted [] = Inl ValueError"
| "shlex _ tok quoted [] = Inr (if tok = [] \<and> \<not> quoted then [] else [tok])"
| "shlex ShSpace tok quoted (c # s) =
     (if sh_space c then shlex ShSpace tok quoted s
      else if c = sh_backslash then shlex (ShEscape None) tok quoted s
      else if sh_quote c then shlex (ShQuote c) tok quoted s
      else shlex ShWord [c] quoted s)"
| "shlex ShWord tok quoted (c # s) =
     (if sh_space c then
        (if tok = [] \<and> \<not> quoted then shlex ShSpace tok quoted s
         else fmapE (\<lambda>ts. tok # ts) (shlex ShSpace [] False s))
      else if sh_quote c then shlex (ShQuote c) tok quoted s
      else if c = sh_backslash then shlex (ShEscape None) tok quoted s
      else shlex ShWord (tok @ [c]) quoted s)"
| "shlex (ShQuote q) tok quoted (c # s) =
     (if c = q then shlex ShWord tok True s
      else if c = sh_backslash \<and> q = CHR 0x22 then shlex (ShEscape (Some q)) tok True s
      else shlex (ShQuote q) (tok @ [c]) True s)"
| "shlex (ShEscape q) tok quoted (c # s) =
     (case q of
        None \<Rightarrow> shlex ShWord (tok @ [c]) quoted s
      | Some d \<Rightarrow> shlex (ShQuote d)
          ((if c \<noteq> sh_backslash \<and> c \<noteq> d then tok @ [sh_backslash] else tok) @ [c]) quoted s)"

definition shlex_split :: "string \<Rightarrow> string list result" where
  "shlex_split s = shlex ShSpace [] False s"

section \<open>Commands\<close>

definition escape_command :: "string \<Rightarrow> string" where
  "escape_command cmd = (let cmd = strip cmd in
     if endswith cmd ''&'' then ''{ '' @ cmd @ '' }'' else cmd)"

text \<open>\<^verbatim>\<open>_join_shell_commands\<close>: the text, and the list as it leaves it.\<close>

definition join_shell_commands :: "string list \<Rightarrow> string \<times> string list" where
  "join_shell_commands commands =
     (let commands = map escape_command commands in (join '' && '' commands, commands))"

definition vscode_install_commands :: "string option \<Rightarrow> string list \<Rightarrow> string list" where
  "vscode_install_commands version extensions = (case version of
      None \<Rightarrow> []
    | Some v \<Rightarrow>
        let url = ''https://update.code.visualstudio.com/commit:'' @ v @ ''/server-linux-$arch/stable'';
            archive = ''vscode-server-linux-$arch.tar.gz'';
            target = ''~/.vscode-server/bin/\"'' @ v @ ''\"'' in
        [''if [ $(uname -m) = \"aarch64\" ]; then arch=\"arm64\"; else arch=\"x64\"; fi'',
         ''mkdir -p /tmp'',
         ''wget -q --show-progress \"'' @ url @ ''\" -O \"/tmp/'' @ archive @ ''\"'',
         ''mkdir -vp '' @ target,
         ''tar --no-same-owner -xz --strip-components=1 -C '' @ target @ '' -f \"/tmp/'' @ archive @ ''\"'',
         ''rm \"/tmp/'' @ archive @ ''\"''] @
        (if extensions = [] then []
         else [''PATH=\"$PATH\":'' @ target @ ''/bin code-server '' @
                 join '' '' (map (\<lambda>n. ''--install-extension \"'' @ n @ ''\"'') extensions)]))"

definition vscode_readme_commands :: "string \<Rightarrow> string list" where
  "vscode_readme_commands run_name =
     [''echo To open in VS Code Desktop, use link below:'',
      ''echo '' @ [CHR 0x27, CHR 0x27],
      ''echo '' @ [CHR 0x27] @ ''  vscode://vscode-remote/ssh-remote+'' @ run_name @ ''/workflow'' @ [CHR 0x27],
      ''echo '' @ [CHR 0x27, CHR 0x27]]"

definition INSTALL_IPYKERNEL :: string where
  "INSTALL_IPYKERNEL =
     ''(echo pip install ipykernel... && pip install -q --no-cache-dir ipykernel 2> /dev/null) || '' @
     ''echo \"no pip, ipykernel was not installed\"''"

definition run_name_text :: "RunSpec \<Rightarrow> string" where
  "run_name_text spec = (case spec_run_name spec of None \<Rightarrow> ''None'' | Some n \<Rightarrow> n)"

definition shell_commands :: "RunSpec \<Rightarrow> string list" where
  "shell_commands spec = (case spec_configuration spec of
      DevEnvironmentConfiguration b p \<Rightarrow>
        vscode_install_commands (dv_version p) [''ms-python.python'', ''ms-toolsai.jupyter'']
        @ [INSTALL_IPYKERNEL] @ bc_setup b @ [''echo '' @ [CHR 0x27, CHR 0x27]] @ dv_init p
        @ vscode_readme_commands (run_name_text spec)
        @ [''echo '' @ [CHR 0x27] @ ''To connect via SSH, use: `ssh '' @ run_name_text spec @ ''`'' @ [CHR 0x27],
           ''echo '' @ [CHR 0x27, CHR 0x27],
           ''echo -n '' @ [CHR 0x27] @ ''To exit, press Ctrl+C.'' @ [CHR 0x27]]
        @ [''tail -f /dev/null'']
    | TaskConfiguration _ p \<Rightarrow> tk_commands p
    | ServiceConfiguration _ p \<Rightarrow> sv_commands p)"

text \<open>The configuration's own list, written back.\<close>

definition set_commands :: "string list \<Rightarrow> RunSpec \<Rightarrow> RunSpec" where
  "set_commands cs spec = spec\<lparr>spec_configuration := (case spec_configuration spec of
      TaskConfiguration b p \<Rightarrow> TaskConfiguration b (p\<lparr>tk_commands := cs\<rparr>)
    | ServiceConfiguration b p \<Rightarrow> ServiceConfiguration b (p\<lparr>sv_commands := cs\<rparr>)
    | DevEnvironmentConfiguration b p \<Rightarrow> DevEnvironmentConfiguration b p)\<rparr>"

definition base_of :: "RunSpec \<Rightarrow> BaseRunConfiguration" where
  "base_of spec = conf_base (spec_configuration spec)"

definition python_of :: "jc_env \<Rightarrow> RunSpec \<Rightarrow> string result" where
  "python_of env spec = (case bc_python (base_of spec) of
      Some p \<Rightarrow> Inr (python_value p)
    | None \<Rightarrow> (case PythonVersion_of (jc_python env) of
        Inr p \<Rightarrow> Inr (python_value p)
      | Inl _ \<Rightarrow> Inl (ServerClientError ''Failed to use the system Python version'')))"

definition get_default_image :: "jc_env \<Rightarrow> string \<Rightarrow> bool \<Rightarrow> string" where
  "get_default_image env python nvcc =
     ''dstackai/base:py'' @ python @ ''-'' @ jc_base_image env @ ''-cuda-12.1'' @ (if nvcc then ''-devel'' else [])"

definition image_name :: "jc_env \<Rightarrow> RunSpec \<Rightarrow> string result" where
  "image_name env spec = (case bc_image (base_of spec) of
      Some i \<Rightarrow> Inr i
    | None \<Rightarrow> fmapE (\<lambda>p. get_default_image env p (bc_nvcc (base_of spec) = Some True)) (python_of env spec))"

definition get_image_config :: "jc_env \<Rightarrow> RunSpec \<Rightarrow> ImageConfig result" where
  "get_image_config env spec =
     bindE (image_name env spec) (\<lambda>i. jc_image_config env i (bc_registry_auth (base_of spec)))"

text \<open>
  \<^verbatim>\<open>_commands\<close>: the commands, and the run specification as it leaves it. A development
  environment has no \<^verbatim>\<open>commands\<close> attribute.
\<close>

definition conf_commands :: "RunConfiguration \<Rightarrow> string list result" where
  "conf_commands conf = (case conf of
      DevEnvironmentConfiguration _ _ \<Rightarrow> Inl AttributeError
    | TaskConfiguration _ p \<Rightarrow> Inr (tk_commands p)
    | ServiceConfiguration _ p \<Rightarrow> Inr (sv_commands p))"

definition commands_of :: "jc_env \<Rightarrow> RunSpec \<Rightarrow> (string list \<times> RunSpec) result" where
  "commands_of env spec =
     bindE (case bc_entrypoint (base_of spec) of
        Some e \<Rightarrow> bindE (shlex_split e) (\<lambda>entrypoint.
            bindE (conf_commands (spec_configuration spec)) (\<lambda>cs. Inr (entrypoint @ cs, spec)))
      | None \<Rightarrow>
          if bc_image (base_of spec) = None then
            (let (text, cs) = join_shell_commands (shell_commands spec)
             in Inr ([''/bin/bash'', ''-i'', ''-c'', text], set_commands cs spec))
          else if shell_commands spec \<noteq> [] then
            (let (text, cs) = join_shell_commands (shell_commands spec)
             in Inr ([''/bin/sh'', ''-i'', ''-c'', text], set_commands cs spec))
          else bindE (get_image_config env spec) (\<lambda>ic.
            Inr ((case ic_entrypoint ic of None \<Rightarrow> [] | Some e \<Rightarrow> e) @
                 (case ic_cmd ic of None \<Rightarrow> [] | Some c \<Rightarrow> c), spec)))
       (\<lambda>(result, spec'). if result = [] then Inl (ServerClientError ''Could not determine what command to run'')
          else Inr (result, spec'))"

section \<open>The other fields\<close>

definition ports_of :: "RunConfiguration \<Rightarrow> PortMapping list" where
  "ports_of conf = (case conf of
      DevEnvironmentConfiguration _ p \<Rightarrow> dv_ports p
    | TaskConfiguration _ p \<Rightarrow> tk_ports p
    | ServiceConfiguration _ _ \<Rightarrow> [])"

definition app_specs :: "RunConfiguration \<Rightarrow> AppSpec list" where
  "app_specs conf = map (\<lambda>(i, pm). \<lparr>app_port = pm_container_port pm, app_map_to_port = pm_local_port pm,
      app_name = ''app_'' @ show_nat i\<rparr>) (enumerate 0 (filter_reserved_ports (ports_of conf)))"

definition user_of :: "jc_env \<Rightarrow> RunSpec \<Rightarrow> UnixUser option result" where
  "user_of env spec =
     bindE (case bc_user (base_of spec) of
              Some u \<Rightarrow> Inr (Some u)
            | None \<Rightarrow> fmapE ic_user (get_image_config env spec))
       (\<lambda>user. case user of None \<Rightarrow> Inr None | Some u \<Rightarrow> fmapE Some (UnixUser_parse u))"

fun default_single_branch :: "RunConfiguration \<Rightarrow> bool" where
  "default_single_branch (DevEnvironmentConfiguration _ _) = False"
| "default_single_branch _ = True"

fun default_max_duration :: "RunConfiguration \<Rightarrow> int option" where
  "default_max_duration (DevEnvironmentConfiguration _ _) = Some (6 * 3600)"
| "default_max_duration (TaskConfiguration _ _) = Some (72 * 3600)"
| "default_max_duration (ServiceConfiguration _ _) = None"

definition single_branch :: "RunConfiguration \<Rightarrow> bool" where
  "single_branch conf = (case bc_single_branch (conf_base conf) of
      None \<Rightarrow> default_single_branch conf | Some b \<Rightarrow> b)"

text \<open>
  \<^verbatim>\<open>v in [None, True]\<close> and \<^verbatim>\<open>v in ["off", False]\<close> compare with \<^verbatim>\<open>==\<close>, and the
  integers 1 and 0 equal \<^verbatim>\<open>True\<close> and \<^verbatim>\<open>False\<close>.
\<close>

definition duration_field :: "int option \<Rightarrow> off_duration option \<Rightarrow> int option" where
  "duration_field dflt v = (case v of
      None \<Rightarrow> dflt
    | Some Unset \<Rightarrow> dflt
    | Some Off \<Rightarrow> None
    | Some (Secs n) \<Rightarrow> if n = 1 then dflt else if n = 0 then None else Some n)"

definition max_duration_of :: "RunSpec \<Rightarrow> int option" where
  "max_duration_of spec = duration_field (default_max_duration (spec_configuration spec))
     (pp_max_duration (pr_params (spec_merged_profile spec)))"

definition stop_duration_of :: "RunSpec \<Rightarrow> int option" where
  "stop_duration_of spec = duration_field (Some DEFAULT_STOP_DURATION)
     (pp_stop_duration (pr_params (spec_merged_profile spec)))"

definition spot_policy_of :: "RunSpec \<Rightarrow> SpotPolicy" where
  "spot_policy_of spec = (case pp_spot_policy (pr_params (spec_merged_profile spec)) of
      None \<Rightarrow> ONDEMAND | Some p \<Rightarrow> p)"

definition requirements_of :: "RunSpec \<Rightarrow> Requirements" where
  "requirements_of spec =
     (let params = pr_params (spec_merged_profile spec) in
      \<lparr>rq_resources = bc_resources (base_of spec), rq_max_price = pp_max_price params,
       rq_spot = (if spot_policy_of spec = AUTO then None else Some (spot_policy_of spec = SPOT)),
       rq_reservation = pp_reservation params\<rparr>)"

definition working_dir_of :: "RunSpec \<Rightarrow> string option" where
  "working_dir_of spec = (case spec_configuration spec of
      DevEnvironmentConfiguration _ _ \<Rightarrow> spec_working_dir spec
    | _ \<Rightarrow> if shell_commands spec = [] then None else spec_working_dir spec)"

definition job_variables :: "nat \<Rightarrow> (string \<times> string) list" where
  "job_variables job_num = [(''dstack.job_num'', show_nat job_num), (''dstack.node_rank'', show_nat job_num)]"

fun interpolate_mount_point :: "nat \<Rightarrow> MountPoint \<Rightarrow> MountPoint result" where
  "interpolate_mount_point job_num (InstanceMountPoint ip path opt) = Inr (InstanceMountPoint ip path opt)"
| "interpolate_mount_point job_num (VolumeMountPoint names path) =
     (case mapE (interpolate_or_error (job_variables job_num) [])
             (case names of OneName n \<Rightarrow> [n] | ManyNames ns \<Rightarrow> ns) of
        Inr ns \<Rightarrow> Inr (VolumeMountPoint (ManyNames ns) path)
      | Inl e \<Rightarrow> Inl (ServerClientError ''interpolation''))"

definition interpolate_job_volumes :: "MountPoint list \<Rightarrow> nat \<Rightarrow> MountPoint list result" where
  "interpolate_job_volumes run_volumes job_num = mapE (interpolate_mount_point job_num) run_volumes"

section \<open>Job specifications\<close>

definition get_job_spec :: "jc_env \<Rightarrow> RunSpec \<Rightarrow> nat \<Rightarrow> nat \<Rightarrow> nat \<Rightarrow> (JobSpec \<times> RunSpec) result" where
  "get_job_spec env spec replica_num job_num jobs_per_replica =
     bindE (commands_of env spec) (\<lambda>(commands, spec').
     bindE (as_dict (bc_env (base_of spec'))) (\<lambda>environ.
     bindE (image_name env spec') (\<lambda>img.
     bindE (user_of env spec') (\<lambda>user.
     bindE (interpolate_job_volumes (bc_volumes (base_of spec')) job_num) (\<lambda>volumes.
     Inr (\<lparr>js_replica_num = replica_num, js_job_num = job_num,
        js_job_name = run_name_text spec' @ ''-'' @ show_nat job_num @ ''-'' @ show_nat replica_num,
        js_jobs_per_replica = jobs_per_replica, js_app_specs = Some (app_specs (spec_configuration spec')),
        js_commands = commands, js_env = environ, js_home_dir = Some (bc_home_dir (base_of spec')),
        js_image_name = img, js_user = user, js_privileged = bc_privileged (base_of spec'),
        js_single_branch = Some (single_branch (spec_configuration spec')),
        js_max_duration = max_duration_of spec', js_stop_duration = stop_duration_of spec',
        js_registry_auth = bc_registry_auth (base_of spec'), js_requirements = requirements_of spec',
        js_retry = get_retry (pr_params (spec_merged_profile spec')), js_volumes = Some volumes,
        js_working_dir = working_dir_of spec'\<rparr>, spec'))))))"

text \<open>The loop over the nodes of a task.\<close>

fun job_specs_from :: "jc_env \<Rightarrow> RunSpec \<Rightarrow> nat \<Rightarrow> nat \<Rightarrow> nat list \<Rightarrow> (JobSpec list \<times> RunSpec) result" where
  "job_specs_from env spec replica_num nodes [] = Inr ([], spec)"
| "job_specs_from env spec replica_num nodes (n # ns) =
     bindE (get_job_spec env spec replica_num n nodes) (\<lambda>(js, spec').
     bindE (job_specs_from env spec' replica_num nodes ns) (\<lambda>(jss, spec'').
     Inr (js # jss, spec'')))"

definition get_job_specs_from_run_spec :: "jc_env \<Rightarrow> RunSpec \<Rightarrow> nat \<Rightarrow> (JobSpec list \<times> RunSpec) result" where
  "get_job_specs_from_run_spec env spec replica_num = (case spec_configuration spec of
      TaskConfiguration _ p \<Rightarrow> job_specs_from env spec replica_num (tk_nodes p) [0..<tk_nodes p]
    | _ \<Rightarrow> job_specs_from env spec replica_num 1 [0])"

definition get_jobs_from_run_spec :: "jc_env \<Rightarrow> RunSpec \<Rightarrow> nat \<Rightarrow> (Job list \<times> RunSpec) result" where
  "get_jobs_from_run_spec env spec replica_num =
     fmapE (\<lambda>(specs, spec'). (map (\<lambda>s. \<lparr>job_spec = s, job_submissions = []\<rparr>) specs, spec'))
       (get_job_specs_from_run_spec env spec replica_num)"

section \<open>Writing the commands back\<close>

lemma strip_ends:
  assumes "strip s \<noteq> []"
  shows "\<not> is_space (hd (strip s))" and "\<not> is_space (last (strip s))"
proof -
  let ?t = "dropWhile is_space s"
  have ne: "dropWhile is_space (rev ?t) \<noteq> []" using assms by (simp add: strip_def)
  then show "\<not> is_space (last (strip s))" by (simp add: strip_def last_rev hd_dropWhile)
  have "hd (strip s) = last (dropWhile is_space (rev ?t))" using ne by (simp add: strip_def hd_rev)
  also have "\<dots> = last (rev ?t)" using ne by (metis dropWhile_append2 last_append takeWhile_dropWhile_id)
  also have "\<dots> = hd ?t" by (simp add: last_rev)
  finally show "\<not> is_space (hd (strip s))"
    using ne by (metis dropWhile.simps(1) hd_dropWhile rev.simps(1))
qed

lemma strip_strip [simp]: "strip (strip s) = strip s"
proof (cases "strip s = []")
  case True
  have "strip [] = []" by (simp add: strip_def)
  with True show ?thesis by simp
next
  case False
  then show ?thesis by (intro strip_id strip_ends)
qed

lemma endswith_amp: "endswith s ''&'' \<longleftrightarrow> s \<noteq> [] \<and> last s = CHR ''&''"
  by (cases s rule: rev_cases) (auto simp: endswith_def)

lemma escape_command_idem [simp]: "escape_command (escape_command c) = escape_command c"
proof (cases "endswith (strip c) ''&''")
  case True
  have "strip (''{ '' @ strip c @ '' }'') = ''{ '' @ strip c @ '' }''"
    by (rule strip_id) (simp_all add: is_space_def)
  with True show ?thesis by (simp add: escape_command_def Let_def endswith_amp)
next
  case False
  then show ?thesis by (simp add: escape_command_def Let_def)
qed

lemma join_shell_commands_again:
  "join_shell_commands (snd (join_shell_commands cs)) = join_shell_commands cs"
  by (simp add: join_shell_commands_def Let_def o_def)

lemma set_commands_base [simp]: "base_of (set_commands cs spec) = base_of spec"
  by (simp add: base_of_def set_commands_def split: RunConfiguration.splits)

lemma shell_commands_set:
  "shell_commands (set_commands cs spec) =
     (case spec_configuration spec of DevEnvironmentConfiguration _ _ \<Rightarrow> shell_commands spec | _ \<Rightarrow> cs)"
  by (simp add: shell_commands_def set_commands_def run_name_text_def split: RunConfiguration.splits)

lemma set_commands_again:
  "set_commands cs (set_commands cs' spec) = set_commands cs spec"
  by (simp add: set_commands_def split: RunConfiguration.splits)

lemma set_commands_dev:
  "spec_configuration spec = DevEnvironmentConfiguration b p \<Longrightarrow> set_commands cs spec = spec"
  by (simp add: set_commands_def)

lemma commands_of_again:
  assumes "commands_of env spec = Inr (cs, spec')"
  shows "commands_of env spec' = Inr (cs, spec')"
proof -
  let ?j = "join_shell_commands (shell_commands spec)"
  from assms consider "spec' = spec"
    | (shell) "bc_entrypoint (base_of spec) = None" "spec' = set_commands (snd ?j) spec"
        "bc_image (base_of spec) = None \<or> shell_commands spec \<noteq> []"
        "cs = [if bc_image (base_of spec) = None then ''/bin/bash'' else ''/bin/sh'', ''-i'', ''-c'', fst ?j]"
    by (auto simp: commands_of_def bindE_Inr_conv split_def Let_def split: option.split_asm if_split_asm)
  then show ?thesis
  proof cases
    case 1
    with assms show ?thesis by simp
  next
    case shell
    show ?thesis
    proof (cases "spec_configuration spec")
      case (DevEnvironmentConfiguration b p)
      with shell(2) have "spec' = spec" by (simp add: set_commands_dev)
      with assms show ?thesis by simp
    next
      case (TaskConfiguration b p)
      with shell have sc: "shell_commands spec' = snd ?j" by (simp add: shell_commands_set)
      moreover have "snd ?j = [] \<longleftrightarrow> shell_commands spec = []" by (simp add: join_shell_commands_def Let_def)
      ultimately show ?thesis using shell
        by (cases "bc_image (base_of spec)")
          (simp_all add: commands_of_def split_def Let_def join_shell_commands_again set_commands_again)
    next
      case (ServiceConfiguration b p)
      with shell have sc: "shell_commands spec' = snd ?j" by (simp add: shell_commands_set)
      moreover have "snd ?j = [] \<longleftrightarrow> shell_commands spec = []" by (simp add: join_shell_commands_def Let_def)
      ultimately show ?thesis using shell
        by (cases "bc_image (base_of spec)")
          (simp_all add: commands_of_def split_def Let_def join_shell_commands_again set_commands_again)
    qed
  qed
qed

lemma get_job_spec_Inr:
  assumes "get_job_spec env spec r n nodes = Inr (js, spec')"
  shows "js_job_num js = n \<and> js_replica_num js = r \<and> js_jobs_per_replica js = nodes
    \<and> commands_of env spec = Inr (js_commands js, spec')"
  using assms by (auto simp: get_job_spec_def bindE_Inr_conv split_def)

lemma job_specs_from_Inr:
  assumes "job_specs_from env spec r nodes ns = Inr (specs, spec')"
  shows "map js_job_num specs = ns \<and> (\<forall>s \<in> set specs. js_replica_num s = r \<and> js_jobs_per_replica s = nodes
    \<and> (\<exists>spec1. commands_of env spec = Inr (js_commands s, spec1)))"
  using assms
proof (induction ns arbitrary: spec specs)
  case Nil
  then show ?case by simp
next
  case (Cons n ns)
  then obtain js spec1 jss where js: "get_job_spec env spec r n nodes = Inr (js, spec1)"
    and jss: "job_specs_from env spec1 r nodes ns = Inr (jss, spec')" and specs: "specs = js # jss"
    by (auto simp: bindE_Inr_conv)
  note h = get_job_spec_Inr [OF js]
  from h have "commands_of env spec1 = Inr (js_commands js, spec1)" by (blast intro: commands_of_again)
  with Cons.IH [OF jss] h show ?case by (auto simp: specs)
qed

section \<open>Properties\<close>

text \<open>
  The job specifications of a replica: one for each node, numbered from zero, all of the
  replica and with the number of nodes, and all with the same commands although composing them writes
  into the configuration.
\<close>

theorem job_specs_uniform:
  assumes "get_job_specs_from_run_spec env spec r = Inr (specs, spec')"
  shows "map js_job_num specs = [0..<conf_nodes (spec_configuration spec)]
    \<and> (\<exists>cs. \<forall>s \<in> set specs. js_replica_num s = r \<and> js_jobs_per_replica s = conf_nodes (spec_configuration spec)
         \<and> js_commands s = cs)"
proof -
  from assms have "job_specs_from env spec r (conf_nodes (spec_configuration spec))
      [0..<conf_nodes (spec_configuration spec)] = Inr (specs, spec')"
    by (cases "spec_configuration spec") (simp_all add: get_job_specs_from_run_spec_def)
  from job_specs_from_Inr [OF this] show ?thesis
    by (cases "commands_of env spec") auto
qed

definition demo_jc_env :: jc_env where
  "demo_jc_env = \<lparr>jc_image_config = (\<lambda>_ _. Inr \<lparr>ic_user = None, ic_entrypoint = None, ic_cmd = None\<rparr>),
     jc_python = ''3.11'', jc_base_image = ''0.6''\<rparr>"

theorem job_specs_uniform_witness:
  "\<exists>specs spec'. get_job_specs_from_run_spec demo_jc_env (sample_run_spec sample_task) 0 = Inr (specs, spec')
     \<and> map js_job_num specs = [0..<2]"
proof -
  have root: "UnixUser_parse ''root'' = Inr \<lparr>uu_uid = None, uu_gid = None, uu_username = Some ''root'', uu_groupname = None\<rparr>"
    by code_simp
  have "\<exists>specs spec'. get_job_specs_from_run_spec demo_jc_env (sample_run_spec sample_task) 0 = Inr (specs, spec')"
    by (simp add: get_job_specs_from_run_spec_def sample_run_spec_def sample_task_def sample_base_def
        upt_rec get_job_spec_def commands_of_def base_of_def shell_commands_def split_def Let_def
        set_commands_def as_dict_def image_name_def user_of_def root interpolate_job_volumes_def
        join_shell_commands_def)
  with job_specs_uniform show ?thesis by (fastforce simp: sample_run_spec_def sample_task_def)
qed

text \<open>
  A duration given as the integer 1 is taken for \<^verbatim>\<open>True\<close> and replaced by the default,
  and 0 is taken for \<^verbatim>\<open>False\<close> and means unlimited; every other number of seconds is kept.
\<close>

theorem duration_field_boolean_confusion:
  "map (\<lambda>n. max_duration_of (sample_run_spec (TaskConfiguration
       (sample_base\<lparr>bc_params := no_params\<lparr>pp_max_duration := Some (Secs n)\<rparr>\<rparr>)
       \<lparr>tk_commands = [''train''], tk_ports = [], tk_nodes = 1\<rparr>))) [0, 1, 2]
   = [None, Some (72 * 3600), Some 2]"
  by (simp add: max_duration_of_def duration_field_def sample_run_spec_def merged_profile_def
      merge_params_def over_def no_params_def Let_def)

end
