(* ===== verification/Pagination.thy ===== *)
theory Pagination
  imports Run_Models
begin

text \<open>
  Keyset pagination, as \<^verbatim>\<open>list_projects_run_models\<close> (\<^verbatim>\<open>services/runs.py\<close>) and
  \<^verbatim>\<open>list_pools_instance_models\<close> (\<^verbatim>\<open>services/pools.py\<close>) do it: rows are ordered by time
  and key, and a page starts after the last row of the previous one. The locale states what a
  listing promises; both listings are interpretations of it.
\<close>

section \<open>The listings\<close>

text \<open>The condition on the previous row: its time and, when given, its key.\<close>

definition after_prev :: "bool \<Rightarrow> (time \<times> nat option) option \<Rightarrow> time \<Rightarrow> nat \<Rightarrow> bool" where
  "after_prev ascending prev t k = (case prev of
      None \<Rightarrow> True
    | Some (pt, None) \<Rightarrow> (if ascending then t > pt else t < pt)
    | Some (pt, Some pk) \<Rightarrow> (if ascending then t > pt \<or> t = pt \<and> k < pk else t < pt \<or> t = pt \<and> k > pk))"

text \<open>\<^verbatim>\<open>ORDER BY time DESC, id\<close>, or \<^verbatim>\<open>time ASC, id DESC\<close>.\<close>

definition order_by :: "bool \<Rightarrow> ('r \<Rightarrow> time) \<Rightarrow> ('r \<Rightarrow> nat) \<Rightarrow> 'r list \<Rightarrow> 'r list" where
  "order_by ascending ts key rs =
     sort_key (\<lambda>r. if ascending then (ts r, - int (key r)) else (- ts r, int (key r))) rs"

definition list_projects_run_models ::
    "RunModel list \<Rightarrow> nat set \<Rightarrow> nat option \<Rightarrow> nat option \<Rightarrow> bool \<Rightarrow> (time \<times> nat option) option \<Rightarrow> nat \<Rightarrow> bool
     \<Rightarrow> RunModel list" where
  "list_projects_run_models runs projects repo runs_user only_active prev limit ascending =
     take limit (order_by ascending rm_submitted_at rm_id
       (filter (\<lambda>r. rm_project_id r \<in> projects
          \<and> (case repo of None \<Rightarrow> True | Some i \<Rightarrow> rm_repo_id r = i)
          \<and> (case runs_user of None \<Rightarrow> True | Some u \<Rightarrow> rm_user_id r = u)
          \<and> (only_active \<longrightarrow> \<not> run_is_finished (rm_status r))
          \<and> after_prev ascending prev (rm_submitted_at r) (rm_id r)) runs))"

definition list_pools_instance_models ::
    "InstanceModel list \<Rightarrow> nat set \<Rightarrow> nat set option \<Rightarrow> nat option \<Rightarrow> bool \<Rightarrow> (time \<times> nat option) option \<Rightarrow> nat
     \<Rightarrow> bool \<Rightarrow> InstanceModel list" where
  "list_pools_instance_models instances projects fleet_ids pool only_active prev limit ascending =
     take limit (order_by ascending im_created_at im_id
       (filter (\<lambda>i. im_project_id i \<in> projects
          \<and> (case fleet_ids of None \<Rightarrow> True
             | Some fs \<Rightarrow> (case im_fleet_id i of None \<Rightarrow> False | Some f \<Rightarrow> f \<in> fs))
          \<and> (case pool of None \<Rightarrow> True | Some p \<Rightarrow> im_pool_id i = p)
          \<and> (only_active \<longrightarrow> \<not> im_deleted i \<and> (im_status i = I_IDLE \<or> im_status i = I_BUSY))
          \<and> after_prev ascending prev (im_created_at i) (im_id i)) instances))"

section \<open>What a listing promises\<close>

definition rank :: "bool \<Rightarrow> time \<Rightarrow> nat \<Rightarrow> int \<times> int" where
  "rank ascending t k = (if ascending then (t, - int k) else (- t, int k))"

lemma order_by_rank: "order_by ascending ts key rs = sort_key (\<lambda>r. rank ascending (ts r) (key r)) rs"
  by (simp add: order_by_def rank_def if_distrib cong: if_cong)

lemma after_prev_rank:
  "after_prev ascending (Some (pt, Some pk)) t k \<longleftrightarrow> rank ascending pt pk < rank ascending t k"
  by (auto simp: after_prev_def rank_def less_prod_def)

lemma rank_inj: "rank ascending t k = rank ascending t' k' \<longleftrightarrow> t = t' \<and> k = k'"
  by (auto simp: rank_def split: if_splits)

text \<open>
  The pages of a listing: starting without a previous row, each page continues after the last row of
  the page before, until a page is empty. The fuel bounds the number of pages.
\<close>

fun pages :: "((time \<times> nat option) option \<Rightarrow> 'r list) \<Rightarrow> ('r \<Rightarrow> time) \<Rightarrow> ('r \<Rightarrow> nat)
    \<Rightarrow> nat \<Rightarrow> (time \<times> nat option) option \<Rightarrow> 'r list list" where
  "pages page ts key 0 prev = []"
| "pages page ts key (Suc n) prev =
     (let p = page prev in
      if p = [] then [] else p # pages page ts key n (Some (ts (last p), Some (key (last p)))))"

locale keyset_listing =
  fixes page :: "(time \<times> nat option) option \<Rightarrow> 'r list"
    and ts :: "'r \<Rightarrow> time" and key :: "'r \<Rightarrow> nat" and matching :: "'r list"
    and ascending :: bool and limit :: nat
  assumes page_spec: "page prev = take limit (order_by ascending ts key
      (filter (\<lambda>r. after_prev ascending prev (ts r) (key r)) matching))"
begin

definition all_rows :: "'r list" where
  "all_rows = order_by ascending ts key matching"

lemma sorted_rows:
  assumes "distinct (map key matching)"
  shows "sorted_wrt (\<lambda>x y. rank ascending (ts x) (key x) < rank ascending (ts y) (key y)) all_rows"
proof -
  have "distinct (map (\<lambda>r. rank ascending (ts r) (key r)) matching)"
    using assms by (auto simp: distinct_map inj_on_def rank_inj)
  then have "distinct (map (\<lambda>r. rank ascending (ts r) (key r)) all_rows)"
    by (simp add: all_rows_def order_by_rank distinct_map)
  moreover have "sorted (map (\<lambda>r. rank ascending (ts r) (key r)) all_rows)"
    by (simp add: all_rows_def order_by_rank)
  ultimately have "sorted_wrt (<) (map (\<lambda>r. rank ascending (ts r) (key r)) all_rows)"
    by (simp only: strict_sorted_iff)
  then show ?thesis by (simp only: sorted_wrt_map)
qed

lemma first_page: "page None = take limit all_rows"
  by (simp add: page_spec after_prev_def all_rows_def)

lemma next_page:
  assumes "distinct (map key matching)" and "all_rows = xs @ r # ys"
  shows "page (Some (ts r, Some (key r))) = take limit ys"
proof -
  let ?P = "\<lambda>x. rank ascending (ts r) (key r) < rank ascending (ts x) (key x)"
  have "filter ?P all_rows = ys"
    using sorted_rows [OF assms(1)] unfolding assms(2)
    by (fastforce simp: sorted_wrt_append filter_empty_conv)
  then show ?thesis
    by (simp add: page_spec after_prev_rank order_by_rank filter_sort [symmetric] all_rows_def)
qed

lemma pages_from:
  assumes "distinct (map key matching)" and "0 < limit" and "all_rows = xs @ r # ys" and "length ys < n"
  shows "concat (pages page ts key n (Some (ts r, Some (key r)))) = ys"
  using assms(3,4)
proof (induction n arbitrary: xs r ys)
  case 0
  then show ?case by simp
next
  case (Suc n)
  note np = next_page [OF assms(1) Suc.prems(1)]
  show ?case
  proof (cases "ys = []")
    case True
    with np show ?thesis by simp
  next
    case False
    let ?p = "take limit ys"
    have ne: "?p \<noteq> []" using False assms(2) by simp
    have split: "all_rows = (xs @ r # butlast ?p) @ last ?p # drop limit ys"
      using Suc.prems(1) ne by (metis append.assoc append_Cons append_butlast_last_id append_take_drop_id
          append_eq_append_conv2 self_append_conv2)
    have "0 < length ys" using False by simp
    then have "length (drop limit ys) < n" using Suc.prems(2) assms(2) by (simp only: length_drop)
    from Suc.IH [OF split this] show ?thesis using np ne by (simp add: Let_def)
  qed
qed

theorem pages_complete:
  assumes "distinct (map key matching)" and "0 < limit" and "length matching < n"
  shows "concat (pages page ts key n None) = all_rows"
proof (cases "matching = []")
  case True
  have "length all_rows = length matching" by (simp add: all_rows_def order_by_def)
  with True have "all_rows = []" by simp
  then show ?thesis by (cases n) (simp_all add: first_page)
next
  case False
  have len: "length all_rows = length matching" by (simp add: all_rows_def order_by_def)
  let ?p = "take limit all_rows"
  have ne: "?p \<noteq> []" using False len assms(2) by auto
  obtain m where n: "n = Suc m" using assms(3) by (cases n) simp_all
  have split: "all_rows = butlast ?p @ last ?p # drop limit all_rows"
    using ne by (metis append.assoc append_Cons append_Nil append_butlast_last_id append_take_drop_id)
  have "0 < length matching" using False by simp
  then have "length (drop limit all_rows) < m" using assms(2,3) len n by (simp only: length_drop)
  from pages_from [OF assms(1,2) split this] show ?thesis
    using ne by (simp add: n first_page Let_def)
qed

end

interpretation run_listing: keyset_listing
  "\<lambda>prev. list_projects_run_models runs projects repo runs_user only_active prev limit ascending"
  rm_submitted_at rm_id
  "filter (\<lambda>r. rm_project_id r \<in> projects \<and> (case repo of None \<Rightarrow> True | Some i \<Rightarrow> rm_repo_id r = i)
     \<and> (case runs_user of None \<Rightarrow> True | Some u \<Rightarrow> rm_user_id r = u)
     \<and> (only_active \<longrightarrow> \<not> run_is_finished (rm_status r))) runs"
  ascending limit for runs projects repo runs_user only_active limit ascending
  by unfold_locales (simp add: list_projects_run_models_def conj_ac)

interpretation instance_listing: keyset_listing
  "\<lambda>prev. list_pools_instance_models instances projects fleet_ids pool only_active prev limit ascending"
  im_created_at im_id
  "filter (\<lambda>i. im_project_id i \<in> projects
      \<and> (case fleet_ids of None \<Rightarrow> True | Some fs \<Rightarrow> (case im_fleet_id i of None \<Rightarrow> False | Some f \<Rightarrow> f \<in> fs))
      \<and> (case pool of None \<Rightarrow> True | Some p \<Rightarrow> im_pool_id i = p)
      \<and> (only_active \<longrightarrow> \<not> im_deleted i \<and> (im_status i = I_IDLE \<or> im_status i = I_BUSY))) instances"
  ascending limit for instances projects fleet_ids pool only_active limit ascending
  by unfold_locales (simp add: list_pools_instance_models_def conj_ac)

section \<open>Properties\<close>

text \<open>
  C33. Following the pages of the run listing shows every matching run once, in the order of the
  listing: with unique keys and a positive limit, the pages end after at most one request more than there
  are matching runs, and their concatenation is the ordered list of all matching runs.
\<close>

theorem run_pages_complete:
  assumes "distinct (map rm_id runs)" and "0 < limit" and "length runs < n"
  shows "concat (pages (\<lambda>prev. list_projects_run_models runs projects repo runs_user only_active prev limit ascending)
       rm_submitted_at rm_id n None)
     = order_by ascending rm_submitted_at rm_id
         (filter (\<lambda>r. rm_project_id r \<in> projects \<and> (case repo of None \<Rightarrow> True | Some i \<Rightarrow> rm_repo_id r = i)
            \<and> (case runs_user of None \<Rightarrow> True | Some u \<Rightarrow> rm_user_id r = u)
            \<and> (only_active \<longrightarrow> \<not> run_is_finished (rm_status r))) runs)"
  using assms
  by (subst run_listing.pages_complete)
    (auto simp: run_listing.all_rows_def intro: distinct_map_filter le_less_trans [OF length_filter_le])

definition demo_runs :: "RunModel list" where
  "demo_runs = [sample_run sample_task R_RUNNING [], (sample_run sample_task R_DONE [])\<lparr>rm_id := 2\<rparr>,
     (sample_run sample_task R_RUNNING [])\<lparr>rm_id := 3, rm_submitted_at := 7\<rparr>]"

theorem run_pages_complete_witness:
  "map rm_id (concat (pages (\<lambda>prev. list_projects_run_models demo_runs {1} None None True prev 1 False)
     rm_submitted_at rm_id 4 None)) = [3, 1]"
proof -
  have "concat (pages (\<lambda>prev. list_projects_run_models demo_runs {1} None None True prev 1 False)
       rm_submitted_at rm_id 4 None)
     = order_by False rm_submitted_at rm_id
         (filter (\<lambda>r. rm_project_id r \<in> {1} \<and> (case None of None \<Rightarrow> True | Some i \<Rightarrow> rm_repo_id r = i)
            \<and> (case None of None \<Rightarrow> True | Some u \<Rightarrow> rm_user_id r = u)
            \<and> (True \<longrightarrow> \<not> run_is_finished (rm_status r))) demo_runs)"
    by (rule run_pages_complete) (simp_all add: demo_runs_def row_simps)
  then show ?thesis by (simp add: demo_runs_def order_by_def row_simps)
qed

text \<open>
  The same for the listing of pool instances.
\<close>

theorem instance_pages_complete:
  assumes "distinct (map im_id instances)" and "0 < limit" and "length instances < n"
  shows "concat (pages (\<lambda>prev. list_pools_instance_models instances projects fleet_ids pool only_active prev limit ascending)
       im_created_at im_id n None)
     = order_by ascending im_created_at im_id
         (filter (\<lambda>i. im_project_id i \<in> projects
            \<and> (case fleet_ids of None \<Rightarrow> True | Some fs \<Rightarrow> (case im_fleet_id i of None \<Rightarrow> False | Some f \<Rightarrow> f \<in> fs))
            \<and> (case pool of None \<Rightarrow> True | Some p \<Rightarrow> im_pool_id i = p)
            \<and> (only_active \<longrightarrow> \<not> im_deleted i \<and> (im_status i = I_IDLE \<or> im_status i = I_BUSY))) instances)"
  using assms
  by (subst instance_listing.pages_complete)
    (auto simp: instance_listing.all_rows_def intro: distinct_map_filter le_less_trans [OF length_filter_le])

theorem instance_pages_complete_witness:
  "map im_id (concat (pages (\<lambda>prev. list_pools_instance_models
       [sample_instance 1 I_IDLE 0, sample_instance 2 I_BUSY 1] {1} None None True prev 1 True)
     im_created_at im_id 3 None)) = [2, 1]"
  by (subst instance_pages_complete) (simp_all add: order_by_def row_simps)

end
