(* ===== verification/Runs.thy ===== *)
theory Runs
  imports Terminating_Jobs Job_Configurators Pagination
begin

text \<open>
  \<^verbatim>\<open>server/services/runs.py\<close>: the view of a run, creation and resubmission of its jobs,
  scaling, termination, and the requests of users (submit, apply, stop, delete). A handler that
  creates rows takes the first free key and returns the next one, in place of \<^verbatim>\<open>uuid4\<close>; it reads
  the clock once.
\<close>

section \<open>The view of a run\<close>

text \<open>The names of the project and the user, which are of other tables, are left out.\<close>

record Run =
  run_id :: nat
  run_submitted_at :: time
  run_last_processed_at :: time
  run_status :: RunStatus
  run_termination_reason :: "RunTerminationReason option"
  run_run_spec :: RunSpec
  run_jobs :: "Job list"
  run_latest_job_submission :: "JobSubmission option"
  run_service :: "ServiceSpec option"
  run_deleted :: bool
  run_error :: string
  run_cost :: rat

text \<open>The rows of each job, by replica and job number, submissions in order.\<close>

definition job_groups :: "JobModel list \<Rightarrow> JobModel list list" where
  "job_groups jobs = concat (map (\<lambda>(r, g). map snd (groupby jm_job_num g))
     (groupby jm_replica_num (sort_key job_key jobs)))"

text \<open>The defaults for clients of version 0.18.\<close>

definition api_submission :: "JobSubmission \<Rightarrow> JobSubmission" where
  "api_submission s = s\<lparr>sub_job_provisioning_data := map_option (\<lambda>jpd.
     jpd\<lparr>jpd_hostname := (case jpd_hostname jpd of None \<Rightarrow> Some [] | h \<Rightarrow> h),
         jpd_ssh_port := (case jpd_ssh_port jpd of None \<Rightarrow> Some 22 | p \<Rightarrow> p)\<rparr>) (sub_job_provisioning_data s)\<rparr>"

definition job_of_group :: "bool \<Rightarrow> bool \<Rightarrow> JobModel list \<Rightarrow> Job result" where
  "job_of_group include_job_submissions return_in_api g =
     bindE (if include_job_submissions
            then mapE (\<lambda>j. fmapE (if return_in_api then api_submission else id) (job_model_to_job_submission j)) g
            else Inr [])
       (\<lambda>subs. Inr \<lparr>job_spec = jm_job_spec (hd g), job_submissions = subs\<rparr>)"

definition get_job_submission_cost :: "time \<Rightarrow> JobSubmission \<Rightarrow> rat" where
  "get_job_submission_cost now s = (case sub_job_provisioning_data s of
      None \<Rightarrow> 0
    | Some jpd \<Rightarrow> jpd_price jpd * (of_int (submission_duration now s) / of_int (seconds 3600)))"

text \<open>\<^verbatim>\<open>round(x, 4)\<close>: to the nearest, ties to even.\<close>

definition round_half_even :: "rat \<Rightarrow> int" where
  "round_half_even x = (let f = \<lfloor>x\<rfloor>; d = x - of_int f in
     if d < 1 / 2 then f else if d > 1 / 2 then f + 1 else if even f then f else f + 1)"

definition get_run_cost :: "time \<Rightarrow> Job list \<Rightarrow> rat" where
  "get_run_cost now jobs =
     of_int (round_half_even (10000 * sum_list (map (get_job_submission_cost now) (concat (map job_submissions jobs))))) / 10000"

definition run_model_to_run :: "time \<Rightarrow> bool \<Rightarrow> bool \<Rightarrow> RunModel \<Rightarrow> Run result" where
  "run_model_to_run now include_job_submissions return_in_api run =
     bindE (mapE (job_of_group include_job_submissions return_in_api) (job_groups (rm_jobs run))) (\<lambda>jobs.
     Inr \<lparr>run_id = rm_id run, run_submitted_at = rm_submitted_at run,
       run_last_processed_at = rm_last_processed_at run, run_status = rm_status run,
       run_termination_reason = rm_termination_reason run, run_run_spec = rm_run_spec run, run_jobs = jobs,
       run_latest_job_submission =
         (if include_job_submissions \<and> jobs \<noteq> [] then Some (last (job_submissions (hd jobs))) else None),
       run_service = rm_service_spec run, run_deleted = rm_deleted run,
       run_error = get_run_error (rm_termination_reason run) jobs, run_cost = get_run_cost now jobs\<rparr>)"

section \<open>Creating jobs\<close>

definition create_job_model_for_new_submission :: "time \<Rightarrow> nat \<Rightarrow> RunModel \<Rightarrow> Job \<Rightarrow> JobStatus \<Rightarrow> JobModel" where
  "create_job_model_for_new_submission now uid run job status = \<lparr>
     jm_id = uid, jm_project_id = rm_project_id run, jm_run_id = rm_id run, jm_run_name = rm_run_name run,
     jm_job_num = js_job_num (job_spec job), jm_job_name = js_job_name (job_spec job),
     jm_submission_num = length (job_submissions job), jm_submitted_at = now, jm_last_processed_at = now,
     jm_status = status, jm_termination_reason = None, jm_termination_reason_message = None,
     jm_job_spec = job_spec job, jm_job_provisioning_data = None, jm_runner_timestamp = None,
     jm_inactivity_secs = None, jm_remove_at = None, jm_volumes_detached_at = None,
     jm_instance_assigned = False, jm_instance_id = None, jm_used_instance_id = None,
     jm_replica_num = js_replica_num (job_spec job), jm_job_runtime_data = None\<rparr>"

text \<open>New rows for a list of jobs.\<close>

fun add_jobs :: "time \<Rightarrow> Job list \<Rightarrow> RunModel \<times> nat \<Rightarrow> RunModel \<times> nat" where
  "add_jobs now [] st = st"
| "add_jobs now (job # jobs) (run, uid) = add_jobs now jobs
     (run\<lparr>rm_jobs := rm_jobs run @ [create_job_model_for_new_submission now uid run job J_SUBMITTED]\<rparr>, Suc uid)"

text \<open>
  New replicas. The specification is threaded since composing commands writes into it. The rows of
  earlier replicas stay in the session when the jobs of one cannot be made.
\<close>

fun create_replicas :: "jc_env \<Rightarrow> time \<Rightarrow> RunSpec \<Rightarrow> nat list \<Rightarrow> RunModel \<times> nat \<Rightarrow> (RunModel \<times> nat) \<times> error option" where
  "create_replicas jc now spec [] st = (st, None)"
| "create_replicas jc now spec (r # rs) st = (case get_jobs_from_run_spec jc spec r of
      Inl e \<Rightarrow> (st, Some e)
    | Inr (jobs, spec') \<Rightarrow> create_replicas jc now spec' rs (add_jobs now jobs st))"

definition job_stopped :: "JobModel \<Rightarrow> bool" where
  "job_stopped j \<longleftrightarrow> job_is_finished (jm_status j) \<or> jm_status j = J_TERMINATING"

definition terminate_row :: "JobTerminationReason \<Rightarrow> JobModel \<Rightarrow> JobModel" where
  "terminate_row reason j = j\<lparr>jm_status := J_TERMINATING, jm_termination_reason := Some reason\<rparr>"

definition resubmission :: "time \<Rightarrow> nat \<Rightarrow> RunModel \<Rightarrow> JobModel \<Rightarrow> JobModel" where
  "resubmission now uid run j =
     (create_job_model_for_new_submission now uid run \<lparr>job_spec = jm_job_spec j, job_submissions = []\<rparr> J_SUBMITTED)
     \<lparr>jm_submission_num := jm_submission_num j + 1\<rparr>"

fun retry_run_replica_jobs :: "time \<Rightarrow> bool \<Rightarrow> JobModel list \<Rightarrow> RunModel \<times> nat \<Rightarrow> RunModel \<times> nat" where
  "retry_run_replica_jobs now only_failed [] st = st"
| "retry_run_replica_jobs now only_failed (j # js) (run, uid) =
     (if \<not> job_stopped j \<and> only_failed then retry_run_replica_jobs now only_failed js (run, uid)
      else
        let jobs = (if job_stopped j then rm_jobs run
                    else put_row jm_id (terminate_row TERMINATED_BY_SERVER j) (rm_jobs run))
        in retry_run_replica_jobs now only_failed js
             (run\<lparr>rm_jobs := jobs @ [resubmission now uid run j]\<rparr>, Suc uid))"

section \<open>Scaling\<close>

text \<open>The importance of a replica by the statuses of its jobs; none when it is inactive.\<close>

definition replica_importance :: "JobModel list \<Rightarrow> nat option" where
  "replica_importance js =
     (if list_ex job_stopped js then None
      else if list_ex (\<lambda>j. jm_status j = J_SUBMITTED) js then Some 0
      else if list_ex (\<lambda>j. jm_status j = J_PROVISIONING \<or> jm_status j = J_PULLING) js then Some 1
      else Some 2)"

definition scaling_active :: "JobModel list \<Rightarrow> (nat \<times> nat \<times> JobModel list) list" where
  "scaling_active jobs = sort_key (\<lambda>(imp, r, js). (- int imp, int r))
     (List.map_filter (\<lambda>(r, js). map_option (\<lambda>imp. (imp, r, js)) (replica_importance js))
        (group_jobs_by_replica_latest jobs))"

definition scaling_inactive :: "JobModel list \<Rightarrow> (nat \<times> JobModel list) list" where
  "scaling_inactive jobs = filter (\<lambda>(r, js). replica_importance js = None) (group_jobs_by_replica_latest jobs)"

text \<open>The last rows of a list, \<^verbatim>\<open>xs[-n:]\<close> with \<open>n > 0\<close>.\<close>

definition last_n :: "nat \<Rightarrow> 'a list \<Rightarrow> 'a list" where
  "last_n n xs = drop (length xs - n) xs"

definition terminate_replicas :: "(nat \<times> nat \<times> JobModel list) list \<Rightarrow> RunModel \<Rightarrow> RunModel" where
  "terminate_replicas reps run =
     (let ids = map jm_id (filter (\<lambda>j. \<not> job_stopped j) (concat (map (snd \<circ> snd) reps)))
      in run\<lparr>rm_jobs := map_rows (\<lambda>j. jm_id j \<in> set ids) (terminate_row SCALED_DOWN) (rm_jobs run)\<rparr>)"

definition retry_replicas :: "time \<Rightarrow> (nat \<times> JobModel list) list \<Rightarrow> RunModel \<times> nat \<Rightarrow> RunModel \<times> nat" where
  "retry_replicas now reps st = fold (\<lambda>(r, js) st. retry_run_replica_jobs now False js st) reps st"

definition scale_run_replicas :: "jc_env \<Rightarrow> time \<Rightarrow> RunModel \<times> nat \<Rightarrow> int \<Rightarrow> (RunModel \<times> nat) \<times> error option" where
  "scale_run_replicas jc now st replicas_diff =
     (if replicas_diff = 0 then (st, None)
      else case conf_service (spec_configuration (rm_run_spec (fst st))) of
        None \<Rightarrow> (st, Some AttributeError)
      | Some sv \<Rightarrow>
          let jobs = rm_jobs (fst st); active = scaling_active jobs; inactive = scaling_inactive jobs;
              n = int (length active) in
          if replicas_diff < 0 then
            if n + replicas_diff < sv_min_replicas sv
            then (st, Some (ServerClientError ''Can't scale down below the minimum number of replicas''))
            else ((terminate_replicas (last_n (nat (- replicas_diff)) active) (fst st), snd st), None)
          else
            if n + replicas_diff > sv_max_replicas sv
            then (st, Some (ServerClientError ''Can't scale up above the maximum number of replicas''))
            else
              let reused = take (nat replicas_diff) inactive in
              create_replicas jc now (rm_run_spec (fst st))
                [length active + length reused ..< length active + nat replicas_diff]
                (retry_replicas now reused st))"

section \<open>Termination\<close>

text \<open>
  \<^verbatim>\<open>stop_runner\<close>: the calls to the runner cannot fail, the instance of the job must exist and its
  keys must be readable.
\<close>

definition stop_runner :: "string \<Rightarrow> InstanceModel list \<Rightarrow> JobModel \<Rightarrow> unit result" where
  "stop_runner project_key instances job =
     bindE (get_or_error (find (\<lambda>i. im_project_id i = jm_project_id job \<and> jm_instance_id job = Some (im_id i)) instances))
       (\<lambda>i. fmapE (\<lambda>_. ()) (get_instance_ssh_private_keys project_key i))"

definition terminate_run_job ::
    "string \<Rightarrow> InstanceModel list \<Rightarrow> time \<Rightarrow> JobTerminationReason \<Rightarrow> JobModel \<Rightarrow> JobModel result" where
  "terminate_run_job project_key instances now reason job =
     (if job_is_finished (jm_status job) then Inr job
      else if jm_status job = J_TERMINATING then
        Inr (if reason = J_ABORTED_BY_USER then job\<lparr>jm_termination_reason := Some reason\<rparr> else job)
      else
        bindE (if jm_status job = J_RUNNING \<and> reason \<notin> {J_ABORTED_BY_USER, DONE_BY_RUNNER}
               then fmapE (\<lambda>_. delay_job_instance_termination now job) (stop_runner project_key instances job)
               else Inr job)
          (\<lambda>j. Inr ((terminate_row reason j)\<lparr>jm_last_processed_at := now\<rparr>)))"

definition process_terminating_run :: "string \<Rightarrow> InstanceModel list \<Rightarrow> time \<Rightarrow> RunModel \<Rightarrow> RunModel result" where
  "process_terminating_run project_key instances now run = (case rm_termination_reason run of
      None \<Rightarrow> Inl AssertionError
    | Some reason \<Rightarrow>
        bindE (mapE (terminate_run_job project_key instances now (to_job_termination_reason reason)) (rm_jobs run))
          (\<lambda>jobs. Inr (if list_all (\<lambda>j. job_is_finished (jm_status j)) (rm_jobs run)
             then run\<lparr>rm_jobs := jobs, rm_status := run_reason_to_status reason\<rparr>
             else run\<lparr>rm_jobs := jobs\<rparr>)))"

definition stop_run :: "string \<Rightarrow> InstanceModel list \<Rightarrow> time \<Rightarrow> bool \<Rightarrow> RunModel \<Rightarrow> RunModel result" where
  "stop_run project_key instances now abort run =
     (if run_is_finished (rm_status run) then Inr run
      else fmapE (\<lambda>r. r\<lparr>rm_last_processed_at := now\<rparr>)
        (process_terminating_run project_key instances now
          (run\<lparr>rm_status := R_TERMINATING,
            rm_termination_reason := Some (if abort then ABORTED_BY_USER else STOPPED_BY_USER)\<rparr>)))"

text \<open>
  \<^verbatim>\<open>stop_runs\<close> on the table of runs. Every \<^verbatim>\<open>stop_run\<close> commits, so that an exception
  leaves the runs before it stopped.
\<close>

fun stop_each ::
    "string \<Rightarrow> InstanceModel list \<Rightarrow> time \<Rightarrow> bool \<Rightarrow> (RunModel \<Rightarrow> bool) \<Rightarrow> RunModel list \<Rightarrow> RunModel list \<times> error option" where
  "stop_each project_key instances now abort sel [] = ([], None)"
| "stop_each project_key instances now abort sel (r # rs) =
     (if sel r then
        (case stop_run project_key instances now abort r of
           Inl e \<Rightarrow> (r # rs, Some e)
         | Inr r' \<Rightarrow> let (rs', e) = stop_each project_key instances now abort sel rs in (r' # rs', e))
      else let (rs', e) = stop_each project_key instances now abort sel rs in (r # rs', e))"

definition stop_runs ::
    "string \<Rightarrow> InstanceModel list \<Rightarrow> time \<Rightarrow> nat \<Rightarrow> string list \<Rightarrow> bool \<Rightarrow> RunModel list \<Rightarrow> RunModel list \<times> error option" where
  "stop_runs project_key instances now project_id runs_names abort runs =
     stop_each project_key instances now abort
       (\<lambda>r. rm_project_id r = project_id \<and> rm_run_name r \<in> set runs_names \<and> \<not> run_is_finished (rm_status r)) runs"

definition delete_runs :: "nat \<Rightarrow> string list \<Rightarrow> RunModel list \<Rightarrow> RunModel list result" where
  "delete_runs project_id runs_names runs =
     (let sel = (\<lambda>r. rm_project_id r = project_id \<and> rm_run_name r \<in> set runs_names) in
      if list_ex (\<lambda>r. sel r \<and> \<not> run_is_finished (rm_status r)) runs
      then Inl (ServerClientError ''Cannot delete active runs'')
      else Inr (map_rows sel (\<lambda>r. r\<lparr>rm_deleted := True\<rparr>) runs))"

section \<open>Submitting and updating runs\<close>

text \<open>\<^verbatim>\<open>^[a-z][a-z0-9-]{1,40}$\<close>\<close>

definition validate_dstack_resource_name :: "string \<Rightarrow> unit result" where
  "validate_dstack_resource_name s =
     (case chomp s of
        [] \<Rightarrow> Inl (ServerClientError ''Resource name'')
      | c # cs \<Rightarrow> if is_lower c \<and> 1 \<le> length cs \<and> length cs \<le> 40
            \<and> list_all (\<lambda>d. is_lower d \<or> is_digit d \<or> d = CHR ''-'') cs
          then Inr () else Inl (ServerClientError ''Resource name''))"

text \<open>\<^verbatim>\<open>^(/[^/\0]*)+/?$\<close> on a path that starts with a slash holds when there is no NUL.\<close>

definition is_valid_docker_volume_target :: "string \<Rightarrow> bool" where
  "is_valid_docker_volume_target path \<longleftrightarrow>
     startswith path ''/'' \<and> \<not> (endswith path ''/'' \<and> path \<noteq> ''/'') \<and> CHR 0x00 \<notin> set path"

definition DEFAULT_VIRTUAL_REPO_ID :: string where "DEFAULT_VIRTUAL_REPO_ID = ''none''"

fun check_mount_paths :: "MountPoint list \<Rightarrow> unit result" where
  "check_mount_paths [] = Inr ()"
| "check_mount_paths (m # ms) =
     (if \<not> is_valid_docker_volume_target (mount_path m)
      then Inl (ServerClientError ''Invalid volume mount path'')
      else if startswith (mount_path m) ''/workflow''
      then Inl (ServerClientError ''Mounting volumes inside /workflow is not supported'')
      else check_mount_paths ms)"

definition validate_run_spec_and_set_defaults :: "RunSpec \<Rightarrow> RunSpec result" where
  "validate_run_spec_and_set_defaults spec =
     bindE (case spec_run_name spec of None \<Rightarrow> Inr () | Some n \<Rightarrow> validate_dstack_resource_name n) (\<lambda>_.
     bindE (check_mount_paths (bc_volumes (base_of spec))) (\<lambda>_.
     if spec_repo_id spec = None \<and> spec_repo_data spec \<noteq> None
     then Inl (ServerClientError ''repo_data must not be set if repo_id is not set'')
     else if spec_repo_id spec \<noteq> None \<and> spec_repo_data spec = None
     then Inl (ServerClientError ''repo_id must not be set if repo_data is not set'')
     else Inr (spec\<lparr>spec_repo_id := over (spec_repo_id spec) (Some DEFAULT_VIRTUAL_REPO_ID),
                    spec_repo_data := over (spec_repo_data spec) (Some ''virtual'')\<rparr>)))"

text \<open>
  \<^verbatim>\<open>_generate_run_name\<close>: the first index whose name is not taken. The loop has no bound in the
  source; the number of steps is bounded by \<open>fuel\<close>.
\<close>

definition name_taken :: "RunModel list \<Rightarrow> nat \<Rightarrow> string \<Rightarrow> bool" where
  "name_taken runs project_id name =
     list_ex (\<lambda>r. rm_project_id r = project_id \<and> rm_run_name r = name \<and> \<not> rm_deleted r) runs"

fun generate_run_name :: "nat \<Rightarrow> RunModel list \<Rightarrow> nat \<Rightarrow> string \<Rightarrow> nat \<Rightarrow> string option" where
  "generate_run_name 0 runs project_id base idx = None"
| "generate_run_name (Suc fuel) runs project_id base idx =
     (let name = base @ ''-'' @ show_nat idx in
      if name_taken runs project_id name then generate_run_name fuel runs project_id base (Suc idx)
      else Some name)"

definition check_run_spec_requires_instance_mounts :: "RunSpec \<Rightarrow> bool" where
  "check_run_spec_requires_instance_mounts spec =
     list_ex (\<lambda>m. case m of InstanceMountPoint _ _ opt \<Rightarrow> \<not> opt | VolumeMountPoint _ _ \<Rightarrow> False)
       (bc_volumes (base_of spec))"

definition validate_run_volumes :: "VolumeModel list \<Rightarrow> nat \<Rightarrow> RunSpec \<Rightarrow> unit result" where
  "validate_run_volumes volumes project_id spec =
     fmapE (\<lambda>_. ()) (mapE (\<lambda>job_num.
       bindE (get_job_configured_volumes volumes project_id
                (interpolate_job_volumes (bc_volumes (base_of spec)) job_num) None)
         check_can_attach_job_volumes) [0..<conf_nodes (spec_configuration spec)])"

text \<open>
  What a submission reads besides the rows: the clock, the repository lookup, the base of a
  generated name, and the parameters of job specifications and service registration.
\<close>

record submit_env =
  se_now :: time
  se_jc :: jc_env
  se_repo :: "string \<Rightarrow> nat option"
  se_name_base :: string
  se_tokenizer :: "string \<Rightarrow> string option \<Rightarrow> (string \<times> string) list result"
  se_gateway :: "unit result"
  se_forbid_without_gateway :: bool
  se_gateways :: "GatewayModel list"
  se_default_gateway :: "nat option"
  se_project_name :: string

definition new_run :: "time \<Rightarrow> nat \<Rightarrow> nat \<Rightarrow> nat \<Rightarrow> nat \<Rightarrow> RunSpec \<Rightarrow> string \<Rightarrow> RunModel" where
  "new_run now uid project_id user_id repo_id spec name = \<lparr>rm_id = uid, rm_deleted = False,
     rm_project_id = project_id, rm_user_id = user_id, rm_repo_id = repo_id, rm_fleet_id = None,
     rm_run_name = name, rm_submitted_at = now, rm_last_processed_at = now, rm_status = R_SUBMITTED,
     rm_termination_reason = None, rm_run_spec = spec, rm_service_spec = None, rm_jobs = [],
     rm_gateway_id = None\<rparr>"

text \<open>
  The name under which the run is submitted and the table after the runs of that name are deleted,
  which is committed on its own.
\<close>

definition submit_name :: "submit_env \<Rightarrow> nat \<Rightarrow> RunSpec \<Rightarrow> RunModel list \<Rightarrow> (RunModel list \<times> string) result" where
  "submit_name env project_id spec runs = (case spec_run_name spec of
      None \<Rightarrow> fmapE (\<lambda>n. (runs, n))
        (get_or_error (generate_run_name (Suc (length runs)) runs project_id (se_name_base env) 1))
    | Some n \<Rightarrow> fmapE (\<lambda>rs. (rs, n)) (delete_runs project_id [n] runs))"

definition build_run ::
    "submit_env \<Rightarrow> VolumeModel list \<Rightarrow> nat \<Rightarrow> nat \<Rightarrow> nat \<Rightarrow> RunSpec \<Rightarrow> string \<Rightarrow> nat \<Rightarrow> (RunModel \<times> nat) result" where
  "build_run env volumes project_id user_id repo_id spec name uid =
     bindE (validate_run_volumes volumes project_id spec) (\<lambda>_.
     let run0 = new_run (se_now env) uid project_id user_id repo_id spec name in
     bindE (case conf_service (spec_configuration spec) of
              None \<Rightarrow> Inr (run0, 1)
            | Some sv \<Rightarrow> fmapE (\<lambda>r. (r, nat (sv_min_replicas sv)))
                (register_service (se_tokenizer env) (se_gateway env) (se_forbid_without_gateway env)
                   (se_gateways env) (se_default_gateway env) (se_project_name env) run0 (spec_configuration spec)))
       (\<lambda>(run1, replicas).
     completed (create_replicas (se_jc env) (se_now env) spec [0..<replicas] (run1, Suc uid))))"

text \<open>\<^verbatim>\<open>submit_run\<close>: the table as committed, and the new run and next key, or the error.\<close>

definition submit_run ::
    "submit_env \<Rightarrow> VolumeModel list \<Rightarrow> nat \<Rightarrow> nat \<Rightarrow> RunSpec \<Rightarrow> RunModel list \<Rightarrow> nat
     \<Rightarrow> RunModel list \<times> (Run \<times> nat) result" where
  "submit_run env volumes project_id user_id spec0 runs0 uid =
     (case bindE (validate_run_spec_and_set_defaults spec0) (\<lambda>spec1.
           bindE (case se_repo env (the (spec_repo_id spec1)) of
                    None \<Rightarrow> Inl (RepoDoesNotExistError (the (spec_repo_id spec1))) | Some r \<Rightarrow> Inr r) (\<lambda>repo_id.
           bindE (submit_name env project_id spec1 runs0) (\<lambda>(runs, name). Inr (spec1, repo_id, runs, name)))) of
        Inl e \<Rightarrow> (runs0, Inl e)
      | Inr (spec1, repo_id, runs, name) \<Rightarrow>
          (case build_run env volumes project_id user_id repo_id (spec1\<lparr>spec_run_name := Some name\<rparr>) name uid of
             Inl e \<Rightarrow> (runs, Inl e)
           | Inr (run, uid') \<Rightarrow>
               (runs @ [run], fmapE (\<lambda>r. (r, uid')) (run_model_to_run (se_now env) True True run))))"

text \<open>
  \<^verbatim>\<open>_check_can_update_run_spec\<close>: both are services, and only the code hash and the replicas,
  scaling and prefix fields of the configuration differ.
\<close>

definition check_can_update_run_spec :: "RunSpec \<Rightarrow> RunSpec \<Rightarrow> unit result" where
  "check_can_update_run_spec current new = (case (spec_configuration current, spec_configuration new) of
      (ServiceConfiguration b s, ServiceConfiguration b' s') \<Rightarrow>
        if new\<lparr>spec_repo_code_hash := spec_repo_code_hash current, spec_configuration := spec_configuration current\<rparr>
           \<noteq> current then Inl (ServerClientError ''Failed to update fields'')
        else if b' \<noteq> b \<or> s'\<lparr>sv_min_replicas := sv_min_replicas s, sv_max_replicas := sv_max_replicas s,
              sv_scaling := sv_scaling s, sv_strip_prefix := sv_strip_prefix s\<rparr> \<noteq> s
        then Inl (ServerClientError ''Failed to update configuration fields'')
        else Inr ()
    | _ \<Rightarrow> Inl (ServerClientError ''Can only update service run configuration''))"

definition can_update_run_spec :: "RunSpec \<Rightarrow> RunSpec \<Rightarrow> bool" where
  "can_update_run_spec current new =
     (case check_can_update_run_spec current new of Inr _ \<Rightarrow> True | Inl _ \<Rightarrow> False)"

definition get_run_by_name :: "nat \<Rightarrow> string \<Rightarrow> RunModel list \<Rightarrow> RunModel option" where
  "get_run_by_name project_id name runs =
     find (\<lambda>r. rm_project_id r = project_id \<and> rm_run_name r = name \<and> \<not> rm_deleted r) runs"

text \<open>
  \<^verbatim>\<open>apply_plan\<close>: \<open>expected\<close> is the key and specification of the run the client saw.
\<close>

definition apply_plan ::
    "submit_env \<Rightarrow> VolumeModel list \<Rightarrow> nat \<Rightarrow> nat \<Rightarrow> RunSpec \<Rightarrow> (nat \<times> RunSpec) option \<Rightarrow> bool \<Rightarrow> RunModel list \<Rightarrow> nat
     \<Rightarrow> RunModel list \<times> (Run \<times> nat) result" where
  "apply_plan env volumes project_id user_id spec0 expected force runs uid =
     (case validate_run_spec_and_set_defaults spec0 of
        Inl e \<Rightarrow> (runs, Inl e)
      | Inr spec \<Rightarrow>
          let submit = submit_run env volumes project_id user_id spec runs uid in
          (case spec_run_name spec of
             None \<Rightarrow> submit
           | Some name \<Rightarrow> (case get_run_by_name project_id name runs of
               None \<Rightarrow> submit
             | Some cur \<Rightarrow> (case run_model_to_run (se_now env) True True cur of
                 Inl e \<Rightarrow> (runs, Inl e)
               | Inr _ \<Rightarrow>
                 if run_is_finished (rm_status cur) then submit
                 else (case check_can_update_run_spec (rm_run_spec cur) spec of
                     Inl e \<Rightarrow> (runs, Inl (ServerClientError ''Cannot override active run. Stop the run first.''))
                   | Inr _ \<Rightarrow>
                       if \<not> force \<and> expected \<noteq> Some (rm_id cur, rm_run_spec cur)
                       then (runs, Inl (ServerClientError ''Failed to apply plan. Resource has been changed. Try again or use force apply.''))
                       else (map_rows (\<lambda>r. rm_id r = rm_id cur) (\<lambda>r. r\<lparr>rm_run_spec := spec\<rparr>) runs,
                             fmapE (\<lambda>r. (r, uid)) (run_model_to_run (se_now env) True True (cur\<lparr>rm_run_spec := spec\<rparr>))))))))"

end
