(* ===== verification/Latest_View.thy ===== *)
theory Latest_View
  imports Jobs Database
begin

text \<open>
  An abstract view of a run's job rows: for every replica and job number, the row of the latest
  submission. The operations of the runs service are stated on rows; on the view they are updates
  of a map. The lemmas here relate the two, and the grouping by replica to the view.
\<close>

section \<open>The view\<close>

definition latest_view :: "JobModel list \<Rightarrow> nat \<times> nat \<Rightarrow> JobModel option" where
  "latest_view jobs k = (let s = submissions_of jobs (fst k) (snd k) in if s = [] then None else Some (last s))"

definition pair_key :: "JobModel \<Rightarrow> nat \<times> nat" where
  "pair_key j = (jm_replica_num j, jm_job_num j)"

lemma job_key_pair: "job_key j = (jm_replica_num j, jm_job_num j, jm_submission_num j)"
  by (simp add: job_key_def)

lemma latest_view_SomeD:
  assumes "latest_view jobs k = Some j"
  shows "is_latest jobs j" and "pair_key j = k"
  using assms latest_of_submissions [of jobs "fst k" "snd k"]
  by (auto simp: latest_view_def Let_def pair_key_def split: if_splits)

lemma latest_view_iff:
  assumes "unique_submissions jobs"
  shows "latest_view jobs k = Some j \<longleftrightarrow> is_latest jobs j \<and> pair_key j = k"
proof
  assume "latest_view jobs k = Some j"
  then show "is_latest jobs j \<and> pair_key j = k" by (blast dest: latest_view_SomeD)
next
  assume j: "is_latest jobs j \<and> pair_key j = k"
  then have "j \<in> set (submissions_of jobs (fst k) (snd k))"
    by (auto simp: is_latest_def submissions_of_def pair_key_def)
  then have "submissions_of jobs (fst k) (snd k) \<noteq> []" by auto
  then obtain l where l: "latest_view jobs k = Some l" by (simp add: latest_view_def Let_def)
  from latest_view_SomeD [OF this] have "is_latest jobs l" "pair_key l = k" .
  with j have "jm_submission_num l = jm_submission_num j"
    by (auto simp: is_latest_def pair_key_def intro: antisym)
  with j \<open>is_latest jobs l\<close> \<open>pair_key l = k\<close> assms have "l = j"
    by (auto simp: is_latest_def pair_key_def unique_submissions_def job_key_def distinct_map inj_on_def)
  with l show "latest_view jobs k = Some j" by simp
qed

lemma latest_view_None: "latest_view jobs k = None \<longleftrightarrow> k \<notin> pair_key ` set jobs"
  by (cases k) (auto simp: latest_view_def Let_def submissions_of_def pair_key_def filter_empty_conv)

lemma map_eq_Some_iff: "(\<And>k v. f k = Some v \<longleftrightarrow> g k = Some v) \<Longrightarrow> f = g"
  by (rule ext) (metis not_None_eq)

text \<open>Adding a submission that follows all those of its job.\<close>

lemma latest_view_append:
  assumes u: "unique_submissions jobs"
    and later: "\<And>j. j \<in> set jobs \<Longrightarrow> pair_key j = pair_key new \<Longrightarrow> jm_submission_num j < jm_submission_num new"
  shows "unique_submissions (jobs @ [new])"
    and "latest_view (jobs @ [new]) = (latest_view jobs)(pair_key new \<mapsto> new)"
proof -
  have "job_key new \<notin> job_key ` set jobs"
  proof
    assume "job_key new \<in> job_key ` set jobs"
    then obtain j where "j \<in> set jobs" "job_key new = job_key j" by auto
    with later [of j] show False by (simp add: job_key_def pair_key_def)
  qed
  with u show u': "unique_submissions (jobs @ [new])" by (simp add: unique_submissions_def)
  show "latest_view (jobs @ [new]) = (latest_view jobs)(pair_key new \<mapsto> new)"
  proof (rule map_eq_Some_iff)
    fix k v
    have "is_latest (jobs @ [new]) v \<longleftrightarrow> v = new \<or> (is_latest jobs v \<and> pair_key v \<noteq> pair_key new)"
      using later by (auto simp: is_latest_def pair_key_def dest: less_imp_le_nat) (metis leD)+
    then show "latest_view (jobs @ [new]) k = Some v \<longleftrightarrow>
        ((latest_view jobs)(pair_key new \<mapsto> new)) k = Some v"
      unfolding latest_view_iff [OF u'] by (auto simp: latest_view_iff [OF u])
  qed
qed

text \<open>Updating the row of a latest submission in place.\<close>

lemma put_row_job_key:
  assumes "job_key j' = job_key j" and "jm_id j' = jm_id j" and "j \<in> set jobs" and "distinct (map jm_id jobs)"
  shows "map job_key (put_row jm_id j' jobs) = map job_key jobs"
proof -
  have "job_key (if jm_id x = jm_id j' then j' else x) = job_key x" if "x \<in> set jobs" for x
    using that assms by (auto simp: distinct_map inj_on_def)
  then show ?thesis by (simp add: put_row_def map_rows_def)
qed

lemma latest_view_put:
  assumes u: "unique_submissions jobs" and d: "distinct (map jm_id jobs)"
    and j: "is_latest jobs j" "job_key j' = job_key j" "jm_id j' = jm_id j"
  shows "unique_submissions (put_row jm_id j' jobs)"
    and "latest_view (put_row jm_id j' jobs) = (latest_view jobs)(pair_key j \<mapsto> j')"
proof -
  have mem: "j \<in> set jobs" using j(1) by (simp add: is_latest_def)
  have keys: "map job_key (put_row jm_id j' jobs) = map job_key jobs"
    using j mem d by (intro put_row_job_key)
  with u show u': "unique_submissions (put_row jm_id j' jobs)" by (simp add: unique_submissions_def)
  have set: "set (put_row jm_id j' jobs) = insert j' (set jobs - {j})"
    using set_put_row_eq [OF d mem j(3)] .
  show "latest_view (put_row jm_id j' jobs) = (latest_view jobs)(pair_key j \<mapsto> j')"
  proof (rule map_eq_Some_iff)
    fix k v
    have pk: "pair_key j' = pair_key j" and sub: "jm_submission_num j' = jm_submission_num j"
      using j(2) by (auto simp: job_key_def pair_key_def)
    have "is_latest (put_row jm_id j' jobs) v \<longleftrightarrow> v = j' \<or> (is_latest jobs v \<and> pair_key v \<noteq> pair_key j)"
    proof (cases "v = j'")
      case True
      then show ?thesis using j(1) pk sub by (auto simp: is_latest_def set pair_key_def)
    next
      case False
      show ?thesis
      proof (cases "pair_key v = pair_key j")
        case True
        have "\<not> is_latest (put_row jm_id j' jobs) v"
        proof
          assume v: "is_latest (put_row jm_id j' jobs) v"
          then have vm: "v \<in> set jobs" "v \<noteq> j" using False by (auto simp: is_latest_def set)
          have "jm_submission_num j \<le> jm_submission_num v"
            using v True pk sub by (auto simp: is_latest_def set pair_key_def)
          moreover have "jm_submission_num v \<le> jm_submission_num j"
            using j(1) vm True by (auto simp: is_latest_def pair_key_def)
          ultimately have "job_key v = job_key j" using True by (auto simp: job_key_def pair_key_def)
          with vm mem u show False by (auto simp: unique_submissions_def distinct_map inj_on_def)
        qed
        with True False show ?thesis by simp
      next
        case diff: False
        then show ?thesis using False pk sub mem by (auto simp: is_latest_def set pair_key_def)
      qed
    qed
    then show "latest_view (put_row jm_id j' jobs) k = Some v \<longleftrightarrow> ((latest_view jobs)(pair_key j \<mapsto> j')) k = Some v"
      unfolding latest_view_iff [OF u'] using pk by (auto simp: latest_view_iff [OF u])
  qed
qed

section \<open>Groups and the view\<close>

lemma group_iff_view:
  assumes "unique_submissions jobs" and "(r, ls) \<in> set (group_jobs_by_replica_latest jobs)"
  shows "j \<in> set ls \<longleftrightarrow> latest_view jobs (r, jm_job_num j) = Some j"
  using group_latest [OF assms(2), of j] group_complete [OF assms(1), of j ls] assms(2)
  by (auto simp: latest_view_iff [OF assms(1)] pair_key_def)

text \<open>The replicas of a view, and those all of whose latest jobs satisfy a predicate.\<close>

definition view_replicas :: "(nat \<times> nat \<Rightarrow> JobModel option) \<Rightarrow> nat set" where
  "view_replicas v = fst ` dom v"

definition replicas_with :: "(JobModel \<Rightarrow> bool) \<Rightarrow> (nat \<times> nat \<Rightarrow> JobModel option) \<Rightarrow> nat set" where
  "replicas_with P v = {r \<in> view_replicas v. \<forall>n j. v (r, n) = Some j \<longrightarrow> P j}"

lemma view_replicas_jobs: "view_replicas (latest_view jobs) = jm_replica_num ` set jobs"
proof -
  have "dom (latest_view jobs) = pair_key ` set jobs" by (auto simp: latest_view_None dom_def)
  then show ?thesis by (simp add: view_replicas_def image_image pair_key_def)
qed

lemma finite_view_replicas [simp]: "finite (view_replicas (latest_view jobs))"
  by (simp add: view_replicas_jobs)

lemma finite_replicas_with [simp]: "finite (replicas_with P (latest_view jobs))"
  unfolding replicas_with_def by simp

lemma groups_with:
  assumes "unique_submissions jobs"
  shows "fst ` set (filter (\<lambda>(r, ls). list_all P ls) (group_jobs_by_replica_latest jobs))
    = replicas_with P (latest_view jobs)"
proof -
  have "list_all P ls \<longleftrightarrow> (\<forall>n j. latest_view jobs (r, n) = Some j \<longrightarrow> P j)"
    if "(r, ls) \<in> set (group_jobs_by_replica_latest jobs)" for r ls
  proof -
    have "latest_view jobs (r, n) = Some j \<Longrightarrow> n = jm_job_num j" for n j
      using latest_view_SomeD(2) by (fastforce simp: pair_key_def)
    with group_iff_view [OF assms that] show ?thesis by (auto simp: list_all_iff)
  qed
  then have "fst ` set (filter (\<lambda>(r, ls). list_all P ls) (group_jobs_by_replica_latest jobs))
    = {r \<in> fst ` set (group_jobs_by_replica_latest jobs). \<forall>n j. latest_view jobs (r, n) = Some j \<longrightarrow> P j}"
    by force
  then show ?thesis by (simp add: replicas_with_def view_replicas_jobs group_replica_set)
qed

lemma groups_distinct: "distinct (map fst (group_jobs_by_replica_latest jobs))"
  using group_replica_sorted [of jobs] strict_sorted_iff by blast

lemma length_groups_with:
  assumes "unique_submissions jobs"
  shows "length (filter (\<lambda>(r, ls). list_all P ls) (group_jobs_by_replica_latest jobs))
    = card (replicas_with P (latest_view jobs))"
proof -
  have "distinct (map fst (filter (\<lambda>(r, ls). list_all P ls) (group_jobs_by_replica_latest jobs)))"
    using groups_distinct by (rule distinct_map_filter)
  then have "length (filter (\<lambda>(r, ls). list_all P ls) (group_jobs_by_replica_latest jobs))
    = card (fst ` set (filter (\<lambda>(r, ls). list_all P ls) (group_jobs_by_replica_latest jobs)))"
    by (metis distinct_card length_map list.set_map)
  with groups_with [OF assms] show ?thesis by simp
qed

end
