(* ===== verification/Run_Scaling.thy ===== *)
theory Run_Scaling
  imports Runs Latest_View
begin

text \<open>
  Correctness of resubmission and scaling (\<^verbatim>\<open>retry_run_replica_jobs\<close>,
  \<^verbatim>\<open>scale_run_replicas\<close> of \<^verbatim>\<open>services/runs.py\<close>) by refinement to the latest view: each
  operation on the rows is an update of the map of latest submissions, and keeps the invariant of the
  rows.
\<close>

section \<open>The invariant of a run's jobs\<close>

definition spec_consistent :: "JobModel \<Rightarrow> bool" where
  "spec_consistent j \<longleftrightarrow> js_replica_num (jm_job_spec j) = jm_replica_num j \<and> js_job_num (jm_job_spec j) = jm_job_num j"

text \<open>
  Keys are distinct and below the next one, no submission of a job occurs twice, the numbers of its
  submissions have no gap, and the columns of a row agree with its specification.
\<close>

definition submission_count :: "JobModel list \<Rightarrow> nat \<times> nat \<Rightarrow> nat" where
  "submission_count jobs k = length (filter (\<lambda>j. pair_key j = k) jobs)"

definition jobs_inv :: "JobModel list \<Rightarrow> nat \<Rightarrow> bool" where
  "jobs_inv jobs uid \<longleftrightarrow> distinct (map jm_id jobs) \<and> (\<forall>j \<in> set jobs. jm_id j < uid)
     \<and> unique_submissions jobs \<and> (\<forall>j \<in> set jobs. spec_consistent j)
     \<and> (\<forall>j \<in> set jobs. jm_submission_num j < submission_count jobs (pair_key j))"

abbreviation view :: "RunModel \<Rightarrow> nat \<times> nat \<Rightarrow> JobModel option" where
  "view run \<equiv> latest_view (rm_jobs run)"

lemma jobs_invD:
  assumes "jobs_inv jobs uid"
  shows "distinct (map jm_id jobs)" and "unique_submissions jobs" and "j \<in> set jobs \<Longrightarrow> jm_id j < uid"
    and "j \<in> set jobs \<Longrightarrow> spec_consistent j"
  using assms by (auto simp: jobs_inv_def)

lemma submission_count_keys:
  "submission_count jobs k = length (filter (\<lambda>(r, n, s). (r, n) = k) (map job_key jobs))"
  by (simp add: submission_count_def filter_map o_def job_key_def pair_key_def)

lemma submission_count_append [simp]:
  "submission_count (jobs @ [new]) k = submission_count jobs k + (if pair_key new = k then 1 else 0)"
  by (simp add: submission_count_def)

lemma submission_count_None: "latest_view jobs k = None \<Longrightarrow> submission_count jobs k = 0"
  by (auto simp: submission_count_def latest_view_None filter_empty_conv)

lemma latest_count:
  assumes inv: "jobs_inv jobs uid" and v: "latest_view jobs k = Some j"
  shows "submission_count jobs k = Suc (jm_submission_num j)"
proof -
  let ?f = "filter (\<lambda>j. pair_key j = k) jobs"
  have lat: "is_latest jobs j" "pair_key j = k" using latest_view_SomeD [OF v] by blast+
  have "jm_submission_num j < submission_count jobs k"
    using inv lat by (auto simp: jobs_inv_def is_latest_def)
  moreover have "distinct (map jm_submission_num ?f)"
    using inv by (auto simp: jobs_inv_def unique_submissions_def distinct_map inj_on_def job_key_def pair_key_def)
  then have "submission_count jobs k = card (jm_submission_num ` set ?f)"
    unfolding submission_count_def by (metis distinct_card length_map list.set_map)
  moreover have "jm_submission_num ` set ?f \<subseteq> {..jm_submission_num j}"
    using lat by (auto simp: is_latest_def pair_key_def)
  then have "card (jm_submission_num ` set ?f) \<le> Suc (jm_submission_num j)"
    using card_mono [of "{..jm_submission_num j}"] by simp
  ultimately show ?thesis by simp
qed

lemma jobs_inv_append:
  assumes "jobs_inv jobs uid" and "jm_id new = uid" and "spec_consistent new"
    and sub: "jm_submission_num new = submission_count jobs (pair_key new)"
  shows "jobs_inv (jobs @ [new]) (Suc uid)"
    and "latest_view (jobs @ [new]) = (latest_view jobs)(pair_key new \<mapsto> new)"
proof -
  have later: "jm_submission_num j < jm_submission_num new" if "j \<in> set jobs" "pair_key j = pair_key new" for j
    using assms(1) sub that by (auto simp: jobs_inv_def)
  note app = latest_view_append [OF jobs_invD(2) [OF assms(1)] later]
  have "\<forall>j \<in> set (jobs @ [new]). jm_submission_num j < submission_count (jobs @ [new]) (pair_key j)"
    using assms(1) sub by (auto simp: jobs_inv_def less_SucI)
  then show "jobs_inv (jobs @ [new]) (Suc uid)"
    using assms app(1) by (auto simp: jobs_inv_def less_SucI)
  show "latest_view (jobs @ [new]) = (latest_view jobs)(pair_key new \<mapsto> new)" by (rule app(2))
qed

lemma jobs_inv_put:
  assumes "jobs_inv jobs uid" and "is_latest jobs j" and "job_key j' = job_key j" and "jm_id j' = jm_id j"
    and "jm_job_spec j' = jm_job_spec j"
  shows "jobs_inv (put_row jm_id j' jobs) uid"
    and "latest_view (put_row jm_id j' jobs) = (latest_view jobs)(pair_key j \<mapsto> j')"
    and "submission_count (put_row jm_id j' jobs) = submission_count jobs"
proof -
  have mem: "j \<in> set jobs" using assms(2) by (simp add: is_latest_def)
  have d: "distinct (map jm_id jobs)" using assms(1) by (rule jobs_invD)
  show cnt: "submission_count (put_row jm_id j' jobs) = submission_count jobs"
    unfolding fun_eq_iff submission_count_keys put_row_job_key [OF assms(3,4) mem d] by simp
  have sc: "spec_consistent j'" using assms(1,3,5) mem by (auto simp: jobs_inv_def spec_consistent_def job_key_def)
  have sn: "jm_submission_num j' < submission_count jobs (pair_key j')"
    using assms(1,3) mem by (auto simp: jobs_inv_def job_key_def pair_key_def)
  show "jobs_inv (put_row jm_id j' jobs) uid"
    using assms mem latest_view_put(1) [of jobs j j'] set_put_row [of jm_id j' jobs] sc sn
    by (auto simp: jobs_inv_def cnt)
  show "latest_view (put_row jm_id j' jobs) = (latest_view jobs)(pair_key j \<mapsto> j')"
    using assms by (intro latest_view_put) (auto simp: jobs_inv_def)
qed

section \<open>Rows changed in place\<close>

lemma insort_key_map: "(\<And>x. k (g x) = k x) \<Longrightarrow> insort_key k (g x) (map g xs) = map g (insort_key k x xs)"
  by (induction xs) auto

lemma sort_key_map_key: "(\<And>x. k (g x) = k x) \<Longrightarrow> sort_key k (map g xs) = map g (sort_key k xs)"
  by (induction xs) (simp_all add: insort_key_map)

lemma latest_view_map:
  assumes "\<And>j. job_key (g j) = job_key j"
  shows "latest_view (map g jobs) k = map_option g (latest_view jobs k)"
proof -
  have "jm_replica_num (g j) = jm_replica_num j" "jm_job_num (g j) = jm_job_num j" for j
    using assms [of j] by (simp_all add: job_key_def)
  then have "submissions_of (map g jobs) r n = map g (submissions_of jobs r n)" for r n
    unfolding submissions_of_def sort_key_map_key [of job_key g, OF assms] filter_map by (simp add: o_def)
  then show ?thesis by (simp add: latest_view_def Let_def last_map)
qed

section \<open>Resubmission\<close>

lemma resubmission_simps [simp]:
  "jm_id (resubmission now uid run j) = uid"
  "jm_status (resubmission now uid run j) = J_SUBMITTED"
  "jm_termination_reason (resubmission now uid run j) = None"
  "jm_submission_num (resubmission now uid run j) = Suc (jm_submission_num j)"
  "jm_job_spec (resubmission now uid run j) = jm_job_spec j"
  "jm_replica_num (resubmission now uid run j) = js_replica_num (jm_job_spec j)"
  "jm_job_num (resubmission now uid run j) = js_job_num (jm_job_spec j)"
  by (simp_all add: resubmission_def create_job_model_for_new_submission_def)

lemma terminate_row_simps [simp]:
  "job_key (terminate_row reason j) = job_key j" "jm_id (terminate_row reason j) = jm_id j"
  "jm_job_spec (terminate_row reason j) = jm_job_spec j" "job_stopped (terminate_row reason j)"
  "jm_status (terminate_row reason j) = J_TERMINATING"
  "jm_termination_reason (terminate_row reason j) = Some reason"
  by (simp_all add: terminate_row_def job_key_def job_stopped_def)

text \<open>One job: whether or not it has to be stopped first, its latest submission becomes the new one.\<close>

definition retry_rows :: "time \<Rightarrow> nat \<Rightarrow> RunModel \<Rightarrow> JobModel \<Rightarrow> JobModel list" where
  "retry_rows now uid run j = (if job_stopped j then rm_jobs run
     else put_row jm_id (terminate_row TERMINATED_BY_SERVER j) (rm_jobs run)) @ [resubmission now uid run j]"

lemma retry_rows_view:
  assumes "jobs_inv (rm_jobs run) uid" and "view run (pair_key j) = Some j"
  shows "jobs_inv (retry_rows now uid run j) (Suc uid)"
    and "latest_view (retry_rows now uid run j) = (view run)(pair_key j \<mapsto> resubmission now uid run j)"
proof -
  let ?new = "resubmission now uid run j" and ?t = "terminate_row TERMINATED_BY_SERVER j"
  define rows where "rows = (if job_stopped j then rm_jobs run else put_row jm_id ?t (rm_jobs run))"
  have lat: "is_latest (rm_jobs run) j" using assms(2) by (rule latest_view_SomeD)
  then have mem: "j \<in> set (rm_jobs run)" by (simp add: is_latest_def)
  with assms(1) have sc: "spec_consistent j" by (rule jobs_invD)
  then have pk: "pair_key ?new = pair_key j" by (simp add: spec_consistent_def pair_key_def)
  have inv: "jobs_inv rows uid"
    using assms(1) jobs_inv_put(1) [OF assms(1) lat, of ?t] by (simp add: rows_def)
  have v: "latest_view rows = (if job_stopped j then view run else (view run)(pair_key j \<mapsto> ?t))"
    using jobs_inv_put(2) [OF assms(1) lat, of ?t] by (simp add: rows_def)
  have "latest_view rows (pair_key j) = Some (if job_stopped j then j else ?t)" using v assms(2) by simp
  from latest_count [OF inv this] pk
  have sub: "jm_submission_num ?new = submission_count rows (pair_key ?new)"
    by (simp add: terminate_row_def)
  have nc: "spec_consistent ?new" by (simp add: spec_consistent_def)
  have id: "jm_id ?new = uid" by simp
  note app = jobs_inv_append [OF inv id nc sub]
  show "jobs_inv (retry_rows now uid run j) (Suc uid)"
    using app(1) by (simp add: retry_rows_def rows_def [symmetric])
  show "latest_view (retry_rows now uid run j) = (view run)(pair_key j \<mapsto> ?new)"
    using app(2) pk by (simp add: retry_rows_def rows_def [symmetric] v)
qed

text \<open>A list of jobs, each the latest of a different job of the run.\<close>

lemma retry_jobs_view:
  assumes "jobs_inv (rm_jobs run) uid" and "\<forall>j \<in> set js. view run (pair_key j) = Some j"
    and "distinct (map pair_key js)"
    and "retry_run_replica_jobs now False js (run, uid) = (run', uid')"
  shows "jobs_inv (rm_jobs run') uid' \<and> run' = run\<lparr>rm_jobs := rm_jobs run'\<rparr> \<and> uid' = uid + length js
    \<and> dom (view run') = dom (view run)
    \<and> (\<forall>k. k \<notin> pair_key ` set js \<longrightarrow> view run' k = view run k)
    \<and> (\<forall>k \<in> pair_key ` set js. \<exists>n. view run' k = Some n \<and> jm_status n = J_SUBMITTED)"
  using assms
proof (induction js arbitrary: run uid)
  case Nil
  then show ?case by simp
next
  case (Cons j js)
  let ?r = "run\<lparr>rm_jobs := retry_rows now uid run j\<rparr>"
  have vj: "view run (pair_key j) = Some j" using Cons.prems(2) by simp
  note rv = retry_rows_view [OF Cons.prems(1) vj, of now]
  have step: "retry_run_replica_jobs now False js (?r, Suc uid) = (run', uid')"
    using Cons.prems(4) by (simp add: retry_rows_def Let_def)
  have "\<forall>i \<in> set js. view ?r (pair_key i) = Some i"
  proof
    fix i assume i: "i \<in> set js"
    then have "pair_key i \<noteq> pair_key j" using Cons.prems(3) by (metis distinct.simps(2) image_eqI list.set_map list.simps(9))
    then show "view ?r (pair_key i) = Some i" using i Cons.prems(2) rv(2) by simp
  qed
  moreover have "jobs_inv (rm_jobs ?r) (Suc uid)" using rv(1) by simp
  ultimately have IH: "jobs_inv (rm_jobs run') uid' \<and> run' = ?r\<lparr>rm_jobs := rm_jobs run'\<rparr> \<and> uid' = Suc uid + length js
    \<and> dom (view run') = dom (view ?r)
    \<and> (\<forall>k. k \<notin> pair_key ` set js \<longrightarrow> view run' k = view ?r k)
    \<and> (\<forall>k \<in> pair_key ` set js. \<exists>n. view run' k = Some n \<and> jm_status n = J_SUBMITTED)"
    using Cons.prems(3) step by (intro Cons.IH) simp_all
  have nj: "pair_key j \<notin> pair_key ` set js" using Cons.prems(3) by simp
  have other: "view run' k = view ?r k" if "k \<notin> pair_key ` set js" for k using IH that by blast
  have new: "view run' (pair_key j) = Some (resubmission now uid run j)" using other [OF nj] rv(2) by simp
  have "dom (view run') = dom (view run)" using IH rv(2) vj by auto
  moreover have "run' = run\<lparr>rm_jobs := rm_jobs run'\<rparr>" using IH by (metis RunModel.surjective RunModel.update_convs(14))
  moreover have "\<forall>k. k \<notin> pair_key ` set (j # js) \<longrightarrow> view run' k = view run k" using IH rv(2) by simp
  moreover have "\<forall>k \<in> pair_key ` set (j # js). \<exists>n. view run' k = Some n \<and> jm_status n = J_SUBMITTED"
    using IH new by auto
  moreover have "jobs_inv (rm_jobs run') uid'" using IH by blast
  moreover have "uid' = uid + length (j # js)" using IH by simp
  ultimately show ?case by blast
qed

section \<open>Replicas\<close>

definition running_replica :: "(nat \<times> nat \<Rightarrow> JobModel option) \<Rightarrow> nat set" where
  "running_replica v = replicas_with (\<lambda>j. \<not> job_stopped j) v"

lemma running_replica_update:
  assumes "\<And>r' n. r' \<noteq> r \<Longrightarrow> v' (r', n) = v (r', n)" and "v' (r, n) = Some x"
    and "\<And>n x. v' (r, n) = Some x \<Longrightarrow> \<not> job_stopped x"
  shows "running_replica v' = insert r (running_replica v)" and "view_replicas v' = insert r (view_replicas v)"
proof -
  have iff: "s \<in> view_replicas w \<longleftrightarrow> (\<exists>n. w (s, n) \<noteq> None)" for s and w :: "nat \<times> nat \<Rightarrow> JobModel option"
    by (force simp: view_replicas_def)
  then show "view_replicas v' = insert r (view_replicas v)"
    using assms(1,2) by (auto simp: set_eq_iff) (metis option.distinct(1))+
  show "running_replica v' = insert r (running_replica v)"
  proof (rule set_eqI)
    fix s
    show "s \<in> running_replica v' \<longleftrightarrow> s \<in> insert r (running_replica v)"
      using assms by (cases "s = r") (auto simp: running_replica_def replicas_with_def iff)
  qed
qed

text \<open>The rows of a group are the latest jobs of its replica.\<close>

definition group_of :: "(nat \<times> nat \<Rightarrow> JobModel option) \<Rightarrow> nat \<Rightarrow> JobModel list \<Rightarrow> bool" where
  "group_of v r js \<longleftrightarrow> js \<noteq> [] \<and> distinct (map pair_key js)
     \<and> (\<forall>j \<in> set js. fst (pair_key j) = r \<and> v (pair_key j) = Some j)
     \<and> (\<forall>n j. v (r, n) = Some j \<longrightarrow> j \<in> set js \<and> pair_key j = (r, n))"

lemma group_of_groups:
  assumes "unique_submissions jobs" and "(r, js) \<in> set (group_jobs_by_replica_latest jobs)"
  shows "group_of (latest_view jobs) r js"
proof -
  have num: "fst (pair_key j) = r \<and> pair_key j = (r, jm_job_num j)" if "j \<in> set js" for j
    using group_latest(2) [OF assms(2) that] by (simp add: pair_key_def)
  have "distinct (map jm_job_num js)"
    using group_job_nums_sorted(1) [OF assms(2)] strict_sorted_iff by blast
  then have "distinct (map pair_key js)" by (auto simp: distinct_map inj_on_def pair_key_def)
  moreover have "fst (pair_key j) = r \<and> latest_view jobs (pair_key j) = Some j" if "j \<in> set js" for j
    using num [OF that] group_iff_view [OF assms, of j] that by simp
  moreover have "j \<in> set js \<and> pair_key j = (r, n)" if v: "latest_view jobs (r, n) = Some j" for j n
  proof -
    have pk: "pair_key j = (r, n)" using v by (rule latest_view_SomeD)
    then have "n = jm_job_num j" by (simp add: pair_key_def)
    with v pk show ?thesis using group_iff_view [OF assms, of j] by simp
  qed
  ultimately show ?thesis using group_ne [OF assms(2)] unfolding group_of_def by blast
qed

lemma group_of_other:
  assumes "group_of v r js" and "\<And>n. v' (r, n) = v (r, n)"
  shows "group_of v' r js"
  using assms unfolding group_of_def by (metis prod.collapse)

lemma retry_group:
  assumes inv: "jobs_inv (rm_jobs run) uid" and g: "group_of (view run) r js"
    and ret: "retry_run_replica_jobs now False js (run, uid) = (run', uid')"
  shows "jobs_inv (rm_jobs run') uid'" and "run' = run\<lparr>rm_jobs := rm_jobs run'\<rparr>"
    and "dom (view run') = dom (view run)" and "r' \<noteq> r \<Longrightarrow> view run' (r', n) = view run (r', n)"
    and "running_replica (view run') = insert r (running_replica (view run))"
proof -
  have pre: "\<forall>j \<in> set js. view run (pair_key j) = Some j" "distinct (map pair_key js)"
    using g by (simp_all add: group_of_def)
  note rv = retry_jobs_view [OF inv pre ret]
  from rv show "jobs_inv (rm_jobs run') uid'" by blast
  from rv show "run' = run\<lparr>rm_jobs := rm_jobs run'\<rparr>" by blast
  from rv show "dom (view run') = dom (view run)" by blast
  have keys: "(r', n) \<notin> pair_key ` set js" if "r' \<noteq> r" for r' n
  proof
    assume "(r', n) \<in> pair_key ` set js"
    then obtain j where "j \<in> set js" "pair_key j = (r', n)" by auto
    with g that show False unfolding group_of_def by (metis fst_conv)
  qed
  show other: "view run' (r', n) = view run (r', n)" if "r' \<noteq> r" for r' n
    using rv keys [OF that] by blast
  obtain j where j: "j \<in> set js" "fst (pair_key j) = r"
    using g by (cases js) (auto simp: group_of_def)
  then obtain x where x: "view run' (r, snd (pair_key j)) = Some x" using rv by fastforce
  have new: "\<not> job_stopped x" if "view run' (r, n) = Some x" for n x
  proof -
    have "(r, n) \<in> dom (view run)" using that rv by auto
    then have "(r, n) \<in> pair_key ` set js" using g by (force simp: group_of_def)
    with rv that show ?thesis by (auto simp: job_stopped_def)
  qed
  show "running_replica (view run') = insert r (running_replica (view run))"
    using running_replica_update(1) [of r "view run'" "view run"] other x new by blast
qed

lemma retry_replicas_view:
  assumes "jobs_inv (rm_jobs run) uid" and "\<forall>(r, js) \<in> set reps. group_of (view run) r js"
    and "distinct (map fst reps)" and "retry_replicas now reps (run, uid) = (run', uid')"
  shows "jobs_inv (rm_jobs run') uid' \<and> run' = run\<lparr>rm_jobs := rm_jobs run'\<rparr>
    \<and> dom (view run') = dom (view run)
    \<and> running_replica (view run') = fst ` set reps \<union> running_replica (view run)"
  using assms
proof (induction reps arbitrary: run uid)
  case Nil
  then show ?case by (simp add: retry_replicas_def)
next
  case (Cons rep reps)
  obtain r js where rep: "rep = (r, js)" by (cases rep)
  obtain run1 uid1 where ret: "retry_run_replica_jobs now False js (run, uid) = (run1, uid1)" by fastforce
  have g: "group_of (view run) r js" using Cons.prems(2) rep by simp
  note rg = retry_group [OF Cons.prems(1) g ret]
  have "group_of (view run1) r' js'" if "(r', js') \<in> set reps" for r' js'
  proof (rule group_of_other)
    show "group_of (view run) r' js'" using Cons.prems(2) that by auto
    have "r' \<noteq> r" using Cons.prems(3) that rep by force
    then show "view run1 (r', n) = view run (r', n)" for n by (rule rg(4))
  qed
  then have "jobs_inv (rm_jobs run') uid' \<and> run' = run1\<lparr>rm_jobs := rm_jobs run'\<rparr>
    \<and> dom (view run') = dom (view run1)
    \<and> running_replica (view run') = fst ` set reps \<union> running_replica (view run1)"
    using Cons.prems(3,4) rg(1) ret rep by (intro Cons.IH [of run1 uid1]) (auto simp: retry_replicas_def)
  with rg show ?case
    by (auto simp: rep) (metis RunModel.surjective RunModel.update_convs(14))+
qed

section \<open>New replicas\<close>

definition new_job_key :: "Job \<Rightarrow> nat \<times> nat" where
  "new_job_key job = (js_replica_num (job_spec job), js_job_num (job_spec job))"

lemma create_job_simps [simp]:
  "jm_id (create_job_model_for_new_submission now uid run job status) = uid"
  "jm_status (create_job_model_for_new_submission now uid run job status) = status"
  "jm_termination_reason (create_job_model_for_new_submission now uid run job status) = None"
  "jm_submission_num (create_job_model_for_new_submission now uid run job status) = length (job_submissions job)"
  "pair_key (create_job_model_for_new_submission now uid run job status) = new_job_key job"
  "spec_consistent (create_job_model_for_new_submission now uid run job status)"
  by (simp_all add: create_job_model_for_new_submission_def pair_key_def new_job_key_def spec_consistent_def)

lemma add_jobs_view:
  assumes "jobs_inv (rm_jobs run) uid" and "distinct (map new_job_key jobs)"
    and "\<forall>job \<in> set jobs. length (job_submissions job) = submission_count (rm_jobs run) (new_job_key job)"
    and "add_jobs now jobs (run, uid) = (run', uid')"
  shows "jobs_inv (rm_jobs run') uid' \<and> run' = run\<lparr>rm_jobs := rm_jobs run'\<rparr>
    \<and> (\<forall>k. k \<notin> new_job_key ` set jobs \<longrightarrow> view run' k = view run k)
    \<and> (\<forall>k \<in> new_job_key ` set jobs. \<exists>n. view run' k = Some n \<and> jm_status n = J_SUBMITTED)"
  using assms
proof (induction jobs arbitrary: run uid)
  case Nil
  then show ?case by simp
next
  case (Cons job jobs)
  let ?n = "create_job_model_for_new_submission now uid run job J_SUBMITTED"
  let ?r = "run\<lparr>rm_jobs := rm_jobs run @ [?n]\<rparr>"
  have "jm_submission_num ?n = submission_count (rm_jobs run) (pair_key ?n)" using Cons.prems(3) by simp
  then have "jobs_inv (rm_jobs run @ [?n]) (Suc uid)"
    and v: "latest_view (rm_jobs run @ [?n]) = (view run)(new_job_key job \<mapsto> ?n)"
    using jobs_inv_append [OF Cons.prems(1), of ?n] by simp_all
  moreover have "\<forall>k \<in> set jobs. length (job_submissions k) = submission_count (rm_jobs ?r) (new_job_key k)"
  proof
    fix k assume k: "k \<in> set jobs"
    then have "new_job_key k \<noteq> new_job_key job" using Cons.prems(2) by (metis distinct.simps(2) image_eqI list.set_map list.simps(9))
    then show "length (job_submissions k) = submission_count (rm_jobs ?r) (new_job_key k)" using k Cons.prems(3) by simp
  qed
  ultimately have IH: "jobs_inv (rm_jobs run') uid' \<and> run' = ?r\<lparr>rm_jobs := rm_jobs run'\<rparr>
    \<and> (\<forall>k. k \<notin> new_job_key ` set jobs \<longrightarrow> view run' k = view ?r k)
    \<and> (\<forall>k \<in> new_job_key ` set jobs. \<exists>n. view run' k = Some n \<and> jm_status n = J_SUBMITTED)"
    using Cons.prems(2,4) by (intro Cons.IH) simp_all
  have "new_job_key job \<notin> new_job_key ` set jobs" using Cons.prems(2) by simp
  with IH have "view run' (new_job_key job) = view ?r (new_job_key job)" by blast
  then have new: "view run' (new_job_key job) = Some ?n" using v by simp
  have "run' = run\<lparr>rm_jobs := rm_jobs run'\<rparr>" using IH by (metis RunModel.surjective RunModel.update_convs(14))
  moreover have "\<forall>k. k \<notin> new_job_key ` set (job # jobs) \<longrightarrow> view run' k = view run k" using IH v by simp
  moreover have "\<forall>k \<in> new_job_key ` set (job # jobs). \<exists>n. view run' k = Some n \<and> jm_status n = J_SUBMITTED"
    using IH new by auto
  ultimately show ?case using IH by blast
qed

lemma set_commands_nodes [simp]:
  "conf_nodes (spec_configuration (set_commands cs spec)) = conf_nodes (spec_configuration spec)"
  by (simp add: set_commands_def split: RunConfiguration.splits)

lemma commands_of_nodes:
  assumes "commands_of jc spec = Inr (cs, spec')"
  shows "conf_nodes (spec_configuration spec') = conf_nodes (spec_configuration spec)"
  using assms
  by (auto simp: commands_of_def bindE_Inr_conv split_def Let_def split: option.split_asm if_split_asm)

lemma job_specs_from_nodes:
  assumes "job_specs_from jc spec r nodes ns = Inr (specs, spec')"
  shows "conf_nodes (spec_configuration spec') = conf_nodes (spec_configuration spec)"
  using assms
  by (induction ns arbitrary: spec specs)
    (auto simp: bindE_Inr_conv dest!: get_job_spec_Inr commands_of_nodes)

lemma get_jobs_Inr:
  assumes "get_jobs_from_run_spec jc spec r = Inr (jobs, spec')"
  shows "map new_job_key jobs = map (Pair r) [0..<conf_nodes (spec_configuration spec)]"
    and "conf_nodes (spec_configuration spec') = conf_nodes (spec_configuration spec)"
    and "\<forall>job \<in> set jobs. job_submissions job = []"
proof -
  from assms obtain specs where
    specs: "job_specs_from jc spec r (conf_nodes (spec_configuration spec)) [0..<conf_nodes (spec_configuration spec)]
      = Inr (specs, spec')" and jobs: "jobs = map (\<lambda>s. \<lparr>job_spec = s, job_submissions = []\<rparr>) specs"
    by (cases "spec_configuration spec")
      (auto simp: get_jobs_from_run_spec_def get_job_specs_from_run_spec_def fmapE_Inr_conv)
  note h = job_specs_from_Inr [OF specs]
  have "map new_job_key jobs = map (\<lambda>s. (r, js_job_num s)) specs"
    using h unfolding jobs by (simp add: new_job_key_def)
  also have "\<dots> = map (Pair r) (map js_job_num specs)" by simp
  finally show "map new_job_key jobs = map (Pair r) [0..<conf_nodes (spec_configuration spec)]" using h by simp
  show "conf_nodes (spec_configuration spec') = conf_nodes (spec_configuration spec)"
    using specs by (rule job_specs_from_nodes)
  show "\<forall>job \<in> set jobs. job_submissions job = []" by (simp add: jobs)
qed

lemma create_replicas_view:
  assumes "jobs_inv (rm_jobs run) uid" and "0 < conf_nodes (spec_configuration spec)" and "distinct rs"
    and "set rs \<inter> view_replicas (view run) = {}" and "create_replicas jc now spec rs (run, uid) = ((run', uid'), e)"
  shows "jobs_inv (rm_jobs run') uid' \<and> run' = run\<lparr>rm_jobs := rm_jobs run'\<rparr>
    \<and> dom (view run') \<subseteq> dom (view run) \<union> UNIV \<times> {..<conf_nodes (spec_configuration spec)}
    \<and> (\<exists>m. (e = None \<longrightarrow> m = length rs) \<and> view_replicas (view run') = view_replicas (view run) \<union> set (take m rs)
    \<and> running_replica (view run') = running_replica (view run) \<union> set (take m rs))"
  using assms
proof (induction rs arbitrary: run uid spec)
  case Nil
  then show ?case by simp
next
  case (Cons r rs)
  let ?n = "conf_nodes (spec_configuration spec)"
  show ?case
  proof (cases "get_jobs_from_run_spec jc spec r")
    case (Inl err)
    with Cons.prems show ?thesis by (auto intro!: exI [of _ 0])
  next
    case (Inr q)
  obtain jobs spec' where "q = (jobs, spec')" by (cases q)
  with Inr have jobs: "get_jobs_from_run_spec jc spec r = Inr (jobs, spec')" by simp
  with Cons.prems(5) have rest: "create_replicas jc now spec' rs (add_jobs now jobs (run, uid)) = ((run', uid'), e)" by simp
  obtain run1 uid1 where add: "add_jobs now jobs (run, uid) = (run1, uid1)" by fastforce
  have keys: "new_job_key ` set jobs = Pair r ` {..<?n}"
    using arg_cong [OF get_jobs_Inr(1) [OF jobs], of set] by (simp add: atLeast0LessThan)
  have "r \<notin> fst ` dom (view run)" using Cons.prems(4) by (simp add: view_replicas_def)
  then have fresh: "view run (r, n) = None" for n by (metis domIff fst_conv image_eqI)
  have "length (job_submissions job) = submission_count (rm_jobs run) (new_job_key job)" if "job \<in> set jobs" for job
  proof -
    have "new_job_key job \<in> Pair r ` {..<?n}" using that keys by blast
    with fresh have "view run (new_job_key job) = None" by auto
    then show ?thesis using get_jobs_Inr(3) [OF jobs] that by (simp add: submission_count_None)
  qed
  then have "\<forall>job \<in> set jobs. length (job_submissions job) = submission_count (rm_jobs run) (new_job_key job)" by blast
  moreover have "distinct (map new_job_key jobs)" using get_jobs_Inr(1) [OF jobs] by (simp add: distinct_map inj_on_def)
  ultimately have a: "jobs_inv (rm_jobs run1) uid1 \<and> run1 = run\<lparr>rm_jobs := rm_jobs run1\<rparr>
    \<and> (\<forall>k. k \<notin> new_job_key ` set jobs \<longrightarrow> view run1 k = view run k)
    \<and> (\<forall>k \<in> new_job_key ` set jobs. \<exists>n. view run1 k = Some n \<and> jm_status n = J_SUBMITTED)"
    using add_jobs_view [OF Cons.prems(1) _ _ add] by blast
  have other: "view run1 (r', n) = view run (r', n)" if "r' \<noteq> r" for r' n
    using a that unfolding keys by (metis imageE prod.inject)
  obtain x where x: "view run1 (r, 0) = Some x" using a Cons.prems(2) unfolding keys by blast
  have new: "\<not> job_stopped y" if "view run1 (r, n) = Some y" for n y
  proof -
    have "(r, n) \<in> new_job_key ` set jobs"
    proof (rule ccontr)
      assume "(r, n) \<notin> new_job_key ` set jobs"
      with a have "view run1 (r, n) = view run (r, n)" by blast
      with that fresh show False by simp
    qed
    with a obtain z where "view run1 (r, n) = Some z" "jm_status z = J_SUBMITTED" by blast
    with that show ?thesis by (simp add: job_stopped_def)
  qed
  have up: "running_replica (view run1) = insert r (running_replica (view run))"
    "view_replicas (view run1) = insert r (view_replicas (view run))"
    using running_replica_update [of r "view run1" "view run"] other x new by blast+
  have IH: "jobs_inv (rm_jobs run') uid' \<and> run' = run1\<lparr>rm_jobs := rm_jobs run'\<rparr>
    \<and> dom (view run') \<subseteq> dom (view run1) \<union> UNIV \<times> {..<conf_nodes (spec_configuration spec')}
    \<and> (\<exists>m. (e = None \<longrightarrow> m = length rs) \<and> view_replicas (view run') = view_replicas (view run1) \<union> set (take m rs)
    \<and> running_replica (view run') = running_replica (view run1) \<union> set (take m rs))"
    using a Cons.prems(2-4) rest get_jobs_Inr(2) [OF jobs] up(2)
    by (intro Cons.IH) (auto simp: add)
  then obtain m where m: "e = None \<longrightarrow> m = length rs" "view_replicas (view run') = view_replicas (view run1) \<union> set (take m rs)"
    "running_replica (view run') = running_replica (view run1) \<union> set (take m rs)" by blast
  have "dom (view run1) \<subseteq> dom (view run) \<union> UNIV \<times> {..<?n}"
  proof
    fix k assume k: "k \<in> dom (view run1)"
    show "k \<in> dom (view run) \<union> UNIV \<times> {..<?n}"
    proof (cases "k \<in> new_job_key ` set jobs")
      case True
      then show ?thesis unfolding keys by auto
    next
      case False
      then have "view run1 k = view run k" using a by blast
      with k show ?thesis by (metis UnI1 domIff)
    qed
  qed
  then have "dom (view run') \<subseteq> dom (view run) \<union> UNIV \<times> {..<?n}"
    using IH unfolding get_jobs_Inr(2) [OF jobs] by blast
  moreover have "run' = run\<lparr>rm_jobs := rm_jobs run'\<rparr>"
    using IH a by (metis RunModel.surjective RunModel.update_convs(14))
  moreover have "e = None \<longrightarrow> Suc m = length (r # rs)" using m(1) by simp
  moreover have "view_replicas (view run') = view_replicas (view run) \<union> set (take (Suc m) (r # rs))"
    "running_replica (view run') = running_replica (view run) \<union> set (take (Suc m) (r # rs))"
    using m(2,3) up by auto
  ultimately show ?thesis using IH by blast
  qed
qed

section \<open>Active and inactive replicas\<close>

lemma replica_importance_None: "replica_importance js = None \<longleftrightarrow> list_ex job_stopped js"
  by (simp add: replica_importance_def)

lemma not_stopped_group: "replica_importance js \<noteq> None \<longleftrightarrow> list_all (\<lambda>j. \<not> job_stopped j) js"
  by (simp add: replica_importance_None list_ex_iff list_all_iff)

lemma map_filter_option:
  "List.map_filter (\<lambda>(r, js). map_option (\<lambda>i. (i, r, js)) (f js)) gs
    = map (\<lambda>(r, js). (the (f js), r, js)) (filter (\<lambda>(r, js). f js \<noteq> None) gs)"
  by (induction gs) (auto simp: map_filter_simps)

lemma scaling_active_set:
  "(imp, r, js) \<in> set (scaling_active jobs) \<longleftrightarrow>
     (r, js) \<in> set (group_jobs_by_replica_latest jobs) \<and> replica_importance js = Some imp"
  by (force simp: scaling_active_def map_filter_option)

lemma distinct_map_sort: "distinct (map f (sort_key k xs)) \<longleftrightarrow> distinct (map f xs)"
  by (simp add: distinct_map)

lemma scaling_active_replicas:
  assumes "unique_submissions jobs"
  shows "distinct (map (fst \<circ> snd) (scaling_active jobs))"
    and "fst ` snd ` set (scaling_active jobs) = running_replica (latest_view jobs)"
    and "length (scaling_active jobs) = card (running_replica (latest_view jobs))"
proof -
  let ?g = "filter (\<lambda>(r, js). list_all (\<lambda>j. \<not> job_stopped j) js) (group_jobs_by_replica_latest jobs)"
  have act: "scaling_active jobs = sort_key (\<lambda>(imp, r, js). (- int imp, int r))
      (map (\<lambda>(r, js). (the (replica_importance js), r, js)) ?g)"
    unfolding scaling_active_def map_filter_option not_stopped_group ..
  have "distinct (map fst ?g)" using groups_distinct by (rule distinct_map_filter)
  moreover have "map (fst \<circ> snd) (map (\<lambda>(r, js). (the (replica_importance js), r, js)) ?g) = map fst ?g"
    by (simp add: split_def o_def)
  ultimately have "distinct (map (fst \<circ> snd) (map (\<lambda>(r, js). (the (replica_importance js), r, js)) ?g))" by metis
  then show "distinct (map (fst \<circ> snd) (scaling_active jobs))"
    unfolding act distinct_map_sort .
  have "fst ` snd ` set (scaling_active jobs) = fst ` set ?g"
    unfolding act by (simp add: image_image split_def)
  then show "fst ` snd ` set (scaling_active jobs) = running_replica (latest_view jobs)"
    using groups_with [OF assms] by (simp add: running_replica_def)
  show "length (scaling_active jobs) = card (running_replica (latest_view jobs))"
    using length_groups_with [OF assms] unfolding act by (simp add: running_replica_def)
qed

lemma scaling_inactive_replicas:
  assumes "unique_submissions jobs"
  shows "distinct (map fst (scaling_inactive jobs))"
    and "fst ` set (scaling_inactive jobs) = view_replicas (latest_view jobs) - running_replica (latest_view jobs)"
proof -
  show "distinct (map fst (scaling_inactive jobs))"
    unfolding scaling_inactive_def using groups_distinct by (rule distinct_map_filter)
  let ?g = "group_jobs_by_replica_latest jobs"
  let ?P = "\<lambda>js. list_all (\<lambda>j. \<not> job_stopped j) js"
  have "fst ` set (filter (\<lambda>(r, js). \<not> ?P js) ?g) = fst ` set ?g - fst ` set (filter (\<lambda>(r, js). ?P js) ?g)"
  proof -
    have "inj_on fst (set ?g)" using groups_distinct by (simp add: distinct_map)
    moreover have "set (filter (\<lambda>(r, js). \<not> ?P js) ?g) = set ?g - set (filter (\<lambda>(r, js). ?P js) ?g)" by auto
    ultimately show ?thesis by (metis filter_is_subset inj_on_image_set_diff Diff_subset)
  qed
  moreover have "scaling_inactive jobs = filter (\<lambda>(r, js). \<not> ?P js) ?g"
    unfolding scaling_inactive_def by (simp add: not_stopped_group [symmetric])
  ultimately show "fst ` set (scaling_inactive jobs) = view_replicas (latest_view jobs) - running_replica (latest_view jobs)"
    unfolding running_replica_def view_replicas_jobs group_replica_set [symmetric] groups_with [OF assms, symmetric]
    by (simp only:)
qed

section \<open>Scaling down\<close>

lemma running_replica_iff:
  "r \<in> running_replica v \<longleftrightarrow> (\<exists>n. v (r, n) \<noteq> None) \<and> (\<forall>n j. v (r, n) = Some j \<longrightarrow> \<not> job_stopped j)"
  by (force simp: running_replica_def replicas_with_def view_replicas_def)

lemma jobs_inv_map:
  assumes "jobs_inv jobs uid" and "\<And>j. job_key (g j) = job_key j" and "\<And>j. jm_id (g j) = jm_id j"
    and "\<And>j. jm_job_spec (g j) = jm_job_spec j"
  shows "jobs_inv (map g jobs) uid"
proof -
  have "spec_consistent (g j) = spec_consistent j" for j
    using assms(2) [of j] assms(4) by (simp add: spec_consistent_def job_key_def)
  moreover have "submission_count (map g jobs) k = submission_count jobs k" for k
    unfolding submission_count_keys by (simp add: o_def assms(2))
  moreover have "pair_key (g j) = pair_key j" "jm_submission_num (g j) = jm_submission_num j" for j
    using assms(2) [of j] by (simp_all add: job_key_def pair_key_def)
  ultimately show ?thesis using assms by (simp add: jobs_inv_def unique_submissions_def o_def)
qed

text \<open>Terminating a set of running replicas takes exactly them out of the running ones.\<close>

lemma terminate_replicas_view:
  assumes inv: "jobs_inv (rm_jobs run) uid" and sub: "set reps \<subseteq> set (scaling_active (rm_jobs run))"
  shows "jobs_inv (rm_jobs (terminate_replicas reps run)) uid"
    and "dom (view (terminate_replicas reps run)) = dom (view run)"
    and "running_replica (view (terminate_replicas reps run)) = running_replica (view run) - fst ` snd ` set reps"
proof -
  define ids where "ids = jm_id ` set (filter (\<lambda>j. \<not> job_stopped j) (concat (map (snd \<circ> snd) reps)))"
  define g where "g = (\<lambda>j. if jm_id j \<in> ids then terminate_row SCALED_DOWN j else j)"
  have u: "unique_submissions (rm_jobs run)" and d: "distinct (map jm_id (rm_jobs run))"
    using inv by (simp_all add: jobs_inv_def)
  have rows: "rm_jobs (terminate_replicas reps run) = map g (rm_jobs run)"
    by (simp add: terminate_replicas_def map_rows_def g_def ids_def)
  then show "jobs_inv (rm_jobs (terminate_replicas reps run)) uid"
    using jobs_inv_map [OF inv, of g] by (simp add: g_def)
  have v: "view (terminate_replicas reps run) k = map_option g (view run k)" for k
    unfolding rows by (rule latest_view_map) (simp add: g_def)
  then show "dom (view (terminate_replicas reps run)) = dom (view run)" by (auto simp: dom_def)
  have grp: "group_of (view run) r js \<and> list_all (\<lambda>j. \<not> job_stopped j) js" if "(imp, r, js) \<in> set reps" for imp r js
    using that sub u not_stopped_group [of js] by (force simp: scaling_active_set intro: group_of_groups)
  have ids: "jm_id j \<in> ids \<longleftrightarrow> r \<in> fst ` snd ` set reps" if j: "view run (r, n) = Some j" for r n j
  proof
    assume "r \<in> fst ` snd ` set reps"
    then obtain imp js where m: "(imp, r, js) \<in> set reps" by force
    with grp [OF m] j have "j \<in> set js" "\<not> job_stopped j" by (auto simp: group_of_def list_all_iff)
    with m show "jm_id j \<in> ids" by (force simp: ids_def)
  next
    assume "jm_id j \<in> ids"
    then obtain imp s js i where m: "(imp, s, js) \<in> set reps" "i \<in> set js" "jm_id i = jm_id j"
      by (force simp: ids_def)
    from grp [OF m(1)] m(2) have i: "view run (pair_key i) = Some i" "fst (pair_key i) = s" by (auto simp: group_of_def)
    have "i \<in> set (rm_jobs run)" "j \<in> set (rm_jobs run)"
      using latest_view_SomeD(1) [OF i(1)] latest_view_SomeD(1) [OF j] by (auto simp: is_latest_def)
    with d m(3) have "i = j" by (auto simp: distinct_map inj_on_def)
    with latest_view_SomeD(2) [OF j] i m(1) show "r \<in> fst ` snd ` set reps" by force
  qed
  show "running_replica (view (terminate_replicas reps run)) = running_replica (view run) - fst ` snd ` set reps"
  proof (rule set_eqI)
    fix r
    have st: "job_stopped (g j) \<longleftrightarrow> r \<in> fst ` snd ` set reps \<or> job_stopped j" if "view run (r, n) = Some j" for n j
      using ids [OF that] by (simp add: g_def)
    have "r \<in> running_replica (view (terminate_replicas reps run)) \<longleftrightarrow>
      (\<exists>n. view run (r, n) \<noteq> None) \<and> (\<forall>n j. view run (r, n) = Some j \<longrightarrow> \<not> job_stopped (g j))"
      unfolding running_replica_iff v by auto
    also have "\<dots> \<longleftrightarrow> r \<in> running_replica (view run) - fst ` snd ` set reps"
      unfolding running_replica_iff Diff_iff using st by blast
    finally show "r \<in> running_replica (view (terminate_replicas reps run)) \<longleftrightarrow> r \<in> running_replica (view run) - fst ` snd ` set reps" .
  qed
qed

section \<open>Scaling\<close>

text \<open>The running replicas after scaling: on the way down the last in the order of importance leave.\<close>

lemma scale_down_view:
  assumes inv: "jobs_inv (rm_jobs run) uid" and n: "n \<le> length (scaling_active (rm_jobs run))"
  shows "card (running_replica (view (terminate_replicas (last_n n (scaling_active (rm_jobs run))) run))) + n
    = card (running_replica (view run))"
proof -
  let ?a = "scaling_active (rm_jobs run)"
  have u: "unique_submissions (rm_jobs run)" using inv by (rule jobs_invD)
  note act = scaling_active_replicas [OF u]
  have sub: "set (last_n n ?a) \<subseteq> set ?a" by (simp add: last_n_def set_drop_subset)
  have "fst ` snd ` set (last_n n ?a) = set (drop (length ?a - n) (map (fst \<circ> snd) ?a))"
    by (simp add: last_n_def image_image drop_map)
  moreover have "distinct (drop (length ?a - n) (map (fst \<circ> snd) ?a))" using act(1) by (rule distinct_drop)
  ultimately have c: "card (fst ` snd ` set (last_n n ?a)) = n"
    using n by (simp add: distinct_card)
  have "fst ` snd ` set (last_n n ?a) \<subseteq> running_replica (view run)" using sub act(2) by blast
  then show ?thesis
    using terminate_replicas_view(3) [OF inv sub] c n act(3) by (simp add: card_Diff_subset finite_subset)
qed

lemma scaling_active_order:
  assumes "(imp, r, js) \<in> set (take (length xs - n) xs)" and "(imp', r', js') \<in> set (last_n n xs)"
    and "xs = scaling_active jobs"
  shows "imp' < imp \<or> (imp' = imp \<and> r \<le> r')"
proof -
  let ?k = "\<lambda>(imp, r, js :: JobModel list). (- int imp, int r)"
  have "sorted (map ?k xs)" unfolding assms(3) scaling_active_def by (rule sorted_sort_key)
  then have "sorted (map ?k (take (length xs - n) xs) @ map ?k (last_n n xs))"
    unfolding last_n_def map_append [symmetric] append_take_drop_id .
  then have "\<forall>x \<in> set (take (length xs - n) xs). \<forall>y \<in> set (last_n n xs). ?k x \<le> ?k y"
    unfolding sorted_append by simp
  with assms(1,2) have "?k (imp, r, js) \<le> ?k (imp', r', js')" by blast
  then show ?thesis by (auto simp: less_eq_prod_def)
qed

lemma scale_up_view:
  assumes inv: "jobs_inv (rm_jobs run) uid" and reps: "view_replicas (view run) = {..<k}"
    and nodes: "0 < conf_nodes (spec_configuration (rm_run_spec run))"
    and res: "create_replicas jc now (rm_run_spec run)
        [length (scaling_active (rm_jobs run)) + length (take n (scaling_inactive (rm_jobs run))) ..<
         length (scaling_active (rm_jobs run)) + n]
        (retry_replicas now (take n (scaling_inactive (rm_jobs run))) (run, uid)) = ((run', uid'), e)"
  shows "jobs_inv (rm_jobs run') uid' \<and> run' = run\<lparr>rm_jobs := rm_jobs run'\<rparr>
    \<and> dom (view run') \<subseteq> dom (view run) \<union> UNIV \<times> {..<conf_nodes (spec_configuration (rm_run_spec run))}
    \<and> (\<exists>k'. view_replicas (view run') = {..<k'}) \<and> running_replica (view run) \<subseteq> running_replica (view run')
    \<and> (e = None \<longrightarrow> card (running_replica (view run')) = card (running_replica (view run)) + n)"
proof -
  define a where "a = length (scaling_active (rm_jobs run))"
  define re where "re = take n (scaling_inactive (rm_jobs run))"
  define new where "new = {a + length re ..< a + n}"
  have u: "unique_submissions (rm_jobs run)" using inv by (rule jobs_invD)
  note act = scaling_active_replicas [OF u] and ina = scaling_inactive_replicas [OF u]
  obtain run1 uid1 where ret: "retry_replicas now re (run, uid) = (run1, uid1)" by fastforce
  have re_sub: "fst ` set re \<subseteq> view_replicas (view run) - running_replica (view run)"
    using ina(2) set_take_subset [of n "scaling_inactive (rm_jobs run)"] unfolding re_def by blast
  have re_d: "distinct (map fst re)" unfolding re_def take_map [symmetric] using ina(1) by (rule distinct_take)
  have "\<forall>(r, js) \<in> set re. group_of (view run) r js"
    using group_of_groups [OF u] set_take_subset [of n "scaling_inactive (rm_jobs run)"]
    unfolding re_def scaling_inactive_def by auto
  from retry_replicas_view [OF inv this re_d ret]
  have r1: "jobs_inv (rm_jobs run1) uid1" "run1 = run\<lparr>rm_jobs := rm_jobs run1\<rparr>" "dom (view run1) = dom (view run)"
    "running_replica (view run1) = fst ` set re \<union> running_replica (view run)" by blast+
  have vr: "view_replicas (view run1) = {..<k}" using r1(3) reps by (simp add: view_replicas_def)
  have run_sub: "running_replica (view run) \<subseteq> {..<k}" using reps by (auto simp: running_replica_def replicas_with_def)
  have len_in: "length (scaling_inactive (rm_jobs run)) = k - a"
  proof -
    have "length (scaling_inactive (rm_jobs run)) = card (view_replicas (view run) - running_replica (view run))"
      using ina by (metis distinct_card length_map list.set_map)
    then show ?thesis using reps run_sub act(3) by (simp add: card_Diff_subset finite_subset a_def)
  qed
  have ak: "a \<le> k" using act(3) run_sub card_mono [of "{..<k}"] by (simp add: a_def)
  have new_k: "new = {} \<or> a + length re = k"
    using len_in ak by (auto simp: new_def re_def min_def)
  then have fresh: "new \<inter> {..<k} = {}" unfolding new_def by auto
  have cr: "create_replicas jc now (rm_run_spec run) [a + length re ..< a + n] (run1, uid1) = ((run', uid'), e)"
    using res ret by (simp add: a_def re_def)
  have up: "jobs_inv (rm_jobs run') uid' \<and> run' = run1\<lparr>rm_jobs := rm_jobs run'\<rparr>
    \<and> dom (view run') \<subseteq> dom (view run) \<union> UNIV \<times> {..<conf_nodes (spec_configuration (rm_run_spec run))}
    \<and> (\<exists>m. (e = None \<longrightarrow> m = n - length re) \<and> view_replicas (view run') = {..<k} \<union> set (take m [a + length re ..< a + n])
       \<and> running_replica (view run') = running_replica (view run1) \<union> set (take m [a + length re ..< a + n]))"
    using create_replicas_view [OF r1(1) nodes _ _ cr] fresh vr r1(3) by (simp add: new_def)
  then obtain m where m: "e = None \<longrightarrow> m = n - length re" "view_replicas (view run') = {..<k} \<union> set (take m [a + length re ..< a + n])"
    "running_replica (view run') = running_replica (view run1) \<union> set (take m [a + length re ..< a + n])" by blast
  have tk: "set (take m [a + length re ..< a + n]) = {a + length re ..< min (a + length re + m) (a + n)}"
    by (simp add: min_def)
  have "\<exists>k'. view_replicas (view run') = {..<k'}"
  proof (cases "new = {}")
    case True
    then have "{a + length re ..< min (a + length re + m) (a + n)} = {}" by (auto simp: new_def)
    then show ?thesis unfolding m(2) tk by auto
  next
    case False
    with new_k have "{..<k} \<union> {a + length re ..< min (a + length re + m) (a + n)} = {..<min (a + length re + m) (a + n)}"
      unfolding new_def by auto
    then show ?thesis unfolding m(2) tk by blast
  qed
  moreover have "card (running_replica (view run')) = card (running_replica (view run)) + n" if none: "e = None"
  proof -
    have fin: "finite (running_replica (view run))" using run_sub finite_subset by blast
    have "card (fst ` set re) = length re" using re_d by (metis distinct_card length_map list.set_map)
    then have "card (running_replica (view run1)) = length re + card (running_replica (view run))"
      unfolding r1(4) using re_sub fin by (subst card_Un_disjoint) auto
    moreover have "running_replica (view run1) \<inter> new = {}"
      using fresh vr by (auto simp: running_replica_def replicas_with_def)
    moreover have len: "length re \<le> n" by (simp add: re_def)
    moreover have "set (take m [a + length re ..< a + n]) = new" using m(1) none by (simp add: new_def)
    ultimately show ?thesis using m(3) fin r1(4) by (simp add: card_Un_disjoint new_def)
  qed
  moreover have "run' = run\<lparr>rm_jobs := rm_jobs run'\<rparr>"
    using up r1(2) by (metis RunModel.surjective RunModel.update_convs(14))
  moreover have "running_replica (view run) \<subseteq> running_replica (view run')" using m(3) r1(4) by blast
  ultimately show ?thesis using up by blast
qed

lemma scale_run_replicas_view:
  assumes inv: "jobs_inv (rm_jobs run) uid" and reps: "view_replicas (view run) = {..<k}"
    and sv: "conf_service (spec_configuration (rm_run_spec run)) = Some sv" and min: "0 \<le> sv_min_replicas sv"
    and res: "scale_run_replicas jc now (run, uid) d = ((run', uid'), e)"
  shows "jobs_inv (rm_jobs run') uid' \<and> run' = run\<lparr>rm_jobs := rm_jobs run'\<rparr>
    \<and> dom (view run') \<subseteq> dom (view run) \<union> UNIV \<times> {..<conf_nodes (spec_configuration (rm_run_spec run))}
    \<and> (\<exists>k'. view_replicas (view run') = {..<k'})
    \<and> (d \<le> 0 \<longrightarrow> running_replica (view run') \<subseteq> running_replica (view run))
    \<and> (0 \<le> d \<longrightarrow> running_replica (view run) \<subseteq> running_replica (view run'))
    \<and> (e = None \<longrightarrow> int (card (running_replica (view run'))) = int (card (running_replica (view run))) + d
         \<and> (d < 0 \<longrightarrow> sv_min_replicas sv \<le> int (card (running_replica (view run'))))
         \<and> (d > 0 \<longrightarrow> int (card (running_replica (view run'))) \<le> sv_max_replicas sv))"
proof -
  have u: "unique_submissions (rm_jobs run)" using inv by (rule jobs_invD)
  note act = scaling_active_replicas(3) [OF u]
  have nodes: "0 < conf_nodes (spec_configuration (rm_run_spec run))"
    using sv by (cases "spec_configuration (rm_run_spec run)") simp_all
  let ?reps = "last_n (nat (- d)) (scaling_active (rm_jobs run))"
  let ?n = "int (card (running_replica (view run)))"
  consider (same) "run' = run" "uid' = uid" "e = None \<longrightarrow> d = 0"
    | (down) "d < 0" "sv_min_replicas sv \<le> ?n + d" "run' = terminate_replicas ?reps run" "uid' = uid"
    | (up) "0 < d" "?n + d \<le> sv_max_replicas sv" "create_replicas jc now (rm_run_spec run)
        [length (scaling_active (rm_jobs run)) + length (take (nat d) (scaling_inactive (rm_jobs run))) ..<
         length (scaling_active (rm_jobs run)) + nat d]
        (retry_replicas now (take (nat d) (scaling_inactive (rm_jobs run))) (run, uid)) = ((run', uid'), e)"
    using res sv by (auto simp: scale_run_replicas_def act Let_def not_less split: if_split_asm)
  then show ?thesis
  proof cases
    case same
    with inv reps show ?thesis by auto
  next
    case down
    have sub: "set ?reps \<subseteq> set (scaling_active (rm_jobs run))" by (simp add: last_n_def set_drop_subset)
    note tv = terminate_replicas_view [OF inv sub, folded down(3)]
    have "int (card (running_replica (view run'))) = ?n + d"
      using scale_down_view [OF inv, of "nat (- d)", folded down(3)] down(1,2) min act by linarith
    moreover have "run' = run\<lparr>rm_jobs := rm_jobs run'\<rparr>" by (simp add: down(3) terminate_replicas_def Let_def)
    moreover have "view_replicas (view run') = {..<k}" using tv(2) reps by (simp add: view_replicas_def)
    ultimately show ?thesis using tv down by auto
  next
    case up
    from scale_up_view [OF inv reps nodes up(3)] up(1,2) show ?thesis by auto
  qed
qed

section \<open>Properties\<close>

text \<open>
  C19. Scaling a service by a difference, on rows whose replicas are numbered from zero: exactly that
  many replicas are running more, or less, than before; running replicas are kept on the way up and
  no replica starts on the way down; the maximum holds on the way up and the minimum on the way down; the numbering, the invariant of the
  rows and everything else of the run are kept.
\<close>

theorem scale_run_replicas_correct:
  assumes inv: "jobs_inv (rm_jobs run) uid" and reps: "view_replicas (view run) = {..<k}"
    and sv: "conf_service (spec_configuration (rm_run_spec run)) = Some sv" and min: "0 \<le> sv_min_replicas sv"
    and res: "scale_run_replicas jc now (run, uid) d = ((run', uid'), e)"
  shows "jobs_inv (rm_jobs run') uid' \<and> run' = run\<lparr>rm_jobs := rm_jobs run'\<rparr>
    \<and> dom (view run') \<subseteq> dom (view run) \<union> UNIV \<times> {..<conf_nodes (spec_configuration (rm_run_spec run))}
    \<and> (\<exists>k'. view_replicas (view run') = {..<k'})
    \<and> (d \<le> 0 \<longrightarrow> running_replica (view run') \<subseteq> running_replica (view run))
    \<and> (0 \<le> d \<longrightarrow> running_replica (view run) \<subseteq> running_replica (view run'))
    \<and> (e = None \<longrightarrow> int (card (running_replica (view run'))) = int (card (running_replica (view run))) + d
         \<and> (d < 0 \<longrightarrow> sv_min_replicas sv \<le> int (card (running_replica (view run'))))
         \<and> (d > 0 \<longrightarrow> int (card (running_replica (view run'))) \<le> sv_max_replicas sv))"
  using assms by (rule scale_run_replicas_view)

definition demo_service_run :: RunModel where
  "demo_service_run = sample_run sample_service R_RUNNING
     [sample_job 1 0 0 0 J_RUNNING, sample_job 2 1 0 0 J_RUNNING, sample_job 3 2 0 0 J_SUBMITTED]"

lemma demo_service_inv: "jobs_inv (rm_jobs demo_service_run) 4"
  by (simp add: jobs_inv_def demo_service_run_def unique_submissions_def job_key_def spec_consistent_def
      submission_count_def pair_key_def row_simps)

lemma demo_service_replicas: "view_replicas (view demo_service_run) = {..<3}"
  by (simp add: view_replicas_jobs demo_service_run_def row_simps) auto

lemma demo_service_active:
  "map (\<lambda>(imp, r, js). (imp, r, map jm_id js)) (scaling_active (rm_jobs demo_service_run)) = [(2, 0, [1]), (2, 1, [2]), (0, 2, [3])]"
  by code_simp

lemma demo_service_count: "card (running_replica (view demo_service_run)) = 3"
proof -
  have u: "unique_submissions (rm_jobs demo_service_run)" using demo_service_inv by (rule jobs_invD)
  have "length (scaling_active (rm_jobs demo_service_run)) = 3"
    using arg_cong [OF demo_service_active, of length] by simp
  then show ?thesis using scaling_active_replicas(3) [OF u] by simp
qed

lemma demo_service_conf: "conf_service (spec_configuration (rm_run_spec demo_service_run)) = Some sample_service_params"
  by (simp add: demo_service_run_def sample_service_def sample_run_spec_def row_simps)

lemma demo_scale_down:
  "scale_run_replicas demo_jc_env 0 (demo_service_run, 4) (- 2)
   = ((terminate_replicas (last_n 2 (scaling_active (rm_jobs demo_service_run))) demo_service_run, 4), None)"
proof -
  have "length (scaling_active (rm_jobs demo_service_run)) = 3"
    using arg_cong [OF demo_service_active, of length] by simp
  then show ?thesis
    by (simp add: scale_run_replicas_def demo_service_conf sample_service_params_def)
qed

theorem scale_run_replicas_correct_witness:
  "\<exists>run'. scale_run_replicas demo_jc_env 0 (demo_service_run, 4) (- 2) = ((run', 4), None)
     \<and> card (running_replica (view run')) = 1"
proof -
  have "0 \<le> sv_min_replicas sample_service_params" by (simp add: sample_service_params_def)
  from scale_run_replicas_correct [OF demo_service_inv demo_service_replicas demo_service_conf this demo_scale_down]
  show ?thesis using demo_scale_down demo_service_count by simp
qed

text \<open>
  Scaling down takes away the least important replicas: one that stops is never more important (by
  the statuses of its jobs) than one that stays, and among equals the later replica stops.
\<close>

theorem scale_down_least_important:
  assumes inv: "jobs_inv (rm_jobs run) uid" and d: "d < 0"
    and res: "scale_run_replicas jc now (run, uid) d = ((run', uid'), e)"
    and stops: "(r, js) \<in> set (group_jobs_by_replica_latest (rm_jobs run))" "r \<in> running_replica (view run) - running_replica (view run')"
    and stays: "(r', js') \<in> set (group_jobs_by_replica_latest (rm_jobs run))" "r' \<in> running_replica (view run')"
  shows "\<exists>i i'. replica_importance js = Some i \<and> replica_importance js' = Some i' \<and> (i < i' \<or> i = i' \<and> r' < r)"
proof -
  let ?a = "scaling_active (rm_jobs run)"
  let ?n = "nat (- d)"
  have u: "unique_submissions (rm_jobs run)" using inv by (rule jobs_invD)
  note act = scaling_active_replicas [OF u]
  have run': "run' = terminate_replicas (last_n ?n ?a) run"
    using d res stops(2) by (auto simp: scale_run_replicas_def Let_def split: if_split_asm option.split_asm)
  have sub: "set (last_n ?n ?a) \<subseteq> set ?a" by (simp add: last_n_def set_drop_subset)
  have rr: "running_replica (view run') = running_replica (view run) - fst ` snd ` set (last_n ?n ?a)"
    using terminate_replicas_view(3) [OF inv sub] by (simp add: run')
  have mem: "\<exists>i. (i, s, ks) \<in> set ?a \<and> replica_importance ks = Some i"
    if s: "s \<in> running_replica (view run)" "(s, ks) \<in> set (group_jobs_by_replica_latest (rm_jobs run))" for s ks
  proof -
    obtain i ks' where "(i, s, ks') \<in> set ?a" using s(1) act(2) by force
    moreover from this s(2) have "ks' = ks"
      using groups_distinct [of "rm_jobs run"] by (auto simp: scaling_active_set dest: eq_key_imp_eq_value)
    ultimately show ?thesis by (auto simp: scaling_active_set)
  qed
  obtain i where i: "(i, r, js) \<in> set ?a" "replica_importance js = Some i" using mem [of r js] stops by blast
  obtain i' where i': "(i', r', js') \<in> set ?a" "replica_importance js' = Some i'" using mem [of r' js'] stays rr by blast
  have split: "set ?a = set (take (length ?a - ?n) ?a) \<union> set (last_n ?n ?a)"
    unfolding last_n_def by (metis append_take_drop_id set_append)
  have "r \<in> fst ` snd ` set (last_n ?n ?a)" using stops(2) rr by blast
  then obtain q ks where "(q, r, ks) \<in> set (last_n ?n ?a)" by force
  moreover from this have "(q, r, ks) = (i, r, js)"
    using inj_onD [of "fst \<circ> snd" "set ?a" "(q, r, ks)" "(i, r, js)"] sub i(1) act(1) by (auto simp: distinct_map)
  ultimately have "(i, r, js) \<in> set (last_n ?n ?a)" by simp
  moreover have "(i', r', js') \<notin> set (last_n ?n ?a)" using stays(2) rr by force
  then have "(i', r', js') \<in> set (take (length ?a - ?n) ?a)" using i'(1) split by blast
  ultimately have "i < i' \<or> i = i' \<and> r' \<le> r" using scaling_active_order by blast
  moreover have "r' \<noteq> r" using stops(2) stays(2) by blast
  ultimately show ?thesis using i(2) i'(2) by auto
qed

lemma demo_service_groups:
  "group_jobs_by_replica_latest (rm_jobs demo_service_run) =
     [(0, [sample_job 1 0 0 0 J_RUNNING]), (1, [sample_job 2 1 0 0 J_RUNNING]), (2, [sample_job 3 2 0 0 J_SUBMITTED])]"
  by code_simp

lemma demo_service_running:
  "running_replica (view (terminate_replicas (last_n 2 (scaling_active (rm_jobs demo_service_run))) demo_service_run)) = {0}"
  "running_replica (view demo_service_run) = {0, 1, 2}"
proof -
  have u: "unique_submissions (rm_jobs demo_service_run)" using demo_service_inv by (rule jobs_invD)
  let ?a = "scaling_active (rm_jobs demo_service_run)"
  have m: "map (fst \<circ> snd) ?a = [0, 1, 2]"
    using arg_cong [OF demo_service_active, of "map (fst \<circ> snd)"] by (simp add: o_def split_def)
  then show r: "running_replica (view demo_service_run) = {0, 1, 2}"
    using scaling_active_replicas(2) [OF u] by (metis image_comp list.set_map list.simps(15) set_empty)
  have sub: "set (last_n 2 ?a) \<subseteq> set ?a" by (simp add: last_n_def set_drop_subset)
  have "fst ` snd ` set (last_n 2 ?a) = set (drop (length (map (fst \<circ> snd) ?a) - 2) (map (fst \<circ> snd) ?a))"
    by (simp add: last_n_def image_image drop_map)
  also have "\<dots> = {1, 2}" unfolding m by simp
  finally have gone: "fst ` snd ` set (last_n 2 ?a) = {1, 2}" .
  have "{0, 1, 2} - {1, 2} = {0 :: nat}" by auto
  then show "running_replica (view (terminate_replicas (last_n 2 ?a) demo_service_run)) = {0}"
    unfolding terminate_replicas_view(3) [OF demo_service_inv sub] r gone .
qed

theorem scale_down_least_important_witness:
  "\<exists>i i'. replica_importance [sample_job 3 2 0 0 J_SUBMITTED] = Some i
     \<and> replica_importance [sample_job 1 0 0 0 J_RUNNING] = Some i' \<and> (i < i' \<or> i = i' \<and> (0::nat) < 2)"
  by (rule scale_down_least_important [OF demo_service_inv _ demo_scale_down])
    (simp_all add: demo_service_groups demo_service_running del: One_nat_def)

text \<open>
  Scaling is refused when the number of running replicas would leave the configured bounds, and on
  the way down only then; a difference of zero is always accepted.
\<close>

theorem scale_run_replicas_refused:
  assumes "jobs_inv (rm_jobs run) uid" and "conf_service (spec_configuration (rm_run_spec run)) = Some sv"
  shows "scale_run_replicas jc now (run, uid) 0 = ((run, uid), None)
    \<and> (d < 0 \<longrightarrow> (\<exists>e. scale_run_replicas jc now (run, uid) d = ((run, uid), Some e))
         = (int (card (running_replica (view run))) + d < sv_min_replicas sv))
    \<and> (d > 0 \<longrightarrow> sv_max_replicas sv < int (card (running_replica (view run))) + d
         \<longrightarrow> (\<exists>m. scale_run_replicas jc now (run, uid) d = ((run, uid), Some (ServerClientError m))))"
  using assms scaling_active_replicas(3) [of "rm_jobs run"]
  by (auto simp: scale_run_replicas_def jobs_inv_def Let_def)

theorem scale_run_replicas_refused_witness:
  "\<exists>e. scale_run_replicas demo_jc_env 0 (demo_service_run, 4) (- 3) = ((demo_service_run, 4), Some e)"
  using scale_run_replicas_refused [OF demo_service_inv demo_service_conf, of demo_jc_env 0 "- 3"] demo_service_count
  by (simp add: sample_service_params_def)

end
