(* ===== verification/Process_Runs.thy ===== *)
theory Process_Runs
  imports Run_Scaling
begin

text \<open>
  \<^verbatim>\<open>server/background/tasks/process_runs.py\<close>: one step of the processing of a run. The status
  of a run follows from the latest submissions of its jobs; failed replicas are resubmitted, services
  are scaled, terminating runs end when their jobs have.
\<close>

section \<open>Parameters\<close>

text \<open>
  What a step reads besides the run: the clock, the instances, the key of the project, the inputs of
  job specifications, and the statistics of the gateway with a key, which may raise.
\<close>

record run_env =
  re_now :: time
  re_jc :: jc_env
  re_project_key :: string
  re_instances :: "InstanceModel list"
  re_stats :: "nat \<Rightarrow> string \<Rightarrow> PerWindowStats option result"

definition RETRY_DELAY :: time where "RETRY_DELAY = seconds 15"

definition service_stats :: "run_env \<Rightarrow> RunModel \<Rightarrow> PerWindowStats option result" where
  "service_stats env run = (case rm_gateway_id run of
      None \<Rightarrow> Inr None | Some g \<Rightarrow> re_stats env g (rm_run_name run))"

section \<open>Pending runs\<close>

text \<open>The number of replicas to submit.\<close>

definition pending_replicas :: "run_env \<Rightarrow> RunModel \<Rightarrow> int result" where
  "pending_replicas env run = (case conf_service (spec_configuration (rm_run_spec run)) of
      None \<Rightarrow> Inr 1
    | Some sv \<Rightarrow> bindE (service_stats env run) (scale (get_service_scaler sv) (re_now env) []))"

definition process_pending_run :: "run_env \<Rightarrow> RunModel \<times> nat \<Rightarrow> (RunModel \<times> nat) \<times> error option" where
  "process_pending_run env st =
     (let run_model = fst st in
      case run_model_to_run (re_now env) True False run_model of
        Inl e \<Rightarrow> (st, Some e)
      | Inr run \<Rightarrow>
          if (case run_latest_job_submission run of
                None \<Rightarrow> False | Some s \<Rightarrow> re_now env - sub_last_processed_at s < RETRY_DELAY)
          then (st, None)
          else (case pending_replicas env run_model of
              Inl e \<Rightarrow> (st, Some e)
            | Inr replicas \<Rightarrow>
                if replicas = 0 then (st, None)
                else
                  let groups = take (nat replicas) (groupby (\<lambda>j. js_replica_num (job_spec j)) (run_jobs run)) in
                  (case create_replicas (re_jc env) (re_now env) (rm_run_spec run_model) [length groups ..< nat replicas]
                          (add_jobs (re_now env) (concat (map snd groups)) st) of
                     (st', None) \<Rightarrow> (((fst st')\<lparr>rm_status := R_SUBMITTED\<rparr>, snd st'), None)
                   | (st', Some e) \<Rightarrow> (st', Some e))))"

section \<open>Retry\<close>

definition can_retry_single_job :: "RunSpec \<Rightarrow> bool" where
  "can_retry_single_job spec = False"

definition is_retry_duration_exceeded :: "Job \<Rightarrow> time \<Rightarrow> bool" where
  "is_retry_duration_exceeded job current_duration = (case js_retry (job_spec job) of
      None \<Rightarrow> True | Some retry \<Rightarrow> current_duration > seconds (retry_duration retry))"

definition error_reasons :: "JobTerminationReason list" where
  "error_reasons = [CONTAINER_EXITED_WITH_ERROR, CREATING_CONTAINER_ERROR, EXECUTOR_ERROR, GATEWAY_ERROR,
     WAITING_INSTANCE_LIMIT_EXCEEDED, WAITING_RUNNER_LIMIT_EXCEEDED, PORTS_BINDING_FAILED]"

definition should_retry_job :: "time \<Rightarrow> Run \<Rightarrow> Job \<Rightarrow> JobModel \<Rightarrow> time option" where
  "should_retry_job now run job job_model = (case js_retry (job_spec job) of
      None \<Rightarrow> None
    | Some retry \<Rightarrow>
        let last_provisioned = find (\<lambda>s. sub_job_provisioning_data s \<noteq> None) (rev (job_submissions job)) in
        if jm_termination_reason job_model = Some FAILED_TO_START_DUE_TO_NO_CAPACITY
           \<and> last_provisioned = None \<and> NO_CAPACITY \<in> set (on_events retry)
        then Some (now - run_submitted_at run)
        else (case last_provisioned of
            None \<Rightarrow> None
          | Some s \<Rightarrow>
              if sub_termination_reason s = Some INTERRUPTED_BY_NO_CAPACITY \<and> INTERRUPTION \<in> set (on_events retry)
              then Some (now - sub_last_processed_at s)
              else if sub_termination_reason s \<in> Some ` set error_reasons \<and> ERROR \<in> set (on_events retry)
              then Some (now - sub_last_processed_at s)
              else None))"

section \<open>Active runs\<close>

text \<open>What one job contributes: a status, and whether the replica is retried, is active, has failed.\<close>

datatype outcome = Contributes RunStatus | Done | ScaledDown | Failed RunTerminationReason | Retry

definition job_outcome :: "time \<Rightarrow> Run \<Rightarrow> Job \<Rightarrow> JobModel \<Rightarrow> outcome result" where
  "job_outcome now run job j =
     (if jm_status j = J_DONE \<or> (jm_status j = J_TERMINATING \<and> jm_termination_reason j = Some DONE_BY_RUNNER) then Inr Done
     else if jm_termination_reason j = Some SCALED_DOWN then Inr ScaledDown
     else if jm_status j = J_RUNNING then Inr (Contributes R_RUNNING)
     else if jm_status j = J_PROVISIONING \<or> jm_status j = J_PULLING then Inr (Contributes R_PROVISIONING)
     else if jm_status j = J_SUBMITTED then Inr (Contributes R_SUBMITTED)
     else if jm_status j = J_FAILED
       \<or> ((jm_status j = J_TERMINATING \<or> jm_status j = J_TERMINATED \<or> jm_status j = J_ABORTED)
          \<and> jm_termination_reason j \<noteq> Some DONE_BY_RUNNER \<and> jm_termination_reason j \<noteq> Some SCALED_DOWN)
     then Inr (case should_retry_job now run job j of
         None \<Rightarrow> Failed JOB_FAILED
       | Some d \<Rightarrow> if is_retry_duration_exceeded job d then Failed RETRY_LIMIT_EXCEEDED else Retry)
     else Inl ValueError)"

fun outcome_status :: "outcome \<Rightarrow> RunStatus option" where
  "outcome_status (Contributes s) = Some s"
| "outcome_status Done = Some R_DONE"
| "outcome_status ScaledDown = None"
| "outcome_status (Failed _) = Some R_FAILED"
| "outcome_status Retry = None"

fun outcome_reason :: "outcome \<Rightarrow> RunTerminationReason option" where
  "outcome_reason (Failed r) = Some r"
| "outcome_reason _ = None"

definition job_fleet :: "InstanceModel list \<Rightarrow> JobModel \<Rightarrow> nat option" where
  "job_fleet instances j = (case jm_instance_id j of
      None \<Rightarrow> None
    | Some i \<Rightarrow> (case find (\<lambda>inst. im_id inst = i) instances of None \<Rightarrow> None | Some inst \<Rightarrow> im_fleet_id inst))"

text \<open>The jobs of a replica. The run gets the first fleet of an instance of its jobs on the way.\<close>

fun jobs_loop ::
    "run_env \<Rightarrow> Run \<Rightarrow> JobModel list \<Rightarrow> nat option \<Rightarrow> nat option \<times> outcome list result" where
  "jobs_loop env run [] fleet = (fleet, Inr [])"
| "jobs_loop env run (j # js) fleet =
     (case find_job (run_jobs run) (jm_replica_num j) (jm_job_num j) of
        Inl e \<Rightarrow> (fleet, Inl e)
      | Inr job \<Rightarrow>
          let fleet' = (case fleet of None \<Rightarrow> job_fleet (re_instances env) j | Some f \<Rightarrow> Some f) in
          (case job_outcome (re_now env) run job j of
             Inl e \<Rightarrow> (fleet', Inl e)
           | Inr c \<Rightarrow> let (f, r) = jobs_loop env run js fleet' in (f, fmapE (Cons c) r)))"

text \<open>One replica: its number, its jobs, their outcomes.\<close>

record replica_outcome =
  ro_num :: nat
  ro_jobs :: "JobModel list"
  ro_outcomes :: "outcome list"

definition replica_statuses :: "replica_outcome \<Rightarrow> RunStatus list" where
  "replica_statuses ro = List.map_filter outcome_status (ro_outcomes ro)"

definition replica_needs_retry :: "replica_outcome \<Rightarrow> bool" where
  "replica_needs_retry ro = list_ex (\<lambda>c. c = Retry) (ro_outcomes ro)"

definition replica_active :: "replica_outcome \<Rightarrow> bool" where
  "replica_active ro = (\<not> list_ex (\<lambda>c. c = Done \<or> c = ScaledDown) (ro_outcomes ro))"

definition replica_info :: "replica_outcome \<Rightarrow> ReplicaInfo" where
  "replica_info ro =
     (if replica_active ro then \<lparr>ri_active = True, ri_timestamp = Min (jm_submitted_at ` set (ro_jobs ro))\<rparr>
      else \<lparr>ri_active = False, ri_timestamp = Max (jm_last_processed_at ` set (ro_jobs ro))\<rparr>)"

definition run_statuses :: "bool \<Rightarrow> replica_outcome list \<Rightarrow> RunStatus list" where
  "run_statuses retry_single_job ros = concat (map (\<lambda>ro.
     if R_FAILED \<in> set (replica_statuses ro) then [R_FAILED]
     else if \<not> replica_needs_retry ro \<or> retry_single_job then replica_statuses ro
     else []) ros)"

definition replicas_to_retry :: "replica_outcome list \<Rightarrow> (nat \<times> JobModel list) list" where
  "replicas_to_retry ros = map (\<lambda>ro. (ro_num ro, ro_jobs ro))
     (filter (\<lambda>ro. R_FAILED \<notin> set (replica_statuses ro) \<and> replica_needs_retry ro) ros)"

definition run_termination_reasons :: "replica_outcome list \<Rightarrow> RunTerminationReason list" where
  "run_termination_reasons ros = concat (map (\<lambda>ro. List.map_filter outcome_reason (ro_outcomes ro)) ros)"

definition new_run_status ::
    "RunStatus list \<Rightarrow> RunTerminationReason list \<Rightarrow> bool \<Rightarrow> (RunStatus \<times> RunTerminationReason option) result" where
  "new_run_status statuses reasons to_retry =
     (if R_FAILED \<in> set statuses then
        (if JOB_FAILED \<in> set reasons then Inr (R_TERMINATING, Some JOB_FAILED)
         else if RETRY_LIMIT_EXCEEDED \<in> set reasons then Inr (R_TERMINATING, Some RETRY_LIMIT_EXCEEDED)
         else Inl ValueError)
      else if R_RUNNING \<in> set statuses then Inr (R_RUNNING, None)
      else if R_PROVISIONING \<in> set statuses then Inr (R_PROVISIONING, None)
      else if R_SUBMITTED \<in> set statuses then Inr (R_SUBMITTED, None)
      else if R_DONE \<in> set statuses \<and> \<not> to_retry then Inr (R_TERMINATING, Some ALL_JOBS_DONE)
      else Inr (R_PENDING, None))"

fun replicas_loop ::
    "run_env \<Rightarrow> Run \<Rightarrow> (nat \<times> JobModel list) list \<Rightarrow> nat option \<Rightarrow> nat option \<times> replica_outcome list result" where
  "replicas_loop env run [] fleet = (fleet, Inr [])"
| "replicas_loop env run ((r, js) # gs) fleet =
     (case jobs_loop env run js fleet of
        (fleet', Inl e) \<Rightarrow> (fleet', Inl e)
      | (fleet', Inr cs) \<Rightarrow>
          let (f, ros) = replicas_loop env run gs fleet'
          in (f, fmapE (Cons \<lparr>ro_num = r, ro_jobs = js, ro_outcomes = cs\<rparr>) ros))"

text \<open>Terminating the active jobs of replicas that are resubmitted later.\<close>

definition terminate_active :: "(nat \<times> JobModel list) list \<Rightarrow> RunModel \<Rightarrow> RunModel" where
  "terminate_active reps run =
     (let ids = map jm_id (filter (\<lambda>j. \<not> job_stopped j) (concat (map snd reps)))
      in run\<lparr>rm_jobs := map_rows (\<lambda>j. jm_id j \<in> set ids) (terminate_row TERMINATED_BY_SERVER) (rm_jobs run)\<rparr>)"

definition scale_active_run ::
    "run_env \<Rightarrow> replica_outcome list \<Rightarrow> RunModel \<times> nat \<Rightarrow> (RunModel \<times> nat) \<times> error option" where
  "scale_active_run env ros st = (case conf_service (spec_configuration (rm_run_spec (fst st))) of
      None \<Rightarrow> (st, None)
    | Some sv \<Rightarrow>
        (case bindE (service_stats env (fst st)) (scale (get_service_scaler sv) (re_now env) (map replica_info ros)) of
           Inl e \<Rightarrow> (st, Some e)
         | Inr diff \<Rightarrow> scale_run_replicas (re_jc env) (re_now env) st diff))"

definition retry_active :: "run_env \<Rightarrow> bool \<Rightarrow> (nat \<times> JobModel list) list \<Rightarrow> RunModel \<times> nat \<Rightarrow> RunModel \<times> nat" where
  "retry_active env retry_single_job reps st =
     fold (\<lambda>(r, js). retry_run_replica_jobs (re_now env) retry_single_job js) reps st"

text \<open>The work on the jobs once the new status is known, and the change of status.\<close>

definition act_on_jobs ::
    "run_env \<Rightarrow> bool \<Rightarrow> replica_outcome list \<Rightarrow> RunStatus \<Rightarrow> RunModel \<times> nat \<Rightarrow> (RunModel \<times> nat) \<times> error option" where
  "act_on_jobs env retry_single_job ros new_status st =
     (if new_status = R_PENDING \<and> \<not> retry_single_job
      then ((terminate_active (replicas_to_retry ros) (fst st), snd st), None)
      else if new_status = R_TERMINATING \<or> new_status = R_PENDING then (st, None)
      else scale_active_run env ros (retry_active env retry_single_job (replicas_to_retry ros) st))"

definition set_run_status :: "RunStatus \<Rightarrow> RunTerminationReason option \<Rightarrow> RunModel \<Rightarrow> RunModel" where
  "set_run_status new_status reason run =
     (if rm_status run \<noteq> new_status then run\<lparr>rm_status := new_status, rm_termination_reason := reason\<rparr> else run)"

definition process_active_run :: "run_env \<Rightarrow> RunModel \<times> nat \<Rightarrow> (RunModel \<times> nat) \<times> error option" where
  "process_active_run env st =
     (let run_model = fst st; retry_single_job = can_retry_single_job (rm_run_spec run_model) in
      case run_model_to_run (re_now env) True False run_model of
        Inl e \<Rightarrow> (st, Some e)
      | Inr run \<Rightarrow>
          let (fleet, loop) = replicas_loop env run (group_jobs_by_replica_latest (rm_jobs run_model)) (rm_fleet_id run_model);
              st1 = (run_model\<lparr>rm_fleet_id := fleet\<rparr>, snd st) in
          (case loop of
             Inl e \<Rightarrow> (st1, Some e)
           | Inr ros \<Rightarrow>
               (case new_run_status (run_statuses retry_single_job ros) (run_termination_reasons ros)
                       (replicas_to_retry ros \<noteq> []) of
                  Inl e \<Rightarrow> (st1, Some e)
                | Inr (new_status, reason) \<Rightarrow>
                    (case act_on_jobs env retry_single_job ros new_status st1 of
                       (st2, None) \<Rightarrow> ((set_run_status new_status reason (fst st2), snd st2), None)
                     | (st2, Some e) \<Rightarrow> (st2, Some e)))))"

section \<open>One step\<close>

text \<open>
  \<^verbatim>\<open>_process_run\<close>: a server error ends the run and what was changed before it is committed;
  other exceptions roll back. Those of \<^verbatim>\<open>process_terminating_run\<close> are not server errors.
\<close>

definition fail_run :: "RunModel \<times> nat \<Rightarrow> RunModel \<times> nat" where
  "fail_run st = ((fst st)\<lparr>rm_status := R_TERMINATING, rm_termination_reason := Some SERVER_ERROR\<rparr>, snd st)"

definition process_run_status :: "run_env \<Rightarrow> RunModel \<times> nat \<Rightarrow> (RunModel \<times> nat) \<times> error option" where
  "process_run_status env st =
     (if rm_status (fst st) = R_PENDING then process_pending_run env st
      else if rm_status (fst st) \<in> {R_SUBMITTED, R_PROVISIONING, R_RUNNING} then process_active_run env st
      else if rm_status (fst st) = R_TERMINATING
      then (case process_terminating_run (re_project_key env) (re_instances env) (re_now env) (fst st) of
              Inl e \<Rightarrow> (st, Some e) | Inr r \<Rightarrow> ((r, snd st), None))
      else (fail_run st, None))"

definition process_run :: "run_env \<Rightarrow> RunModel \<times> nat \<Rightarrow> (RunModel \<times> nat) result" where
  "process_run env st =
     fmapE (\<lambda>st'. ((fst st')\<lparr>rm_last_processed_at := re_now env\<rparr>, snd st'))
       (case process_run_status env st of
          (st', None) \<Rightarrow> Inr st'
        | (st', Some e) \<Rightarrow> if is_ServerError e then Inr (fail_run st') else Inl e)"

text \<open>
  \<^verbatim>\<open>_process_next_run\<close>: the unfinished and unlocked run that was processed least recently;
  nothing when some of its jobs are locked.
\<close>

definition next_run :: "RunModel list \<Rightarrow> nat set \<Rightarrow> nat set \<Rightarrow> RunModel option" where
  "next_run runs run_lockset job_lockset =
     (case sort_key rm_last_processed_at
             (filter (\<lambda>r. \<not> run_is_finished (rm_status r) \<and> rm_id r \<notin> run_lockset) runs) of
        [] \<Rightarrow> None
      | r # _ \<Rightarrow> if list_ex (\<lambda>j. jm_id j \<in> job_lockset) (rm_jobs r) then None else Some r)"

definition process_next_run ::
    "run_env \<Rightarrow> nat set \<Rightarrow> nat set \<Rightarrow> RunModel list \<times> nat \<Rightarrow> (RunModel list \<times> nat) result" where
  "process_next_run env run_lockset job_lockset st = (case next_run (fst st) run_lockset job_lockset of
      None \<Rightarrow> Inr st
    | Some r \<Rightarrow> fmapE (\<lambda>(r', uid). (put_row rm_id r' (fst st), uid)) (process_run env (r, snd st)))"

end
