(* ===== verification/Run_Lifecycle.thy ===== *)
theory Run_Lifecycle
  imports Process_Runs
begin

text \<open>
  Correctness of the processing of runs: the step on a pending run and the step on an active run on
  the latest view of the rows, the errors they can raise, and the life cycle of a run as an
  invariant of every sequence of steps.
\<close>

section \<open>The jobs that a step reads\<close>

lemma list_all2_mem: "list_all2 P xs ys \<Longrightarrow> y \<in> set ys \<Longrightarrow> \<exists>x \<in> set xs. P x y"
  by (induction rule: list_all2_induct) auto

lemma sorted_concat_pairs:
  assumes "sorted_wrt (<) (map fst xs)" and "\<And>r g. (r, g) \<in> set xs \<Longrightarrow> sorted_wrt (<) (h g)"
  shows "sorted_wrt (<) (concat (map (\<lambda>(r, g). map (Pair r) (h g)) xs) :: (nat \<times> nat) list)"
  using assms
proof (induction xs)
  case (Cons x xs)
  obtain r g where x: "x = (r, g)" by (cases x)
  have "sorted_wrt (<) (concat (map (\<lambda>(r, g). map (Pair r) (h g)) xs))"
    using Cons.prems by (intro Cons.IH) auto
  moreover have "sorted_wrt (<) (map (Pair r) (h g))"
    using Cons.prems(2) [of r g] by (simp add: x sorted_wrt_map less_prod_def)
  moreover have "(r, n) < (s, m)" if "(s, g') \<in> set xs" for s m n g'
    using Cons.prems(1) that by (force simp: x less_prod_def)
  ultimately show ?case by (auto simp: x sorted_wrt_append)
qed simp

lemma replica_group:
  assumes "(r, g) \<in> set (groupby jm_replica_num (sort_key job_key jobs))"
  shows "g = replica_jobs jobs r"
  using groupby_filter [OF sorted_job_key_replica [OF groupby_sorted_job_key] assms] by (simp add: replica_jobs_def)

lemma job_groups_member:
  assumes "g \<in> set (job_groups jobs)"
  shows "g \<noteq> []" and "g = submissions_of jobs (fst (pair_key (hd g))) (snd (pair_key (hd g)))"
proof -
  from assms obtain r n where "(n, g) \<in> set (groupby jm_job_num (replica_jobs jobs r))"
    by (auto simp: job_groups_def dest: replica_group)
  from subgroup_member [OF this] have g: "g = submissions_of jobs r n" "g \<noteq> []" .
  then have "hd g \<in> set (submissions_of jobs r n)" by (metis hd_in_set)
  then have "pair_key (hd g) = (r, n)" by (simp add: submissions_of_def pair_key_def)
  with g show "g \<noteq> []" "g = submissions_of jobs (fst (pair_key (hd g))) (snd (pair_key (hd g)))" by simp_all
qed

lemma job_groups_keys:
  "map (\<lambda>g. pair_key (hd g)) (job_groups jobs) =
     concat (map (\<lambda>(r, g). map (Pair r) (map fst (groupby jm_job_num g)))
       (groupby jm_replica_num (sort_key job_key jobs)))"
proof -
  have "map (\<lambda>s. pair_key (hd s)) (map snd (groupby jm_job_num g)) = map (Pair r) (map fst (groupby jm_job_num g))"
    if "(r, g) \<in> set (groupby jm_replica_num (sort_key job_key jobs))" for r g
  proof -
    have "pair_key (hd s) = (r, n)" if s: "(n, s) \<in> set (groupby jm_job_num g)" for n s
    proof -
      from s replica_group [OF \<open>(r, g) \<in> _\<close>] have "(n, s) \<in> set (groupby jm_job_num (replica_jobs jobs r))" by simp
      from subgroup_member [OF this] have "hd s \<in> set (submissions_of jobs r n)" by (metis hd_in_set)
      then show ?thesis by (simp add: submissions_of_def pair_key_def)
    qed
    then show ?thesis by auto
  qed
  then show ?thesis unfolding job_groups_def map_concat map_map by (intro arg_cong [of _ _ concat] map_cong) auto
qed

lemma job_groups_sorted: "sorted_wrt (<) (map (\<lambda>g. pair_key (hd g)) (job_groups jobs))"
  unfolding job_groups_keys
proof (rule sorted_concat_pairs)
  show "sorted_wrt (<) (map fst (groupby jm_replica_num (sort_key job_key jobs)))"
    by (rule groupby_sorted) (simp add: sorted_job_key_replica)
next
  fix r g assume "(r, g) \<in> set (groupby jm_replica_num (sort_key job_key jobs))"
  from replica_group [OF this] show "sorted_wrt (<) (map fst (groupby jm_job_num g))"
    using groupby_sorted [OF sorted_job_key_job_num [of "sort_key job_key jobs" r]] by (simp add: replica_jobs_def)
qed

lemma job_groups_cover: "pair_key ` hd ` set (job_groups jobs) = pair_key ` set jobs"
proof -
  have "pair_key ` hd ` set (job_groups jobs) = set (map (\<lambda>g. pair_key (hd g)) (job_groups jobs))"
    by (simp add: image_image)
  also have "\<dots> = (\<Union>(r, g) \<in> set (groupby jm_replica_num (sort_key job_key jobs)). Pair r ` jm_job_num ` set g)"
  proof -
    have u: "set (concat (map F xs)) = (\<Union>x \<in> set xs. set (F x))"
      for F :: "nat \<times> JobModel list \<Rightarrow> (nat \<times> nat) list" and xs by simp
    have "set (case x of (r, g) \<Rightarrow> map (Pair r) (map fst (groupby jm_job_num g)))
        = (case x of (r, g) \<Rightarrow> Pair r ` jm_job_num ` set g)" for x :: "nat \<times> JobModel list"
      by (cases x) (simp only: prod.case set_map keys_groupby)
    then show ?thesis unfolding job_groups_keys u by (simp only:)
  qed
  also have "\<dots> = pair_key ` set jobs"
  proof -
    have fe: "Pair r ` jm_job_num ` set g = pair_key ` {j \<in> set jobs. jm_replica_num j = r}"
      if "(r, g) \<in> set (groupby jm_replica_num (sort_key job_key jobs))" for r g
      unfolding replica_group [OF that] by (auto simp: replica_jobs_def pair_key_def)
    have "(case p of (r, g) \<Rightarrow> Pair r ` jm_job_num ` set g)
        = (case p of (r, g) \<Rightarrow> pair_key ` {j \<in> set jobs. jm_replica_num j = r})"
      if "p \<in> set (groupby jm_replica_num (sort_key job_key jobs))" for p
      using fe [of "fst p" "snd p"] that unfolding split_beta by simp
    then have "(\<Union>(r, g) \<in> set (groupby jm_replica_num (sort_key job_key jobs)). Pair r ` jm_job_num ` set g)
        = (\<Union>(r, g) \<in> set (groupby jm_replica_num (sort_key job_key jobs)). pair_key ` {j \<in> set jobs. jm_replica_num j = r})"
      by (rule SUP_cong [OF refl])
    also have "\<dots> = (\<Union>r \<in> fst ` set (groupby jm_replica_num (sort_key job_key jobs)). pair_key ` {j \<in> set jobs. jm_replica_num j = r})"
      by force
    also have "\<dots> = pair_key ` set jobs" unfolding keys_groupby by auto
    finally show ?thesis .
  qed
  finally show ?thesis .
qed

lemma length_submissions_of: "length (submissions_of jobs r n) = submission_count jobs (r, n)"
proof -
  have "mset (submissions_of jobs r n) = mset (filter (\<lambda>j. pair_key j = (r, n)) jobs)"
    by (simp add: submissions_of_def pair_key_def mset_filter)
  then show ?thesis unfolding submission_count_def by (metis size_mset)
qed

lemma job_of_group_Inr:
  assumes "job_of_group True b g = Inr job"
  shows "job_spec job = jm_job_spec (hd g)" and "length (job_submissions job) = length g"
  using assms by (auto simp: job_of_group_def bindE_Inr_conv mapE_Inr_conv dest: list_all2_lengthD)

lemma run_jobs_keys:
  assumes inv: "jobs_inv (rm_jobs run) uid" and v: "run_model_to_run now True b run = Inr v"
  shows "sorted_wrt (<) (map new_job_key (run_jobs v))"
    and "new_job_key ` set (run_jobs v) = dom (view run)"
    and "\<forall>job \<in> set (run_jobs v). length (job_submissions job) = submission_count (rm_jobs run) (new_job_key job)"
proof -
  let ?gs = "job_groups (rm_jobs run)"
  have l2: "list_all2 (\<lambda>g job. job_of_group True b g = Inr job) ?gs (run_jobs v)"
    using v by (auto simp: run_model_to_run_def bindE_Inr_conv mapE_Inr_conv)
  have key: "new_job_key job = pair_key (hd g)" if "job_of_group True b g = Inr job" "g \<in> set ?gs" for g job
  proof -
    have "hd g \<in> set (rm_jobs run)"
      using job_groups_member [OF that(2)] hd_in_set [of g] by (metis (no_types) filter_is_subset set_sort submissions_of_def subsetD)
    then have "spec_consistent (hd g)" by (rule jobs_invD(4) [OF inv])
    then show ?thesis
      using job_of_group_Inr(1) [OF that(1)] by (simp add: new_job_key_def pair_key_def spec_consistent_def)
  qed
  have maps: "map new_job_key (run_jobs v) = map (\<lambda>g. pair_key (hd g)) ?gs"
  proof (rule nth_equalityI)
    show "length (map new_job_key (run_jobs v)) = length (map (\<lambda>g. pair_key (hd g)) ?gs)"
      using list_all2_lengthD [OF l2] by simp
    fix i assume "i < length (map new_job_key (run_jobs v))"
    then show "map new_job_key (run_jobs v) ! i = map (\<lambda>g. pair_key (hd g)) ?gs ! i"
      using l2 key by (simp add: list_all2_conv_all_nth)
  qed
  show "sorted_wrt (<) (map new_job_key (run_jobs v))" unfolding maps by (rule job_groups_sorted)
  have dom: "dom (view run) = pair_key ` set (rm_jobs run)" by (auto simp: latest_view_None dom_def)
  have "new_job_key ` set (run_jobs v) = pair_key ` hd ` set ?gs"
    using arg_cong [OF maps, of set] by (simp add: image_image)
  then show "new_job_key ` set (run_jobs v) = dom (view run)" unfolding dom job_groups_cover .
  show "\<forall>job \<in> set (run_jobs v). length (job_submissions job) = submission_count (rm_jobs run) (new_job_key job)"
  proof
    fix job assume "job \<in> set (run_jobs v)"
    then obtain g where g: "g \<in> set ?gs" "job_of_group True b g = Inr job"
      using list_all2_mem [OF l2] by blast
    have "length g = submission_count (rm_jobs run) (pair_key (hd g))"
      using arg_cong [OF job_groups_member(2) [OF g(1)], of length] by (simp add: length_submissions_of)
    then show "length (job_submissions job) = submission_count (rm_jobs run) (new_job_key job)"
      using job_of_group_Inr(2) [OF g(2)] key [OF g(2,1)] by simp
  qed
qed

section \<open>Pending runs\<close>

lemma strict_sorted_upt:
  assumes "sorted_wrt (<) xs" and "set xs = {..<k}"
  shows "xs = [0..<k]"
  using assms by (intro sorted_distinct_set_unique) (auto simp: strict_sorted_iff atLeast0LessThan)

lemma run_jobs_replica_groups:
  assumes inv: "jobs_inv (rm_jobs run) uid" and v: "run_model_to_run now True b run = Inr v"
    and reps: "view_replicas (view run) = {..<k}"
  shows "map fst (groupby (\<lambda>j. js_replica_num (job_spec j)) (run_jobs v)) = [0..<k]"
    and "sorted (map (\<lambda>j. js_replica_num (job_spec j)) (run_jobs v))"
proof -
  note keys = run_jobs_keys [OF inv v]
  have "sorted_wrt (\<lambda>x y. new_job_key x < new_job_key y) (run_jobs v)" using keys(1) by (simp add: sorted_wrt_map)
  then have "sorted_wrt (\<lambda>x y. js_replica_num (job_spec x) \<le> js_replica_num (job_spec y)) (run_jobs v)"
    by (rule sorted_wrt_mono_rel [rotated]) (auto simp: new_job_key_def less_prod_def)
  then show s: "sorted (map (\<lambda>j. js_replica_num (job_spec j)) (run_jobs v))" by (simp add: sorted_wrt_map)
  have "set (map fst (groupby (\<lambda>j. js_replica_num (job_spec j)) (run_jobs v))) = fst ` new_job_key ` set (run_jobs v)"
    by (simp add: keys_groupby image_image new_job_key_def)
  also have "\<dots> = {..<k}" using keys(2) reps by (simp add: view_replicas_def)
  finally show "map fst (groupby (\<lambda>j. js_replica_num (job_spec j)) (run_jobs v)) = [0..<k]"
    by (intro strict_sorted_upt groupby_sorted s)
qed

lemma add_jobs_replicas:
  assumes inv: "jobs_inv (rm_jobs run) uid" and d: "distinct (map new_job_key jobs)"
    and sub: "\<forall>job \<in> set jobs. length (job_submissions job) = submission_count (rm_jobs run) (new_job_key job)"
    and keys: "new_job_key ` set jobs = dom (view run) \<inter> R \<times> UNIV"
    and R: "R \<subseteq> view_replicas (view run)" and add: "add_jobs now jobs (run, uid) = (run', uid')"
  shows "jobs_inv (rm_jobs run') uid'" and "run' = run\<lparr>rm_jobs := rm_jobs run'\<rparr>"
    and "dom (view run') = dom (view run)" and "running_replica (view run') = running_replica (view run) \<union> R"
proof -
  note a = add_jobs_view [OF inv d sub add]
  from a show "jobs_inv (rm_jobs run') uid'" by blast
  from a show "run' = run\<lparr>rm_jobs := rm_jobs run'\<rparr>" by blast
  have new: "\<exists>n. view run' k = Some n \<and> \<not> job_stopped n" if "k \<in> dom (view run) \<inter> R \<times> UNIV" for k
  proof -
    from that have "k \<in> new_job_key ` set jobs" unfolding keys .
    with a obtain n where "view run' k = Some n" "jm_status n = J_SUBMITTED" by blast
    then show ?thesis by (auto simp: job_stopped_def)
  qed
  have old: "view run' k = view run k" if "k \<notin> dom (view run) \<inter> R \<times> UNIV" for k
    using a that unfolding keys by blast
  show dom: "dom (view run') = dom (view run)"
  proof (rule set_eqI)
    fix k
    show "k \<in> dom (view run') \<longleftrightarrow> k \<in> dom (view run)"
    proof (cases "k \<in> dom (view run) \<inter> R \<times> UNIV")
      case True
      with new [OF True] show ?thesis by auto
    next
      case False
      from old [OF this] show ?thesis by (simp add: domIff)
    qed
  qed
  show "running_replica (view run') = running_replica (view run) \<union> R"
  proof (rule set_eqI)
    fix r
    show "r \<in> running_replica (view run') \<longleftrightarrow> r \<in> running_replica (view run) \<union> R"
    proof (cases "r \<in> R")
      case True
      then have "r \<in> fst ` dom (view run)" using R by (auto simp: view_replicas_def)
      then obtain n where n: "(r, n) \<in> dom (view run)" by (metis imageE prod.collapse)
      have "\<not> job_stopped j" if "view run' (r, m) = Some j" for m j
      proof -
        have "(r, m) \<in> dom (view run) \<inter> R \<times> UNIV" using that dom True by auto
        from new [OF this] that show ?thesis by auto
      qed
      moreover have "view run' (r, n) \<noteq> None" using n dom by (metis domIff)
      ultimately show ?thesis using True unfolding running_replica_iff by blast
    next
      case False
      then have "view run' (r, n) = view run (r, n)" for n using old by auto
      with False show ?thesis by (simp add: running_replica_iff)
    qed
  qed
qed

lemma take_upt_min: "take n [0..<k] = [0..<min n k]"
  by (simp add: min_def)

lemma take_groups:
  fixes f :: "'a \<Rightarrow> nat"
  assumes m: "map fst (groupby f xs) = [0..<k]" and s: "sorted (map f xs)"
  shows "set (concat (map snd (take n (groupby f xs)))) = {x \<in> set xs. f x < n}"
proof -
  let ?g = "groupby f xs"
  have len: "length ?g = k" using arg_cong [OF m, of length] by simp
  have nth: "?g ! i = (i, filter (\<lambda>x. f x = i) xs)" if "i < k" for i
  proof -
    have "fst (?g ! i) = i" using that len arg_cong [OF m, of "\<lambda>l. l ! i"] by simp
    moreover have "?g ! i \<in> set ?g" using that len by simp
    ultimately show ?thesis using groupby_filter [OF s, of "fst (?g ! i)" "snd (?g ! i)"] by (cases "?g ! i") auto
  qed
  have bound: "f x < k" if "x \<in> set xs" for x
  proof -
    have "f x \<in> set (map fst ?g)" using that by (simp add: keys_groupby)
    then show ?thesis unfolding m by simp
  qed
  have g: "?g = map (\<lambda>i. (i, filter (\<lambda>x. f x = i) xs)) [0..<k]"
    by (rule nth_equalityI) (simp_all add: len nth)
  have "set (concat (map snd (take n ?g))) = (\<Union>i < min n k. {x \<in> set xs. f x = i})"
    unfolding g take_map take_upt_min by (simp add: o_def atLeast0LessThan)
  also have "\<dots> = {x \<in> set xs. f x < n}" using bound by auto
  finally show ?thesis .
qed

text \<open>
  A pending run stays as it is or is submitted again with the number of replicas that its
  configuration and its load ask for.
\<close>

lemma process_pending_view:
  assumes inv: "jobs_inv (rm_jobs run) uid" and reps: "view_replicas (view run) = {..<k}"
    and nodes: "0 < conf_nodes (spec_configuration (rm_run_spec run))"
    and res: "process_pending_run env (run, uid) = ((run', uid'), e)"
  shows "jobs_inv (rm_jobs run') uid' \<and> run' = run\<lparr>rm_jobs := rm_jobs run', rm_status := rm_status run'\<rparr>
    \<and> dom (view run') \<subseteq> dom (view run) \<union> UNIV \<times> {..<conf_nodes (spec_configuration (rm_run_spec run))}
    \<and> (\<exists>k'. view_replicas (view run') = {..<k'})
    \<and> (rm_status run' = rm_status run \<and> (e = None \<longrightarrow> run' = run)
       \<or> rm_status run' = R_SUBMITTED \<and> e = None \<and>
         (\<exists>n. pending_replicas env run = Inr n \<and> n \<noteq> 0
            \<and> running_replica (view run') = running_replica (view run) \<union> {..<nat n}))"
proof -
  let ?f = "\<lambda>j. js_replica_num (job_spec j)"
  consider (same) "run' = run" "uid' = uid"
    | (submit) v n where "run_model_to_run (re_now env) True False run = Inr v" "pending_replicas env run = Inr n" "n \<noteq> 0"
      "(case create_replicas (re_jc env) (re_now env) (rm_run_spec run) [length (take (nat n) (groupby ?f (run_jobs v))) ..< nat n]
          (add_jobs (re_now env) (concat (map snd (take (nat n) (groupby ?f (run_jobs v))))) (run, uid)) of
            (st', None) \<Rightarrow> (((fst st')\<lparr>rm_status := R_SUBMITTED\<rparr>, snd st'), None)
          | (st', Some e) \<Rightarrow> (st', Some e)) = ((run', uid'), e)"
    using res by (auto simp: process_pending_run_def Let_def split: sum.split_asm if_split_asm)
  then show ?thesis
  proof cases
    case same
    with inv reps show ?thesis by auto
  next
    case submit
    let ?gs = "groupby ?f (run_jobs v)" and ?n = "nat n"
    note keys = run_jobs_keys [OF inv submit(1)] and gs = run_jobs_replica_groups [OF inv submit(1) reps]
    define jobs where "jobs = concat (map snd (take ?n ?gs))"
    define R where "R = {..<?n} \<inter> {..<k}"
    have len: "length (take ?n ?gs) = min ?n k" using arg_cong [OF gs(1), of length] by simp
    obtain run1 uid1 where add: "add_jobs (re_now env) jobs (run, uid) = (run1, uid1)" by fastforce
    have js: "set jobs = {j \<in> set (run_jobs v). ?f j < ?n}"
      unfolding jobs_def by (rule take_groups [OF gs])
    have split: "run_jobs v = jobs @ concat (map snd (drop ?n ?gs))"
      unfolding jobs_def by (metis append_take_drop_id concat_append concat_groupby map_append)
    have d: "distinct (map new_job_key jobs)"
      using keys(1) split by (metis distinct_append map_append strict_sorted_iff)
    have sub: "\<forall>job \<in> set jobs. length (job_submissions job) = submission_count (rm_jobs run) (new_job_key job)"
      using keys(3) js by blast
    have "new_job_key ` set jobs = {q \<in> new_job_key ` set (run_jobs v). fst q < ?n}"
      unfolding js by (auto simp: new_job_key_def)
    also have "\<dots> = dom (view run) \<inter> R \<times> UNIV"
    proof -
      have "fst q < k" if "q \<in> dom (view run)" for q using that reps by (metis imageI lessThan_iff view_replicas_def)
      then show ?thesis unfolding keys(2) R_def by force
    qed
    finally have nk: "new_job_key ` set jobs = dom (view run) \<inter> R \<times> UNIV" .
    have R: "R \<subseteq> view_replicas (view run)" unfolding R_def reps by blast
    note a = add_jobs_replicas [OF inv d sub nk R add]
    obtain run2 uid2 e2 where cr: "create_replicas (re_jc env) (re_now env) (rm_run_spec run) [min ?n k ..< ?n] (run1, uid1)
        = ((run2, uid2), e2)" by (metis prod.collapse)
    have vr: "view_replicas (view run1) = {..<k}" using a(3) reps by (simp add: view_replicas_def)
    have fresh: "set [min ?n k ..< ?n] \<inter> view_replicas (view run1) = {}" unfolding vr by auto
    from create_replicas_view [OF a(1) nodes _ fresh cr] obtain m where
      c: "jobs_inv (rm_jobs run2) uid2" "run2 = run1\<lparr>rm_jobs := rm_jobs run2\<rparr>"
        "dom (view run2) \<subseteq> dom (view run1) \<union> UNIV \<times> {..<conf_nodes (spec_configuration (rm_run_spec run))}"
        "e2 = None \<longrightarrow> m = length [min ?n k ..< ?n]"
        "view_replicas (view run2) = view_replicas (view run1) \<union> set (take m [min ?n k ..< ?n])"
        "running_replica (view run2) = running_replica (view run1) \<union> set (take m [min ?n k ..< ?n])" by auto
    have run2: "run2 = run\<lparr>rm_jobs := rm_jobs run2\<rparr>"
      using c(2) a(2) by (metis RunModel.surjective RunModel.update_convs(14))
    have tk: "set (take m [min ?n k ..< ?n]) = {min ?n k ..< min (min ?n k + m) ?n}" by (simp add: min_def)
    have vk: "\<exists>k'. view_replicas (view run2) = {..<k'}"
    proof (cases "?n \<le> k")
      case True
      then have "view_replicas (view run2) = {..<k}" unfolding c(5) tk vr by auto
      then show ?thesis by blast
    next
      case False
      then have "view_replicas (view run2) = {..<max k (min (min ?n k + m) ?n)}" unfolding c(5) tk vr by auto
      then show ?thesis by blast
    qed
    have run_all: "running_replica (view run2) = running_replica (view run) \<union> {..<?n}" if "e2 = None"
      unfolding c(6) a(4) R_def using c(4) that by auto
    have res': "((run', uid'), e) = (case e2 of None \<Rightarrow> ((run2\<lparr>rm_status := R_SUBMITTED\<rparr>, uid2), None)
        | Some x \<Rightarrow> ((run2, uid2), Some x))"
      using submit(4) cr add len unfolding jobs_def [symmetric] by (simp split: option.splits)
    have st: "rm_status run2 = rm_status run" using arg_cong [OF run2, of rm_status] by simp
    have dom: "dom (view run2) \<subseteq> dom (view run) \<union> UNIV \<times> {..<conf_nodes (spec_configuration (rm_run_spec run))}"
      using c(3) a(3) by simp
    show ?thesis
    proof (cases e2)
      case None
      then have r: "run' = run2\<lparr>rm_status := R_SUBMITTED\<rparr>" "uid' = uid2" "e = None" using res' by simp_all
      have j: "rm_jobs run' = rm_jobs run2" "rm_status run' = R_SUBMITTED" by (simp_all add: r(1))
      have "run' = run\<lparr>rm_jobs := rm_jobs run2, rm_status := R_SUBMITTED\<rparr>"
        using r(1) arg_cong [OF run2, of "\<lambda>r. r\<lparr>rm_status := R_SUBMITTED\<rparr>"] by simp
      then show ?thesis unfolding j r(2,3) using c(1) dom vk run_all [OF None] submit(2,3) by blast
    next
      case (Some x)
      then have r: "run' = run2" "uid' = uid2" "e = Some x" using res' by simp_all
      have "run2 = run\<lparr>rm_jobs := rm_jobs run2, rm_status := rm_status run2\<rparr>"
        using run2 arg_cong [OF run2, of "\<lambda>r. r\<lparr>rm_status := rm_status run2\<rparr>"] by simp
      then show ?thesis unfolding r using c(1) dom vk st by blast
    qed
  qed
qed

section \<open>The outcomes of jobs\<close>

text \<open>
  A job has a termination reason exactly when it is terminating or finished, and a finished job has
  the status of its reason.
\<close>

definition reason_ok :: "JobModel \<Rightarrow> bool" where
  "reason_ok j \<longleftrightarrow> (job_stopped j \<longleftrightarrow> jm_termination_reason j \<noteq> None)
     \<and> (job_is_finished (jm_status j) \<longrightarrow> map_option job_reason_to_status (jm_termination_reason j) = Some (jm_status j))"

lemma reason_to_status_DONE: "job_reason_to_status r = J_DONE \<longleftrightarrow> r = DONE_BY_RUNNER"
  by (cases r) simp_all

lemma job_outcome_ok:
  assumes "reason_ok j"
  shows "\<exists>c. job_outcome now run job j = Inr c"
proof -
  have "jm_status j \<in> {J_TERMINATED, J_ABORTED} \<Longrightarrow> jm_termination_reason j \<noteq> Some DONE_BY_RUNNER"
    using assms by (auto simp: reason_ok_def)
  then show ?thesis by (cases "jm_status j") (auto simp: job_outcome_def)
qed

lemma job_outcome_cases:
  assumes "reason_ok j" and "job_outcome now run job j = Inr c"
  shows "(c = Done \<or> c = ScaledDown \<or> c = Retry \<or> (\<exists>r. c = Failed r)) \<longleftrightarrow> job_stopped j"
    and "c = Failed r \<Longrightarrow> r = JOB_FAILED \<or> r = RETRY_LIMIT_EXCEEDED"
  using assms
  by (auto simp: job_outcome_def reason_ok_def job_stopped_def split: if_split_asm option.split_asm)

lemma find_job_ok:
  assumes "(r, n) \<in> new_job_key ` set jobs"
  shows "\<exists>job. find_job jobs r n = Inr job"
  using assms
  by (cases "find (\<lambda>j. js_replica_num (job_spec j) = r \<and> js_job_num (job_spec j) = n) jobs")
    (auto simp: find_job_def new_job_key_def find_None_iff)

definition outcome_of :: "run_env \<Rightarrow> Run \<Rightarrow> JobModel \<Rightarrow> outcome \<Rightarrow> bool" where
  "outcome_of env run j c \<longleftrightarrow> (\<exists>job. job_outcome (re_now env) run job j = Inr c)"

lemma jobs_loop_ok:
  assumes "\<forall>j \<in> set js. reason_ok j \<and> pair_key j \<in> new_job_key ` set (run_jobs run)"
  shows "\<exists>f cs. jobs_loop env run js fleet = (f, Inr cs) \<and> list_all2 (outcome_of env run) js cs"
  using assms
proof (induction js arbitrary: fleet)
  case (Cons j js)
  obtain job where job: "find_job (run_jobs run) (jm_replica_num j) (jm_job_num j) = Inr job"
    using Cons.prems find_job_ok by (fastforce simp: pair_key_def)
  obtain c where c: "job_outcome (re_now env) run job j = Inr c" using Cons.prems job_outcome_ok by force
  let ?f = "case fleet of None \<Rightarrow> job_fleet (re_instances env) j | Some f \<Rightarrow> Some f"
  obtain f cs where "jobs_loop env run js ?f = (f, Inr cs)" "list_all2 (outcome_of env run) js cs"
    using Cons.IH [of ?f] Cons.prems by auto
  moreover have "outcome_of env run j c" using c by (auto simp: outcome_of_def)
  ultimately show ?case using job c by (simp add: Let_def)
qed simp

lemma replicas_loop_ok:
  assumes "\<forall>(r, js) \<in> set gs. \<forall>j \<in> set js. reason_ok j \<and> pair_key j \<in> new_job_key ` set (run_jobs run)"
  shows "\<exists>f ros. replicas_loop env run gs fleet = (f, Inr ros)
    \<and> list_all2 (\<lambda>(r, js) ro. ro_num ro = r \<and> ro_jobs ro = js \<and> list_all2 (outcome_of env run) js (ro_outcomes ro)) gs ros"
  using assms
proof (induction gs arbitrary: fleet)
  case (Cons g gs)
  obtain r js where g: "g = (r, js)" by (cases g)
  obtain f1 cs where l: "jobs_loop env run js fleet = (f1, Inr cs)" "list_all2 (outcome_of env run) js cs"
    using jobs_loop_ok [of js run env fleet] Cons.prems by (auto simp: g)
  obtain f ros where "replicas_loop env run gs f1 = (f, Inr ros)"
    "list_all2 (\<lambda>(r, js) ro. ro_num ro = r \<and> ro_jobs ro = js \<and> list_all2 (outcome_of env run) js (ro_outcomes ro)) gs ros"
    using Cons.IH [of f1] Cons.prems by auto
  then show ?case using l by (simp add: g)
qed simp

lemma in_map_filter: "y \<in> set (List.map_filter f xs) \<longleftrightarrow> (\<exists>x \<in> set xs. f x = Some y)"
  by (force simp: map_filter_def)

lemma new_run_status_ok:
  assumes "\<forall>ro \<in> set ros. \<forall>c \<in> set (ro_outcomes ro). \<forall>r. c = Failed r \<longrightarrow> r = JOB_FAILED \<or> r = RETRY_LIMIT_EXCEEDED"
    and "\<forall>ro \<in> set ros. \<forall>c \<in> set (ro_outcomes ro). c \<noteq> Contributes R_FAILED"
  shows "\<exists>s q. new_run_status (run_statuses b ros) (run_termination_reasons ros) t = Inr (s, q)
    \<and> s \<in> {R_TERMINATING, R_RUNNING, R_PROVISIONING, R_SUBMITTED, R_PENDING} \<and> (s = R_TERMINATING \<longleftrightarrow> q \<noteq> None)"
proof -
  have "JOB_FAILED \<in> set (run_termination_reasons ros) \<or> RETRY_LIMIT_EXCEEDED \<in> set (run_termination_reasons ros)"
    if "R_FAILED \<in> set (run_statuses b ros)"
  proof -
    from that obtain ro where ro: "ro \<in> set ros" "R_FAILED \<in> set (replica_statuses ro)"
      by (auto simp: run_statuses_def split: if_split_asm)
    then obtain c where c: "c \<in> set (ro_outcomes ro)" "outcome_status c = Some R_FAILED"
      by (auto simp: replica_statuses_def in_map_filter)
    with assms ro obtain r where r: "c = Failed r" "r = JOB_FAILED \<or> r = RETRY_LIMIT_EXCEEDED"
      by (cases c) auto
    then have "r \<in> set (run_termination_reasons ros)"
      using ro c by (force simp: run_termination_reasons_def in_map_filter)
    with r show ?thesis by auto
  qed
  then show ?thesis by (auto simp: new_run_status_def)
qed

section \<open>Reasons of rows\<close>

definition rows_ok :: "RunModel \<Rightarrow> bool" where
  "rows_ok run \<longleftrightarrow> (\<forall>j \<in> set (rm_jobs run). reason_ok j)"

named_theorems rows_intros

lemma reason_ok_new [simp]:
  "reason_ok (terminate_row r j)"
  "reason_ok (resubmission now uid run j)"
  "reason_ok (create_job_model_for_new_submission now uid run job J_SUBMITTED)"
  by (simp_all add: reason_ok_def job_stopped_def)

lemma rows_ok_add_jobs [rows_intros]: "rows_ok (fst st) \<Longrightarrow> rows_ok (fst (add_jobs now jobs st))"
proof (induction jobs arbitrary: st)
  case (Cons job jobs)
  obtain run uid where st: "st = (run, uid)" by (cases st)
  have "rows_ok (run\<lparr>rm_jobs := rm_jobs run @ [create_job_model_for_new_submission now uid run job J_SUBMITTED]\<rparr>)"
    using Cons.prems by (auto simp: st rows_ok_def)
  with Cons.IH show ?case by (simp add: st)
qed simp

lemma rows_ok_create_replicas [rows_intros]: "rows_ok (fst st) \<Longrightarrow> rows_ok (fst (fst (create_replicas jc now spec rs st)))"
proof (induction rs arbitrary: spec st)
  case (Cons r rs)
  then show ?case using rows_ok_add_jobs by (cases "get_jobs_from_run_spec jc spec r") (auto split: prod.split)
qed simp

lemma rows_ok_retry [rows_intros]: "rows_ok (fst st) \<Longrightarrow> rows_ok (fst (retry_run_replica_jobs now b js st))"
proof (induction js arbitrary: st)
  case (Cons j js)
  obtain run uid where st: "st = (run, uid)" by (cases st)
  let ?rows = "if job_stopped j then rm_jobs run else put_row jm_id (terminate_row TERMINATED_BY_SERVER j) (rm_jobs run)"
  have "\<forall>i \<in> set ?rows. reason_ok i"
    using Cons.prems set_put_row [of jm_id "terminate_row TERMINATED_BY_SERVER j" "rm_jobs run"]
    by (auto simp: st rows_ok_def)
  then have "rows_ok (run\<lparr>rm_jobs := ?rows @ [resubmission now uid run j]\<rparr>)" by (auto simp: rows_ok_def)
  with Cons show ?case by (cases b; cases "job_stopped j") (simp_all add: st Let_def)
qed simp

lemma rows_ok_retry_replicas [rows_intros]: "rows_ok (fst st) \<Longrightarrow> rows_ok (fst (retry_replicas now reps st))"
proof (induction reps arbitrary: st)
  case (Cons rep reps)
  obtain r js where rep: "rep = (r, js)" by (cases rep)
  have "retry_replicas now (rep # reps) st = retry_replicas now reps (retry_run_replica_jobs now False js st)"
    by (simp add: retry_replicas_def rep)
  with Cons show ?case by (simp add: rows_ok_retry)
qed (simp add: retry_replicas_def)

lemma rows_ok_terminate [rows_intros]:
  "rows_ok run \<Longrightarrow> rows_ok (terminate_replicas reps run)" "rows_ok run \<Longrightarrow> rows_ok (terminate_active aps run)"
  by (auto simp: rows_ok_def terminate_replicas_def terminate_active_def Let_def set_map_rows)

lemma rows_ok_scale [rows_intros]: "rows_ok (fst st) \<Longrightarrow> rows_ok (fst (fst (scale_run_replicas jc now st d)))"
  by (auto simp: scale_run_replicas_def Let_def intro: rows_intros split: option.split)

lemma retry_active_replicas: "retry_active env False reps st = retry_replicas (re_now env) reps st"
  by (simp add: retry_active_def retry_replicas_def)

lemma rows_ok_scale_active [rows_intros]:
  "rows_ok (fst st) \<Longrightarrow> rows_ok (fst (fst (scale_active_run env ros st)))"
  by (auto simp: scale_active_run_def intro: rows_intros split: option.split sum.split)

lemma rows_ok_act [rows_intros]:
  "rows_ok (fst st) \<Longrightarrow> rows_ok (fst (fst (act_on_jobs env False ros s st)))"
  by (auto simp: act_on_jobs_def retry_active_replicas intro: rows_intros)

lemma rows_ok_pending [rows_intros]:
  assumes "rows_ok (fst st)"
  shows "rows_ok (fst (fst (process_pending_run env st)))"
proof -
  have sub: "rows_ok (fst (fst (create_replicas jc now spec rs (add_jobs now jobs st))))" for jc now spec rs jobs
    using assms by (intro rows_intros)
  have "rows_ok (r\<lparr>rm_status := s\<rparr>) = rows_ok r" for r s by (simp add: rows_ok_def)
  then show ?thesis using assms
    by (auto simp: process_pending_run_def Let_def split: sum.split option.split prod.split)
      (metis fst_conv sub)+
qed

section \<open>Active runs\<close>

definition outcomes_of :: "run_env \<Rightarrow> Run \<Rightarrow> RunModel \<Rightarrow> replica_outcome list \<Rightarrow> bool" where
  "outcomes_of env v run ros \<longleftrightarrow>
     list_all2 (\<lambda>(r, js) ro. ro_num ro = r \<and> ro_jobs ro = js \<and> list_all2 (outcome_of env v) js (ro_outcomes ro))
       (group_jobs_by_replica_latest (rm_jobs run)) ros"

lemma outcomes_of_member:
  assumes "outcomes_of env v run ros" and "ro \<in> set ros"
  shows "(ro_num ro, ro_jobs ro) \<in> set (group_jobs_by_replica_latest (rm_jobs run))"
    and "list_all2 (outcome_of env v) (ro_jobs ro) (ro_outcomes ro)"
proof -
  from assms(2) obtain i where i: "i < length ros" "ro = ros ! i" by (auto simp: in_set_conv_nth)
  obtain r js where g: "group_jobs_by_replica_latest (rm_jobs run) ! i = (r, js)" by force
  have l: "i < length (group_jobs_by_replica_latest (rm_jobs run))"
    using assms(1) i by (simp add: outcomes_of_def list_all2_conv_all_nth)
  have "ro_num ro = r \<and> ro_jobs ro = js \<and> list_all2 (outcome_of env v) js (ro_outcomes ro)"
    using assms(1) i g l by (auto simp: outcomes_of_def list_all2_conv_all_nth)
  moreover have "(r, js) \<in> set (group_jobs_by_replica_latest (rm_jobs run))" using g l by (metis nth_mem)
  ultimately show "(ro_num ro, ro_jobs ro) \<in> set (group_jobs_by_replica_latest (rm_jobs run))"
    "list_all2 (outcome_of env v) (ro_jobs ro) (ro_outcomes ro)" by simp_all
qed

lemma outcomes_of_nums:
  assumes "outcomes_of env v run ros"
  shows "map ro_num ros = map fst (group_jobs_by_replica_latest (rm_jobs run))"
  using assms unfolding outcomes_of_def by (induction rule: list_all2_induct) auto

lemma outcome_rows:
  assumes "outcomes_of env v run ros" and "ro \<in> set ros" and "c \<in> set (ro_outcomes ro)" and "rows_ok run"
  shows "\<exists>j job. j \<in> set (rm_jobs run) \<and> j \<in> set (ro_jobs ro) \<and> reason_ok j \<and> job_outcome (re_now env) v job j = Inr c"
proof -
  note m = outcomes_of_member [OF assms(1,2)]
  from assms(3) m(2) obtain j where "j \<in> set (ro_jobs ro)" "outcome_of env v j c"
    by (auto dest: list_all2_mem)
  moreover from this have "j \<in> set (rm_jobs run)" using group_latest(3) [OF m(1)] by blast
  ultimately show ?thesis using assms(4) by (auto simp: rows_ok_def outcome_of_def)
qed

lemma contributes_not_failed: "job_outcome now v job j \<noteq> Inr (Contributes R_FAILED)"
  by (simp add: job_outcome_def split: option.split)

text \<open>
  A step on an active run whose rows are in order never fails on a job of it or on its status.
\<close>

lemma process_active_cases:
  assumes inv: "jobs_inv (rm_jobs run) uid" and rows: "rows_ok run"
    and res: "process_active_run env (run, uid) = ((run', uid'), e)"
  obtains (unread) err where "run_model_to_run (re_now env) True False run = Inl err" "run' = run" "uid' = uid" "e = Some err"
  | (acted) v f ros s q run2 where "run_model_to_run (re_now env) True False run = Inr v" "outcomes_of env v run ros"
      "new_run_status (run_statuses False ros) (run_termination_reasons ros) (replicas_to_retry ros \<noteq> []) = Inr (s, q)"
      "s \<in> {R_TERMINATING, R_RUNNING, R_PROVISIONING, R_SUBMITTED, R_PENDING}" "s = R_TERMINATING \<longleftrightarrow> q \<noteq> None"
      "act_on_jobs env False ros s (run\<lparr>rm_fleet_id := f\<rparr>, uid) = ((run2, uid'), e)"
      "run' = (if e = None then set_run_status s q run2 else run2)"
proof (cases "run_model_to_run (re_now env) True False run")
  case (Inl err)
  with res have "run' = run" "uid' = uid" "e = Some err" by (simp_all add: process_active_run_def Let_def)
  with Inl show thesis by (rule unread)
next
  case (Inr v)
  let ?gs = "group_jobs_by_replica_latest (rm_jobs run)"
  have "reason_ok j \<and> pair_key j \<in> new_job_key ` set (run_jobs v)" if "(r, js) \<in> set ?gs" "j \<in> set js" for r js j
  proof -
    have "j \<in> set (rm_jobs run)" using group_latest(3) [OF that] .
    moreover from this have "pair_key j \<in> dom (view run)" using latest_view_None by blast
    ultimately show ?thesis using rows run_jobs_keys(2) [OF inv Inr] by (auto simp: rows_ok_def)
  qed
  then have "\<forall>(r, js) \<in> set ?gs. \<forall>j \<in> set js. reason_ok j \<and> pair_key j \<in> new_job_key ` set (run_jobs v)" by blast
  from replicas_loop_ok [OF this, of env "rm_fleet_id run"] obtain f ros where
    loop: "replicas_loop env v ?gs (rm_fleet_id run) = (f, Inr ros)" and oc: "outcomes_of env v run ros"
    unfolding outcomes_of_def by blast
  have "\<exists>s q. new_run_status (run_statuses False ros) (run_termination_reasons ros) (replicas_to_retry ros \<noteq> []) = Inr (s, q)
    \<and> s \<in> {R_TERMINATING, R_RUNNING, R_PROVISIONING, R_SUBMITTED, R_PENDING} \<and> (s = R_TERMINATING \<longleftrightarrow> q \<noteq> None)"
  proof (rule new_run_status_ok; intro ballI allI impI)
    fix ro c assume c: "ro \<in> set ros" "c \<in> set (ro_outcomes ro)"
    from outcome_rows [OF oc c rows] obtain j job where j: "reason_ok j" "job_outcome (re_now env) v job j = Inr c" by blast
    show "r = JOB_FAILED \<or> r = RETRY_LIMIT_EXCEEDED" if "c = Failed r" for r
      using job_outcome_cases(2) [OF j that] .
    show "c \<noteq> Contributes R_FAILED" using j(2) contributes_not_failed by auto
  qed
  then obtain s q where s: "new_run_status (run_statuses False ros) (run_termination_reasons ros) (replicas_to_retry ros \<noteq> []) = Inr (s, q)"
    "s \<in> {R_TERMINATING, R_RUNNING, R_PROVISIONING, R_SUBMITTED, R_PENDING}" "s = R_TERMINATING \<longleftrightarrow> q \<noteq> None" by blast
  obtain run2 uid2 e2 where act: "act_on_jobs env False ros s (run\<lparr>rm_fleet_id := f\<rparr>, uid) = ((run2, uid2), e2)"
    by (metis prod.collapse)
  have "process_active_run env (run, uid) =
      (case e2 of None \<Rightarrow> ((set_run_status s q run2, uid2), None) | Some x \<Rightarrow> ((run2, uid2), Some x))"
    by (simp add: process_active_run_def can_retry_single_job_def Inr loop s(1) act split: option.split)
  with res have eq: "e2 = e" "uid2 = uid'" "run' = (if e = None then set_run_status s q run2 else run2)"
    by (auto split: option.split_asm)
  show thesis by (rule acted [OF Inr oc s act [unfolded eq(1,2)] eq(3)])
qed

text \<open>Termination of active jobs changes rows in place only.\<close>

lemma terminate_active_view:
  assumes "jobs_inv (rm_jobs run) uid"
  shows "jobs_inv (rm_jobs (terminate_active reps run)) uid"
    and "dom (view (terminate_active reps run)) = dom (view run)"
    and "terminate_active reps run = run\<lparr>rm_jobs := rm_jobs (terminate_active reps run)\<rparr>"
proof -
  define ids where "ids = jm_id ` set (filter (\<lambda>j. \<not> job_stopped j) (concat (map snd reps)))"
  define g where "g = (\<lambda>j. if jm_id j \<in> ids then terminate_row TERMINATED_BY_SERVER j else j)"
  have rows: "rm_jobs (terminate_active reps run) = map g (rm_jobs run)"
    by (simp add: terminate_active_def map_rows_def g_def ids_def)
  then show "jobs_inv (rm_jobs (terminate_active reps run)) uid"
    using jobs_inv_map [OF assms, of g] by (simp add: g_def)
  have "view (terminate_active reps run) k = map_option g (view run k)" for k
    unfolding rows by (rule latest_view_map) (simp add: g_def)
  then show "dom (view (terminate_active reps run)) = dom (view run)" by (auto simp: dom_def)
  show "terminate_active reps run = run\<lparr>rm_jobs := rm_jobs (terminate_active reps run)\<rparr>"
    by (simp add: terminate_active_def)
qed

text \<open>Resubmission of the replicas that need it.\<close>

lemma retry_active_view:
  assumes inv: "jobs_inv (rm_jobs run) uid" and oc: "outcomes_of env v run ros"
    and ret: "retry_replicas now (replicas_to_retry ros) (run\<lparr>rm_fleet_id := f\<rparr>, uid) = (run1, uid1)"
  shows "jobs_inv (rm_jobs run1) uid1" and "run1 = run\<lparr>rm_fleet_id := f, rm_jobs := rm_jobs run1\<rparr>"
    and "dom (view run1) = dom (view run)"
    and "running_replica (view run1) = fst ` set (replicas_to_retry ros) \<union> running_replica (view run)"
proof -
  have u: "unique_submissions (rm_jobs run)" using inv by (rule jobs_invD)
  have g: "\<forall>(r, js) \<in> set (replicas_to_retry ros). group_of (view (run\<lparr>rm_fleet_id := f\<rparr>)) r js"
    using outcomes_of_member(1) [OF oc] group_of_groups [OF u] by (auto simp: replicas_to_retry_def)
  have "distinct (map ro_num ros)" unfolding outcomes_of_nums [OF oc] by (rule groups_distinct)
  then have "distinct (map ro_num (filter P ros))" for P by (rule distinct_map_filter)
  then have d: "distinct (map fst (replicas_to_retry ros))" by (simp add: replicas_to_retry_def o_def)
  have inv': "jobs_inv (rm_jobs (run\<lparr>rm_fleet_id := f\<rparr>)) uid" using inv by simp
  from retry_replicas_view [OF inv' g d ret]
  show "jobs_inv (rm_jobs run1) uid1" "run1 = run\<lparr>rm_fleet_id := f, rm_jobs := rm_jobs run1\<rparr>"
    "dom (view run1) = dom (view run)"
    "running_replica (view run1) = fst ` set (replicas_to_retry ros) \<union> running_replica (view run)" by simp_all
qed

lemma single_job_groups:
  assumes u: "unique_submissions (rm_jobs run)" and one: "dom (view run) \<subseteq> UNIV \<times> {..<1}"
    and g: "(r, js) \<in> set (group_jobs_by_replica_latest (rm_jobs run))"
  shows "\<exists>j. js = [j]"
proof -
  note go = group_of_groups [OF u g, unfolded group_of_def]
  have key: "pair_key j = (r, 0)" if "j \<in> set js" for j
  proof -
    have "pair_key j \<in> dom (view run)" "fst (pair_key j) = r" using go that by auto
    with one show ?thesis by (cases "pair_key j") auto
  qed
  show ?thesis
  proof (cases js)
    case (Cons j js')
    have "js' = []"
    proof (rule ccontr)
      assume "js' \<noteq> []"
      then obtain i where "i \<in> set js'" by (cases js') auto
      then have "pair_key i = pair_key j" using key Cons by simp
      with \<open>i \<in> set js'\<close> Cons go show False by (metis distinct.simps(2) image_eqI list.set_map list.simps(9))
    qed
    with Cons show ?thesis by simp
  qed (use go in simp)
qed

lemma run_statuses_failed:
  "R_FAILED \<notin> set (run_statuses b ros) \<Longrightarrow> ro \<in> set ros \<Longrightarrow> R_FAILED \<notin> set (replica_statuses ro)"
  by (induction ros) (auto simp: run_statuses_def split: if_split_asm)

text \<open>
  For a service, which has one job in each replica, the replicas the scaler counts as active are
  those that run once the failed ones are resubmitted.
\<close>

lemma active_count_running:
  assumes inv: "jobs_inv (rm_jobs run) uid" and rows: "rows_ok run" and one: "dom (view run) \<subseteq> UNIV \<times> {..<1}"
    and oc: "outcomes_of env v run ros" and nofail: "R_FAILED \<notin> set (run_statuses False ros)"
  shows "active_count (map replica_info ros)
    = int (card (fst ` set (replicas_to_retry ros) \<union> running_replica (view run)))"
proof -
  have u: "unique_submissions (rm_jobs run)" using inv by (rule jobs_invD)
  let ?gs = "group_jobs_by_replica_latest (rm_jobs run)"
  have d: "distinct (map ro_num ros)" unfolding outcomes_of_nums [OF oc] by (rule groups_distinct)
  have running: "running_replica (view run) = ro_num ` {ro \<in> set ros. list_all (\<lambda>j. \<not> job_stopped j) (ro_jobs ro)}"
  proof -
    have "?gs = map (\<lambda>ro. (ro_num ro, ro_jobs ro)) ros"
      using oc unfolding outcomes_of_def by (induction rule: list_all2_induct) auto
    then show ?thesis
      unfolding running_replica_def groups_with [OF u, symmetric] by force
  qed
  have act: "replica_active ro \<longleftrightarrow> replica_needs_retry ro \<or> list_all (\<lambda>j. \<not> job_stopped j) (ro_jobs ro)"
    if ro: "ro \<in> set ros" for ro
  proof -
    note m = outcomes_of_member [OF oc ro]
    obtain j where j: "ro_jobs ro = [j]" using single_job_groups [OF u one m(1)] by blast
    with m(2) obtain c where c: "ro_outcomes ro = [c]" "outcome_of env v j c" by (auto simp: list_all2_Cons1)
    have "j \<in> set (rm_jobs run)" using group_latest(3) [OF m(1)] j by simp
    with rows have ok: "reason_ok j" by (simp add: rows_ok_def)
    have "R_FAILED \<notin> set (replica_statuses ro)" using nofail ro by (rule run_statuses_failed)
    then have "c \<noteq> Failed q" for q using c(1) by (auto simp: replica_statuses_def in_map_filter)
    with c(2) job_outcome_cases(1) [OF ok] have "(c = Done \<or> c = ScaledDown \<or> c = Retry) \<longleftrightarrow> job_stopped j"
      unfolding outcome_of_def by blast
    then show ?thesis using j c(1) by (auto simp: replica_active_def replica_needs_retry_def)
  qed
  have retry: "fst ` set (replicas_to_retry ros) = ro_num ` {ro \<in> set ros. replica_needs_retry ro}"
  proof -
    have "R_FAILED \<notin> set (replica_statuses ro)" if "ro \<in> set ros" for ro
      using nofail that by (rule run_statuses_failed)
    then show ?thesis by (force simp: replicas_to_retry_def)
  qed
  have "length (filter replica_active ros) = card (ro_num ` set (filter replica_active ros))"
    using distinct_map_filter [OF d, of replica_active] by (metis distinct_card length_map list.set_map)
  also have "ro_num ` set (filter replica_active ros) = fst ` set (replicas_to_retry ros) \<union> running_replica (view run)"
    unfolding retry running using act by auto
  finally show ?thesis
    by (simp add: active_count_def active_replicas_def filter_map o_def replica_info_def)
qed

section \<open>Errors\<close>

text \<open>
  The jobs of a replica of a specification cannot be made. Composing the commands of a replica writes into
  the specification, so that it is the one of the run as the replicas before have left it.
\<close>

definition jobs_error :: "jc_env \<Rightarrow> RunSpec \<Rightarrow> error \<Rightarrow> bool" where
  "jobs_error jc spec e \<longleftrightarrow> (\<exists>now rs st. snd (create_replicas jc now spec rs st) = Some e)"

lemma create_replicas_error: "create_replicas jc now spec rs st = (st', Some e) \<Longrightarrow> jobs_error jc spec e"
  unfolding jobs_error_def by (metis snd_conv)

lemma scale_run_replicas_error:
  assumes "scale_run_replicas jc now st d = (st', Some e)" and "unique_submissions (rm_jobs (fst st))"
    and "conf_service (spec_configuration (rm_run_spec (fst st))) = Some sv"
    and "d \<noteq> 0 \<Longrightarrow> sv_min_replicas sv \<le> int (card (running_replica (view (fst st)))) + d
      \<and> int (card (running_replica (view (fst st)))) + d \<le> sv_max_replicas sv"
  shows "jobs_error jc (rm_run_spec (fst st)) e"
  using assms scaling_active_replicas(3) [OF assms(2)]
  by (auto simp: scale_run_replicas_def Let_def not_less intro: create_replicas_error split: if_split_asm)

lemma active_statuses_not_failed:
  assumes "new_run_status ss rs b = Inr (s, q)" and "s \<noteq> R_TERMINATING"
  shows "R_FAILED \<notin> set ss"
  using assms by (auto simp: new_run_status_def split: if_split_asm)

text \<open>What can go wrong in a step on an active run.\<close>

definition active_run_error :: "run_env \<Rightarrow> RunModel \<Rightarrow> error \<Rightarrow> bool" where
  "active_run_error env run e \<longleftrightarrow>
     run_model_to_run (re_now env) True False run = Inl e
     \<or> (\<exists>sv. conf_service (spec_configuration (rm_run_spec run)) = Some sv \<and>
         (service_stats env run = Inl e
          \<or> (\<exists>infos stats. service_stats env run = Inr stats \<and> scale (get_service_scaler sv) (re_now env) infos stats = Inl e)
          \<or> jobs_error (re_jc env) (rm_run_spec run) e))"

lemma process_active_error:
  assumes inv: "jobs_inv (rm_jobs run) uid" and rows: "rows_ok run"
    and service: "\<And>sv. conf_service (spec_configuration (rm_run_spec run)) = Some sv \<Longrightarrow>
      sv_min_replicas sv \<le> sv_max_replicas sv \<and> dom (view run) \<subseteq> UNIV \<times> {..<1}"
    and res: "process_active_run env (run, uid) = (st', Some e)"
  shows "active_run_error env run e"
proof -
  obtain run' uid' where st': "st' = (run', uid')" by (cases st')
  from inv rows res [unfolded st'] show ?thesis
  proof (cases rule: process_active_cases)
    case (unread err)
    then show ?thesis by (simp add: active_run_error_def)
  next
    case (acted v f ros s q run2)
    let ?reps = "replicas_to_retry ros"
    obtain run1 uid1 where ret: "retry_replicas (re_now env) ?reps (run\<lparr>rm_fleet_id := f\<rparr>, uid) = (run1, uid1)" by fastforce
    have s: "s \<noteq> R_TERMINATING" and sc: "scale_active_run env ros (run1, uid1) = ((run2, uid'), Some e)"
      using acted(6) ret by (auto simp: act_on_jobs_def retry_active_replicas split: if_split_asm)
    note rv = retry_active_view [OF inv acted(2) ret]
    have f: "rm_run_spec run1 = rm_run_spec run" "service_stats env run1 = service_stats env run"
      using arg_cong [OF rv(2), of rm_run_spec] arg_cong [OF rv(2), of rm_gateway_id] arg_cong [OF rv(2), of rm_run_name]
      by (simp_all add: service_stats_def split: option.split)
    from sc obtain sv where sv: "conf_service (spec_configuration (rm_run_spec run)) = Some sv"
      by (auto simp: scale_active_run_def f split: option.split_asm)
    note b = service [OF sv]
    have count: "active_count (map replica_info ros) = int (card (running_replica (view run1)))"
      using active_count_running [OF inv rows _ acted(2) active_statuses_not_failed [OF acted(3) s]] b rv(4) by simp
    from sc sv consider (stats) "service_stats env run = Inl e"
      | (scaler) stats where "service_stats env run = Inr stats" "scale (get_service_scaler sv) (re_now env) (map replica_info ros) stats = Inl e"
      | (jobs) d stats where "scale (get_service_scaler sv) (re_now env) (map replica_info ros) stats = Inr d"
          "scale_run_replicas (re_jc env) (re_now env) (run1, uid1) d = ((run2, uid'), Some e)"
      by (auto simp: scale_active_run_def f bindE_Inl_conv bindE_Inr_conv split: sum.split_asm)
    then show ?thesis
    proof cases
      case jobs
      have "unique_submissions (rm_jobs run1)" using rv(1) by (rule jobs_invD)
      with scale_run_replicas_error [OF jobs(2)] conf_scaler.in_bounds [OF _ jobs(1)] b sv count
      have "jobs_error (re_jc env) (rm_run_spec run) e" by (simp add: f)
      with sv show ?thesis by (auto simp: active_run_error_def)
    qed (use sv in \<open>auto simp: active_run_error_def\<close>)
  qed
qed

section \<open>The invariant of a run\<close>

definition service_ok :: "RunConfiguration \<Rightarrow> bool" where
  "service_ok conf \<longleftrightarrow> 0 < conf_nodes conf \<and>
     (case conf_service conf of None \<Rightarrow> True | Some sv \<Rightarrow> 0 \<le> sv_min_replicas sv \<and> sv_min_replicas sv \<le> sv_max_replicas sv)"

definition rows_inv :: "RunModel \<times> nat \<Rightarrow> bool" where
  "rows_inv st \<longleftrightarrow> jobs_inv (rm_jobs (fst st)) (snd st) \<and> (\<exists>k. view_replicas (view (fst st)) = {..<k})
     \<and> rows_ok (fst st) \<and> service_ok (spec_configuration (rm_run_spec (fst st)))
     \<and> dom (view (fst st)) \<subseteq> UNIV \<times> {..<conf_nodes (spec_configuration (rm_run_spec (fst st)))}"

definition run_inv :: "RunModel \<times> nat \<Rightarrow> bool" where
  "run_inv st \<longleftrightarrow> rows_inv st \<and> (rm_status (fst st) = R_TERMINATING \<longrightarrow> rm_termination_reason (fst st) \<noteq> None)"

lemma rows_inv_upd [simp]:
  "rows_inv (run\<lparr>rm_status := s\<rparr>, uid) = rows_inv (run, uid)"
  "rows_inv (run\<lparr>rm_termination_reason := q\<rparr>, uid) = rows_inv (run, uid)"
  "rows_inv (run\<lparr>rm_last_processed_at := now\<rparr>, uid) = rows_inv (run, uid)"
  "rows_inv (run\<lparr>rm_fleet_id := f\<rparr>, uid) = rows_inv (run, uid)"
  by (simp_all add: rows_inv_def rows_ok_def)

lemma conf_service_nodes: "conf_service conf = Some sv \<Longrightarrow> conf_nodes conf = 1"
  by (cases conf) simp_all

lemma rows_inv_service:
  assumes "rows_inv (run, uid)" and "conf_service (spec_configuration (rm_run_spec run)) = Some sv"
  shows "0 \<le> sv_min_replicas sv" and "sv_min_replicas sv \<le> sv_max_replicas sv" and "dom (view run) \<subseteq> UNIV \<times> {..<1}"
  using assms conf_service_nodes [OF assms(2)] by (auto simp: rows_inv_def service_ok_def)

text \<open>Rows and specification of a run, up to its other fields.\<close>

lemma rows_inv_rest:
  assumes "rows_inv (run, uid)" and "rm_run_spec run' = rm_run_spec run"
    and "jobs_inv (rm_jobs run') uid'" and "\<exists>k. view_replicas (view run') = {..<k}" and "rows_ok run'"
    and "dom (view run') \<subseteq> dom (view run) \<union> UNIV \<times> {..<conf_nodes (spec_configuration (rm_run_spec run))}"
  shows "rows_inv (run', uid')"
  using assms unfolding rows_inv_def fst_conv snd_conv by (metis Un_least order_refl subset_trans)

lemma rows_inv_pending:
  assumes inv: "rows_inv (run, uid)" and res: "process_pending_run env (run, uid) = ((run', uid'), e)"
  shows "rows_inv (run', uid')" and "rm_status run' = rm_status run \<or> rm_status run' = R_SUBMITTED"
    and "rm_termination_reason run' = rm_termination_reason run"
proof -
  obtain k where i: "jobs_inv (rm_jobs run) uid" "view_replicas (view run) = {..<k}" "rows_ok run"
    "0 < conf_nodes (spec_configuration (rm_run_spec run))"
    using inv by (auto simp: rows_inv_def service_ok_def)
  note pv = process_pending_view [OF i(1,2,4) res]
  then have run': "run' = run\<lparr>rm_jobs := rm_jobs run', rm_status := rm_status run'\<rparr>" by blast
  from pv show "rm_status run' = rm_status run \<or> rm_status run' = R_SUBMITTED" by blast
  show "rm_termination_reason run' = rm_termination_reason run"
    using arg_cong [OF run', of rm_termination_reason] by simp
  have "rm_run_spec run' = rm_run_spec run" using arg_cong [OF run', of rm_run_spec] by simp
  moreover have "rows_ok run'" using rows_ok_pending [of "(run, uid)" env] i(3) res by simp
  ultimately show "rows_inv (run', uid')" using pv by (intro rows_inv_rest [OF inv]) blast+
qed

lemma rows_inv_scale:
  assumes inv: "rows_inv (run, uid)" and res: "scale_run_replicas jc now (run, uid) d = ((run', uid'), e)"
    and sv: "conf_service (spec_configuration (rm_run_spec run)) = Some sv"
  shows "rows_inv (run', uid')" and "run' = run\<lparr>rm_jobs := rm_jobs run'\<rparr>"
proof -
  obtain k where i: "jobs_inv (rm_jobs run) uid" "view_replicas (view run) = {..<k}" "rows_ok run"
    using inv by (auto simp: rows_inv_def)
  note vw = scale_run_replicas_view [OF i(1,2) sv rows_inv_service(1) [OF inv sv] res]
  then show run': "run' = run\<lparr>rm_jobs := rm_jobs run'\<rparr>" by blast
  have "rm_run_spec run' = rm_run_spec run" using arg_cong [OF run', of rm_run_spec] by simp
  moreover have "rows_ok run'" using rows_ok_scale [of "(run, uid)" jc now d] i(3) res by simp
  ultimately show "rows_inv (run', uid')" using vw by (intro rows_inv_rest [OF inv]) blast+
qed

lemma rows_inv_scale_active:
  assumes inv: "rows_inv (run, uid)" and res: "scale_active_run env ros (run, uid) = ((run', uid'), e)"
  shows "rows_inv (run', uid') \<and> run' = run\<lparr>rm_jobs := rm_jobs run'\<rparr>"
proof (cases "conf_service (spec_configuration (rm_run_spec run))")
  case None
  with inv res show ?thesis by (simp add: scale_active_run_def)
next
  case (Some sv)
  from res Some consider "run' = run" "uid' = uid" | d where "scale_run_replicas (re_jc env) (re_now env) (run, uid) d = ((run', uid'), e)"
    by (auto simp: scale_active_run_def split: sum.split_asm)
  then show ?thesis
  proof cases
    case 1
    with inv show ?thesis by simp
  next
    case 2
    from rows_inv_scale [OF inv this Some] show ?thesis by blast
  qed
qed

lemma rows_inv_act:
  assumes inv: "rows_inv (run, uid)" and oc: "outcomes_of env v run ros"
    and act: "act_on_jobs env False ros s (run\<lparr>rm_fleet_id := f\<rparr>, uid) = ((run', uid'), e)"
  shows "rows_inv (run', uid')" and "run' = run\<lparr>rm_fleet_id := f, rm_jobs := rm_jobs run'\<rparr>"
proof -
  let ?r = "run\<lparr>rm_fleet_id := f\<rparr>" and ?reps = "replicas_to_retry ros"
  have inv': "rows_inv (?r, uid)" using inv by simp
  have ji: "jobs_inv (rm_jobs ?r) uid" "jobs_inv (rm_jobs run) uid" "rows_ok ?r"
    using inv' inv by (simp_all add: rows_inv_def)
  consider (halted) "run' = terminate_active ?reps ?r" "uid' = uid" | (none) "run' = ?r" "uid' = uid"
    | (scale) "scale_active_run env ros (retry_replicas (re_now env) ?reps (?r, uid)) = ((run', uid'), e)"
    using act by (auto simp: act_on_jobs_def retry_active_replicas split: if_split_asm)
  then have "rows_inv (run', uid') \<and> run' = ?r\<lparr>rm_jobs := rm_jobs run'\<rparr>"
  proof cases
    case halted
    note tv = terminate_active_view [OF ji(1), of ?reps, folded halted(1)]
    have "rm_run_spec run' = rm_run_spec ?r" using arg_cong [OF tv(3), of rm_run_spec] by simp
    moreover have "rows_ok run'" using ji(3) halted(1) by (simp add: rows_ok_terminate)
    moreover have "\<exists>k. view_replicas (view run') = {..<k}" using tv(2) inv' by (simp add: rows_inv_def view_replicas_def)
    ultimately have "rows_inv (run', uid')" using tv(1,2) halted(2) by (intro rows_inv_rest [OF inv']) simp_all
    with tv(3) show ?thesis by blast
  next
    case none
    with inv' show ?thesis by simp
  next
    case scale
    obtain run1 uid1 where ret: "retry_replicas (re_now env) ?reps (?r, uid) = (run1, uid1)" by fastforce
    note rv = retry_active_view [OF ji(2) oc ret]
    have "rm_run_spec run1 = rm_run_spec ?r" using arg_cong [OF rv(2), of rm_run_spec] by simp
    moreover have "rows_ok run1" using rows_ok_retry_replicas [of "(?r, uid)" "re_now env" ?reps] ji(3) ret by simp
    moreover have "\<exists>k. view_replicas (view run1) = {..<k}" using rv(3) inv' by (simp add: rows_inv_def view_replicas_def)
    ultimately have "rows_inv (run1, uid1)" using rv(1,3) by (intro rows_inv_rest [OF inv']) simp_all
    from rows_inv_scale_active [OF this scale [unfolded ret]] rv(2) show ?thesis
      by (metis RunModel.surjective RunModel.update_convs(14))
  qed
  then show "rows_inv (run', uid')" "run' = run\<lparr>rm_fleet_id := f, rm_jobs := rm_jobs run'\<rparr>" by blast+
qed

end
