(* ===== verification/Run_Requests.thy ===== *)
theory Run_Requests
  imports Run_Scaling
begin

text \<open>
  Correctness of the requests on runs (\<^verbatim>\<open>submit_run\<close>, \<^verbatim>\<open>apply_plan\<close>, \<^verbatim>\<open>stop_runs\<close>,
  \<^verbatim>\<open>delete_runs\<close> of \<^verbatim>\<open>services/runs.py\<close>) on the table of runs: names of live runs are unique
  in a project, active runs are never deleted, a new run has its replicas, and a run is updated in
  place only in the fields that allow it.
\<close>

section \<open>Names\<close>

definition run_key :: "RunModel \<Rightarrow> nat \<times> string" where
  "run_key r = (rm_project_id r, rm_run_name r)"

definition names_unique :: "RunModel list \<Rightarrow> bool" where
  "names_unique runs \<longleftrightarrow> distinct (map run_key (filter (\<lambda>r. \<not> rm_deleted r) runs))"

lemma name_taken_iff:
  "name_taken runs p name \<longleftrightarrow> (p, name) \<in> run_key ` set (filter (\<lambda>r. \<not> rm_deleted r) runs)"
  by (auto simp: name_taken_def list_ex_iff run_key_def)

lemma names_unique_append:
  assumes "names_unique runs" and "\<not> rm_deleted r \<Longrightarrow> \<not> name_taken runs (rm_project_id r) (rm_run_name r)"
  shows "names_unique (runs @ [r])"
  using assms by (auto simp: names_unique_def name_taken_iff run_key_def)

lemma names_unique_map_rows:
  assumes "names_unique runs" and "\<And>r. P r \<Longrightarrow> run_key (f r) = run_key r"
    and "\<And>r. P r \<Longrightarrow> \<not> rm_deleted (f r) \<Longrightarrow> \<not> rm_deleted r"
  shows "names_unique (map_rows P f runs)"
  using assms(1)
proof (induction runs)
  case Nil
  then show ?case by (simp add: names_unique_def)
next
  case (Cons r rs)
  have sub: "run_key ` set (filter (\<lambda>r. \<not> rm_deleted r) (map_rows P f rs))
      \<subseteq> run_key ` set (filter (\<lambda>r. \<not> rm_deleted r) rs)"
    using assms(2,3) by (fastforce simp: set_map_rows)
  have "names_unique rs" using Cons.prems by (auto simp: names_unique_def split: if_split_asm)
  with Cons.IH have IH: "names_unique (map_rows P f rs)" .
  show ?case
    using IH Cons.prems assms(2,3) sub by (auto simp: names_unique_def split: if_split_asm)
qed

section \<open>Generated names\<close>

lemma show_nat_inj: "show_nat m = show_nat n \<Longrightarrow> m = n"
  by (metis nat_of_digits_show_nat)

lemma generate_run_name_Some:
  "generate_run_name fuel runs p base i = Some name \<Longrightarrow> \<not> name_taken runs p name"
  by (induction fuel arbitrary: i) (auto simp: Let_def split: if_split_asm)

lemma generate_run_name_None:
  assumes "generate_run_name fuel runs p base i = None" and "i \<le> k" and "k < i + fuel"
  shows "name_taken runs p (base @ ''-'' @ show_nat k)"
  using assms
proof (induction fuel arbitrary: i)
  case (Suc fuel)
  then show ?case by (cases "k = i") (auto simp: Let_def split: if_split_asm)
qed simp

text \<open>The search for a free name meets as many taken names as there are runs at most.\<close>

lemma generate_run_name_total:
  assumes "length runs < fuel"
  shows "\<exists>name. generate_run_name fuel runs p base i = Some name"
proof (rule ccontr)
  let ?f = "\<lambda>k. base @ ''-'' @ show_nat k"
  assume "\<not> ?thesis"
  then have "generate_run_name fuel runs p base i = None" by (cases "generate_run_name fuel runs p base i") auto
  note none = generate_run_name_None [OF this]
  have "?f ` {i..<i + fuel} \<subseteq> rm_run_name ` set runs"
  proof
    fix name assume "name \<in> ?f ` {i..<i + fuel}"
    then have "name_taken runs p name" using none by auto
    then show "name \<in> rm_run_name ` set runs" by (auto simp: name_taken_def list_ex_iff)
  qed
  then have "card (?f ` {i..<i + fuel}) \<le> card (rm_run_name ` set runs)" by (intro card_mono) auto
  also have "\<dots> \<le> length runs" using card_image_le [of "set runs"] card_length [of runs] le_trans by blast
  finally have "card (?f ` {i..<i + fuel}) \<le> length runs" .
  moreover have "inj_on ?f {i..<i + fuel}" by (auto simp: inj_on_def dest: show_nat_inj)
  then have "card (?f ` {i..<i + fuel}) = fuel" by (simp add: card_image)
  ultimately show False using assms by simp
qed

section \<open>Deleting\<close>

lemma delete_runs_Inr:
  assumes "delete_runs p names runs = Inr runs'"
  shows "runs' = map_rows (\<lambda>r. rm_project_id r = p \<and> rm_run_name r \<in> set names) (\<lambda>r. r\<lparr>rm_deleted := True\<rparr>) runs"
    and "r \<in> set runs \<Longrightarrow> rm_project_id r = p \<Longrightarrow> rm_run_name r \<in> set names \<Longrightarrow> run_is_finished (rm_status r)"
  using assms by (auto simp: delete_runs_def Let_def list_ex_iff split: if_split_asm)

lemma delete_runs_unique:
  assumes "names_unique runs" and "delete_runs p names runs = Inr runs'"
  shows "names_unique runs'" and "n \<in> set names \<Longrightarrow> \<not> name_taken runs' p n"
proof -
  show "names_unique runs'"
    unfolding delete_runs_Inr(1) [OF assms(2)] by (rule names_unique_map_rows [OF assms(1)]) (simp_all add: run_key_def)
  show "n \<in> set names \<Longrightarrow> \<not> name_taken runs' p n"
  proof
    assume n: "n \<in> set names" and "name_taken runs' p n"
    then obtain r where r: "r \<in> set runs'" "rm_project_id r = p" "rm_run_name r = n" "\<not> rm_deleted r"
      by (auto simp: name_taken_def list_ex_iff)
    from r(1) have "(\<exists>s. r = s\<lparr>rm_deleted := True\<rparr>) \<or> \<not> (rm_project_id r = p \<and> rm_run_name r \<in> set names)"
      unfolding delete_runs_Inr(1) [OF assms(2)] set_map_rows by blast
    with n r(2-4) show False by (elim disjE exE) simp_all
  qed
qed

lemma submit_name_Inr:
  assumes "names_unique runs" and "submit_name env p spec runs = Inr (runs', name)"
  shows "names_unique runs'" and "\<not> name_taken runs' p name"
  using assms delete_runs_unique [OF assms(1)]
  by (auto simp: submit_name_def fmapE_Inr_conv get_or_error_def simp del: generate_run_name.simps
      dest!: generate_run_name_Some split: option.split_asm)

section \<open>Submitting\<close>

lemma create_replicas_rest:
  assumes "create_replicas jc now spec rs (run, uid) = ((run', uid'), e)"
  shows "run' = run\<lparr>rm_jobs := rm_jobs run'\<rparr>"
proof -
  have add: "add_jobs now jobs (r, u) = (r', u') \<Longrightarrow> r' = r\<lparr>rm_jobs := rm_jobs r'\<rparr>" for jobs r u r' u'
  proof (induction jobs arbitrary: r u)
    case (Cons j js)
    from Cons.IH [OF Cons.prems [unfolded add_jobs.simps]] show ?case
      by (metis RunModel.surjective RunModel.update_convs(14))
  qed simp
  show ?thesis
    using assms
  proof (induction rs arbitrary: run uid spec)
    case (Cons r rs)
    show ?case
    proof (cases "get_jobs_from_run_spec jc spec r")
      case (Inl err)
      with Cons.prems show ?thesis by auto
    next
      case (Inr q)
      obtain jobs spec' where q: "q = (jobs, spec')" by (cases q)
      obtain r1 u1 where a: "add_jobs now jobs (run, uid) = (r1, u1)" by fastforce
      from Cons.prems Inr q a have c: "create_replicas jc now spec' rs (r1, u1) = ((run', uid'), e)" by simp
      from Cons.IH [OF c] add [OF a] show ?thesis by (metis RunModel.surjective RunModel.update_convs(14))
    qed
  qed simp
qed

text \<open>New rows are submitted and not placed.\<close>

definition fresh_row :: "JobModel \<Rightarrow> bool" where
  "fresh_row j \<longleftrightarrow> jm_status j = J_SUBMITTED \<and> jm_submission_num j = 0 \<and> jm_termination_reason j = None
     \<and> \<not> jm_instance_assigned j \<and> jm_instance_id j = None \<and> jm_job_provisioning_data j = None"

lemma add_jobs_fresh:
  assumes "add_jobs now jobs (run, uid) = (run', uid')" and "\<forall>j \<in> set jobs. job_submissions j = []"
  shows "\<forall>j \<in> set (rm_jobs run'). j \<in> set (rm_jobs run) \<or> fresh_row j"
  using assms
proof (induction jobs arbitrary: run uid)
  case (Cons job jobs)
  then show ?case by (fastforce simp: create_job_model_for_new_submission_def fresh_row_def)
qed simp

lemma create_replicas_fresh:
  assumes "create_replicas jc now spec rs (run, uid) = ((run', uid'), e)"
  shows "\<forall>j \<in> set (rm_jobs run'). j \<in> set (rm_jobs run) \<or> fresh_row j"
  using assms
proof (induction rs arbitrary: run uid spec)
  case (Cons r rs)
  show ?case
  proof (cases "get_jobs_from_run_spec jc spec r")
    case (Inl err)
    with Cons.prems show ?thesis by auto
  next
    case (Inr q)
    obtain jobs spec' where q: "q = (jobs, spec')" by (cases q)
    obtain r1 u1 where a: "add_jobs now jobs (run, uid) = (r1, u1)" by fastforce
    from Cons.prems Inr q a have c: "create_replicas jc now spec' rs (r1, u1) = ((run', uid'), e)" by simp
    have "\<forall>j \<in> set jobs. job_submissions j = []" using Inr q by (auto simp: get_jobs_from_run_spec_def fmapE_Inr_conv)
    from Cons.IH [OF c] add_jobs_fresh [OF a this] show ?thesis by blast
  qed
qed simp

definition expected_replicas :: "RunConfiguration \<Rightarrow> nat" where
  "expected_replicas conf = (case conf_service conf of None \<Rightarrow> 1 | Some sv \<Rightarrow> nat (sv_min_replicas sv))"

lemma build_run_Inr:
  assumes "build_run env volumes p u repo spec name uid = Inr (run, uid')"
    and nodes: "0 < conf_nodes (spec_configuration spec)"
  shows "rm_id run = uid" and "rm_project_id run = p" and "rm_run_name run = name" and "rm_status run = R_SUBMITTED"
    and "rm_run_spec run = spec" and "\<not> rm_deleted run"
    and "jobs_inv (rm_jobs run) uid'"
    and "view_replicas (view run) = {..<expected_replicas (spec_configuration spec)}"
    and "running_replica (view run) = {..<expected_replicas (spec_configuration spec)}"
    and "dom (view run) \<subseteq> UNIV \<times> {..<conf_nodes (spec_configuration spec)}"
    and "\<exists>run1. rm_jobs run1 = [] \<and> create_replicas (se_jc env) (se_now env) spec
      [0..<expected_replicas (spec_configuration spec)] (run1, Suc uid) = ((run, uid'), None)"
proof -
  let ?new = "new_run (se_now env) uid p u repo spec name"
  let ?n = "expected_replicas (spec_configuration spec)"
  obtain run1 where run1: "create_replicas (se_jc env) (se_now env) spec [0..<?n] (run1, Suc uid) = ((run, uid'), None)"
    and rest: "run1 = ?new\<lparr>rm_gateway_id := rm_gateway_id run1, rm_service_spec := rm_service_spec run1\<rparr>"
  proof (cases "conf_service (spec_configuration spec)")
    case None
    then have "create_replicas (se_jc env) (se_now env) spec [0..<?n] (?new, Suc uid) = ((run, uid'), None)"
      using assms(1) by (auto simp: build_run_def bindE_Inr_conv completed_Inr_conv expected_replicas_def Let_def simp del: create_replicas.simps)
    then show thesis by (rule that) simp
  next
    case (Some sv)
    then obtain run1 where "register_service (se_tokenizer env) (se_gateway env) (se_forbid_without_gateway env)
        (se_gateways env) (se_default_gateway env) (se_project_name env) ?new (spec_configuration spec) = Inr run1"
      and "create_replicas (se_jc env) (se_now env) spec [0..<?n] (run1, Suc uid) = ((run, uid'), None)"
      using assms(1) by (auto simp: build_run_def bindE_Inr_conv fmapE_Inr_conv completed_Inr_conv expected_replicas_def Let_def simp del: create_replicas.simps)
    then show thesis using register_service_rest that by blast
  qed
  from create_replicas_rest [OF run1] have run: "run = run1\<lparr>rm_jobs := rm_jobs run\<rparr>" .
  have f: "rm_id run1 = uid" "rm_project_id run1 = p" "rm_run_name run1 = name" "rm_status run1 = R_SUBMITTED"
    "rm_run_spec run1 = spec" "\<not> rm_deleted run1" "rm_jobs run1 = []"
    by (subst rest, simp add: new_run_def)+
  show "rm_id run = uid" "rm_project_id run = p" "rm_run_name run = name" "rm_status run = R_SUBMITTED"
    "rm_run_spec run = spec" "\<not> rm_deleted run" by (subst run, simp add: f)+
  have inv: "jobs_inv (rm_jobs run1) (Suc uid)" by (simp add: f jobs_inv_def unique_submissions_def)
  have empty: "view_replicas (view run1) = {}" by (simp add: f view_replicas_jobs)
  have dom: "dom (view run1) = {}" by (auto simp: f latest_view_None)
  have "running_replica (view run1) = {}" using empty by (simp add: running_replica_def replicas_with_def)
  with create_replicas_view [OF inv nodes _ _ run1] empty
  show "jobs_inv (rm_jobs run) uid'" "view_replicas (view run) = {..<?n}" "running_replica (view run) = {..<?n}"
    by (simp_all add: atLeast0LessThan)
  show "dom (view run) \<subseteq> UNIV \<times> {..<conf_nodes (spec_configuration spec)}"
  proof -
    have "set [0..<?n] \<inter> view_replicas (view run1) = {}" by (simp add: empty)
    from create_replicas_view [OF inv nodes _ this run1]
    have "dom (view run) \<subseteq> dom (view run1) \<union> UNIV \<times> {..<conf_nodes (spec_configuration spec)}" by simp
    with dom show ?thesis by simp
  qed
  show "\<exists>run1. rm_jobs run1 = [] \<and> create_replicas (se_jc env) (se_now env) spec [0..<?n] (run1, Suc uid) = ((run, uid'), None)"
    using f(7) run1 by blast
qed

lemma validate_defaults_conf:
  "validate_run_spec_and_set_defaults spec = Inr spec' \<Longrightarrow> spec_configuration spec' = spec_configuration spec"
  by (auto simp: validate_run_spec_and_set_defaults_def bindE_Inr_conv split: if_split_asm option.split_asm)

text \<open>What a request may do to the rows it does not create.\<close>

definition deleted_only_finished :: "RunModel list \<Rightarrow> RunModel list \<Rightarrow> bool" where
  "deleted_only_finished = list_all2 (\<lambda>r r'. r' = r \<or> (run_is_finished (rm_status r) \<and> r' = r\<lparr>rm_deleted := True\<rparr>))"

lemma deleted_only_finished_refl [simp]: "deleted_only_finished runs runs"
  by (simp add: deleted_only_finished_def list_all2_refl)

lemma delete_runs_only_finished:
  assumes "delete_runs p names runs = Inr runs'"
  shows "deleted_only_finished runs runs'"
  unfolding delete_runs_Inr(1) [OF assms] deleted_only_finished_def map_rows_def
  using delete_runs_Inr(2) [OF assms] by (auto simp: list.rel_map intro!: list.rel_refl_strong)

lemma submit_name_only_finished:
  "submit_name env p spec runs = Inr (runs', name) \<Longrightarrow> deleted_only_finished runs runs'"
  by (auto simp: submit_name_def fmapE_Inr_conv delete_runs_only_finished split: option.split_asm)

lemma submit_run_cases:
  assumes "submit_run env volumes p u spec0 runs uid = (runs', res)"
  obtains (refused) e where "runs' = runs" "res = Inl e"
  | (renamed) spec1 repo rs name where "validate_run_spec_and_set_defaults spec0 = Inr spec1"
      "submit_name env p spec1 runs = Inr (rs, name)"
      "(\<exists>e. runs' = rs \<and> res = Inl e) \<or> (\<exists>row uid'. runs' = rs @ [row]
         \<and> build_run env volumes p u repo (spec1\<lparr>spec_run_name := Some name\<rparr>) name uid = Inr (row, uid')
         \<and> res = fmapE (\<lambda>r. (r, uid')) (run_model_to_run (se_now env) True True row))"
proof -
  let ?pre = "bindE (validate_run_spec_and_set_defaults spec0) (\<lambda>spec1.
           bindE (case se_repo env (the (spec_repo_id spec1)) of
                    None \<Rightarrow> Inl (RepoDoesNotExistError (the (spec_repo_id spec1))) | Some r \<Rightarrow> Inr r) (\<lambda>repo_id.
           bindE (submit_name env p spec1 runs) (\<lambda>(rs, name). Inr (spec1, repo_id, rs, name))))"
  show thesis
  proof (cases ?pre)
    case (Inl e)
    then have "runs' = runs" "res = Inl e" using assms by (simp_all add: submit_run_def)
    then show thesis by (rule refused)
  next
    case (Inr q)
    obtain spec1 repo rs name where q: "q = (spec1, repo, rs, name)" by (cases q)
    have v: "validate_run_spec_and_set_defaults spec0 = Inr spec1" "submit_name env p spec1 runs = Inr (rs, name)"
      using Inr q by (auto simp: bindE_Inr_conv)
    have "(runs', res) = (case build_run env volumes p u repo (spec1\<lparr>spec_run_name := Some name\<rparr>) name uid of
             Inl e \<Rightarrow> (rs, Inl e)
           | Inr (run, uid') \<Rightarrow> (rs @ [run], fmapE (\<lambda>r. (r, uid')) (run_model_to_run (se_now env) True True run)))"
      using assms Inr unfolding submit_run_def q by simp
    then show thesis using renamed [OF v] by (auto split: sum.split_asm)
  qed
qed

lemma submit_run_active:
  assumes "names_unique runs" and "0 < conf_nodes (spec_configuration spec)"
    and "submit_run env volumes p u spec runs uid = (runs', res)"
    and "r \<in> set runs" and "\<not> run_is_finished (rm_status r)"
  shows "names_unique runs' \<and> r \<in> set runs'"
  using assms(3)
proof (cases rule: submit_run_cases)
  case (refused e)
  with assms show ?thesis by simp
next
  case (renamed spec1 repo rs name)
  note u = submit_name_Inr [OF assms(1) renamed(2)]
  have "deleted_only_finished runs rs" using renamed(2) by (rule submit_name_only_finished)
  then have "r \<in> set rs" using assms(4,5) by (auto simp: deleted_only_finished_def in_set_conv_nth list_all2_conv_all_nth)
  moreover from renamed(3) have "names_unique runs'"
  proof (elim disjE exE conjE)
    fix row uid'
    assume row: "runs' = rs @ [row]"
      and b: "build_run env volumes p u repo (spec1\<lparr>spec_run_name := Some name\<rparr>) name uid = Inr (row, uid')"
    have "0 < conf_nodes (spec_configuration (spec1\<lparr>spec_run_name := Some name\<rparr>))"
      using assms(2) validate_defaults_conf [OF renamed(1)] by simp
    from build_run_Inr [OF b this] show ?thesis
      unfolding row by (intro names_unique_append) (simp_all add: u)
  qed (simp add: u)
  ultimately show ?thesis using renamed(3) by auto
qed

text \<open>The fields that must agree for a service to be updated in place.\<close>

fun same_service :: "RunConfiguration \<Rightarrow> RunConfiguration \<Rightarrow> bool" where
  "same_service (ServiceConfiguration b s) (ServiceConfiguration b' s') \<longleftrightarrow> b' = b
     \<and> sv_commands s' = sv_commands s \<and> sv_port s' = sv_port s \<and> sv_gateway s' = sv_gateway s
     \<and> sv_model s' = sv_model s \<and> sv_https s' = sv_https s \<and> sv_auth s' = sv_auth s"
| "same_service _ _ \<longleftrightarrow> False"

definition same_run :: "RunSpec \<Rightarrow> RunSpec \<Rightarrow> bool" where
  "same_run spec spec' \<longleftrightarrow> spec_run_name spec' = spec_run_name spec \<and> spec_repo_id spec' = spec_repo_id spec
     \<and> spec_repo_data spec' = spec_repo_data spec \<and> spec_working_dir spec' = spec_working_dir spec
     \<and> spec_configuration_path spec' = spec_configuration_path spec \<and> spec_profile spec' = spec_profile spec
     \<and> spec_ssh_key_pub spec' = spec_ssh_key_pub spec \<and> spec_merged_profile spec' = spec_merged_profile spec
     \<and> same_service (spec_configuration spec) (spec_configuration spec')"

lemma can_update_same_run: "can_update_run_spec spec spec' \<longleftrightarrow> same_run spec spec'"
proof -
  have s: "s'\<lparr>sv_min_replicas := sv_min_replicas s, sv_max_replicas := sv_max_replicas s,
      sv_scaling := sv_scaling s, sv_strip_prefix := sv_strip_prefix s\<rparr> = s \<longleftrightarrow>
    sv_commands s' = sv_commands s \<and> sv_port s' = sv_port s \<and> sv_gateway s' = sv_gateway s
     \<and> sv_model s' = sv_model s \<and> sv_https s' = sv_https s \<and> sv_auth s' = sv_auth s" for s s' :: ServiceParams
    by (cases s, cases s') auto
  have r: "spec'\<lparr>spec_repo_code_hash := spec_repo_code_hash spec, spec_configuration := c\<rparr> = spec \<longleftrightarrow>
    spec_run_name spec' = spec_run_name spec \<and> spec_repo_id spec' = spec_repo_id spec
     \<and> spec_repo_data spec' = spec_repo_data spec \<and> spec_working_dir spec' = spec_working_dir spec
     \<and> spec_configuration_path spec' = spec_configuration_path spec \<and> spec_profile spec' = spec_profile spec
     \<and> spec_ssh_key_pub spec' = spec_ssh_key_pub spec \<and> spec_merged_profile spec' = spec_merged_profile spec"
    if "spec_configuration spec = c" for c
    using that by (cases spec, cases spec') auto
  show ?thesis
    by (cases "spec_configuration spec"; cases "spec_configuration spec'")
      (simp_all add: can_update_run_spec_def check_can_update_run_spec_def same_run_def r s, blast)
qed

lemma check_can_update_same_run: "check_can_update_run_spec spec spec' = Inr x \<Longrightarrow> same_run spec spec'"
  unfolding can_update_same_run [symmetric] can_update_run_spec_def by simp

lemma get_run_by_name_mem: "get_run_by_name p name runs = Some r \<Longrightarrow> r \<in> set runs"
  by (auto simp: get_run_by_name_def find_Some_iff)

lemma apply_plan_cases:
  assumes "apply_plan env volumes p u spec expected force runs uid = (runs', res)"
    and "validate_run_spec_and_set_defaults spec = Inr spec1"
  obtains "submit_run env volumes p u spec1 runs uid = (runs', res)" | "runs' = runs"
  | cur where "cur \<in> set runs" "same_run (rm_run_spec cur) spec1"
      "runs' = map_rows (\<lambda>r. rm_id r = rm_id cur) (\<lambda>r. r\<lparr>rm_run_spec := spec1\<rparr>) runs"
proof -
  note eq = assms(1) [unfolded apply_plan_def assms(2) Let_def, simplified]
  show thesis
  proof (cases "spec_run_name spec1")
    case None
    then show thesis using eq that(1) by simp
  next
    case name: (Some name)
    show thesis
    proof (cases "get_run_by_name p name runs")
      case None
      then show thesis using eq name that(1) by simp
    next
      case cur: (Some cur)
      show thesis
      proof (cases "run_is_finished (rm_status cur)")
        case True
        then show thesis using eq name cur that(1,2) by (cases "run_model_to_run (se_now env) True True cur") simp_all
      next
        case False
        have "runs' = runs \<or> (same_run (rm_run_spec cur) spec1
            \<and> runs' = map_rows (\<lambda>r. rm_id r = rm_id cur) (\<lambda>r. r\<lparr>rm_run_spec := spec1\<rparr>) runs)"
        proof (cases "run_model_to_run (se_now env) True True cur")
          case (Inl e)
          then show ?thesis using eq name cur by simp
        next
          case (Inr v)
          then show ?thesis
            using eq name cur False check_can_update_same_run [of "rm_run_spec cur" spec1]
            by (cases "check_can_update_run_spec (rm_run_spec cur) spec1") (simp_all split: if_split_asm)
        qed
        then show thesis using that(2,3) get_run_by_name_mem [OF cur] by blast
      qed
    qed
  qed
qed

lemma terminate_run_job_effect:
  assumes "terminate_run_job key instances now reason j = Inr j'"
  shows "if job_is_finished (jm_status j) then j' = j
    else jm_status j' = J_TERMINATING \<and> jm_id j' = jm_id j \<and> job_key j' = job_key j
      \<and> jm_termination_reason j' = (if jm_status j = J_TERMINATING \<and> reason \<noteq> J_ABORTED_BY_USER
           then jm_termination_reason j else Some reason)"
proof -
  have d: "jm_id (delay_job_instance_termination now i) = jm_id i"
    "job_key (delay_job_instance_termination now i) = job_key i" for i
    by (simp_all add: delay_job_instance_termination_def job_key_def)
  have k: "job_key (i\<lparr>jm_termination_reason := q\<rparr>) = job_key i" "job_key (i\<lparr>jm_last_processed_at := now\<rparr>) = job_key i" for i q
    by (simp_all add: job_key_def)
  consider "job_is_finished (jm_status j)" | "jm_status j = J_TERMINATING"
    | i where "\<not> job_is_finished (jm_status j)" "jm_status j \<noteq> J_TERMINATING"
        "i = j \<or> i = delay_job_instance_termination now j" "j' = (terminate_row reason i)\<lparr>jm_last_processed_at := now\<rparr>"
    using assms by (auto simp: terminate_run_job_def bindE_Inr_conv fmapE_Inr_conv split: if_split_asm)
  then show ?thesis
  proof cases
    case 3
    then show ?thesis using k d by auto
  qed (use assms k in \<open>auto simp: terminate_run_job_def split: if_split_asm\<close>)
qed

section \<open>Properties\<close>

text \<open>
  C20. Submitting a run keeps the names of live runs unique, whether or not it succeeds: rows are only
  marked deleted, and only of finished runs. When it succeeds the table has one row more, a submitted
  run with the requested number of replicas; every job of it is submitted for the first time and has neither
  an instance nor a reason to terminate.
\<close>

theorem submit_run_correct:
  assumes "names_unique runs" and "0 < conf_nodes (spec_configuration spec)"
    and "submit_run env volumes p u spec runs uid = (runs', res)"
  shows "names_unique runs' \<and> (\<exists>rs. deleted_only_finished runs rs \<and>
    (case res of Inl e \<Rightarrow> runs' = rs \<or> (\<exists>row. runs' = rs @ [row])
     | Inr (run, uid') \<Rightarrow> \<exists>row. runs' = rs @ [row] \<and> rm_status row = R_SUBMITTED \<and> rm_project_id row = p
         \<and> jobs_inv (rm_jobs row) uid' \<and> (\<forall>j \<in> set (rm_jobs row). fresh_row j)
         \<and> view_replicas (view row) = {..<expected_replicas (spec_configuration spec)}
         \<and> running_replica (view row) = {..<expected_replicas (spec_configuration spec)}))"
  using assms(3)
proof (cases rule: submit_run_cases)
  case (refused e)
  with assms(1) show ?thesis by (auto intro!: exI [of _ runs])
next
  case (renamed spec1 repo rs name)
  note u = submit_name_Inr [OF assms(1) renamed(2)] and d = submit_name_only_finished [OF renamed(2)]
  let ?spec = "spec1\<lparr>spec_run_name := Some name\<rparr>"
  from renamed(3) show ?thesis
  proof (elim disjE exE conjE)
    fix e assume "runs' = rs" "res = Inl e"
    with u d show ?thesis by auto
  next
    fix row uid'
    assume row: "runs' = rs @ [row]" "build_run env volumes p u repo ?spec name uid = Inr (row, uid')"
      and res: "res = fmapE (\<lambda>r. (r, uid')) (run_model_to_run (se_now env) True True row)"
    have conf: "spec_configuration ?spec = spec_configuration spec" using validate_defaults_conf [OF renamed(1)] by simp
    have nodes: "0 < conf_nodes (spec_configuration ?spec)" using assms(2) conf by simp
    note b = build_run_Inr [OF row(2) nodes, unfolded conf]
    have fresh: "\<forall>j \<in> set (rm_jobs row). fresh_row j" using b(11) create_replicas_fresh by fastforce
    have "names_unique runs'" unfolding row(1) by (rule names_unique_append) (simp_all add: u b)
    then show ?thesis
      using d row(1) b res fresh by (cases "run_model_to_run (se_now env) True True row") auto
  qed
qed

definition demo_submit_env :: submit_env where
  "demo_submit_env = \<lparr>se_now = 0, se_jc = demo_jc_env, se_repo = (\<lambda>_. Some 1), se_name_base = ''quick-fox'',
     se_tokenizer = (\<lambda>_ _. Inl KeyError), se_gateway = Inr (), se_forbid_without_gateway = False,
     se_gateways = [], se_default_gateway = None, se_project_name = ''main''\<rparr>"

lemma demo_submit:
  "(case snd (submit_run demo_submit_env [] 1 1 (sample_run_spec sample_task) [sample_run sample_task R_DONE []] 10) of
     Inr (run, uid') \<Rightarrow> uid' = 13 | Inl _ \<Rightarrow> False)"
  by code_simp

theorem submit_run_correct_witness:
  "\<exists>rs row run. submit_run demo_submit_env [] 1 1 (sample_run_spec sample_task) [sample_run sample_task R_DONE []] 10
       = (rs @ [row], Inr (run, 13)) \<and> names_unique (rs @ [row]) \<and> running_replica (view row) = {..<1}
     \<and> (\<forall>j \<in> set (rm_jobs row). fresh_row j)"
proof -
  let ?runs = "[sample_run sample_task R_DONE []]" and ?spec = "sample_run_spec sample_task"
  obtain runs' run where s: "submit_run demo_submit_env [] 1 1 ?spec ?runs 10 = (runs', Inr (run, 13))"
    using demo_submit by (cases "submit_run demo_submit_env [] 1 1 ?spec ?runs 10") (auto split: sum.split_asm)
  have "names_unique ?runs" "0 < conf_nodes (spec_configuration ?spec)"
    by (simp_all add: names_unique_def sample_run_spec_def sample_task_def)
  from submit_run_correct [OF this s] obtain rs row where "runs' = rs @ [row]" "names_unique runs'"
    "running_replica (view row) = {..<expected_replicas (spec_configuration ?spec)}" "\<forall>j \<in> set (rm_jobs row). fresh_row j" by auto
  moreover have "expected_replicas (spec_configuration ?spec) = 1"
    by (simp add: expected_replicas_def sample_run_spec_def sample_task_def)
  ultimately show ?thesis using s by auto
qed

text \<open>
  C31. The unbounded search for a free run name ends: with one step more than there are runs it has
  found a name that no live run of the project has.
\<close>

theorem generate_run_name_terminates:
  "\<exists>name. generate_run_name (Suc (length runs)) runs p base 1 = Some name \<and> \<not> name_taken runs p name"
  using generate_run_name_total [of runs "Suc (length runs)" p base 1] generate_run_name_Some by blast

text \<open>
  C21. Applying a configuration never loses or restarts an active run: it is still there with its jobs
  and status, and if its specification has changed then only in the updatable fields of a service
  (the code, the replicas, the scaling, the prefix). Names stay unique.
\<close>

theorem apply_plan_keeps_active:
  assumes "names_unique runs" and "distinct (map rm_id runs)" and "0 < conf_nodes (spec_configuration spec)"
    and "apply_plan env volumes p u spec expected force runs uid = (runs', res)"
    and "r \<in> set runs" and "\<not> run_is_finished (rm_status r)"
  shows "names_unique runs' \<and> (\<exists>spec'. r\<lparr>rm_run_spec := spec'\<rparr> \<in> set runs'
    \<and> (spec' = rm_run_spec r \<or> same_run (rm_run_spec r) spec'))"
proof -
  let ?ok = "names_unique runs' \<and> (\<exists>spec'. r\<lparr>rm_run_spec := spec'\<rparr> \<in> set runs'
    \<and> (spec' = rm_run_spec r \<or> same_run (rm_run_spec r) spec'))"
  have self: "r\<lparr>rm_run_spec := rm_run_spec r\<rparr> = r" by simp
  have same: ?ok if "runs' = runs"
    using that assms(1,5) self by metis
  have submit: ?ok if s: "submit_run env volumes p u spec' runs uid = (runs', res)"
    and c: "spec_configuration spec' = spec_configuration spec" for spec'
    using submit_run_active [OF assms(1) _ s assms(5,6)] c assms(3) self by metis
  show ?thesis
  proof (cases "validate_run_spec_and_set_defaults spec")
    case (Inl e)
    then show ?thesis using assms(4) same by (simp add: apply_plan_def)
  next
    case (Inr spec1)
    note c = validate_defaults_conf [OF Inr]
    consider "submit_run env volumes p u spec1 runs uid = (runs', res)" | "runs' = runs"
      | (update) cur where "cur \<in> set runs" "same_run (rm_run_spec cur) spec1"
         "runs' = map_rows (\<lambda>r. rm_id r = rm_id cur) (\<lambda>r. r\<lparr>rm_run_spec := spec1\<rparr>) runs"
      using assms(4) Inr by (rule apply_plan_cases)
    then show ?thesis
    proof cases
      case update
      have "names_unique runs'"
        unfolding update(3) by (rule names_unique_map_rows [OF assms(1)]) (simp_all add: run_key_def)
      moreover have "r = cur" if "rm_id r = rm_id cur"
        using that assms(2,5) update(1) by (auto simp: distinct_map inj_on_def)
      then have "(if rm_id r = rm_id cur then r\<lparr>rm_run_spec := spec1\<rparr> else r) \<in> set runs'"
        unfolding update(3) map_rows_def set_map using assms(5) by (rule_tac image_eqI) auto
      ultimately show ?thesis using update(2) self \<open>rm_id r = rm_id cur \<Longrightarrow> r = cur\<close> by (metis (full_types))
    qed (use submit c same in blast)+
  qed
qed

definition demo_update_spec :: "int \<Rightarrow> RunSpec" where
  "demo_update_spec n = (sample_run_spec (ServiceConfiguration sample_base (sample_service_params\<lparr>sv_max_replicas := n\<rparr>)))
     \<lparr>spec_repo_id := Some ''r'', spec_repo_data := Some ''virtual''\<rparr>"

definition demo_update_run :: RunModel where
  "demo_update_run = demo_service_run\<lparr>rm_run_spec := demo_update_spec 4\<rparr>"

lemma demo_apply:
  "(case apply_plan demo_submit_env [] 1 1 (demo_update_spec 6) None True [demo_update_run] 9 of
     (runs', Inr _) \<Rightarrow> map rm_run_spec runs' = [demo_update_spec 6] | _ \<Rightarrow> False)"
  by code_simp

theorem apply_plan_keeps_active_witness:
  "\<exists>runs' res spec'. apply_plan demo_submit_env [] 1 1 (demo_update_spec 6) None True [demo_update_run] 9 = (runs', Inr res)
     \<and> names_unique runs' \<and> demo_update_run\<lparr>rm_run_spec := spec'\<rparr> \<in> set runs'
     \<and> same_run (demo_update_spec 4) spec'"
proof -
  obtain runs' res where a: "apply_plan demo_submit_env [] 1 1 (demo_update_spec 6) None True [demo_update_run] 9 = (runs', Inr res)"
    and specs: "map rm_run_spec runs' = [demo_update_spec 6]"
    using demo_apply by (auto split: prod.split_asm sum.split_asm)
  have u: "names_unique [demo_update_run]" "distinct (map rm_id [demo_update_run])"
    "0 < conf_nodes (spec_configuration (demo_update_spec 6))" "demo_update_run \<in> set [demo_update_run]"
    "\<not> run_is_finished (rm_status demo_update_run)" "rm_run_spec demo_update_run = demo_update_spec 4"
    by (simp_all add: names_unique_def demo_update_spec_def sample_run_spec_def demo_update_run_def demo_service_run_def sample_run_def)
  from apply_plan_keeps_active [OF u(1-3) a u(4,5)] obtain spec' where
    s: "names_unique runs'" "demo_update_run\<lparr>rm_run_spec := spec'\<rparr> \<in> set runs'"
      "spec' = demo_update_spec 4 \<or> same_run (demo_update_spec 4) spec'" by (auto simp: u(6))
  have "spec' \<in> rm_run_spec ` set runs'" using s(2) by force
  then have "spec' = demo_update_spec 6" using arg_cong [OF specs, of set] by simp
  moreover have "demo_update_spec 6 \<noteq> demo_update_spec 4" by (simp add: demo_update_spec_def sample_run_spec_def sample_service_params_def)
  ultimately show ?thesis using a s by blast
qed

text \<open>
  C22. A step on a terminating run: it needs a reason; finished jobs are left alone, every other job is
  terminating afterwards, with the job reason that belongs to the run's one or the reason it had; an
  abort overrides the reason of jobs that were terminating already. The run gets its final status
  exactly when all its jobs had finished.
\<close>

theorem process_terminating_run_effect:
  assumes "process_terminating_run key instances now run = Inr run'"
  shows "\<exists>reason. rm_termination_reason run = Some reason \<and> run' = run\<lparr>rm_jobs := rm_jobs run', rm_status := rm_status run'\<rparr>
    \<and> rm_status run' = (if \<forall>j \<in> set (rm_jobs run). job_is_finished (jm_status j) then run_reason_to_status reason else rm_status run)
    \<and> list_all2 (\<lambda>j j'. if job_is_finished (jm_status j) then j' = j
         else jm_status j' = J_TERMINATING \<and> jm_id j' = jm_id j \<and> job_key j' = job_key j
           \<and> jm_termination_reason j' = (if jm_status j = J_TERMINATING \<and> reason \<noteq> ABORTED_BY_USER
                then jm_termination_reason j else Some (to_job_termination_reason reason)))
        (rm_jobs run) (rm_jobs run')"
proof -
  obtain reason jobs where reason: "rm_termination_reason run = Some reason"
    and jobs: "mapE (terminate_run_job key instances now (to_job_termination_reason reason)) (rm_jobs run) = Inr jobs"
    and run': "run' = (if list_all (\<lambda>j. job_is_finished (jm_status j)) (rm_jobs run)
             then run\<lparr>rm_jobs := jobs, rm_status := run_reason_to_status reason\<rparr> else run\<lparr>rm_jobs := jobs\<rparr>)"
    using assms by (auto simp: process_terminating_run_def bindE_Inr_conv split: option.split_asm)
  have ab: "to_job_termination_reason reason = J_ABORTED_BY_USER \<longleftrightarrow> reason = ABORTED_BY_USER" by (cases reason) simp_all
  let ?P = "\<lambda>j j'. if job_is_finished (jm_status j) then j' = j
         else jm_status j' = J_TERMINATING \<and> jm_id j' = jm_id j \<and> job_key j' = job_key j
           \<and> jm_termination_reason j' = (if jm_status j = J_TERMINATING \<and> reason \<noteq> ABORTED_BY_USER
                then jm_termination_reason j else Some (to_job_termination_reason reason))"
  have "?P j j'" if "terminate_run_job key instances now (to_job_termination_reason reason) j = Inr j'" for j j'
    using terminate_run_job_effect [OF that] unfolding ab .
  with jobs have "list_all2 ?P (rm_jobs run) jobs"
    unfolding mapE_Inr_conv by (rule list_all2_mono) blast
  with reason run' show ?thesis by (auto simp: list_all_iff)
qed

definition demo_stopping_run :: RunModel where
  "demo_stopping_run = (sample_run sample_task R_TERMINATING
     [sample_job 1 0 0 0 J_DONE, sample_job 2 0 1 0 J_PULLING])\<lparr>rm_termination_reason := Some STOPPED_BY_USER\<rparr>"

lemma demo_stopping:
  "(case process_terminating_run ''key'' [] 5 demo_stopping_run of
     Inr run' \<Rightarrow> map jm_status (rm_jobs run') = [J_DONE, J_TERMINATING] | Inl _ \<Rightarrow> False)"
  by code_simp

theorem process_terminating_run_effect_witness:
  "\<exists>run'. process_terminating_run ''key'' [] 5 demo_stopping_run = Inr run' \<and> rm_status run' = R_TERMINATING
     \<and> map jm_status (rm_jobs run') = [J_DONE, J_TERMINATING]"
proof -
  obtain run' where r: "process_terminating_run ''key'' [] 5 demo_stopping_run = Inr run'"
    "map jm_status (rm_jobs run') = [J_DONE, J_TERMINATING]"
    using demo_stopping by (auto split: sum.split_asm)
  from process_terminating_run_effect [OF r(1)] r show ?thesis
    by (auto simp: demo_stopping_run_def row_simps)
qed

text \<open>
  A submission under the name of a finished run deletes that run before the new specification is
  validated: when a volume of it does not exist the request fails and the old run is gone all the same.
\<close>

theorem submit_run_deletes_before_validation:
  "map rm_deleted (fst (submit_run demo_submit_env [] 1 1
       (sample_run_spec (TaskConfiguration (sample_base\<lparr>bc_volumes := [VolumeMountPoint (OneName ''data'') ''/data'']\<rparr>)
          \<lparr>tk_commands = [''train''], tk_ports = [], tk_nodes = 1\<rparr>))
       [sample_run sample_task R_DONE []] 10)) = [True]
   \<and> (\<forall>r. snd (submit_run demo_submit_env [] 1 1
       (sample_run_spec (TaskConfiguration (sample_base\<lparr>bc_volumes := [VolumeMountPoint (OneName ''data'') ''/data'']\<rparr>)
          \<lparr>tk_commands = [''train''], tk_ports = [], tk_nodes = 1\<rparr>))
       [sample_run sample_task R_DONE []] 10) \<noteq> Inr r)"
proof -
  let ?s = "submit_run demo_submit_env [] 1 1
       (sample_run_spec (TaskConfiguration (sample_base\<lparr>bc_volumes := [VolumeMountPoint (OneName ''data'') ''/data'']\<rparr>)
          \<lparr>tk_commands = [''train''], tk_ports = [], tk_nodes = 1\<rparr>))
       [sample_run sample_task R_DONE []] 10"
  have "map rm_deleted (fst ?s) = [True]" by code_simp
  moreover have "\<not> (case snd ?s of Inr _ \<Rightarrow> True | Inl _ \<Rightarrow> False)" by code_simp
  then have "\<forall>r. snd ?s \<noteq> Inr r" by (auto split: sum.split_asm)
  ultimately show ?thesis ..
qed

end
