(* ===== verification/Run_System.thy ===== *)
theory Run_System
  imports Run_Lifecycle Run_Requests
begin

text \<open>
  A run as a transition system. It starts as \<^verbatim>\<open>submit_run\<close> creates it; the task that processes
  runs, a user who stops it and the tasks that process its jobs change it in any order. The rows keep
  their invariant, processing never meets a state it does not expect, and the statuses follow an
  abstract life cycle.
\<close>

section \<open>Rows changed by the tasks for jobs\<close>

definition same_row :: "JobModel \<Rightarrow> JobModel \<Rightarrow> bool" where
  "same_row j j' \<longleftrightarrow> jm_id j' = jm_id j \<and> job_key j' = job_key j \<and> jm_job_spec j' = jm_job_spec j"

lemma same_rows_maps:
  assumes "list_all2 same_row jobs jobs'"
  shows "map jm_id jobs' = map jm_id jobs" and "map job_key jobs' = map job_key jobs"
    and "map jm_job_spec jobs' = map jm_job_spec jobs"
  using assms by (induction rule: list_all2_induct) (auto simp: same_row_def)

lemma pair_key_job_key: "pair_key = (\<lambda>j. (fst (job_key j), fst (snd (job_key j))))"
  by (simp add: fun_eq_iff pair_key_def job_key_def)

lemma same_rows_pair_keys:
  assumes "list_all2 same_row jobs jobs'"
  shows "map pair_key jobs' = map pair_key jobs"
  using arg_cong [OF same_rows_maps(2) [OF assms], of "map (\<lambda>k. (fst k, fst (snd k)))"]
  unfolding pair_key_job_key by (simp add: o_def)

lemma same_rows_inv:
  assumes inv: "jobs_inv jobs uid" and rows: "list_all2 same_row jobs jobs'"
  shows "jobs_inv jobs' uid" and "dom (latest_view jobs') = dom (latest_view jobs)"
proof -
  note m = same_rows_maps [OF rows] and pk = same_rows_pair_keys [OF rows]
  have count: "submission_count jobs' = submission_count jobs"
    unfolding fun_eq_iff submission_count_keys m(2) by simp
  have each: "\<exists>i \<in> set jobs. same_row i j" if "j \<in> set jobs'" for j using list_all2_mem [OF rows that] .
  have "spec_consistent j \<and> jm_submission_num j < submission_count jobs (pair_key j)" if j: "j \<in> set jobs'" for j
  proof -
    obtain i where i: "i \<in> set jobs" "same_row i j" using each [OF j] by blast
    then have "spec_consistent i" "jm_submission_num i < submission_count jobs (pair_key i)"
      using inv by (simp_all add: jobs_inv_def)
    with i(2) show ?thesis by (simp add: same_row_def spec_consistent_def job_key_def pair_key_def)
  qed
  moreover have "\<forall>j \<in> set jobs'. jm_id j < uid"
  proof -
    have "jm_id ` set jobs' = jm_id ` set jobs" using arg_cong [OF m(1), of set] by simp
    with inv show ?thesis unfolding jobs_inv_def by (metis image_iff)
  qed
  ultimately show "jobs_inv jobs' uid"
    using inv m(1,2) by (simp add: jobs_inv_def unique_submissions_def count)
  have "dom (latest_view js) = pair_key ` set js" for js by (auto simp: latest_view_None dom_def)
  then show "dom (latest_view jobs') = dom (latest_view jobs)" using arg_cong [OF pk, of set] by simp
qed

lemma rows_inv_same_rows:
  assumes inv: "rows_inv (run, uid)" and rows: "list_all2 same_row (rm_jobs run) jobs'" and ok: "\<forall>j \<in> set jobs'. reason_ok j"
  shows "rows_inv (run\<lparr>rm_jobs := jobs'\<rparr>, uid)"
proof -
  have ji: "jobs_inv (rm_jobs run) uid" using inv by (simp add: rows_inv_def)
  note s = same_rows_inv [OF ji rows]
  show ?thesis using inv s ok by (intro rows_inv_rest [OF inv]) (simp_all add: rows_ok_def rows_inv_def view_replicas_def)
qed

section \<open>Steps keep the invariant\<close>

lemma rows_inv_active:
  assumes inv: "rows_inv (run, uid)" and res: "process_active_run env (run, uid) = ((run', uid'), e)"
  shows "rows_inv (run', uid')"
    and "e = None \<Longrightarrow> rm_status run' \<in> {R_TERMINATING, R_RUNNING, R_PROVISIONING, R_SUBMITTED, R_PENDING}"
    and "rm_status run \<noteq> R_TERMINATING \<Longrightarrow> rm_status run' = R_TERMINATING \<Longrightarrow> rm_termination_reason run' \<noteq> None"
proof -
  have i: "jobs_inv (rm_jobs run) uid" "rows_ok run" using inv by (simp_all add: rows_inv_def)
  from i res have "rows_inv (run', uid')
    \<and> (e = None \<longrightarrow> rm_status run' \<in> {R_TERMINATING, R_RUNNING, R_PROVISIONING, R_SUBMITTED, R_PENDING})
    \<and> (rm_status run \<noteq> R_TERMINATING \<longrightarrow> rm_status run' = R_TERMINATING \<longrightarrow> rm_termination_reason run' \<noteq> None)"
  proof (cases rule: process_active_cases)
    case (unread err)
    with inv show ?thesis by simp
  next
    case (acted v f ros s q run2)
    note a = rows_inv_act [OF inv acted(2,6)]
    have st: "rm_status run2 = rm_status run" using arg_cong [OF a(2), of rm_status] by simp
    show ?thesis using a(1) st acted(4,5,7) by (auto simp: set_run_status_def)
  qed
  then show "rows_inv (run', uid')"
    "e = None \<Longrightarrow> rm_status run' \<in> {R_TERMINATING, R_RUNNING, R_PROVISIONING, R_SUBMITTED, R_PENDING}"
    "rm_status run \<noteq> R_TERMINATING \<Longrightarrow> rm_status run' = R_TERMINATING \<Longrightarrow> rm_termination_reason run' \<noteq> None" by blast+
qed

lemma terminate_run_job_row:
  assumes "terminate_run_job key instances now reason j = Inr j'" and "reason_ok j"
  shows "same_row j j'" and "reason_ok j'"
proof -
  note e = terminate_run_job_effect [OF assms(1)]
  have "jm_job_spec j' = jm_job_spec j"
    using assms(1) by (auto simp: terminate_run_job_def bindE_Inr_conv fmapE_Inr_conv
        delay_job_instance_termination_def split: if_split_asm)
  then show "same_row j j'" using e by (auto simp: same_row_def split: if_split_asm)
  show "reason_ok j'" using e assms(2) by (auto simp: reason_ok_def job_stopped_def split: if_split_asm)
qed

lemma rows_inv_terminating:
  assumes inv: "rows_inv (run, uid)" and res: "process_terminating_run key instances now run = Inr run'"
  shows "rows_inv (run', uid)" and "rm_termination_reason run' = rm_termination_reason run"
    and "rm_status run' = rm_status run \<or> run_is_finished (rm_status run')"
proof -
  obtain reason jobs where jobs: "mapE (terminate_run_job key instances now (to_job_termination_reason reason)) (rm_jobs run) = Inr jobs"
    and run': "run' = run\<lparr>rm_jobs := jobs, rm_status := run_reason_to_status reason\<rparr> \<or> run' = run\<lparr>rm_jobs := jobs\<rparr>"
    using res by (auto simp: process_terminating_run_def bindE_Inr_conv split: option.split_asm if_split_asm)
  have ok: "\<forall>j \<in> set (rm_jobs run). reason_ok j" using inv by (simp add: rows_inv_def rows_ok_def)
  have l2: "list_all2 (\<lambda>j j'. same_row j j' \<and> reason_ok j') (rm_jobs run) jobs"
    using jobs unfolding mapE_Inr_conv
    by (rule list.rel_mono_strong) (use ok terminate_run_job_row in blast)
  then have "list_all2 same_row (rm_jobs run) jobs" by (rule list_all2_mono) blast
  moreover have "\<forall>j \<in> set jobs. reason_ok j" using list_all2_mem [OF l2] by blast
  ultimately have "rows_inv (run\<lparr>rm_jobs := jobs\<rparr>, uid)" by (rule rows_inv_same_rows [OF inv])
  with run' show "rows_inv (run', uid)" "rm_termination_reason run' = rm_termination_reason run"
    "rm_status run' = rm_status run \<or> run_is_finished (rm_status run')" by auto
qed

lemma terminating_finishes:
  assumes "process_terminating_run key instances now run = Inr run'" and "rm_status run = R_TERMINATING"
    and "run_is_finished (rm_status run')"
  shows "\<exists>r. rm_termination_reason run' = Some r \<and> rm_status run' = run_reason_to_status r
    \<and> (\<forall>j \<in> set (rm_jobs run'). job_is_finished (jm_status j))"
proof -
  let ?fin = "\<forall>j \<in> set (rm_jobs run). job_is_finished (jm_status j)"
  obtain r jobs where r: "rm_termination_reason run = Some r"
    and jobs: "mapE (terminate_run_job key instances now (to_job_termination_reason r)) (rm_jobs run) = Inr jobs"
    and run': "run' = (if ?fin then run\<lparr>rm_jobs := jobs, rm_status := run_reason_to_status r\<rparr> else run\<lparr>rm_jobs := jobs\<rparr>)"
    using assms(1) by (auto simp: process_terminating_run_def bindE_Inr_conv list_all_iff split: option.split_asm)
  have fin: ?fin using assms(2,3) run' by (auto split: if_split_asm)
  have "\<exists>i \<in> set (rm_jobs run). terminate_run_job key instances now (to_job_termination_reason r) i = Inr j"
    if "j \<in> set jobs" for j using jobs list_all2_mem [OF _ that] unfolding mapE_Inr_conv by blast
  then have "\<forall>j \<in> set jobs. job_is_finished (jm_status j)" using fin by (fastforce simp: terminate_run_job_def)
  with run' fin r show ?thesis by simp
qed

lemma rows_inv_fail [simp]: "rows_inv (fail_run st) = rows_inv st"
  by (cases st) (simp add: fail_run_def)

lemma run_inv_process:
  assumes inv: "run_inv st" and res: "process_run env st = Inr st'"
  shows "run_inv st'"
proof -
  obtain run uid where st: "st = (run, uid)" by (cases st)
  have ri: "rows_inv (run, uid)" using inv by (simp add: run_inv_def st)
  obtain run1 uid1 e where ps: "process_run_status env (run, uid) = ((run1, uid1), e)" by (metis prod.collapse)
  have "rows_inv (run1, uid1) \<and> (e = None \<longrightarrow> run_inv (run1, uid1))"
  proof (cases "rm_status run")
    case R_PENDING
    then have "process_pending_run env (run, uid) = ((run1, uid1), e)" using ps by (simp add: process_run_status_def)
    from rows_inv_pending [OF ri this] R_PENDING show ?thesis by (auto simp: run_inv_def)
  next
    case R_TERMINATING
    then have "process_terminating_run (re_project_key env) (re_instances env) (re_now env) run = Inr run1 \<and> uid1 = uid
        \<or> (run1, uid1) = (run, uid) \<and> e \<noteq> None"
      using ps by (auto simp: process_run_status_def split: sum.split_asm)
    then show ?thesis
    proof
      assume t: "process_terminating_run (re_project_key env) (re_instances env) (re_now env) run = Inr run1 \<and> uid1 = uid"
      then have "rm_termination_reason run \<noteq> None" by (auto simp: process_terminating_run_def split: option.split_asm)
      with rows_inv_terminating [OF ri] t show ?thesis by (auto simp: run_inv_def)
    qed (use ri in auto)
  next
    case R_SUBMITTED
    then have "process_active_run env (run, uid) = ((run1, uid1), e)" using ps by (simp add: process_run_status_def)
    from rows_inv_active [OF ri this] R_SUBMITTED show ?thesis by (simp add: run_inv_def)
  next
    case R_PROVISIONING
    then have "process_active_run env (run, uid) = ((run1, uid1), e)" using ps by (simp add: process_run_status_def)
    from rows_inv_active [OF ri this] R_PROVISIONING show ?thesis by (simp add: run_inv_def)
  next
    case R_RUNNING
    then have "process_active_run env (run, uid) = ((run1, uid1), e)" using ps by (simp add: process_run_status_def)
    from rows_inv_active [OF ri this] R_RUNNING show ?thesis by (simp add: run_inv_def)
  qed (use ps ri in \<open>auto simp: process_run_status_def fail_run_def run_inv_def\<close>)
  moreover have "run_inv (fail_run (run1, uid1)) = rows_inv (run1, uid1)" by (simp add: run_inv_def fail_run_def)
  ultimately show ?thesis
    using res ps unfolding st
    by (cases e) (auto simp: process_run_def fmapE_Inr_conv run_inv_def fail_run_def split: if_split_asm)
qed

lemma run_inv_stop:
  assumes "run_inv (run, uid)" and "stop_run key instances now abort run = Inr run'"
  shows "run_inv (run', uid)"
proof (cases "run_is_finished (rm_status run)")
  case True
  with assms show ?thesis by (simp add: stop_run_def)
next
  case False
  let ?r = "run\<lparr>rm_status := R_TERMINATING, rm_termination_reason := Some (if abort then ABORTED_BY_USER else STOPPED_BY_USER)\<rparr>"
  obtain r where r: "process_terminating_run key instances now ?r = Inr r" "run' = r\<lparr>rm_last_processed_at := now\<rparr>"
    using assms(2) False by (auto simp: stop_run_def fmapE_Inr_conv)
  have "rows_inv (?r, uid)" using assms(1) by (simp add: run_inv_def)
  from rows_inv_terminating [OF this r(1)] show ?thesis by (simp add: run_inv_def r(2))
qed

section \<open>The system\<close>

text \<open>A run as it is created, with a configuration that the validators accept.\<close>

definition run_init :: "RunModel \<times> nat \<Rightarrow> bool" where
  "run_init st \<longleftrightarrow> (\<exists>env volumes p u repo spec name uid. service_ok (spec_configuration spec)
     \<and> build_run env volumes p u repo spec name uid = Inr st)"

inductive run_event :: "RunModel \<times> nat \<Rightarrow> RunModel \<times> nat \<Rightarrow> bool" where
  process: "process_run env st = Inr st' \<Longrightarrow> run_event st st'"
| stop: "stop_run key instances now abort run = Inr run' \<Longrightarrow> run_event (run, uid) (run', uid)"
| jobs: "list_all2 same_row (rm_jobs run) jobs' \<Longrightarrow> \<forall>j \<in> set jobs'. reason_ok j \<Longrightarrow>
    run_event (run, uid) (run\<lparr>rm_jobs := jobs'\<rparr>, uid)"
| keys: "uid \<le> uid' \<Longrightarrow> run_event (run, uid) (run, uid')"

lemma run_inv_keys: "run_inv (run, uid) \<Longrightarrow> uid \<le> uid' \<Longrightarrow> run_inv (run, uid')"
  by (auto simp: run_inv_def rows_inv_def jobs_inv_def)

lemma build_run_inv:
  assumes b: "build_run env volumes p u repo spec name uid = Inr (run, uid')" and ok: "service_ok (spec_configuration spec)"
  shows "run_inv (run, uid')"
proof -
  have nodes: "0 < conf_nodes (spec_configuration spec)" using ok by (simp add: service_ok_def)
  note bi = build_run_Inr [OF b nodes]
  from bi(11) obtain run1 rs where cr: "create_replicas (se_jc env) (se_now env) spec rs (run1, Suc uid) = ((run, uid'), None)"
    and empty: "rm_jobs run1 = []" by blast
  have "rows_ok run"
    using rows_ok_create_replicas [of "(run1, Suc uid)" "se_jc env" "se_now env" spec rs] cr empty
    by (simp add: rows_ok_def)
  then show ?thesis using bi(4,5,7,8,10) ok by (auto simp: run_inv_def rows_inv_def)
qed

lemma run_inv_jobs:
  "run_inv (run, uid) \<Longrightarrow> list_all2 same_row (rm_jobs run) jobs' \<Longrightarrow> \<forall>j \<in> set jobs'. reason_ok j \<Longrightarrow>
    run_inv (run\<lparr>rm_jobs := jobs'\<rparr>, uid)"
  by (simp add: run_inv_def rows_inv_same_rows)

interpretation run_system: invariant_system run_init run_event run_inv
proof
  fix s assume "run_init s"
  then show "run_inv s" by (cases s) (auto simp: run_init_def intro: build_run_inv)
next
  fix s t assume "run_event s t" "run_inv s"
  then show "run_inv t"
  proof cases
    case (process env)
    with \<open>run_inv s\<close> show ?thesis by (blast intro: run_inv_process)
  next
    case (stop key instances now abort run run' uid)
    with \<open>run_inv s\<close> show ?thesis by (blast intro: run_inv_stop)
  next
    case (jobs run jobs' uid)
    with \<open>run_inv s\<close> show ?thesis by (blast intro: run_inv_jobs)
  next
    case (keys uid uid' run)
    with \<open>run_inv s\<close> show ?thesis by (blast intro: run_inv_keys)
  qed
qed

text \<open>The life cycle of a run, by its status.\<close>

inductive run_life :: "RunStatus \<Rightarrow> RunStatus \<Rightarrow> bool" where
  stay: "run_life s s"
| resubmit: "run_life R_PENDING R_SUBMITTED"
| active: "s \<in> {R_SUBMITTED, R_PROVISIONING, R_RUNNING} \<Longrightarrow> t \<in> {R_SUBMITTED, R_PROVISIONING, R_RUNNING, R_PENDING} \<Longrightarrow> run_life s t"
| terminate: "\<not> run_is_finished s \<Longrightarrow> run_life s R_TERMINATING"
| finish: "run_is_finished t \<Longrightarrow> run_life R_TERMINATING t"

inductive_cases run_lifeE: "run_life s t"

lemma process_run_Inr:
  assumes "process_run env (run, uid) = Inr (run', uid')"
  obtains run1 e where "process_run_status env (run, uid) = ((run1, uid'), e)"
    "(e = None \<and> run' = run1\<lparr>rm_last_processed_at := re_now env\<rparr>)
     \<or> (e \<noteq> None \<and> rm_status run' = R_TERMINATING \<and> rm_termination_reason run' = Some SERVER_ERROR)"
  using assms
  by (cases "process_run_status env (run, uid)")
    (auto simp: process_run_def fmapE_Inr_conv fail_run_def split: option.split_asm if_split_asm)

lemma active_status_cases:
  assumes "\<not> run_is_finished s"
  obtains "s = R_PENDING" | "s \<in> {R_SUBMITTED, R_PROVISIONING, R_RUNNING}" | "s = R_TERMINATING"
  using assms by (cases s) auto

lemma process_run_status_refines:
  assumes inv: "run_inv (run, uid)" and open_run: "\<not> run_is_finished (rm_status run)"
    and res: "process_run_status env (run, uid) = ((run', uid'), None)"
  shows "run_life (rm_status run) (rm_status run')"
    and "run_is_finished (rm_status run') \<Longrightarrow> \<exists>r. rm_termination_reason run' = Some r \<and> rm_status run' = run_reason_to_status r
      \<and> (\<forall>j \<in> set (rm_jobs run'). job_is_finished (jm_status j))"
proof -
  have ri: "rows_inv (run, uid)" using inv by (simp add: run_inv_def)
  have "run_life (rm_status run) (rm_status run') \<and> (run_is_finished (rm_status run') \<longrightarrow>
      (\<exists>r. rm_termination_reason run' = Some r \<and> rm_status run' = run_reason_to_status r
      \<and> (\<forall>j \<in> set (rm_jobs run'). job_is_finished (jm_status j))))"
    using open_run
  proof (cases rule: active_status_cases)
    case 1
    then have "process_pending_run env (run, uid) = ((run', uid'), None)" using res by (simp add: process_run_status_def)
    from rows_inv_pending(2) [OF ri this] 1 show ?thesis by (auto intro: run_life.intros)
  next
    case 2
    then have "process_active_run env (run, uid) = ((run', uid'), None)" using res by (auto simp: process_run_status_def)
    from rows_inv_active(2) [OF ri this] 2 show ?thesis by (auto simp: run_life.simps)
  next
    case 3
    then have t: "process_terminating_run (re_project_key env) (re_instances env) (re_now env) run = Inr run'"
      using res by (auto simp: process_run_status_def split: sum.split_asm)
    have "run_is_finished (rm_status run') \<Longrightarrow> \<exists>r. rm_termination_reason run' = Some r \<and> rm_status run' = run_reason_to_status r
      \<and> (\<forall>j \<in> set (rm_jobs run'). job_is_finished (jm_status j))"
      using t 3 by (rule terminating_finishes)
    with rows_inv_terminating(3) [OF ri t] 3 show ?thesis by (auto intro: run_life.intros)
  qed
  then show "run_life (rm_status run) (rm_status run')"
    and "run_is_finished (rm_status run') \<Longrightarrow> \<exists>r. rm_termination_reason run' = Some r \<and> rm_status run' = run_reason_to_status r
      \<and> (\<forall>j \<in> set (rm_jobs run'). job_is_finished (jm_status j))" by blast+
qed

section \<open>Errors of a step\<close>

definition process_run_error :: "run_env \<Rightarrow> RunModel \<Rightarrow> error \<Rightarrow> bool" where
  "process_run_error env run e \<longleftrightarrow> rm_status run \<noteq> R_TERMINATING \<and> active_run_error env run e
     \<or> rm_status run = R_PENDING \<and> jobs_error (re_jc env) (rm_run_spec run) e
     \<or> rm_status run = R_TERMINATING \<and> (\<exists>j \<in> set (rm_jobs run). jm_status j = J_RUNNING \<and> stop_runner (re_project_key env) (re_instances env) j = Inl e)"

lemma mapE_Inl: "mapE f xs = Inl e \<Longrightarrow> \<exists>x \<in> set xs. f x = Inl e"
  by (induction xs) (auto simp: bindE_Inl_conv)

lemma process_terminating_error:
  assumes "process_terminating_run key instances now run = Inl e" and "rm_termination_reason run \<noteq> None"
  shows "\<exists>j \<in> set (rm_jobs run). jm_status j = J_RUNNING \<and> stop_runner key instances j = Inl e"
  using assms
  by (auto simp: process_terminating_run_def terminate_run_job_def bindE_Inl_conv fmapE_def
      dest!: mapE_Inl split: option.split_asm if_split_asm)

lemma process_pending_error:
  assumes "process_pending_run env (run, uid) = (st', Some e)" and "rm_status run = R_PENDING"
  shows "process_run_error env run e"
proof -
  have "active_run_error env run e \<or> jobs_error (re_jc env) (rm_run_spec run) e"
    using assms(1)
    by (auto simp: process_pending_run_def pending_replicas_def Let_def active_run_error_def bindE_Inl_conv
        simp del: create_replicas.simps split: sum.split_asm option.split_asm if_split_asm prod.split_asm dest: create_replicas_error)
  then show ?thesis using assms(2) by (auto simp: process_run_error_def)
qed

lemma process_run_status_error:
  assumes inv: "run_inv (run, uid)" and open_run: "\<not> run_is_finished (rm_status run)"
    and res: "process_run_status env (run, uid) = (st', Some e)"
  shows "process_run_error env run e"
  using open_run
proof (cases rule: active_status_cases)
  case 1
  with res show ?thesis by (intro process_pending_error) (simp add: process_run_status_def)
next
  case 2
  then have "process_active_run env (run, uid) = (st', Some e)" using res by (auto simp: process_run_status_def)
  moreover have "rows_inv (run, uid)" using inv by (simp add: run_inv_def)
  moreover from this have "jobs_inv (rm_jobs run) uid" "rows_ok run" by (simp_all add: rows_inv_def)
  ultimately have "active_run_error env run e"
    using process_active_error [of run uid env st' e] rows_inv_service [of run uid] by blast
  then show ?thesis using 2 by (auto simp: process_run_error_def)
next
  case 3
  then have "process_terminating_run (re_project_key env) (re_instances env) (re_now env) run = Inl e"
    using res by (auto simp: process_run_status_def split: sum.split_asm)
  moreover have "rm_termination_reason run \<noteq> None" using inv 3 by (simp add: run_inv_def)
  ultimately show ?thesis using 3 by (auto simp: process_run_error_def dest: process_terminating_error)
qed

section \<open>Properties\<close>

text \<open>
  C2. In every state that a submitted run reaches by steps of the run task, requests to stop it and
  changes of its jobs by the other tasks, in any order: keys of jobs are unique, submissions of a job are
  numbered without gaps, replicas are numbered from zero, every job belongs to a node of the
  configuration, and a terminating run has a reason.
\<close>

theorem reachable_run_inv:
  assumes "reach run_init run_event (run, uid)"
  shows "jobs_inv (rm_jobs run) uid \<and> (\<exists>k. jm_replica_num ` set (rm_jobs run) = {..<k})
    \<and> (\<forall>j \<in> set (rm_jobs run). reason_ok j \<and> jm_job_num j < conf_nodes (spec_configuration (rm_run_spec run)))
    \<and> (rm_status run = R_TERMINATING \<longrightarrow> rm_termination_reason run \<noteq> None)"
proof -
  have inv: "run_inv (run, uid)" using assms by (rule run_system.reach_inv)
  have "jm_job_num j < conf_nodes (spec_configuration (rm_run_spec run))" if "j \<in> set (rm_jobs run)" for j
  proof -
    have "pair_key j \<in> dom (view run)" using that latest_view_None by blast
    moreover have "dom (view run) \<subseteq> UNIV \<times> {..<conf_nodes (spec_configuration (rm_run_spec run))}"
      using inv by (simp add: run_inv_def rows_inv_def)
    ultimately show ?thesis by (auto simp: pair_key_def)
  qed
  with inv show ?thesis by (simp add: run_inv_def rows_inv_def rows_ok_def view_replicas_jobs)
qed

definition demo_built :: "RunModel \<times> nat" where
  "demo_built = (case build_run demo_submit_env [] 1 1 1 (sample_run_spec sample_task) ''demo'' 10 of
     Inr st \<Rightarrow> st | Inl _ \<Rightarrow> (sample_run sample_task R_SUBMITTED [], 0))"

lemma demo_built_eq:
  "build_run demo_submit_env [] 1 1 1 (sample_run_spec sample_task) ''demo'' 10 = Inr demo_built"
proof -
  have "case build_run demo_submit_env [] 1 1 1 (sample_run_spec sample_task) ''demo'' 10 of Inr _ \<Rightarrow> True | Inl _ \<Rightarrow> False"
    by code_simp
  then show ?thesis by (auto simp: demo_built_def split: sum.splits)
qed

lemma demo_built_reach: "reach run_init run_event demo_built"
proof (rule reach_init)
  have "service_ok (spec_configuration (sample_run_spec sample_task))"
    by (simp add: service_ok_def sample_run_spec_def sample_task_def)
  then show "run_init demo_built" unfolding run_init_def using demo_built_eq by blast
qed

definition demo_run_env :: run_env where
  "demo_run_env = \<lparr>re_now = seconds 60, re_jc = demo_jc_env, re_project_key = ''key'', re_instances = [],
     re_stats = (\<lambda>_ _. Inr None)\<rparr>"

theorem reachable_run_inv_witness:
  "\<exists>k. jm_replica_num ` set (rm_jobs (fst demo_built)) = {..<k}"
  using reachable_run_inv [of "fst demo_built" "snd demo_built"] demo_built_reach by simp

text \<open>
  C4. The steps of the run task refine the life cycle: an active run stays active, waits for a
  resubmission or terminates, a terminating run only ends, and it gets a final status only when all
  its jobs have finished, the one that belongs to its reason.
\<close>

theorem process_run_refines_life:
  assumes "reach run_init run_event (run, uid)" and "\<not> run_is_finished (rm_status run)"
    and "process_run env (run, uid) = Inr (run', uid')"
  shows "run_life (rm_status run) (rm_status run') \<and> (run_is_finished (rm_status run') \<longrightarrow>
    (\<exists>r. rm_termination_reason run' = Some r \<and> rm_status run' = run_reason_to_status r
      \<and> (\<forall>j \<in> set (rm_jobs run'). job_is_finished (jm_status j))))"
  using assms(3)
proof (cases rule: process_run_Inr)
  case (1 run1 e)
  have inv: "run_inv (run, uid)" using assms(1) by (rule run_system.reach_inv)
  show ?thesis
  proof (cases e)
    case None
    with process_run_status_refines [OF inv assms(2)] 1 show ?thesis by simp
  next
    case (Some x)
    with 1(2) assms(2) show ?thesis by (auto intro: run_life.terminate)
  qed
qed

lemma demo_processed:
  "case process_run demo_run_env demo_built of Inr st \<Rightarrow> rm_status (fst st) = R_SUBMITTED | Inl _ \<Rightarrow> False"
  by code_simp

theorem process_run_refines_life_witness:
  "\<exists>st. process_run demo_run_env demo_built = Inr st \<and> run_life (rm_status (fst demo_built)) (rm_status (fst st))"
proof -
  obtain st where st: "process_run demo_run_env demo_built = Inr st" using demo_processed by (auto split: sum.split_asm)
  have s: "rm_status (fst demo_built) = R_SUBMITTED" by code_simp
  show ?thesis
    using process_run_refines_life [of "fst demo_built" "snd demo_built" demo_run_env "fst st" "snd st"]
      demo_built_reach st s by auto
qed

text \<open>
  C5. A step on a run that is reached this way raises only what it reads from elsewhere: a backend missing
  in the data of a submission, the statistics of the gateway, a target of zero or a missing window in the
  autoscaler, the specification of a job, or the instance of a running job. It never meets an
  unexpected status, a missing job or a missing reason, and the autoscaler never asks for a number of
  replicas that scaling refuses.
\<close>

theorem process_run_errors:
  assumes "reach run_init run_event (run, uid)" and "\<not> run_is_finished (rm_status run)"
    and "process_run_status env (run, uid) = (st', Some e)"
  shows "process_run_error env run e"
  using run_system.reach_inv [OF assms(1)] assms(2,3) by (rule process_run_status_error)

lemma reach_jobs:
  assumes "reach run_init run_event (run, uid)" and "\<And>j. same_row j (g j)" and "\<forall>j \<in> set (rm_jobs run). reason_ok (g j)"
  shows "reach run_init run_event (run\<lparr>rm_jobs := map g (rm_jobs run)\<rparr>, uid)"
  using assms(1)
proof (rule reach_step)
  show "run_event (run, uid) (run\<lparr>rm_jobs := map g (rm_jobs run)\<rparr>, uid)"
    using assms(2,3) by (intro run_event.jobs) (auto simp: list.rel_map intro: list.rel_refl_strong)
qed

definition demo_broken :: RunModel where
  "demo_broken = (fst demo_built)\<lparr>rm_jobs := map (\<lambda>j. j\<lparr>jm_job_provisioning_data :=
     Some (sample_jpd\<lparr>jpd_backend := DSTACK, jpd_backend_data := Some \<lparr>bd_base_backend = None\<rparr>\<rparr>)\<rparr>) (rm_jobs (fst demo_built))\<rparr>"

lemma demo_built_jobs: "list_all (\<lambda>j. jm_status j = J_SUBMITTED \<and> jm_termination_reason j = None) (rm_jobs (fst demo_built))"
  by code_simp

lemma demo_broken_reach: "reach run_init run_event (demo_broken, snd demo_built)"
  unfolding demo_broken_def
proof (rule reach_jobs)
  show "reach run_init run_event (fst demo_built, snd demo_built)" using demo_built_reach by simp
  show "\<forall>j \<in> set (rm_jobs (fst demo_built)). reason_ok (j\<lparr>jm_job_provisioning_data :=
     Some (sample_jpd\<lparr>jpd_backend := DSTACK, jpd_backend_data := Some \<lparr>bd_base_backend = None\<rparr>\<rparr>)\<rparr>)"
    using demo_built_jobs by (auto simp: list_all_iff reason_ok_def job_stopped_def)
qed (simp add: same_row_def job_key_def)

lemma demo_broken_error:
  "snd (process_run_status demo_run_env (demo_broken, snd demo_built)) = Some KeyError \<and> rm_status demo_broken = R_SUBMITTED"
  by code_simp

lemma demo_broken_reads:
  "run_model_to_run (re_now demo_run_env) True False demo_broken = Inl KeyError"
  "conf_service (spec_configuration (rm_run_spec demo_broken)) = None"
  by code_simp+

text \<open>The data of a submission lack the backend; an unexpected status or reason is not among the errors.\<close>

theorem process_run_errors_witness:
  "process_run_error demo_run_env demo_broken KeyError \<and> \<not> process_run_error demo_run_env demo_broken ValueError"
proof
  show "process_run_error demo_run_env demo_broken KeyError"
    using process_run_errors [OF demo_broken_reach, of demo_run_env "fst (process_run_status demo_run_env (demo_broken, snd demo_built))" KeyError]
      demo_broken_error by (simp add: prod_eq_iff)
  show "\<not> process_run_error demo_run_env demo_broken ValueError"
    using demo_broken_error demo_broken_reads by (simp add: process_run_error_def active_run_error_def)
qed

text \<open>
  C6. A terminating run all of whose jobs have finished ends in one step.
\<close>

theorem terminating_run_ends:
  assumes "reach run_init run_event (run, uid)" and "rm_status run = R_TERMINATING"
    and "\<forall>j \<in> set (rm_jobs run). job_is_finished (jm_status j)"
  shows "\<exists>run' r. process_run env (run, uid) = Inr (run', uid) \<and> rm_termination_reason run = Some r
    \<and> rm_status run' = run_reason_to_status r \<and> rm_jobs run' = rm_jobs run"
proof -
  have "run_inv (run, uid)" using assms(1) by (rule run_system.reach_inv)
  then obtain r where r: "rm_termination_reason run = Some r" using assms(2) by (auto simp: run_inv_def)
  have "mapE (terminate_run_job key instances now q) (rm_jobs run) = Inr (rm_jobs run)" for key instances now q
    unfolding mapE_Inr_conv using assms(3) by (simp add: list_all2_same terminate_run_job_def)
  then show ?thesis using r assms(2,3)
    by (simp add: process_run_def process_run_status_def process_terminating_run_def list_all_iff)
qed

definition demo_aborted :: RunModel where
  "demo_aborted = (case stop_run ''key'' [] 5 True (fst demo_built) of Inr r \<Rightarrow> r | Inl _ \<Rightarrow> fst demo_built)"

lemma demo_aborted_eq: "stop_run ''key'' [] 5 True (fst demo_built) = Inr demo_aborted"
proof -
  have "case stop_run ''key'' [] 5 True (fst demo_built) of Inr _ \<Rightarrow> True | Inl _ \<Rightarrow> False" by code_simp
  then show ?thesis by (auto simp: demo_aborted_def split: sum.splits)
qed

definition demo_ending :: RunModel where
  "demo_ending = demo_aborted\<lparr>rm_jobs := map (\<lambda>j. j\<lparr>jm_status := J_ABORTED\<rparr>) (rm_jobs demo_aborted)\<rparr>"

lemma demo_ending_reach: "reach run_init run_event (demo_ending, snd demo_built)"
  unfolding demo_ending_def
proof (rule reach_jobs)
  have "run_event (fst demo_built, snd demo_built) (demo_aborted, snd demo_built)"
    using demo_aborted_eq by (rule run_event.stop)
  then show "reach run_init run_event (demo_aborted, snd demo_built)"
    using reach_step [of run_init run_event "(fst demo_built, snd demo_built)"] demo_built_reach by simp
  have "list_all (\<lambda>j. jm_termination_reason j = Some J_ABORTED_BY_USER) (rm_jobs demo_aborted)" by code_simp
  then show "\<forall>j \<in> set (rm_jobs demo_aborted). reason_ok (j\<lparr>jm_status := J_ABORTED\<rparr>)"
    by (simp add: list_all_iff reason_ok_def job_stopped_def)
qed (simp add: same_row_def job_key_def)

theorem terminating_run_ends_witness:
  "\<exists>run' r. process_run demo_run_env (demo_ending, snd demo_built) = Inr (run', snd demo_built)
     \<and> rm_termination_reason demo_ending = Some r \<and> rm_status run' = run_reason_to_status r"
proof -
  have "rm_status demo_ending = R_TERMINATING" by code_simp
  moreover have "\<forall>j \<in> set (rm_jobs demo_ending). job_is_finished (jm_status j)" by (simp add: demo_ending_def)
  ultimately show ?thesis using terminating_run_ends [OF demo_ending_reach, of demo_run_env] by blast
qed

end
