(* ===== verification/Offers.thy ===== *)
theory Offers
  imports Runs Fleet_Models "HOL-Library.Sublist"
begin

text \<open>
  Offers of instances: \<^verbatim>\<open>core/backends/base/offers.py\<close> (catalogue items and query filters),
  \<^verbatim>\<open>get_instance_offers\<close> of \<^verbatim>\<open>services/backends\<close>, and \<^verbatim>\<open>services/offers.py\<close>.
  The catalogue of \<^verbatim>\<open>gpuhunt\<close> (its \<^verbatim>\<open>matches\<close> and \<^verbatim>\<open>query\<close>) and the backends are
  parameters; a backend is the record of what its calls answer.
\<close>

record Backend =
  be_type :: BackendType
  be_get_offers :: "Requirements \<Rightarrow> InstanceOffer list result"
  be_run_job :: "Run \<Rightarrow> Job \<Rightarrow> InstanceOffer \<Rightarrow> Volume list \<Rightarrow> JobProvisioningData result"
  be_create_instance :: "InstanceOffer \<Rightarrow> InstanceConfiguration \<Rightarrow> JobProvisioningData result"
  be_update_provisioning_data :: "JobProvisioningData \<Rightarrow> JobProvisioningData result"
  be_terminate_instance :: "string \<Rightarrow> string \<Rightarrow> unit result"
  be_attach_volume :: "Volume \<Rightarrow> string \<Rightarrow> unit result"
  be_create_placement_group :: "PlacementGroup \<Rightarrow> PlacementGroupProvisioningData result"
  be_delete_placement_group :: "PlacementGroup \<Rightarrow> unit result"

section \<open>Catalogue items and query filters\<close>

fun backend_value :: "BackendType \<Rightarrow> string" where
  "backend_value AWS = ''aws''"
| "backend_value AZURE = ''azure''"
| "backend_value CUDO = ''cudo''"
| "backend_value DATACRUNCH = ''datacrunch''"
| "backend_value DSTACK = ''dstack''"
| "backend_value GCP = ''gcp''"
| "backend_value KUBERNETES = ''kubernetes''"
| "backend_value LAMBDA = ''lambda''"
| "backend_value LOCAL = ''local''"
| "backend_value REMOTE = ''remote''"
| "backend_value NEBIUS = ''nebius''"
| "backend_value OCI = ''oci''"
| "backend_value RUNPOD = ''runpod''"
| "backend_value TENSORDOCK = ''tensordock''"
| "backend_value VASTAI = ''vastai''"
| "backend_value VULTR = ''vultr''"

record CatalogItem =
  cat_provider :: string
  cat_instance_name :: string
  cat_location :: string
  cat_price :: rat
  cat_cpu :: int
  cat_memory :: rat
  cat_gpu_count :: nat
  cat_gpu_vendor :: "AcceleratorVendor option"
  cat_gpu_name :: "string option"
  cat_gpu_memory :: "rat option"
  cat_spot :: bool
  cat_disk_size :: "rat option"

text \<open>The fields of \<^verbatim>\<open>gpuhunt.QueryFilter\<close> that the program sets; unset ones are \<open>None\<close>.\<close>

record QueryFilter =
  qf_provider :: "string list option"
  qf_max_price :: "rat option"
  qf_spot :: "bool option"
  qf_min_cpu :: "int option"
  qf_max_cpu :: "int option"
  qf_min_memory :: "rat option"
  qf_max_memory :: "rat option"
  qf_min_disk_size :: "rat option"
  qf_max_disk_size :: "rat option"
  qf_gpu_vendor :: "AcceleratorVendor option"
  qf_gpu_name :: "string list option"
  qf_min_gpu_memory :: "rat option"
  qf_max_gpu_memory :: "rat option"
  qf_min_gpu_count :: "int option"
  qf_max_gpu_count :: "int option"
  qf_min_total_gpu_memory :: "rat option"
  qf_max_total_gpu_memory :: "rat option"
  qf_min_compute_capability :: "(int \<times> int) option"

definition empty_filter :: QueryFilter where
  "empty_filter = \<lparr>qf_provider = None, qf_max_price = None, qf_spot = None, qf_min_cpu = None, qf_max_cpu = None,
     qf_min_memory = None, qf_max_memory = None, qf_min_disk_size = None, qf_max_disk_size = None,
     qf_gpu_vendor = None, qf_gpu_name = None, qf_min_gpu_memory = None, qf_max_gpu_memory = None,
     qf_min_gpu_count = None, qf_max_gpu_count = None, qf_min_total_gpu_memory = None,
     qf_max_total_gpu_memory = None, qf_min_compute_capability = None\<rparr>"

definition lo :: "'a range option \<Rightarrow> 'a option" where
  "lo r = Option.bind r rmin"

definition hi :: "'a range option \<Rightarrow> 'a option" where
  "hi r = Option.bind r rmax"

definition requirements_to_query_filter :: "Requirements option \<Rightarrow> QueryFilter" where
  "requirements_to_query_filter req = (case req of
      None \<Rightarrow> empty_filter
    | Some r \<Rightarrow>
        let res = rq_resources r;
            q = empty_filter\<lparr>qf_max_price := rq_max_price r, qf_spot := rq_spot r,
                  qf_min_cpu := rmin (rs_cpu res), qf_max_cpu := rmax (rs_cpu res),
                  qf_min_memory := rmin (rs_memory res), qf_max_memory := rmax (rs_memory res),
                  qf_min_disk_size := lo (rs_disk res), qf_max_disk_size := hi (rs_disk res)\<rparr>
        in case rs_gpu res of
             None \<Rightarrow> q
           | Some g \<Rightarrow> q\<lparr>qf_gpu_vendor := gpu_vendor g, qf_gpu_name := gpu_name g,
                 qf_min_gpu_memory := lo (gpu_memory g), qf_max_gpu_memory := hi (gpu_memory g),
                 qf_min_gpu_count := rmin (gpu_count g), qf_max_gpu_count := rmax (gpu_count g),
                 qf_min_total_gpu_memory := lo (gpu_total_memory g), qf_max_total_gpu_memory := hi (gpu_total_memory g),
                 qf_min_compute_capability := gpu_compute_capability g\<rparr>)"

definition offer_to_catalog_item :: "InstanceOffer \<Rightarrow> CatalogItem" where
  "offer_to_catalog_item offer =
     (let res = it_resources (of_instance offer);
          gpu = (case res_gpus res of [] \<Rightarrow> None | g # _ \<Rightarrow> Some g)
      in \<lparr>cat_provider = backend_value (of_backend offer), cat_instance_name = it_name (of_instance offer),
          cat_location = of_region offer, cat_price = of_price offer, cat_cpu = res_cpus res,
          cat_memory = of_int (res_memory_mib res) / 1024, cat_gpu_count = length (res_gpus res),
          cat_gpu_vendor = map_option g_vendor gpu, cat_gpu_name = map_option g_name gpu,
          cat_gpu_memory = map_option (\<lambda>g. of_int (g_memory_mib g) / 1024) gpu,
          cat_spot = res_spot res, cat_disk_size = Some (of_int (res_disk_mib res) / 1024)\<rparr>)"

type_synonym matcher = "CatalogItem \<Rightarrow> QueryFilter \<Rightarrow> bool"

definition match_requirements :: "matcher \<Rightarrow> InstanceOffer list \<Rightarrow> Requirements option \<Rightarrow> InstanceOffer list" where
  "match_requirements matches offers requirements =
     (let q = requirements_to_query_filter requirements
      in filter (\<lambda>offer. matches (offer_to_catalog_item offer) q) offers)"

definition choose_disk_size_mib :: "rat option \<Rightarrow> rat range option \<Rightarrow> rat range \<Rightarrow> int option result" where
  "choose_disk_size_mib item_size requirements_size configurable =
     (if item_size \<noteq> None \<and> item_size \<noteq> Some 0 then Inr (Some (round_half_even (the item_size * 1024)))
      else bindE (range_intersect (case requirements_size of Some r \<Rightarrow> r | None \<Rightarrow> DEFAULT_DISK) configurable)
        (\<lambda>r. case r of
            None \<Rightarrow> Inr None
          | Some r \<Rightarrow> (case rmin r of
              None \<Rightarrow> Inl TypeError
            | Some gib \<Rightarrow> Inr (Some (round_half_even (gib * 1024))))))"

text \<open>
  \<^verbatim>\<open>Resources.pretty_format\<close>; \<open>fixed0\<close> and \<open>fixed1\<close> are the formats \<^verbatim>\<open>.0f\<close> and
  \<^verbatim>\<open>.1f\<close> of a positive number.
\<close>

definition fixed0 :: "rat \<Rightarrow> string" where
  "fixed0 x = show_int (round_half_even x)"

definition fixed1 :: "rat \<Rightarrow> string" where
  "fixed1 x = (let n = round_half_even (x * 10) in show_int (n div 10) @ ''.'' @ show_int (n mod 10))"

definition resources_pretty_format :: "inst_resources \<Rightarrow> bool \<Rightarrow> string" where
  "resources_pretty_format res include_spot =
     (let gib = (\<lambda>mib. of_int mib / 1024 :: rat);
          gpu = (case res_gpus res of [] \<Rightarrow> None | g # _ \<Rightarrow> Some g);
          output = pretty_resources
            (if res_cpus res > 0 then Some (show_int (res_cpus res)) else None)
            (if res_memory_mib res > 0 then Some (fixed0 (gib (res_memory_mib res)) @ ''GB'') else None)
            (map_option (\<lambda>_. show_nat (length (res_gpus res))) gpu)
            (map_option g_name gpu)
            (case gpu of Some g \<Rightarrow> if g_memory_mib g > 0 then Some (fixed0 (gib (g_memory_mib g)) @ ''GB'') else None
                       | None \<Rightarrow> None)
            None None
            (if res_disk_mib res > 0 then Some (fixed1 (gib (res_disk_mib res)) @ ''GB'') else None)
      in if include_spot \<and> res_spot res then output @ '', SPOT'' else output)"

text \<open>
  The GPU of a catalogue item: \<^verbatim>\<open>Gpu\<close> casts a vendor that is already an enumeration value to
  itself. The fields that only \<^verbatim>\<open>InstanceOfferWithAvailability\<close> adds get their defaults;
  backends set the availability.
\<close>

definition item_gpu :: "CatalogItem \<Rightarrow> Gpu result" where
  "item_gpu item = (case cat_gpu_memory item of
      None \<Rightarrow> Inl TypeError
    | Some m \<Rightarrow> (case cat_gpu_name item of
          None \<Rightarrow> Inl ValueError
        | Some n \<Rightarrow> Gpu_validate (\<lambda>_. cat_gpu_vendor item) n (round_half_even (m * 1024))
            (map_option (\<lambda>_. []) (cat_gpu_vendor item))))"

definition catalog_item_to_offer ::
    "BackendType \<Rightarrow> CatalogItem \<Rightarrow> Requirements option \<Rightarrow> rat range \<Rightarrow> InstanceOffer option result" where
  "catalog_item_to_offer backend item requirements configurable =
     bindE (if cat_gpu_count item > 0 then fmapE (replicate (cat_gpu_count item)) (item_gpu item) else Inr []) (\<lambda>gpus.
     bindE (choose_disk_size_mib (cat_disk_size item) (Option.bind requirements (rs_disk \<circ> rq_resources)) configurable) (\<lambda>disk.
     case disk of
       None \<Rightarrow> Inr None
     | Some disk_size_mib \<Rightarrow>
         let res = \<lparr>res_cpus = cat_cpu item, res_memory_mib = round_half_even (cat_memory item * 1024), res_gpus = gpus,
               res_spot = cat_spot item, res_disk_mib = disk_size_mib, res_description = []\<rparr>
         in Inr (Some \<lparr>of_backend = backend,
              of_instance = \<lparr>it_name = cat_instance_name item,
                 it_resources = res\<lparr>res_description := resources_pretty_format res False\<rparr>\<rparr>,
              of_region = cat_location item, of_price = cat_price item, of_availability = A_UNKNOWN,
              of_availability_zones = None, of_instance_runtime = SHIM, of_blocks = 1, of_total_blocks = 1\<rparr>)))"

fun offers_of_items ::
    "(CatalogItem \<Rightarrow> InstanceOffer option result) \<Rightarrow> string list option \<Rightarrow> (InstanceOffer \<Rightarrow> bool)
     \<Rightarrow> CatalogItem list \<Rightarrow> InstanceOffer list result" where
  "offers_of_items convert locations keep [] = Inr []"
| "offers_of_items convert locations keep (item # items) =
     (if (case locations of None \<Rightarrow> False | Some ls \<Rightarrow> cat_location item \<notin> set ls)
      then offers_of_items convert locations keep items
      else bindE (convert item) (\<lambda>offer.
        bindE (offers_of_items convert locations keep items) (\<lambda>offers.
          case offer of
            None \<Rightarrow> Inr offers
          | Some o1 \<Rightarrow> Inr (if keep o1 then o1 # offers else offers))))"

definition get_catalog_offers ::
    "(QueryFilter \<Rightarrow> CatalogItem list) \<Rightarrow> BackendType \<Rightarrow> string list option \<Rightarrow> Requirements option \<Rightarrow> rat range
     \<Rightarrow> (InstanceOffer \<Rightarrow> bool) option \<Rightarrow> InstanceOffer list result" where
  "get_catalog_offers query backend locations requirements configurable extra_filter =
     (let provider = (if backend = LAMBDA then ''lambdalabs'' else backend_value backend);
          q = (requirements_to_query_filter requirements)\<lparr>qf_provider := Some [provider]\<rparr>
      in offers_of_items (\<lambda>item. catalog_item_to_offer backend item requirements configurable) locations
           (case extra_filter of None \<Rightarrow> (\<lambda>_. True) | Some f \<Rightarrow> f) (query q))"

section \<open>The offers of several backends\<close>

text \<open>
  \<^verbatim>\<open>heapq.merge(*lists, key)\<close> yields, while there are elements left, the least of the first
  elements, of equal ones that of the earliest list.
\<close>

fun merge2 :: "('a \<Rightarrow> 'k::linorder) \<Rightarrow> 'a list \<Rightarrow> 'a list \<Rightarrow> 'a list" where
  "merge2 k [] ys = ys"
| "merge2 k xs [] = xs"
| "merge2 k (x # xs) (y # ys) = (if k x \<le> k y then x # merge2 k xs (y # ys) else y # merge2 k (x # xs) ys)"

definition heapq_merge :: "('a \<Rightarrow> 'k::linorder) \<Rightarrow> 'a list list \<Rightarrow> 'a list" where
  "heapq_merge k xss = foldr (merge2 k) xss []"

definition backend_offers :: "Requirements \<Rightarrow> bool \<Rightarrow> Backend \<Rightarrow> (Backend \<times> InstanceOffer) list option" where
  "backend_offers requirements exclude_not_available backend = (case be_get_offers backend requirements of
      Inl _ \<Rightarrow> None
    | Inr offers \<Rightarrow> Some (map (Pair backend)
        (filter (\<lambda>off. \<not> exclude_not_available \<or> availability_is_available (of_availability off)) offers)))"

definition get_instance_offers :: "Backend list \<Rightarrow> Requirements \<Rightarrow> bool \<Rightarrow> (Backend \<times> InstanceOffer) list" where
  "get_instance_offers backends requirements exclude_not_available =
     sort_key (\<lambda>(b, off). \<not> availability_is_available (of_availability off))
       (heapq_merge (\<lambda>(b, off). of_price off)
          (List.map_filter (backend_offers requirements exclude_not_available) backends))"

section \<open>Blocks\<close>

definition is_divisible_into_blocks :: "int \<Rightarrow> int \<Rightarrow> blocks_arg \<Rightarrow> bool \<times> int" where
  "is_divisible_into_blocks cpus gpus arg =
     (let blocks = (case arg of
           AutoBlocks \<Rightarrow> if gpus = 0 then cpus else min cpus gpus
         | Blocks n \<Rightarrow> n)
      in if blocks < 1 \<or> cpus mod blocks \<noteq> 0 \<or> gpus mod blocks \<noteq> 0 then (False, 0) else (True, blocks))"

definition generate_shared_offer :: "InstanceOffer \<Rightarrow> int \<Rightarrow> int \<Rightarrow> InstanceOffer" where
  "generate_shared_offer offer blocks total_blocks =
     (let full = it_resources (of_instance offer);
          res = \<lparr>res_cpus = res_cpus full div total_blocks * blocks,
                 res_memory_mib = res_memory_mib full div total_blocks * blocks,
                 res_gpus = take (nat (int (length (res_gpus full)) div total_blocks * blocks)) (res_gpus full),
                 res_spot = res_spot full, res_disk_mib = res_disk_mib full, res_description = res_description full\<rparr>
      in \<lparr>of_backend = of_backend offer, of_instance = \<lparr>it_name = it_name (of_instance offer), it_resources = res\<rparr>,
          of_region = of_region offer, of_price = of_price offer, of_availability = of_availability offer,
          of_availability_zones = None, of_instance_runtime = SHIM, of_blocks = blocks, of_total_blocks = total_blocks\<rparr>)"

text \<open>A TPU cannot be shared: its chips count as one.\<close>

definition share_offer :: "blocks_arg \<Rightarrow> InstanceOffer \<Rightarrow> InstanceOffer option" where
  "share_offer blocks offer =
     (let res = it_resources (of_instance offer);
          gpus = (case res_gpus res of [] \<Rightarrow> 0
            | g # _ \<Rightarrow> if g_vendor g = GOOGLE then 1 else int (length (res_gpus res)));
          (divisible, n) = is_divisible_into_blocks (res_cpus res) gpus blocks
      in if divisible then Some (offer\<lparr>of_total_blocks := n\<rparr>) else None)"

section \<open>Offers by requirements\<close>

record offer_options =
  oo_exclude_not_available :: bool
  oo_multinode :: bool
  oo_master :: "JobProvisioningData option"
  oo_volumes :: "Volume list list"
  oo_privileged :: bool
  oo_instance_mounts :: bool
  oo_blocks :: blocks_arg

text \<open>Narrowing an optional list of admitted values; an absent list admits all.\<close>

definition restrict :: "'a list \<Rightarrow> 'a list option \<Rightarrow> 'a list option" where
  "restrict allowed admitted =
     Some (filter (\<lambda>x. x \<in> set allowed) (case admitted of None \<Rightarrow> allowed | Some xs \<Rightarrow> xs))"

definition restrict_if :: "bool \<Rightarrow> 'a list \<Rightarrow> 'a list option \<Rightarrow> 'a list option" where
  "restrict_if c allowed admitted = (if c then restrict allowed admitted else admitted)"

definition admits :: "'a list option \<Rightarrow> 'a \<Rightarrow> bool" where
  "admits admitted x = (case admitted of None \<Rightarrow> True | Some xs \<Rightarrow> x \<in> set xs)"

text \<open>The profile of the caller is changed: \<^verbatim>\<open>backends: [dstack]\<close> means any backend.\<close>

definition drop_dstack :: "ProfileParams \<Rightarrow> ProfileParams" where
  "drop_dstack p = (if pp_backends p = Some [DSTACK] then p\<lparr>pp_backends := None\<rparr> else p)"

definition admitted_backends :: "ProfileParams \<Rightarrow> offer_options \<Rightarrow> BackendType list option" where
  "admitted_backends p opts =
     (let bs = pp_backends p;
          bs = (case oo_volumes opts of [] \<Rightarrow> bs | vs # _ \<Rightarrow> restrict (map (vc_backend \<circ> vol_configuration) vs) bs);
          bs = restrict_if (oo_multinode opts) BACKENDS_WITH_MULTINODE_SUPPORT bs;
          bs = restrict_if (oo_privileged opts \<or> oo_instance_mounts opts) BACKENDS_WITH_CREATE_INSTANCE_SUPPORT bs;
          bs = restrict_if (pp_reservation p \<noteq> None) BACKENDS_WITH_RESERVATION_SUPPORT bs
      in case oo_master opts of None \<Rightarrow> bs | Some jpd \<Rightarrow> restrict [get_base_backend jpd] bs)"

definition admitted_regions :: "ProfileParams \<Rightarrow> offer_options \<Rightarrow> string list option" where
  "admitted_regions p opts =
     (let rs = pp_regions p;
          rs = (case oo_volumes opts of [] \<Rightarrow> rs | vs # _ \<Rightarrow> restrict (map (vc_region \<circ> vol_configuration) vs) rs)
      in case oo_master opts of None \<Rightarrow> rs | Some jpd \<Rightarrow> restrict [jpd_region jpd] rs)"

definition narrow_zones :: "string list option \<Rightarrow> InstanceOffer \<Rightarrow> InstanceOffer option" where
  "narrow_zones zones off = (case zones of
      None \<Rightarrow> Some off
    | Some zs \<Rightarrow> (case of_availability_zones off of
          None \<Rightarrow> None
        | Some ozs \<Rightarrow>
            let kept = filter (\<lambda>z. z \<in> set zs) ozs
            in if kept = [] then None else Some (off\<lparr>of_availability_zones := Some kept\<rparr>)))"

definition offer_passes :: "ProfileParams \<Rightarrow> offer_options \<Rightarrow> InstanceOffer \<Rightarrow> bool" where
  "offer_passes p opts off \<longleftrightarrow> admits (admitted_backends p opts) (of_backend off)
     \<and> admits (admitted_regions p opts) (of_region off)"

definition snd_option :: "('a \<Rightarrow> 'b option) \<Rightarrow> 'c \<times> 'a \<Rightarrow> ('c \<times> 'b) option" where
  "snd_option f = (\<lambda>(b, x). map_option (Pair b) (f x))"

definition get_offers_by_requirements ::
    "Backend list \<Rightarrow> ProfileParams \<Rightarrow> Requirements \<Rightarrow> offer_options \<Rightarrow> (Backend \<times> InstanceOffer) list" where
  "get_offers_by_requirements backends profile requirements opts =
     (let p = drop_dstack profile;
          asked = (case admitted_backends p opts of
              None \<Rightarrow> backends
            | Some bs \<Rightarrow> filter (\<lambda>b. be_type b \<in> set bs \<or> be_type b = DSTACK) backends);
          offers = get_instance_offers asked requirements (oo_exclude_not_available opts);
          offers = filter (\<lambda>(b, off). offer_passes p opts off) offers;
          offers = List.map_filter (snd_option (narrow_zones (pp_availability_zones p))) offers;
          offers = filter (\<lambda>(b, off). admits (pp_instance_types p) (it_name (of_instance off))) offers
      in if oo_blocks opts = Blocks 1 then offers else List.map_filter (snd_option (share_offer (oo_blocks opts))) offers)"

text \<open>
  What a call leaves in the offers that \<^verbatim>\<open>get_offers_cached\<close> keeps for a backend it asks: the offers are
  passed by reference, and the number of blocks is written into those that stay (into copies when
  availability zones are given).
\<close>

definition cached_after :: "ProfileParams \<Rightarrow> offer_options \<Rightarrow> InstanceOffer \<Rightarrow> InstanceOffer" where
  "cached_after profile opts off =
     (let p = drop_dstack profile in
      if oo_blocks opts = Blocks 1 \<or> pp_availability_zones p \<noteq> None
         \<or> (oo_exclude_not_available opts \<and> \<not> availability_is_available (of_availability off))
         \<or> \<not> offer_passes p opts off \<or> \<not> admits (pp_instance_types p) (it_name (of_instance off))
      then off
      else (case share_offer (oo_blocks opts) off of None \<Rightarrow> off | Some off' \<Rightarrow> off'))"

section \<open>Merging and sorting\<close>

lemma mset_merge2 [simp]: "mset (merge2 k xs ys) = mset xs + mset ys"
  by (induction k xs ys rule: merge2.induct) auto

lemma set_merge2 [simp]: "set (merge2 k xs ys) = set xs \<union> set ys"
  by (induction k xs ys rule: merge2.induct) auto

lemma sorted_merge2: "sorted (map k xs) \<Longrightarrow> sorted (map k ys) \<Longrightarrow> sorted (map k (merge2 k xs ys))"
  by (induction k xs ys rule: merge2.induct) auto

lemma subseq_merge2: "subseq xs (merge2 k xs ys) \<and> subseq ys (merge2 k xs ys)"
  by (induction k xs ys rule: merge2.induct) (auto dest: subseq_Cons')

lemma set_heapq_merge [simp]: "set (heapq_merge k xss) = \<Union> (set ` set xss)"
  by (induction xss) (simp_all add: heapq_merge_def)

lemma subseq_heapq_merge: "xs \<in> set xss \<Longrightarrow> subseq xs (heapq_merge k xss)"
proof (induction xss)
  case (Cons ys yss)
  then show ?case using subseq_merge2 [of ys k "heapq_merge k yss"]
    by (auto simp: heapq_merge_def intro: subseq_order.order_trans)
qed simp

lemma mset_heapq_merge: "mset (heapq_merge k xss) = mset (concat xss)"
  by (induction xss) (simp_all add: heapq_merge_def)

lemma sorted_heapq_merge: "\<forall>xs \<in> set xss. sorted (map k xs) \<Longrightarrow> sorted (map k (heapq_merge k xss))"
  by (induction xss) (simp_all add: heapq_merge_def sorted_merge2)

text \<open>Sorting by a truth value puts the elements for which it is false first and keeps their order.\<close>

lemma sort_key_bool: "sort_key k xs = filter (\<lambda>x. \<not> k x) xs @ filter k xs" for k :: "'a \<Rightarrow> bool"
proof (rule properties_for_sort_key)
  show "mset (filter (\<lambda>x. \<not> k x) xs @ filter k xs) = mset xs"
    by (induction xs) auto
  have s: "sorted (map k (filter (\<lambda>x. \<not> k x) xs))" "sorted (map k (filter k xs))"
    by (induction xs) auto
  then show "sorted (map k (filter (\<lambda>x. \<not> k x) xs @ filter k xs))"
    by (auto simp: sorted_append)
  show "filter (\<lambda>x. k y = k x) (filter (\<lambda>x. \<not> k x) xs @ filter k xs) = filter (\<lambda>x. k y = k x) xs" for y
    by (cases "k y") (auto simp: filter_empty_conv conj_commute intro: filter_cong)
qed

lemma set_map_filter: "set (List.map_filter f xs) = {y. \<exists>x \<in> set xs. f x = Some y}"
  by (induction xs) (auto simp: List.map_filter_simps split: option.splits)

abbreviation available :: "InstanceOffer \<Rightarrow> bool" where
  "available off \<equiv> availability_is_available (of_availability off)"

definition offered :: "Backend list \<Rightarrow> Requirements \<Rightarrow> (Backend \<times> InstanceOffer) set" where
  "offered backends requirements =
     {(b, off). b \<in> set backends \<and> (\<exists>offers. be_get_offers b requirements = Inr offers \<and> off \<in> set offers)}"

lemma backend_offers_Some:
  "backend_offers requirements ex b = Some xs \<longleftrightarrow> (\<exists>offers. be_get_offers b requirements = Inr offers
     \<and> xs = map (Pair b) (filter (\<lambda>off. ex \<longrightarrow> available off) offers))"
  by (cases "be_get_offers b requirements") (auto simp: backend_offers_def)

lemma set_get_instance_offers:
  "set (get_instance_offers backends requirements ex) = {(b, off) \<in> offered backends requirements. ex \<longrightarrow> available off}"
  by (fastforce simp: get_instance_offers_def set_map_filter backend_offers_Some offered_def)

text \<open>
  C29. The offers of a project: every offer of every backend that answers is listed as often as the backend
  lists it, unavailable ones only when they are not excluded; those that can be provisioned come first, and
  the offers of a backend keep the order the backend gives them. Where every backend lists its offers by
  price, those that can be provisioned are sorted by price across the backends.
\<close>

theorem get_instance_offers_correct:
  "\<exists>av nav. get_instance_offers backends requirements ex = av @ nav
    \<and> (\<forall>(b, off) \<in> set av. available off) \<and> (\<forall>(b, off) \<in> set nav. \<not> available off) \<and> (ex \<longrightarrow> nav = [])
    \<and> set (av @ nav) = {(b, off) \<in> offered backends requirements. ex \<longrightarrow> available off}
    \<and> mset (av @ nav) = mset (concat (List.map_filter (backend_offers requirements ex) backends))
    \<and> (\<forall>b \<in> set backends. \<forall>offers. be_get_offers b requirements = Inr offers \<longrightarrow>
        subseq (map (Pair b) (filter available offers)) av
        \<and> (\<not> ex \<longrightarrow> subseq (map (Pair b) (filter (\<lambda>off. \<not> available off) offers)) nav))
    \<and> ((\<forall>b \<in> set backends. \<forall>offers. be_get_offers b requirements = Inr offers \<longrightarrow> sorted (map of_price offers)) \<longrightarrow>
        sorted (map (\<lambda>(b, off). of_price off) av))"
proof -
  let ?p = "\<lambda>(b, off). of_price off" and ?na = "\<lambda>(b, off). \<not> available off"
  let ?lists = "List.map_filter (backend_offers requirements ex) backends"
  define m where "m = heapq_merge ?p ?lists"
  define av nav where "av = filter (\<lambda>x. \<not> ?na x) m" and "nav = filter ?na m"
  have eq: "get_instance_offers backends requirements ex = av @ nav"
    unfolding get_instance_offers_def m_def av_def nav_def by (rule sort_key_bool)
  have "ex \<longrightarrow> nav = []"
    unfolding m_def nav_def by (auto simp: filter_empty_conv set_map_filter backend_offers_Some)
  moreover have "set (av @ nav) = {(b, off) \<in> offered backends requirements. ex \<longrightarrow> available off}"
    unfolding eq [symmetric] by (rule set_get_instance_offers)
  moreover have "mset (av @ nav) = mset (concat ?lists)"
    unfolding eq [symmetric] by (simp add: get_instance_offers_def mset_heapq_merge)
  moreover have "\<forall>(b, off) \<in> set av. available off" "\<forall>(b, off) \<in> set nav. \<not> available off"
    by (auto simp: av_def nav_def)
  moreover have "subseq (map (Pair b) (filter available offers)) av
      \<and> (\<not> ex \<longrightarrow> subseq (map (Pair b) (filter (\<lambda>off. \<not> available off) offers)) nav)"
    if b: "b \<in> set backends" "be_get_offers b requirements = Inr offers" for b offers
  proof -
    let ?xs = "map (Pair b) (filter (\<lambda>off. ex \<longrightarrow> available off) offers)"
    have "?xs \<in> set ?lists" using b by (auto simp: set_map_filter backend_offers_Some)
    then have "subseq ?xs m" unfolding m_def by (rule subseq_heapq_merge)
    then have "subseq (filter (\<lambda>x. \<not> ?na x) ?xs) av" "subseq (filter ?na ?xs) nav"
      unfolding av_def nav_def by (rule subseq_filter)+
    moreover have "filter (\<lambda>x. \<not> ?na x) ?xs = map (Pair b) (filter available offers)"
      "\<not> ex \<Longrightarrow> filter ?na ?xs = map (Pair b) (filter (\<lambda>off. \<not> available off) offers)"
      by (auto simp: filter_map o_def intro!: arg_cong [where f = "map (Pair b)"] filter_cong)
    ultimately show ?thesis by metis
  qed
  moreover have "sorted (map ?p av)"
    if s: "\<forall>b \<in> set backends. \<forall>offers. be_get_offers b requirements = Inr offers \<longrightarrow> sorted (map of_price offers)"
  proof -
    have "\<forall>xs \<in> set ?lists. sorted (map ?p xs)"
      using s by (auto simp: set_map_filter backend_offers_Some sorted_map sorted_wrt_map sorted_wrt_filter)
    then have "sorted (map ?p m)" unfolding m_def by (rule sorted_heapq_merge)
    then show ?thesis by (simp add: av_def sorted_map sorted_wrt_filter)
  qed
  ultimately show ?thesis using eq by blast
qed

text \<open>An offer of a concrete backend, for the evaluations below.\<close>

definition sample_offer :: "BackendType \<Rightarrow> int \<Rightarrow> Gpu list \<Rightarrow> rat \<Rightarrow> InstanceOffer" where
  "sample_offer bt cpus gpus price = \<lparr>of_backend = bt, of_instance = \<lparr>it_name = ''p3'',
       it_resources = \<lparr>res_cpus = cpus, res_memory_mib = 16384, res_gpus = gpus, res_spot = False,
         res_disk_mib = 102400, res_description = []\<rparr>\<rparr>,
     of_region = ''us'', of_price = price, of_availability = A_AVAILABLE, of_availability_zones = None,
     of_instance_runtime = SHIM, of_blocks = 1, of_total_blocks = 1\<rparr>"

definition sample_backend :: "BackendType \<Rightarrow> InstanceOffer list \<Rightarrow> Backend" where
  "sample_backend bt offers = \<lparr>be_type = bt, be_get_offers = (\<lambda>_. Inr offers), be_run_job = (\<lambda>_ _ _ _. Inr sample_jpd),
     be_create_instance = (\<lambda>_ _. Inr sample_jpd), be_update_provisioning_data = Inr,
     be_terminate_instance = (\<lambda>_ _. Inr ()), be_attach_volume = (\<lambda>_ _. Inr ()),
     be_create_placement_group = (\<lambda>_. Inr \<lparr>pgd_backend = bt, pgd_backend_data = None\<rparr>),
     be_delete_placement_group = (\<lambda>_. Inr ())\<rparr>"

definition sample_requirements :: Requirements where
  "sample_requirements = \<lparr>rq_resources = default_resources, rq_max_price = None, rq_spot = None, rq_reservation = None\<rparr>"

definition sample_options :: offer_options where
  "sample_options = \<lparr>oo_exclude_not_available = False, oo_multinode = False, oo_master = None, oo_volumes = [],
     oo_privileged = False, oo_instance_mounts = False, oo_blocks = Blocks 1\<rparr>"

theorem get_instance_offers_correct_witness:
  "\<exists>av nav. get_instance_offers [sample_backend AWS [sample_offer AWS 8 [] 2, sample_offer AWS 8 [] 3],
       sample_backend GCP [sample_offer GCP 8 [] 1]] sample_requirements True = av @ nav
    \<and> sorted (map (\<lambda>(b, off). of_price off) av) \<and> nav = [] \<and> length av = 3"
proof -
  let ?bs = "[sample_backend AWS [sample_offer AWS 8 [] 2, sample_offer AWS 8 [] 3], sample_backend GCP [sample_offer GCP 8 [] 1]]"
  have s: "\<forall>b \<in> set [sample_backend AWS [sample_offer AWS 8 [] 2, sample_offer AWS 8 [] 3], sample_backend GCP [sample_offer GCP 8 [] 1]].
      \<forall>offers. be_get_offers b sample_requirements = Inr offers \<longrightarrow> sorted (map of_price offers)"
    by (simp add: sample_backend_def sample_offer_def)
  from get_instance_offers_correct [of ?bs sample_requirements True] s obtain av nav
    where a: "get_instance_offers ?bs sample_requirements True = av @ nav" "sorted (map (\<lambda>(b, off). of_price off) av)" "nav = []"
      "mset (av @ nav) = mset (concat (List.map_filter (backend_offers sample_requirements True) ?bs))" by blast
  have "length av = 3" using arg_cong [OF a(4), of size] a(3)
    by (simp add: List.map_filter_simps backend_offers_def sample_backend_def sample_offer_def availability_is_available_def)
  with a show ?thesis by blast
qed

section \<open>What the narrowing admits\<close>

lemma admits_restrict [simp]: "admits (restrict allowed admitted) x \<longleftrightarrow> x \<in> set allowed \<and> admits admitted x"
  by (auto simp: admits_def restrict_def split: option.splits)

lemma admits_restrict_if [simp]:
  "admits (restrict_if c allowed admitted) x \<longleftrightarrow> (c \<longrightarrow> x \<in> set allowed) \<and> admits admitted x"
  by (simp add: restrict_if_def)

lemma admits_drop_dstack:
  "admits (pp_backends (drop_dstack p)) b \<longleftrightarrow> pp_backends p = Some [DSTACK] \<or> admits (pp_backends p) b"
  by (simp add: drop_dstack_def admits_def)

lemma drop_dstack_rest [simp]:
  "pp_regions (drop_dstack p) = pp_regions p"
  "pp_availability_zones (drop_dstack p) = pp_availability_zones p"
  "pp_instance_types (drop_dstack p) = pp_instance_types p"
  "pp_reservation (drop_dstack p) = pp_reservation p"
  by (simp_all add: drop_dstack_def)

definition first_volumes :: "offer_options \<Rightarrow> Volume list" where
  "first_volumes opts = (case oo_volumes opts of [] \<Rightarrow> [] | vs # _ \<Rightarrow> vs)"

text \<open>Which offers a request admits, condition by condition.\<close>

definition backend_allowed :: "ProfileParams \<Rightarrow> offer_options \<Rightarrow> BackendType \<Rightarrow> bool" where
  "backend_allowed p opts b \<longleftrightarrow>
     (pp_backends p = Some [DSTACK] \<or> admits (pp_backends p) b)
     \<and> (oo_volumes opts \<noteq> [] \<longrightarrow> b \<in> volume_backends (first_volumes opts))
     \<and> (oo_multinode opts \<longrightarrow> b \<in> set BACKENDS_WITH_MULTINODE_SUPPORT)
     \<and> (oo_privileged opts \<or> oo_instance_mounts opts \<longrightarrow> b \<in> set BACKENDS_WITH_CREATE_INSTANCE_SUPPORT)
     \<and> (pp_reservation p \<noteq> None \<longrightarrow> b \<in> set BACKENDS_WITH_RESERVATION_SUPPORT)
     \<and> (\<forall>jpd. oo_master opts = Some jpd \<longrightarrow> b = get_base_backend jpd)"

definition region_allowed :: "ProfileParams \<Rightarrow> offer_options \<Rightarrow> string \<Rightarrow> bool" where
  "region_allowed p opts r \<longleftrightarrow> admits (pp_regions p) r
     \<and> (oo_volumes opts \<noteq> [] \<longrightarrow> r \<in> volume_regions (first_volumes opts))
     \<and> (\<forall>jpd. oo_master opts = Some jpd \<longrightarrow> r = jpd_region jpd)"

definition prepare_offer :: "ProfileParams \<Rightarrow> offer_options \<Rightarrow> InstanceOffer \<Rightarrow> InstanceOffer option" where
  "prepare_offer p opts off = Option.bind (narrow_zones (pp_availability_zones p) off)
     (if oo_blocks opts = Blocks 1 then Some else share_offer (oo_blocks opts))"

lemma admitted_backends_allowed:
  "admits (admitted_backends (drop_dstack p) opts) b \<longleftrightarrow> backend_allowed p opts b"
proof (cases "oo_volumes opts")
  case Nil
  then show ?thesis
    by (cases "oo_master opts") (auto simp: admitted_backends_def backend_allowed_def Let_def admits_drop_dstack)
next
  case (Cons vs vss)
  then show ?thesis
    by (cases "oo_master opts")
      (auto simp: admitted_backends_def backend_allowed_def Let_def admits_drop_dstack first_volumes_def volume_backends_def)
qed

lemma admitted_regions_allowed:
  "admits (admitted_regions (drop_dstack p) opts) r \<longleftrightarrow> region_allowed p opts r"
proof (cases "oo_volumes opts")
  case Nil
  then show ?thesis by (cases "oo_master opts") (auto simp: admitted_regions_def region_allowed_def Let_def)
next
  case (Cons vs vss)
  then show ?thesis
    by (cases "oo_master opts") (auto simp: admitted_regions_def region_allowed_def Let_def first_volumes_def volume_regions_def)
qed

lemma offer_passes_allowed:
  "offer_passes (drop_dstack p) opts off \<longleftrightarrow> backend_allowed p opts (of_backend off) \<and> region_allowed p opts (of_region off)"
  by (simp add: offer_passes_def admitted_backends_allowed admitted_regions_allowed)

lemma narrow_zones_rest:
  "narrow_zones zs off = Some off' \<Longrightarrow> of_instance off' = of_instance off \<and> of_backend off' = of_backend off \<and> of_region off' = of_region off"
  by (auto simp: narrow_zones_def Let_def split: option.splits if_splits)

lemma snd_option_Some: "snd_option f x = Some y \<longleftrightarrow> fst y = fst x \<and> f (snd x) = Some (snd y)"
  by (cases x; cases y) (auto simp: snd_option_def)

text \<open>The backends that are asked.\<close>

definition asked :: "ProfileParams \<Rightarrow> offer_options \<Rightarrow> Backend \<Rightarrow> bool" where
  "asked p opts b \<longleftrightarrow> admits (admitted_backends (drop_dstack p) opts) (be_type b) \<or> be_type b = DSTACK"

lemma set_get_offers_by_requirements:
  "(b, off') \<in> set (get_offers_by_requirements backends p req opts) \<longleftrightarrow>
     (\<exists>off. (b, off) \<in> offered backends req \<and> asked p opts b \<and> (oo_exclude_not_available opts \<longrightarrow> available off)
        \<and> offer_passes (drop_dstack p) opts off \<and> admits (pp_instance_types p) (it_name (of_instance off))
        \<and> prepare_offer p opts off = Some off')"
proof -
  let ?bs = "case admitted_backends (drop_dstack p) opts of None \<Rightarrow> backends
     | Some bs \<Rightarrow> filter (\<lambda>b. be_type b \<in> set bs \<or> be_type b = DSTACK) backends"
  have bs: "(b, off) \<in> offered ?bs req \<longleftrightarrow> (b, off) \<in> offered backends req \<and> asked p opts b" for off
    by (auto simp: offered_def asked_def admits_def split: option.splits)
  let ?l = "filter (\<lambda>(b, off). admits (pp_instance_types (drop_dstack p)) (it_name (of_instance off)))
     (List.map_filter (snd_option (narrow_zones (pp_availability_zones (drop_dstack p))))
       (filter (\<lambda>(b, off). offer_passes (drop_dstack p) opts off) (get_instance_offers ?bs req (oo_exclude_not_available opts))))"
  have l: "(b, o1) \<in> set ?l \<longleftrightarrow> (\<exists>off. (b, off) \<in> offered backends req \<and> asked p opts b
      \<and> (oo_exclude_not_available opts \<longrightarrow> available off) \<and> offer_passes (drop_dstack p) opts off
      \<and> admits (pp_instance_types p) (it_name (of_instance off)) \<and> narrow_zones (pp_availability_zones p) off = Some o1)" for o1
    using bs narrow_zones_rest by (fastforce simp: set_map_filter snd_option_Some set_get_instance_offers)
  obtain l where l_eq: "l = ?l" by blast
  have eq: "get_offers_by_requirements backends p req opts =
     (if oo_blocks opts = Blocks 1 then l else List.map_filter (snd_option (share_offer (oo_blocks opts))) l)"
    by (simp add: get_offers_by_requirements_def Let_def l_eq)
  note mem = l [folded l_eq]
  show ?thesis
  proof (cases "oo_blocks opts = Blocks 1")
    case True
    then show ?thesis unfolding eq by (simp add: mem prepare_offer_def)
  next
    case False
    have "(b, off') \<in> set (List.map_filter (snd_option (share_offer (oo_blocks opts))) l)
        \<longleftrightarrow> (\<exists>o1. (b, o1) \<in> set l \<and> share_offer (oo_blocks opts) o1 = Some off')"
      by (force simp: set_map_filter snd_option_Some)
    with False show ?thesis unfolding eq mem by (simp add: prepare_offer_def bind_eq_Some_conv) blast
  qed
qed

text \<open>
  C28. The offers for a request are exactly those offers of the project's backends that meet every
  condition of the request (profile, volumes, multi-node, privileges, reservation, and the backend and
  region of the master job), reduced to the admitted zones and split into the requested blocks. Asking
  only the admitted backends loses nothing, provided that a backend other than the marketplace offers
  its own instances.
\<close>

theorem get_offers_by_requirements_correct:
  assumes "\<forall>(b, off) \<in> offered backends req. be_type b \<noteq> DSTACK \<longrightarrow> of_backend off = be_type b"
  shows "set (get_offers_by_requirements backends p req opts) =
    {(b, off'). \<exists>off. (b, off) \<in> offered backends req \<and> (oo_exclude_not_available opts \<longrightarrow> available off)
       \<and> backend_allowed p opts (of_backend off) \<and> region_allowed p opts (of_region off)
       \<and> admits (pp_instance_types p) (it_name (of_instance off)) \<and> prepare_offer p opts off = Some off'}"
proof -
  have "asked p opts b" if "(b, off) \<in> offered backends req" "backend_allowed p opts (of_backend off)" for b off
    using that assms by (auto simp: asked_def admitted_backends_allowed)
  then show ?thesis
    by (auto simp: set_get_offers_by_requirements offer_passes_allowed)
qed

theorem get_offers_by_requirements_correct_witness:
  "set (get_offers_by_requirements [sample_backend AWS [sample_offer AWS 8 [] 2]] no_params sample_requirements sample_options) =
    {(b, off'). \<exists>off. (b, off) \<in> offered [sample_backend AWS [sample_offer AWS 8 [] 2]] sample_requirements
       \<and> (oo_exclude_not_available sample_options \<longrightarrow> available off)
       \<and> backend_allowed no_params sample_options (of_backend off) \<and> region_allowed no_params sample_options (of_region off)
       \<and> admits (pp_instance_types no_params) (it_name (of_instance off)) \<and> prepare_offer no_params sample_options off = Some off'}"
  by (rule get_offers_by_requirements_correct) (simp add: offered_def sample_backend_def sample_offer_def)

section \<open>Blocks never oversubscribe an instance\<close>

lemma div_blocks_sum:
  fixes full total :: int
  assumes "0 < total" and "0 \<le> full" and "sum_list bs \<le> total"
  shows "sum_list (map (\<lambda>b. full div total * b) bs) \<le> full"
proof -
  have "sum_list (map (\<lambda>b. full div total * b) bs) = full div total * sum_list bs"
    by (simp add: sum_list_const_mult)
  also have "\<dots> \<le> full div total * total"
    using assms by (intro mult_left_mono) (auto simp: pos_imp_zdiv_nonneg_iff)
  also have "\<dots> \<le> full" using assms(1) by (simp add: minus_mod_eq_div_mult [symmetric])
  finally show ?thesis .
qed

lemma is_divisible_into_blocks_True:
  "is_divisible_into_blocks cpus gpus arg = (True, n) \<longleftrightarrow>
     n = (case arg of AutoBlocks \<Rightarrow> if gpus = 0 then cpus else min cpus gpus | Blocks m \<Rightarrow> m)
     \<and> 1 \<le> n \<and> n dvd cpus \<and> n dvd gpus"
  by (auto simp: is_divisible_into_blocks_def Let_def dvd_eq_mod_eq_0)

abbreviation offer_res :: "InstanceOffer \<Rightarrow> inst_resources" where
  "offer_res off \<equiv> it_resources (of_instance off)"

lemma shared_offers_parts:
  assumes "is_divisible_into_blocks (res_cpus (offer_res off)) (int (length (res_gpus (offer_res off)))) arg = (True, n)"
    and "0 \<le> res_cpus (offer_res off)" and "0 \<le> res_memory_mib (offer_res off)"
    and "\<forall>b \<in> set bs. 0 \<le> b" and "sum_list bs \<le> n"
  shows "sum_list (map (\<lambda>b. res_cpus (offer_res (generate_shared_offer off b n))) bs) \<le> res_cpus (offer_res off)"
    and "sum_list (map (\<lambda>b. res_memory_mib (offer_res (generate_shared_offer off b n))) bs) \<le> res_memory_mib (offer_res off)"
    and "sum_list (map (\<lambda>b. int (length (res_gpus (offer_res (generate_shared_offer off b n))))) bs) \<le> int (length (res_gpus (offer_res off)))"
    and "res_cpus (offer_res (generate_shared_offer off n n)) = res_cpus (offer_res off)"
    and "res_gpus (offer_res (generate_shared_offer off n n)) = res_gpus (offer_res off)"
proof -
  let ?g = "int (length (res_gpus (offer_res off)))"
  from assms(1) have n: "1 \<le> n" "n dvd res_cpus (offer_res off)" "n dvd ?g"
    unfolding is_divisible_into_blocks_True by blast+
  show "sum_list (map (\<lambda>b. res_cpus (offer_res (generate_shared_offer off b n))) bs) \<le> res_cpus (offer_res off)"
    using div_blocks_sum [of n "res_cpus (offer_res off)" bs] n assms by (simp add: generate_shared_offer_def Let_def)
  show "sum_list (map (\<lambda>b. res_memory_mib (offer_res (generate_shared_offer off b n))) bs) \<le> res_memory_mib (offer_res off)"
    using div_blocks_sum [of n "res_memory_mib (offer_res off)" bs] n assms by (simp add: generate_shared_offer_def Let_def)
  have "sum_list (map (\<lambda>b. int (length (res_gpus (offer_res (generate_shared_offer off b n))))) bs)
      \<le> sum_list (map (\<lambda>b. ?g div n * b) bs)"
  proof (rule sum_list_mono)
    fix b assume "b \<in> set bs"
    then have "0 \<le> ?g div n * b" using assms(4) n(1) by (simp add: pos_imp_zdiv_nonneg_iff)
    then show "int (length (res_gpus (offer_res (generate_shared_offer off b n)))) \<le> ?g div n * b"
      by (simp add: generate_shared_offer_def Let_def min_le_iff_disj)
  qed
  also have "\<dots> \<le> ?g" using div_blocks_sum [of n ?g bs] n assms(5) by simp
  finally show "sum_list (map (\<lambda>b. int (length (res_gpus (offer_res (generate_shared_offer off b n))))) bs) \<le> ?g" .
  show "res_cpus (offer_res (generate_shared_offer off n n)) = res_cpus (offer_res off)"
    using n by (simp add: generate_shared_offer_def Let_def)
  show "res_gpus (offer_res (generate_shared_offer off n n)) = res_gpus (offer_res off)"
    using n by (simp add: generate_shared_offer_def Let_def)
qed

text \<open>
  An instance that is divisible into blocks is divided without remainder, and the offers for shares
  of it that fit in its blocks never add up to more processors, GPUs or memory than it has; a share of
  all blocks has all its processors and GPUs.
\<close>

theorem shared_offers_fit:
  assumes "is_divisible_into_blocks (res_cpus (offer_res off)) (int (length (res_gpus (offer_res off)))) arg = (True, n)"
    and "0 \<le> res_cpus (offer_res off)" and "0 \<le> res_memory_mib (offer_res off)"
    and "\<forall>b \<in> set bs. 0 \<le> b" and "sum_list bs \<le> n"
  shows "sum_list (map (\<lambda>b. res_cpus (offer_res (generate_shared_offer off b n))) bs) \<le> res_cpus (offer_res off)
    \<and> sum_list (map (\<lambda>b. res_memory_mib (offer_res (generate_shared_offer off b n))) bs) \<le> res_memory_mib (offer_res off)
    \<and> sum_list (map (\<lambda>b. int (length (res_gpus (offer_res (generate_shared_offer off b n))))) bs) \<le> int (length (res_gpus (offer_res off)))
    \<and> res_cpus (offer_res (generate_shared_offer off n n)) = res_cpus (offer_res off)
    \<and> res_gpus (offer_res (generate_shared_offer off n n)) = res_gpus (offer_res off)"
  using shared_offers_parts [OF assms] by blast

theorem shared_offers_fit_witness:
  "sum_list (map (\<lambda>b. res_cpus (offer_res (generate_shared_offer (sample_offer AWS 8 [] 2) b 8))) [3, 5]) \<le> 8"
  using shared_offers_fit [of "sample_offer AWS 8 [] 2" AutoBlocks 8 "[3, 5]"]
  by (simp add: is_divisible_into_blocks_def sample_offer_def)

section \<open>Blocks remembered by cached offers\<close>

text \<open>
  A request for shared instances leaves its number of blocks in the cached offers: the same
  request without blocks, while the cache is fresh, answers an offer that is split into eight blocks.
\<close>

theorem cached_offers_remember_blocks:
  "get_offers_by_requirements
     [sample_backend AWS (map (cached_after no_params (sample_options\<lparr>oo_blocks := AutoBlocks\<rparr>)) [sample_offer AWS 8 [] 2])]
     no_params sample_requirements sample_options
   = [(sample_backend AWS [(sample_offer AWS 8 [] 2)\<lparr>of_total_blocks := 8\<rparr>], (sample_offer AWS 8 [] 2)\<lparr>of_total_blocks := 8\<rparr>)]"
  by (simp add: get_offers_by_requirements_def cached_after_def Let_def get_instance_offers_def backend_offers_def
      heapq_merge_def sample_backend_def sample_offer_def sample_options_def no_params_def drop_dstack_def admitted_backends_def
      admitted_regions_def restrict_if_def offer_passes_def admits_def share_offer_def is_divisible_into_blocks_def
      snd_option_def narrow_zones_def List.map_filter_simps availability_is_available_def)

end
