(* ===== verification/Pools.thy ===== *)
theory Pools
  imports Offers Database Jobs
begin

text \<open>
  \<^verbatim>\<open>server/services/pools.py\<close>: the pools of a project and its default pool, the instances
  as shown to users, their creation, and the choice of the instances of a pool that can take a job.
\<close>

section \<open>Pools of a project\<close>

record ProjectModel =
  pj_id :: nat
  pj_name :: string
  pj_default_pool_id :: "nat option"
  pj_ssh_public_key :: string
  pj_ssh_private_key :: string

text \<open>The state the operations on pools read and write; \<open>ps_uid\<close> is the next fresh key.\<close>

record pool_state =
  ps_pools :: "PoolModel list"
  ps_project :: ProjectModel
  ps_uid :: nat

definition one_or_none :: "'a list \<Rightarrow> 'a option result" where
  "one_or_none xs = (case xs of [] \<Rightarrow> Inr None | [x] \<Rightarrow> Inr (Some x) | _ \<Rightarrow> Inl MultipleResultsFound)"

definition scalar_one :: "'a list \<Rightarrow> 'a result" where
  "scalar_one xs = (case xs of [] \<Rightarrow> Inl NoResultFound | [x] \<Rightarrow> Inr x | _ \<Rightarrow> Inl MultipleResultsFound)"

definition get_pool :: "bool \<Rightarrow> string \<Rightarrow> pool_state \<Rightarrow> PoolModel option result" where
  "get_pool select_deleted pool_name s =
     one_or_none (filter (\<lambda>p. plm_name p = pool_name \<and> plm_project_id p = pj_id (ps_project s)
       \<and> (select_deleted \<or> \<not> plm_deleted p)) (ps_pools s))"

definition set_default_pool :: "string \<Rightarrow> pool_state \<Rightarrow> pool_state result" where
  "set_default_pool pool_name s = bindE (get_pool False pool_name s) (\<lambda>pool. case pool of
      None \<Rightarrow> Inl ResourceNotExistsError
    | Some p \<Rightarrow> Inr (s\<lparr>ps_project := (ps_project s)\<lparr>pj_default_pool_id := Some (plm_id p)\<rparr>\<rparr>))"

definition new_pool :: "time \<Rightarrow> string \<Rightarrow> pool_state \<Rightarrow> PoolModel" where
  "new_pool now name s = \<lparr>plm_id = ps_uid s, plm_name = name, plm_created_at = now, plm_deleted = False,
     plm_deleted_at = None, plm_project_id = pj_id (ps_project s)\<rparr>"

definition create_pool :: "time \<Rightarrow> string \<Rightarrow> pool_state \<Rightarrow> (PoolModel \<times> pool_state) result" where
  "create_pool now name s = bindE (get_pool False name s) (\<lambda>pool. case pool of
      Some _ \<Rightarrow> Inl ResourceExistsError
    | None \<Rightarrow>
        let p = new_pool now name s;
            s1 = s\<lparr>ps_pools := ps_pools s @ [p], ps_uid := Suc (ps_uid s)\<rparr>
        in if pj_default_pool_id (ps_project s1) = None
           then fmapE (Pair p) (set_default_pool name s1) else Inr (p, s1))"

definition get_default_pool_or_error :: "pool_state \<Rightarrow> PoolModel result" where
  "get_default_pool_or_error s =
     scalar_one (filter (\<lambda>p. Some (plm_id p) = pj_default_pool_id (ps_project s)) (ps_pools s))"

definition get_or_create_pool_by_name ::
    "time \<Rightarrow> string option \<Rightarrow> pool_state \<Rightarrow> (PoolModel \<times> pool_state) result" where
  "get_or_create_pool_by_name now pool_name s = (case pool_name of
      None \<Rightarrow>
        if pj_default_pool_id (ps_project s) \<noteq> None then fmapE (\<lambda>p. (p, s)) (get_default_pool_or_error s)
        else bindE (get_pool False DEFAULT_POOL_NAME s) (\<lambda>pool. case pool of
            Some p \<Rightarrow> fmapE (Pair p) (set_default_pool DEFAULT_POOL_NAME s)
          | None \<Rightarrow> create_pool now DEFAULT_POOL_NAME s)
    | Some name \<Rightarrow>
        bindE (get_pool False name s) (\<lambda>pool. case pool of
            Some p \<Rightarrow> Inr (p, s)
          | None \<Rightarrow> create_pool now name s))"

definition list_project_pool_models :: "bool \<Rightarrow> pool_state \<Rightarrow> PoolModel list" where
  "list_project_pool_models select_deleted s =
     filter (\<lambda>p. plm_project_id p = pj_id (ps_project s) \<and> (select_deleted \<or> \<not> plm_deleted p)) (ps_pools s)"

text \<open>The instances of a pool are the rows that refer to it.\<close>

definition get_pool_instances :: "InstanceModel list \<Rightarrow> PoolModel \<Rightarrow> InstanceModel list" where
  "get_pool_instances instances pool = filter (\<lambda>i. im_pool_id i = plm_id pool \<and> \<not> im_deleted i) instances"

definition delete_pool :: "time \<Rightarrow> InstanceModel list \<Rightarrow> string \<Rightarrow> pool_state \<Rightarrow> pool_state result" where
  "delete_pool now instances pool_name s = bindE (get_pool False pool_name s) (\<lambda>pool. case pool of
      None \<Rightarrow> Inl ResourceNotExistsError
    | Some p \<Rightarrow>
        if \<exists>i \<in> set (get_pool_instances instances p). im_status i \<noteq> I_TERMINATED
        then Inl (ServerClientError ''Cannot delete pool with running instances'')
        else Inr (s\<lparr>ps_pools := put_row plm_id (p\<lparr>plm_deleted := True, plm_deleted_at := Some now\<rparr>) (ps_pools s),
               ps_project := (if pj_default_pool_id (ps_project s) = Some (plm_id p)
                 then (ps_project s)\<lparr>pj_default_pool_id := None\<rparr> else ps_project s)\<rparr>))"

record Pool =
  po_name :: string
  po_default :: bool
  po_created_at :: time
  po_total_instances :: nat
  po_available_instances :: nat

definition pool_model_to_pool :: "ProjectModel \<Rightarrow> InstanceModel list \<Rightarrow> PoolModel \<Rightarrow> Pool" where
  "pool_model_to_pool project instances p =
     (let is = get_pool_instances instances p in
      \<lparr>po_name = plm_name p, po_default = (pj_default_pool_id project = Some (plm_id p)),
       po_created_at = plm_created_at p, po_total_instances = length is,
       po_available_instances = length (filter (instance_is_available \<circ> im_status) is)\<rparr>)"

definition list_project_pools :: "time \<Rightarrow> InstanceModel list \<Rightarrow> pool_state \<Rightarrow> (Pool list \<times> pool_state) result" where
  "list_project_pools now instances s =
     (let pools = list_project_pool_models False s;
          show = (\<lambda>ps s. (map (pool_model_to_pool (ps_project s) instances) ps, s)) in
      if pools = [] then fmapE (\<lambda>(p, s'). show [p] s') (get_or_create_pool_by_name now (Some DEFAULT_POOL_NAME) s)
      else Inr (show pools s))"

text \<open>\<^verbatim>\<open>remove_instance\<close> terminates every instance of the name that has no job, or all when forced.\<close>

definition removes :: "JobModel list \<Rightarrow> nat \<Rightarrow> string \<Rightarrow> bool \<Rightarrow> InstanceModel \<Rightarrow> bool" where
  "removes jobs pool_id instance_name force i \<longleftrightarrow> im_pool_id i = pool_id \<and> im_name i = instance_name
     \<and> (force \<or> filter (\<lambda>j. jm_instance_id j = Some (im_id i)) jobs = [])"

definition remove_instance ::
    "JobModel list \<Rightarrow> string \<Rightarrow> string \<Rightarrow> bool \<Rightarrow> pool_state \<Rightarrow> InstanceModel list \<Rightarrow> InstanceModel list \<times> error option" where
  "remove_instance jobs pool_name instance_name force s instances = (case get_pool False pool_name s of
      Inl e \<Rightarrow> (instances, Some e)
    | Inr None \<Rightarrow> (instances, Some ResourceNotExistsError)
    | Inr (Some p) \<Rightarrow>
        let rem = removes jobs (plm_id p) instance_name force in
        (map_rows rem (\<lambda>i. i\<lparr>im_status := I_TERMINATING\<rparr>) instances,
         if \<exists>i \<in> set instances. rem i then None else Some ResourceNotExistsError))"

section \<open>Instances\<close>

record Instance =
  in_id :: nat
  in_project_name :: string
  in_backend :: "BackendType option"
  in_instance_type :: "InstanceType option"
  in_name :: string
  in_fleet_id :: "nat option"
  in_fleet_name :: "string option"
  in_instance_num :: nat
  in_hostname :: "string option"
  in_status :: InstanceStatus
  in_unreachable :: bool
  in_termination_reason :: "string option"
  in_created :: time
  in_region :: "string option"
  in_availability_zone :: "string option"
  in_price :: "rat option"
  in_total_blocks :: "int option"
  in_busy_blocks :: int

definition instance_model_to_instance :: "string \<Rightarrow> FleetModel list \<Rightarrow> InstanceModel \<Rightarrow> Instance" where
  "instance_model_to_instance project_name fleets i = \<lparr>
     in_id = im_id i, in_project_name = project_name, in_backend = map_option of_backend (im_offer i),
     in_instance_type = map_option jpd_instance_type (im_job_provisioning_data i), in_name = im_name i,
     in_fleet_id = im_fleet_id i,
     in_fleet_name = map_option flm_name (Option.bind (im_fleet_id i) (\<lambda>f. find (\<lambda>m. flm_id m = f) fleets)),
     in_instance_num = im_instance_num i,
     in_hostname = Option.bind (im_job_provisioning_data i) jpd_hostname, in_status = im_status i,
     in_unreachable = im_unreachable i, in_termination_reason = im_termination_reason i, in_created = im_created_at i,
     in_region = map_option of_region (im_offer i),
     in_availability_zone = Option.bind (im_job_provisioning_data i) jpd_availability_zone,
     in_price = map_option of_price (im_offer i), in_total_blocks = im_total_blocks i, in_busy_blocks = im_busy_blocks i\<rparr>"

definition show_pool_instances ::
    "time \<Rightarrow> FleetModel list \<Rightarrow> InstanceModel list \<Rightarrow> string option \<Rightarrow> pool_state
     \<Rightarrow> ((string \<times> Instance list) \<times> pool_state) result" where
  "show_pool_instances now fleets instances pool_name s =
     bindE (case pool_name of
        Some n \<Rightarrow> bindE (get_pool False n s) (\<lambda>p. case p of None \<Rightarrow> Inl ResourceNotExistsError | Some p \<Rightarrow> Inr (p, s))
      | None \<Rightarrow> get_or_create_pool_by_name now None s)
     (\<lambda>(p, s'). Inr ((plm_name p, map (instance_model_to_instance (pj_name (ps_project s')) fleets) (get_pool_instances instances p)), s'))"

text \<open>
  \<^verbatim>\<open>generate_instance_name\<close>: random names until one is free; \<open>names\<close> are the names that the
  random generator would give in turn. Running out of them is not returning.
\<close>

fun first_free :: "string set \<Rightarrow> string list \<Rightarrow> string option" where
  "first_free used [] = None"
| "first_free used (n # ns) = (if n \<in> used then first_free used ns else Some n)"

definition generate_instance_name :: "InstanceModel list \<Rightarrow> string list \<Rightarrow> PoolModel option \<Rightarrow> string option" where
  "generate_instance_name instances names pool =
     first_free (im_name ` set (case pool of None \<Rightarrow> [] | Some p \<Rightarrow> get_pool_instances instances p)) names"

definition list_active_remote_instances :: "InstanceModel list \<Rightarrow> InstanceModel list" where
  "list_active_remote_instances instances =
     sort_key im_created_at (filter (\<lambda>i. \<not> im_deleted i \<and> im_backend i = Some REMOTE) instances)"

text \<open>The fields of a new row that its creator does not set.\<close>

definition blank_instance :: "nat \<Rightarrow> time \<Rightarrow> string \<Rightarrow> nat \<Rightarrow> nat \<Rightarrow> nat \<Rightarrow> InstanceModel" where
  "blank_instance iid now name num project_id pool_id = \<lparr>im_id = iid, im_name = name, im_instance_num = num,
     im_created_at = now, im_last_processed_at = now, im_deleted = False, im_deleted_at = None,
     im_project_id = project_id, im_pool_id = pool_id, im_fleet_id = None, im_status = I_PENDING, im_unreachable = False,
     im_started_at = Some now, im_finished_at = None, im_profile = None, im_requirements = None,
     im_instance_configuration = None, im_termination_policy = None,
     im_termination_idle_time = DEFAULT_POOL_TERMINATION_IDLE_TIME, im_last_retry_at = None, im_termination_deadline = None,
     im_termination_reason = None, im_health_status = None, im_first_termination_retry_at = None,
     im_last_termination_retry_at = None, im_backend = None, im_backend_data = None, im_offer = None, im_region = None,
     im_price = None, im_job_provisioning_data = None, im_remote_connection_info = None, im_total_blocks = None,
     im_busy_blocks = 0, im_last_job_processed_at = None, im_volume_attachments = []\<rparr>"

fun blocks_column :: "blocks_arg \<Rightarrow> int option" where
  "blocks_column AutoBlocks = None"
| "blocks_column (Blocks n) = Some n"

definition create_instance_model ::
    "time \<Rightarrow> nat \<Rightarrow> ProjectModel \<Rightarrow> string \<Rightarrow> nat \<Rightarrow> Profile \<Rightarrow> Requirements \<Rightarrow> string \<Rightarrow> nat \<Rightarrow> string option
     \<Rightarrow> string option \<Rightarrow> blocks_arg \<Rightarrow> (nat \<Rightarrow> string) \<Rightarrow> InstanceModel" where
  "create_instance_model now iid project user pool_id profile requirements instance_name instance_num
       placement_group_name reservation blocks uuid_text =
     (let (policy, idle) = get_termination (pr_params profile) DEFAULT_POOL_TERMINATION_IDLE_TIME;
          key = \<lparr>sk_public = strip (pj_ssh_public_key project), sk_private = Some (strip (pj_ssh_private_key project))\<rparr>;
          config = \<lparr>icf_project_name = pj_name project, icf_instance_name = instance_name, icf_user = user,
            icf_ssh_keys = [key], icf_instance_id = Some (uuid_text iid), icf_placement_group_name = placement_group_name,
            icf_reservation = reservation, icf_volumes = None\<rparr>
      in (blank_instance iid now instance_name instance_num (pj_id project) pool_id)
           \<lparr>im_profile := Some profile, im_requirements := Some requirements, im_instance_configuration := Some config,
            im_termination_policy := Some policy, im_termination_idle_time := idle,
            im_total_blocks := blocks_column blocks\<rparr>)"

text \<open>
  \<^verbatim>\<open>create_ssh_instance_model\<close>: the resources are a stand-in until the host is connected; the empty
  backend data counts as none.
\<close>

definition ssh_instance_type :: InstanceType where
  "ssh_instance_type = \<lparr>it_name = ''ssh'', it_resources = \<lparr>res_cpus = 2, res_memory_mib = 8, res_gpus = [],
     res_spot = False, res_disk_mib = 102400, res_description = []\<rparr>\<rparr>"

definition create_ssh_instance_model ::
    "time \<Rightarrow> nat \<Rightarrow> ProjectModel \<Rightarrow> nat \<Rightarrow> string \<Rightarrow> nat \<Rightarrow> string option \<Rightarrow> string option \<Rightarrow> string option
     \<Rightarrow> RemoteConnectionInfo \<Rightarrow> blocks_arg \<Rightarrow> InstanceModel" where
  "create_ssh_instance_model now iid project pool_id instance_name instance_num internal_ip instance_network region rci blocks =
     (let host_region = (case region of None \<Rightarrow> ''remote'' | Some r \<Rightarrow> r);
          remote = \<lparr>jpd_backend = REMOTE, jpd_base_backend = None, jpd_instance_type = ssh_instance_type,
            jpd_instance_id = instance_name, jpd_hostname = Some (rci_host rci), jpd_internal_ip = internal_ip,
            jpd_public_ip_enabled = True, jpd_instance_network = instance_network, jpd_region = host_region,
            jpd_availability_zone = None, jpd_reservation = None, jpd_price = 0, jpd_username = rci_ssh_user rci,
            jpd_ssh_port = Some (rci_port rci), jpd_dockerized = True, jpd_ssh_proxy = None, jpd_backend_data = None\<rparr>;
          offer = \<lparr>of_backend = REMOTE, of_instance = ssh_instance_type, of_region = host_region, of_price = 0,
            of_availability = A_AVAILABLE, of_availability_zones = None, of_instance_runtime = SHIM,
            of_blocks = 1, of_total_blocks = 1\<rparr>
      in (blank_instance iid now instance_name instance_num (pj_id project) pool_id)
           \<lparr>im_backend := Some REMOTE, im_job_provisioning_data := Some remote, im_remote_connection_info := Some rci,
            im_offer := Some offer, im_region := Some host_region, im_price := Some 0,
            im_termination_policy := Some DONT_DESTROY, im_termination_idle_time := 0,
            im_total_blocks := blocks_column blocks\<rparr>)"

section \<open>Choosing instances of a pool\<close>

record pool_query =
  pq_requirements :: "Requirements option"
  pq_status :: "InstanceStatus option"
  pq_fleet_id :: "nat option"
  pq_multinode :: bool
  pq_master :: "JobProvisioningData option"
  pq_volumes :: "Volume list list"
  pq_shared :: bool

definition pool_backends :: "ProfileParams \<Rightarrow> pool_query \<Rightarrow> BackendType list option" where
  "pool_backends p q =
     (let bs = (case pq_volumes q of [] \<Rightarrow> pp_backends p | vs # _ \<Rightarrow> Some (map (vc_backend \<circ> vol_configuration) vs));
          bs = restrict_if (pq_multinode q) BACKENDS_WITH_MULTINODE_SUPPORT bs
      in case pq_master q of None \<Rightarrow> bs | Some jpd \<Rightarrow> restrict [get_base_backend jpd] bs)"

definition pool_regions :: "ProfileParams \<Rightarrow> pool_query \<Rightarrow> string list option" where
  "pool_regions p q =
     (let rs = (case pq_volumes q of [] \<Rightarrow> pp_regions p | vs # _ \<Rightarrow> Some (map (vc_region \<circ> vol_configuration) vs))
      in case pq_master q of None \<Rightarrow> rs | Some jpd \<Rightarrow> restrict [jpd_region jpd] rs)"

text \<open>The zones may hold the value \<^verbatim>\<open>None\<close> of a volume without zone.\<close>

definition pool_zones :: "ProfileParams \<Rightarrow> pool_query \<Rightarrow> string option list option" where
  "pool_zones p q =
     (let zs = map_option (map Some) (pp_availability_zones p)
      in case pq_volumes q of
           [] \<Rightarrow> zs
         | vs # _ \<Rightarrow> restrict (map vpd_availability_zone (List.map_filter vol_provisioning_data vs)) zs)"

definition jpd_suits :: "ProfileParams \<Rightarrow> pool_query \<Rightarrow> JobProvisioningData \<Rightarrow> bool" where
  "jpd_suits p q jpd \<longleftrightarrow> admits (pool_backends p q) (get_base_backend jpd) \<and> admits (pool_regions p q) (jpd_region jpd)
     \<and> admits (pp_instance_types p) (it_name (jpd_instance_type jpd))
     \<and> (jpd_availability_zone jpd = None \<or> admits (pool_zones p q) (jpd_availability_zone jpd))"

definition pool_candidate :: "ProfileParams \<Rightarrow> pool_query \<Rightarrow> InstanceModel \<Rightarrow> bool" where
  "pool_candidate p q i \<longleftrightarrow>
     (pq_fleet_id q = None \<or> im_fleet_id i = pq_fleet_id q)
     \<and> \<not> im_unreachable i
     \<and> (pp_instance_name p = None \<or> pp_instance_name p = Some (im_name i))
     \<and> (pq_status q = None \<or> pq_status q = Some (im_status i))
     \<and> (case im_job_provisioning_data i of None \<Rightarrow> True | Some jpd \<Rightarrow> jpd_suits p q jpd)
     \<and> (case im_total_blocks i of None \<Rightarrow> False | Some n \<Rightarrow> (n > 1) = pq_shared q)"

definition filter_pool_instances :: "matcher \<Rightarrow> InstanceModel list \<Rightarrow> ProfileParams \<Rightarrow> pool_query \<Rightarrow> InstanceModel list" where
  "filter_pool_instances matches pool_instances p q =
     (let candidates = filter (pool_candidate p q) pool_instances in
      case pq_requirements q of
        None \<Rightarrow> candidates
      | Some r \<Rightarrow>
          let query_filter = requirements_to_query_filter (Some r) in
          filter (\<lambda>i. case im_offer i of None \<Rightarrow> False | Some off \<Rightarrow> matches (offer_to_catalog_item off) query_filter)
            candidates)"

text \<open>
  The loop over the numbers of blocks stops at the first that meets the requirements; with
  \<open>idle_only\<close> the instance is dropped when so many blocks are not free.
\<close>

fun shared_offer_loop :: "(InstanceOffer \<Rightarrow> bool) \<Rightarrow> InstanceOffer \<Rightarrow> bool \<Rightarrow> int \<Rightarrow> int \<Rightarrow> int list \<Rightarrow> InstanceOffer option" where
  "shared_offer_loop fits offer idle_only tot idle [] = None"
| "shared_offer_loop fits offer idle_only tot idle (blocks # bs) =
     (let shared = generate_shared_offer offer blocks tot in
      if fits shared then
        (if blocks \<le> idle then Some (shared\<lparr>of_availability := A_IDLE\<rparr>)
         else if idle_only then None else Some (shared\<lparr>of_availability := A_BUSY\<rparr>))
      else shared_offer_loop fits offer idle_only tot idle bs)"

definition shared_instance_offer :: "matcher \<Rightarrow> Requirements \<Rightarrow> bool \<Rightarrow> InstanceModel \<Rightarrow> InstanceOffer option" where
  "shared_instance_offer matches requirements idle_only i =
     (if idle_only \<and> im_status i \<notin> {I_IDLE, I_BUSY} then None
      else (case im_offer i of
          None \<Rightarrow> None
        | Some offer \<Rightarrow> (case im_total_blocks i of
            None \<Rightarrow> None
          | Some tot \<Rightarrow>
              shared_offer_loop (\<lambda>off. matches (offer_to_catalog_item off) (requirements_to_query_filter (Some requirements)))
                offer idle_only tot (tot - im_busy_blocks i) [1..tot])))"

definition get_shared_pool_instances_with_offers ::
    "matcher \<Rightarrow> InstanceModel list \<Rightarrow> ProfileParams \<Rightarrow> Requirements \<Rightarrow> bool \<Rightarrow> nat option \<Rightarrow> Volume list list
     \<Rightarrow> (InstanceModel \<times> InstanceOffer) list" where
  "get_shared_pool_instances_with_offers matches pool_instances p requirements idle_only fleet_id volumes =
     List.map_filter (\<lambda>i. map_option (Pair i) (shared_instance_offer matches requirements idle_only i))
       (filter_pool_instances matches pool_instances p
          \<lparr>pq_requirements = None, pq_status = None, pq_fleet_id = fleet_id, pq_multinode = False, pq_master = None,
           pq_volumes = volumes, pq_shared = True\<rparr>)"

section \<open>The invariant of the pools\<close>

definition live_pools :: "pool_state \<Rightarrow> PoolModel list" where
  "live_pools s = filter (\<lambda>p. plm_project_id p = pj_id (ps_project s) \<and> \<not> plm_deleted p) (ps_pools s)"

definition pool_inv :: "pool_state \<Rightarrow> bool" where
  "pool_inv s \<longleftrightarrow> distinct (map plm_id (ps_pools s)) \<and> (\<forall>p \<in> set (ps_pools s). plm_id p < ps_uid s)
     \<and> distinct (map plm_name (live_pools s))
     \<and> (\<forall>i. pj_default_pool_id (ps_project s) = Some i \<longrightarrow> i \<in> plm_id ` set (live_pools s))"

lemma filter_unique:
  assumes "distinct (map f xs)" and "x \<in> set xs"
  shows "filter (\<lambda>y. f y = f x) xs = [x]"
  using assms
proof (induction xs)
  case (Cons y ys)
  show ?case
  proof (cases "y = x")
    case True
    with Cons.prems show ?thesis by (simp add: filter_empty_conv) (metis imageI)
  next
    case False
    with Cons show ?thesis by auto
  qed
qed simp

lemma get_pool_live: "get_pool False name s = one_or_none (filter (\<lambda>p. plm_name p = name) (live_pools s))"
  unfolding get_pool_def live_pools_def filter_filter
  by (rule arg_cong [of _ _ one_or_none]) (auto intro: filter_cong)

lemma get_pool_total:
  assumes "pool_inv s"
  shows "get_pool False name s = Inr (find (\<lambda>p. plm_name p = name) (live_pools s))"
proof (cases "find (\<lambda>p. plm_name p = name) (live_pools s)")
  case None
  then have "filter (\<lambda>p. plm_name p = name) (live_pools s) = []"
    by (auto simp: find_None_iff filter_empty_conv)
  with None show ?thesis by (simp add: get_pool_live one_or_none_def)
next
  case (Some p)
  then have "p \<in> set (live_pools s)" "plm_name p = name" by (auto simp: find_Some_iff)
  with assms have "filter (\<lambda>q. plm_name q = name) (live_pools s) = [p]"
    using filter_unique [of plm_name "live_pools s" p] by (simp add: pool_inv_def)
  with Some show ?thesis by (simp add: get_pool_live one_or_none_def)
qed

lemma find_name_Some:
  "find (\<lambda>p. plm_name p = name) ps = Some p \<Longrightarrow> p \<in> set ps \<and> plm_name p = name"
  by (auto simp: find_Some_iff)

lemma live_pools_default [simp]:
  "live_pools (s\<lparr>ps_project := (ps_project s)\<lparr>pj_default_pool_id := d\<rparr>\<rparr>) = live_pools s"
  by (simp add: live_pools_def)

lemma set_default_pool_inv:
  assumes "pool_inv s" and "set_default_pool name s = Inr s'"
  shows "pool_inv s'" and "live_pools s' = live_pools s" and "ps_pools s' = ps_pools s"
proof -
  from assms obtain p where p: "p \<in> set (live_pools s)"
    and s': "s' = s\<lparr>ps_project := (ps_project s)\<lparr>pj_default_pool_id := Some (plm_id p)\<rparr>\<rparr>"
    by (auto simp: set_default_pool_def bindE_Inr_conv get_pool_total split: option.splits dest: find_name_Some)
  show "live_pools s' = live_pools s" "ps_pools s' = ps_pools s" by (simp_all add: s')
  show "pool_inv s'" using assms(1) p by (simp add: pool_inv_def s')
qed

lemma set_default_pool_ok:
  assumes "pool_inv s" and "p \<in> set (live_pools s)"
  shows "set_default_pool (plm_name p) s = Inr (s\<lparr>ps_project := (ps_project s)\<lparr>pj_default_pool_id := Some (plm_id p)\<rparr>\<rparr>)"
proof -
  have "find (\<lambda>q. plm_name q = plm_name p) (live_pools s) = Some p"
    using assms by (intro find_key) (simp_all add: pool_inv_def)
  then show ?thesis using assms(1) by (simp add: set_default_pool_def get_pool_total)
qed

lemma live_pools_new:
  "live_pools (s\<lparr>ps_pools := ps_pools s @ [new_pool now name s], ps_uid := u\<rparr>) = live_pools s @ [new_pool now name s]"
  by (simp add: live_pools_def new_pool_def)

lemma pool_inv_new:
  assumes "pool_inv s" and "\<forall>p \<in> set (live_pools s). plm_name p \<noteq> name"
  shows "pool_inv (s\<lparr>ps_pools := ps_pools s @ [new_pool now name s], ps_uid := Suc (ps_uid s)\<rparr>)"
  using assms unfolding pool_inv_def live_pools_new by (fastforce simp: new_pool_def)

lemma create_pool_ok:
  assumes "pool_inv s" and "\<forall>p \<in> set (live_pools s). plm_name p \<noteq> name"
  shows "\<exists>s'. create_pool now name s = Inr (new_pool now name s, s') \<and> pool_inv s'
    \<and> live_pools s' = live_pools s @ [new_pool now name s]
    \<and> pj_default_pool_id (ps_project s') = (case pj_default_pool_id (ps_project s) of
        None \<Rightarrow> Some (plm_id (new_pool now name s)) | Some d \<Rightarrow> Some d)"
proof -
  let ?p = "new_pool now name s"
  let ?s1 = "s\<lparr>ps_pools := ps_pools s @ [?p], ps_uid := Suc (ps_uid s)\<rparr>"
  have f: "find (\<lambda>p. plm_name p = name) (live_pools s) = None" using assms(2) by (simp add: find_None_iff)
  have i1: "pool_inv ?s1" using assms by (rule pool_inv_new)
  have mem: "?p \<in> set (live_pools ?s1)" by (simp add: live_pools_new)
  have n: "plm_name ?p = name" by (simp add: new_pool_def)
  note d = set_default_pool_ok [OF i1 mem, unfolded n]
  show ?thesis
  proof (cases "pj_default_pool_id (ps_project s)")
    case None
    with f d set_default_pool_inv [OF i1 d] show ?thesis
      using assms(1) by (simp add: create_pool_def get_pool_total live_pools_new Let_def)
  next
    case (Some k)
    with f i1 show ?thesis using assms(1) by (simp add: create_pool_def get_pool_total live_pools_new Let_def)
  qed
qed

lemma create_pool_inv:
  assumes "pool_inv s" and "create_pool now name s = Inr (p, s')"
  shows "pool_inv s'"
proof -
  have "\<forall>q \<in> set (live_pools s). plm_name q \<noteq> name"
    using assms by (auto simp: create_pool_def get_pool_total find_None_iff split: option.splits)
  from create_pool_ok [OF assms(1) this, of now] assms(2) show ?thesis by auto
qed

lemma filter_put_row_absent:
  assumes "\<not> P r"
  shows "filter P (put_row key r rs) = filter (\<lambda>x. key x \<noteq> key r) (filter P rs)"
  using assms by (induction rs) auto

lemma delete_pool_inv:
  assumes "pool_inv s" and "delete_pool now instances name s = Inr s'"
  shows "pool_inv s'"
proof -
  from assms obtain p where p: "p \<in> set (live_pools s)" and s': "s' = s\<lparr>ps_pools := put_row plm_id (p\<lparr>plm_deleted := True, plm_deleted_at := Some now\<rparr>) (ps_pools s),
               ps_project := (if pj_default_pool_id (ps_project s) = Some (plm_id p)
                 then (ps_project s)\<lparr>pj_default_pool_id := None\<rparr> else ps_project s)\<rparr>"
    by (auto simp: delete_pool_def bindE_Inr_conv get_pool_total split: option.splits if_split_asm dest: find_name_Some)
  have live: "live_pools s' = filter (\<lambda>q. plm_id q \<noteq> plm_id p) (live_pools s)"
    by (simp add: live_pools_def s' filter_put_row_absent)
  have ids: "map plm_id (ps_pools s') = map plm_id (ps_pools s)" and u: "ps_uid s' = ps_uid s" by (simp_all add: s')
  have "plm_id ` set (ps_pools s') = plm_id ` set (ps_pools s)" using arg_cong [OF ids, of set] by simp
  moreover have "\<forall>k \<in> plm_id ` set (ps_pools s). k < ps_uid s" using assms(1) by (auto simp: pool_inv_def)
  ultimately have "\<forall>q \<in> set (ps_pools s'). plm_id q < ps_uid s'" unfolding u by (metis imageI)
  moreover have "distinct (map plm_name (live_pools s'))"
    unfolding live using assms(1) by (simp add: pool_inv_def distinct_map_filter)
  moreover have "\<forall>i. pj_default_pool_id (ps_project s') = Some i \<longrightarrow> i \<in> plm_id ` set (live_pools s')"
    unfolding live using assms(1) by (auto simp: pool_inv_def s' split: if_split_asm)
  ultimately show ?thesis using assms(1) ids by (simp add: pool_inv_def)
qed

lemma default_pool_ok:
  assumes "pool_inv s" and "pj_default_pool_id (ps_project s) = Some i"
  shows "\<exists>p. get_default_pool_or_error s = Inr p \<and> p \<in> set (live_pools s) \<and> plm_id p = i"
proof -
  obtain p where p: "p \<in> set (live_pools s)" "plm_id p = i" using assms by (auto simp: pool_inv_def)
  then have "p \<in> set (ps_pools s)" by (simp add: live_pools_def)
  then have "filter (\<lambda>q. plm_id q = plm_id p) (ps_pools s) = [p]"
    using assms(1) by (intro filter_unique) (simp_all add: pool_inv_def)
  with p assms(2) show ?thesis by (simp add: get_default_pool_or_error_def scalar_one_def)
qed

text \<open>The pool that a name, or no name, stands for.\<close>

definition names_pool :: "string option \<Rightarrow> pool_state \<Rightarrow> PoolModel \<Rightarrow> bool" where
  "names_pool name s p \<longleftrightarrow> p \<in> set (live_pools s) \<and> (case name of Some n \<Rightarrow> plm_name p = n
     | None \<Rightarrow> pj_default_pool_id (ps_project s) = Some (plm_id p))"

lemma names_pool_get:
  assumes "pool_inv s" and "names_pool name s p"
  shows "get_or_create_pool_by_name now name s = Inr (p, s)"
proof (cases name)
  case None
  with assms have d: "pj_default_pool_id (ps_project s) = Some (plm_id p)" and p: "p \<in> set (live_pools s)" by (simp_all add: names_pool_def)
  from default_pool_ok [OF assms(1) d] obtain q where q: "get_default_pool_or_error s = Inr q" "q \<in> set (live_pools s)" "plm_id q = plm_id p" by blast
  have "distinct (map plm_id (live_pools s))" using assms(1) by (simp add: pool_inv_def live_pools_def distinct_map_filter)
  with q p have "q = p" by (auto simp: distinct_map inj_on_def)
  with q d None show ?thesis by (simp add: get_or_create_pool_by_name_def)
next
  case (Some n)
  with assms have "find (\<lambda>q. plm_name q = plm_name p) (live_pools s) = Some p"
    by (intro find_key) (simp_all add: pool_inv_def names_pool_def)
  with Some assms show ?thesis by (simp add: get_or_create_pool_by_name_def get_pool_total names_pool_def)
qed

lemma get_or_create_cases:
  assumes "pool_inv s"
  shows "\<exists>p s'. get_or_create_pool_by_name now name s = Inr (p, s') \<and> pool_inv s' \<and> names_pool name s' p
    \<and> set (live_pools s) \<subseteq> set (live_pools s')"
proof (cases "\<exists>p. names_pool name s p")
  case True
  then show ?thesis using names_pool_get [OF assms] assms by blast
next
  case False
  let ?n = "case name of None \<Rightarrow> DEFAULT_POOL_NAME | Some n \<Rightarrow> n"
  have nd: "pj_default_pool_id (ps_project s) = None" if "name = None"
  proof (rule ccontr)
    assume "pj_default_pool_id (ps_project s) \<noteq> None"
    then obtain i where i: "pj_default_pool_id (ps_project s) = Some i" by blast
    from default_pool_ok [OF assms i] i False that show False by (auto simp: names_pool_def)
  qed
  show ?thesis
  proof (cases "find (\<lambda>p. plm_name p = ?n) (live_pools s)")
    case None
    then have "\<forall>p \<in> set (live_pools s). plm_name p \<noteq> ?n" by (simp add: find_None_iff)
    from create_pool_ok [OF assms this, of now] obtain s' where s': "create_pool now ?n s = Inr (new_pool now ?n s, s')"
      "pool_inv s'" "live_pools s' = live_pools s @ [new_pool now ?n s]"
      "pj_default_pool_id (ps_project s') = (case pj_default_pool_id (ps_project s) of
        None \<Rightarrow> Some (plm_id (new_pool now ?n s)) | Some d \<Rightarrow> Some d)" by blast
    have "get_or_create_pool_by_name now name s = create_pool now ?n s"
      using None nd assms by (cases name) (simp_all add: get_or_create_pool_by_name_def get_pool_total)
    with s' nd show ?thesis by (cases name) (auto simp: names_pool_def new_pool_def)
  next
    case (Some p)
    then have p: "p \<in> set (live_pools s)" "plm_name p = ?n" by (auto simp: find_Some_iff)
    with False have name: "name = None" by (cases name) (auto simp: names_pool_def)
    note d = set_default_pool_ok [OF assms p(1)]
    have "get_or_create_pool_by_name now name s = fmapE (Pair p) (set_default_pool (plm_name p) s)"
      using Some nd assms p(2) name by (simp add: get_or_create_pool_by_name_def get_pool_total)
    with d set_default_pool_inv [OF assms d] p(1) name show ?thesis by (auto simp: names_pool_def)
  qed
qed

section \<open>Pools as a transition system\<close>

inductive pool_step :: "pool_state \<Rightarrow> pool_state \<Rightarrow> bool" where
  create: "create_pool now name s = Inr (p, s') \<Longrightarrow> pool_step s s'"
| set_default: "set_default_pool name s = Inr s' \<Longrightarrow> pool_step s s'"
| get_or_create: "get_or_create_pool_by_name now name' s = Inr (p, s') \<Longrightarrow> pool_step s s'"
| delete: "delete_pool now instances name s = Inr s' \<Longrightarrow> pool_step s s'"

definition no_pools :: "pool_state \<Rightarrow> bool" where
  "no_pools s \<longleftrightarrow> ps_pools s = [] \<and> pj_default_pool_id (ps_project s) = None"

lemma pool_step_inv:
  assumes "pool_step s s'" and "pool_inv s"
  shows "pool_inv s'"
  using assms
proof (cases rule: pool_step.cases)
  case (get_or_create now name' p)
  with get_or_create_cases [OF assms(2), of now name'] show ?thesis by auto
qed (use assms in \<open>auto intro: create_pool_inv set_default_pool_inv(1) delete_pool_inv\<close>)

interpretation pool_system: invariant_system no_pools pool_step pool_inv
proof
  show "pool_inv s" if "no_pools s" for s using that by (simp add: no_pools_def pool_inv_def live_pools_def)
qed (rule pool_step_inv)

text \<open>
  In every state a project reaches by creating, deleting and choosing pools, resolving a pool name
  (or none, for the default pool) succeeds with a live pool of that name, which is the project's default
  when none was given; it loses no pool, and resolving the name again gives the same pool and changes
  nothing.
\<close>

theorem get_or_create_pool_correct:
  assumes "reach no_pools pool_step s"
  shows "\<exists>p s'. get_or_create_pool_by_name now name s = Inr (p, s') \<and> reach no_pools pool_step s'
    \<and> names_pool name s' p \<and> set (live_pools s) \<subseteq> set (live_pools s')
    \<and> get_or_create_pool_by_name now' name s' = Inr (p, s')"
proof -
  have inv: "pool_inv s" using assms by (rule pool_system.reach_inv)
  from get_or_create_cases [OF this, of now name] obtain p s'
    where r: "get_or_create_pool_by_name now name s = Inr (p, s')" "pool_inv s'" "names_pool name s' p"
      "set (live_pools s) \<subseteq> set (live_pools s')" by blast
  have "reach no_pools pool_step s'" using assms pool_step.get_or_create [OF r(1)] by (rule reach_step)
  with r names_pool_get [OF r(2,3)] show ?thesis by blast
qed

definition sample_project :: ProjectModel where
  "sample_project = \<lparr>pj_id = 1, pj_name = ''main'', pj_default_pool_id = None, pj_ssh_public_key = ''pub'', pj_ssh_private_key = ''key''\<rparr>"

definition empty_project :: pool_state where
  "empty_project = \<lparr>ps_pools = [], ps_project = sample_project, ps_uid = 1\<rparr>"

theorem get_or_create_pool_correct_witness:
  "\<exists>p s'. get_or_create_pool_by_name 0 None empty_project = Inr (p, s') \<and> names_pool None s' p"
proof -
  have "reach no_pools pool_step empty_project"
    by (rule reach_init) (simp add: no_pools_def empty_project_def sample_project_def)
  from get_or_create_pool_correct [OF this, of 0 None] show ?thesis by blast
qed

section \<open>Shared instances\<close>

lemma generate_shared_blocks [simp]: "of_blocks (generate_shared_offer off b n) = b" "of_total_blocks (generate_shared_offer off b n) = n"
  by (simp_all add: generate_shared_offer_def Let_def)

lemma shared_offer_loop_Some:
  assumes "shared_offer_loop fits offer True tot idle bs = Some off" and "sorted_wrt (<) bs"
  shows "\<exists>b \<in> set bs. off = (generate_shared_offer offer b tot)\<lparr>of_availability := A_IDLE\<rparr> \<and> b \<le> idle
    \<and> fits (generate_shared_offer offer b tot) \<and> (\<forall>c \<in> set bs. c < b \<longrightarrow> \<not> fits (generate_shared_offer offer c tot))"
  using assms
proof (induction bs)
  case (Cons b bs)
  show ?case
  proof (cases "fits (generate_shared_offer offer b tot)")
    case True
    then have "off = (generate_shared_offer offer b tot)\<lparr>of_availability := A_IDLE\<rparr> \<and> b \<le> idle"
      using Cons.prems(1) by (auto simp: Let_def split: if_split_asm)
    moreover have "\<forall>c \<in> set (b # bs). \<not> c < b" using Cons.prems(2) by auto
    ultimately show ?thesis using True by (intro bexI [of _ b]) auto
  next
    case False
    then obtain b' where "b' \<in> set bs" "off = (generate_shared_offer offer b' tot)\<lparr>of_availability := A_IDLE\<rparr>" "b' \<le> idle"
      "fits (generate_shared_offer offer b' tot)" "\<forall>c \<in> set bs. c < b' \<longrightarrow> \<not> fits (generate_shared_offer offer c tot)"
      using Cons by (auto simp: Let_def)
    with False show ?thesis by (intro bexI [of _ b']) auto
  qed
qed simp

text \<open>What it means that an offer is the least share of an instance that meets the requirements.\<close>

definition least_share :: "matcher \<Rightarrow> Requirements \<Rightarrow> InstanceModel \<Rightarrow> InstanceOffer \<Rightarrow> bool" where
  "least_share matches req i off \<longleftrightarrow>
     (\<exists>tot full. im_total_blocks i = Some tot \<and> im_offer i = Some full
        \<and> off = (generate_shared_offer full (of_blocks off) tot)\<lparr>of_availability := A_IDLE\<rparr>
        \<and> 1 \<le> of_blocks off \<and> of_blocks off \<le> tot - im_busy_blocks i
        \<and> matches (offer_to_catalog_item (generate_shared_offer full (of_blocks off) tot)) (requirements_to_query_filter (Some req))
        \<and> (\<forall>b. 1 \<le> b \<and> b < of_blocks off \<longrightarrow>
             \<not> matches (offer_to_catalog_item (generate_shared_offer full b tot)) (requirements_to_query_filter (Some req))))"

lemma sorted_upto_less: "sorted_wrt (<) [a..b]" for a b :: int
proof (induction a b rule: upto.induct)
  case (1 a b)
  then show ?case by (cases "a \<le> b") (auto simp: upto_rec1)
qed

lemma shared_instance_offer_least:
  assumes "shared_instance_offer matches req True i = Some off"
  shows "least_share matches req i off \<and> im_status i \<in> {I_IDLE, I_BUSY}"
proof -
  from assms obtain full tot where f: "im_offer i = Some full" "im_total_blocks i = Some tot"
    and st: "im_status i \<in> {I_IDLE, I_BUSY}"
    and l: "shared_offer_loop (\<lambda>off. matches (offer_to_catalog_item off) (requirements_to_query_filter (Some req)))
                full True tot (tot - im_busy_blocks i) [1..tot] = Some off"
    by (auto simp: shared_instance_offer_def split: if_split_asm option.splits)
  from shared_offer_loop_Some [OF l sorted_upto_less] obtain b where b: "1 \<le> b" "b \<le> tot"
    "off = (generate_shared_offer full b tot)\<lparr>of_availability := A_IDLE\<rparr>" "b \<le> tot - im_busy_blocks i"
    "matches (offer_to_catalog_item (generate_shared_offer full b tot)) (requirements_to_query_filter (Some req))"
    "\<forall>c \<in> {1..tot}. c < b \<longrightarrow> \<not> matches (offer_to_catalog_item (generate_shared_offer full c tot)) (requirements_to_query_filter (Some req))"
    by auto
  then have "of_blocks off = b" by simp
  with b f st show ?thesis unfolding least_share_def by auto
qed

text \<open>
  C30. An instance of a pool that is offered for sharing to a job to be assigned is a reachable candidate of the request that is
  idle or busy, and the offer is the least number of its blocks whose share of the resources meets the
  requirements; that many blocks are free.
\<close>

theorem get_shared_pool_instances_correct:
  assumes "(i, off) \<in> set (get_shared_pool_instances_with_offers matches is p req True fleet_id volumes)"
  shows "i \<in> set is \<and> \<not> im_unreachable i \<and> im_status i \<in> {I_IDLE, I_BUSY}
    \<and> (\<exists>n. im_total_blocks i = Some n \<and> 1 < n) \<and> (fleet_id \<noteq> None \<longrightarrow> im_fleet_id i = fleet_id)
    \<and> least_share matches req i off"
proof -
  have s: "shared_instance_offer matches req True i = Some off" and i: "i \<in> set is"
    and c: "pool_candidate p \<lparr>pq_requirements = None, pq_status = None, pq_fleet_id = fleet_id, pq_multinode = False,
      pq_master = None, pq_volumes = volumes, pq_shared = True\<rparr> i"
    using assms by (auto simp: get_shared_pool_instances_with_offers_def set_map_filter filter_pool_instances_def)
  have "\<not> im_unreachable i \<and> (\<exists>n. im_total_blocks i = Some n \<and> 1 < n) \<and> (fleet_id \<noteq> None \<longrightarrow> im_fleet_id i = fleet_id)"
    using c unfolding pool_candidate_def by (auto split: option.splits)
  with s i shared_instance_offer_least [OF s] show ?thesis by blast
qed

definition shared_instance :: InstanceModel where
  "shared_instance = (sample_instance 5 I_BUSY 2)\<lparr>im_total_blocks := Some 4, im_offer := Some (sample_offer AWS 8 [] 2)\<rparr>"

theorem get_shared_pool_instances_correct_witness:
  "least_share (\<lambda>item q. cat_cpu item \<ge> 3) sample_requirements shared_instance
     ((generate_shared_offer (sample_offer AWS 8 [] 2) 2 4)\<lparr>of_availability := A_IDLE\<rparr>)"
proof -
  have "(shared_instance, (generate_shared_offer (sample_offer AWS 8 [] 2) 2 4)\<lparr>of_availability := A_IDLE\<rparr>)
     \<in> set (get_shared_pool_instances_with_offers (\<lambda>item q. cat_cpu item \<ge> 3) [shared_instance] no_params sample_requirements True None [])"
    by (simp add: get_shared_pool_instances_with_offers_def filter_pool_instances_def pool_candidate_def jpd_suits_def
        pool_backends_def pool_regions_def pool_zones_def admits_def restrict_if_def shared_instance_def no_params_def row_simps
        List.map_filter_simps shared_instance_offer_def upto_rec1 generate_shared_offer_def sample_offer_def offer_to_catalog_item_def Let_def)
  from get_shared_pool_instances_correct [OF this] show ?thesis by blast
qed

end
