(* ===== verification/Submitted_Jobs.thy ===== *)
theory Submitted_Jobs
  imports Pools Terminating_Jobs Run_System
begin

text \<open>
  The background task \<^verbatim>\<open>process_submitted_jobs.py\<close>. A submitted job first gets an instance of
  its pool assigned, or none; in a second step it is provisioned on that instance or on a new one, and
  its volumes are attached. Both steps read the rows again after waiting for locks: \<open>seen\<close> is the
  database before the wait, \<open>d\<close> the database the step works on. An exception undoes the step. The
  clouds, the catalogue and the environment variables are parameters.
\<close>

record sj_env =
  sj_now :: time
  sj_uid :: nat
  sj_project :: ProjectModel
  sj_backends :: "Backend list"
  sj_backend_by_type :: "BackendType \<Rightarrow> Backend option"
  sj_matches :: matcher
  sj_environ :: "(string \<times> string) list"

text \<open>\<^verbatim>\<open>utils/env.py\<close>\<close>

definition get_bool :: "(string \<times> string) list \<Rightarrow> string \<Rightarrow> bool \<Rightarrow> bool result" where
  "get_bool environ name dflt = (case map_of environ name of
      None \<Rightarrow> Inr dflt
    | Some v \<Rightarrow>
        if lower v \<in> set [''0'', ''false'', ''off''] then Inr False
        else if lower v \<in> set [''1'', ''true'', ''on''] then Inr True
        else Inl ValueError)"

section \<open>Runtime data\<close>

definition prepare_job_runtime_data :: "sj_env \<Rightarrow> InstanceOffer \<Rightarrow> JobRuntimeData result" where
  "prepare_job_runtime_data env offer =
     (if of_total_blocks offer = 1 then
        fmapE (\<lambda>bridge. \<lparr>jrd_network_mode = (if bridge then BRIDGE else HOST), jrd_gpu = None, jrd_cpu = None,
            jrd_memory = None, jrd_ports = None, jrd_volume_names = None, jrd_offer = Some offer\<rparr>)
          (get_bool (sj_environ env) ''DSTACK_FORCE_BRIDGE_NETWORK'' False)
      else
        let res = it_resources (of_instance offer) in
        Inr \<lparr>jrd_network_mode = BRIDGE, jrd_gpu = Some (int (length (res_gpus res))), jrd_cpu = Some (of_int (res_cpus res)),
             jrd_memory = Some (of_int (res_memory_mib res) / 1024), jrd_ports = None, jrd_volume_names = None,
             jrd_offer = Some offer\<rparr>)"

section \<open>Assigning an instance of the pool\<close>

definition get_job_pool :: "db \<Rightarrow> nat \<Rightarrow> ProfileParams \<Rightarrow> PoolModel result" where
  "get_job_pool d project_id profile =
     scalar_one (filter (\<lambda>p. plm_project_id p = project_id \<and> \<not> plm_deleted p
       \<and> plm_name p = (case pp_pool_name profile of None \<Rightarrow> DEFAULT_POOL_NAME | Some [] \<Rightarrow> DEFAULT_POOL_NAME | Some n \<Rightarrow> n))
       (db_pools d))"

definition has_free_blocks :: "InstanceModel \<Rightarrow> bool" where
  "has_free_blocks i \<longleftrightarrow> \<not> im_deleted i \<and> (case im_total_blocks i of None \<Rightarrow> False | Some n \<Rightarrow> n > im_busy_blocks i)"

text \<open>The instances of the pool before the lock, and those of them that are still usable after it.\<close>

definition pool_instance_ids :: "db \<Rightarrow> nat \<Rightarrow> nat list" where
  "pool_instance_ids d pool_id = sort (map im_id (filter (\<lambda>i. im_pool_id i = pool_id \<and> has_free_blocks i) (db_instances d)))"

definition refetch_pool_instances :: "db \<Rightarrow> nat list \<Rightarrow> InstanceModel list" where
  "refetch_pool_instances d ids =
     (let detaching = get_instances_ids_with_detaching_volumes (db_jobs d) in
      filter (\<lambda>i. im_id i \<notin> set detaching \<and> im_id i \<in> set ids \<and> has_free_blocks i) (db_instances d))"

definition instance_price :: "InstanceModel \<Rightarrow> rat" where
  "instance_price i = (case im_price i of None \<Rightarrow> 0 | Some p \<Rightarrow> p)"

definition instances_with_offers ::
    "matcher \<Rightarrow> InstanceModel list \<Rightarrow> ProfileParams \<Rightarrow> JobSpec \<Rightarrow> nat option \<Rightarrow> JobProvisioningData option
     \<Rightarrow> Volume list list \<Rightarrow> (InstanceModel \<times> InstanceOffer) list result" where
  "instances_with_offers matches pool_instances profile spec fleet_id master volumes =
     (let multinode = js_jobs_per_replica spec > 1;
          nonshared = filter_pool_instances matches pool_instances profile
            \<lparr>pq_requirements = Some (js_requirements spec), pq_status = Some I_IDLE, pq_fleet_id = fleet_id,
             pq_multinode = multinode, pq_master = master, pq_volumes = volumes, pq_shared = False\<rparr> in
      bindE (mapE (\<lambda>i. fmapE (Pair i) (get_or_error (im_offer i))) nonshared) (\<lambda>own.
      Inr (own @ (if multinode then []
             else get_shared_pool_instances_with_offers matches pool_instances profile (js_requirements spec) True fleet_id volumes))))"

definition assign_job_to_pool_instance ::
    "sj_env \<Rightarrow> InstanceModel list \<Rightarrow> ProfileParams \<Rightarrow> JobSpec \<Rightarrow> nat option \<Rightarrow> JobProvisioningData option
     \<Rightarrow> Volume list list \<Rightarrow> JobModel \<Rightarrow> (JobModel \<times> InstanceModel option) result" where
  "assign_job_to_pool_instance env pool_instances profile spec fleet_id master volumes job =
     bindE (instances_with_offers (sj_matches env) pool_instances profile spec fleet_id master volumes) (\<lambda>iwo.
     case sort_key (\<lambda>(i, off). instance_price i) iwo of
       [] \<Rightarrow> Inr (job, None)
     | (i, off) # _ \<Rightarrow>
         bindE (prepare_job_runtime_data env off) (\<lambda>jrd.
         Inr (job\<lparr>jm_instance_id := Some (im_id i), jm_used_instance_id := Some (im_id i),
                  jm_job_provisioning_data := im_job_provisioning_data i, jm_job_runtime_data := Some jrd\<rparr>,
              Some (i\<lparr>im_status := I_BUSY, im_busy_blocks := im_busy_blocks i + of_blocks off\<rparr>))))"

section \<open>A new instance\<close>

definition get_offer_mount_point_volume :: "Volume list \<Rightarrow> InstanceOffer \<Rightarrow> Volume result" where
  "get_offer_mount_point_volume volumes offer =
     (case find (\<lambda>v. vc_backend (vol_configuration v) = of_backend offer \<and> vc_region (vol_configuration v) = of_region offer) volumes of
        Some v \<Rightarrow> Inr v
      | None \<Rightarrow> Inl (ServerClientError ''Failed to find an eligible volume for the mount point''))"

definition get_offer_volumes :: "Volume list list \<Rightarrow> InstanceOffer \<Rightarrow> Volume list result" where
  "get_offer_volumes volumes offer = mapE (\<lambda>vs. get_offer_mount_point_volume vs offer) volumes"

fun try_offers ::
    "Run \<Rightarrow> Job \<Rightarrow> Volume list list \<Rightarrow> (Backend \<times> InstanceOffer) list \<Rightarrow> (JobProvisioningData \<times> InstanceOffer) option result" where
  "try_offers run job volumes [] = Inr None"
| "try_offers run job volumes ((backend, offer) # offers) =
     bindE (get_offer_volumes volumes offer) (\<lambda>offer_volumes.
       case be_run_job backend run job offer offer_volumes of
         Inr jpd \<Rightarrow> Inr (Some (jpd, offer))
       | Inl _ \<Rightarrow> try_offers run job volumes offers)"

definition fleet_cluster :: "FleetModel option \<Rightarrow> bool" where
  "fleet_cluster fleet = (case fleet of None \<Rightarrow> False | Some f \<Rightarrow> fc_placement (fs_configuration (flm_spec f)) = Some CLUSTER)"

definition job_offer_options :: "FleetModel option \<Rightarrow> JobSpec \<Rightarrow> RunSpec \<Rightarrow> JobProvisioningData option \<Rightarrow> Volume list list \<Rightarrow> offer_options" where
  "job_offer_options fleet spec run_spec master volumes = \<lparr>oo_exclude_not_available = True,
     oo_multinode = (js_jobs_per_replica spec > 1 \<or> fleet_cluster fleet), oo_master = master, oo_volumes = volumes,
     oo_privileged = js_privileged spec, oo_instance_mounts = check_run_spec_requires_instance_mounts run_spec,
     oo_blocks = Blocks 1\<rparr>"

text \<open>The search for offers resets \<^verbatim>\<open>backends: [dstack]\<close> in the profile of the run.\<close>

definition run_after_offers :: "Run \<Rightarrow> Run" where
  "run_after_offers run =
     (let spec = run_run_spec run; prof = spec_merged_profile spec
      in run\<lparr>run_run_spec := spec\<lparr>spec_merged_profile := prof\<lparr>pr_params := drop_dstack (pr_params prof)\<rparr>\<rparr>\<rparr>)"

definition run_job_on_new_instance ::
    "sj_env \<Rightarrow> FleetModel option \<Rightarrow> Run \<Rightarrow> Job \<Rightarrow> JobProvisioningData option \<Rightarrow> Volume list list
     \<Rightarrow> (JobProvisioningData \<times> InstanceOffer) option result" where
  "run_job_on_new_instance env fleet run job master volumes =
     (let offers = get_offers_by_requirements (sj_backends env) (pr_params (spec_merged_profile (run_run_spec run)))
            (js_requirements (job_spec job)) (job_offer_options fleet (job_spec job) (run_run_spec run) master volumes)
      in try_offers (run_after_offers run) job volumes (take 15 offers))"

text \<open>A fleet for the run of a job; a fleet row needs a name.\<close>

definition new_fleet_for_job :: "sj_env \<Rightarrow> nat \<Rightarrow> Run \<Rightarrow> FleetModel result" where
  "new_fleet_for_job env fleet_id run =
     bindE (get_or_error (spec_run_name (run_run_spec run))) (\<lambda>name.
     let conf = spec_configuration (run_run_spec run);
         placement = (if conf_type conf = TASK \<and> conf_nodes conf > 1 then CLUSTER else ANY);
         fleet_conf = \<lparr>fc_name = Some name, fc_env = [], fc_ssh_config = None, fc_nodes = None, fc_placement = Some placement,
           fc_resources = Some default_resources, fc_blocks = Blocks 1,
           fc_params = no_params\<lparr>pp_reservation := pp_reservation (bc_params (conf_base conf))\<rparr>\<rparr>
     in Inr \<lparr>flm_id = fleet_id, flm_name = name, flm_project_id = pj_id (sj_project env), flm_created_at = sj_now env,
          flm_last_processed_at = sj_now env, flm_deleted = False, flm_deleted_at = None, flm_status = F_ACTIVE,
          flm_status_message = None,
          flm_spec = mk_FleetSpec fleet_conf None (spec_merged_profile (run_run_spec run)) True\<rparr>)"

definition get_or_create_fleet_model_for_job :: "sj_env \<Rightarrow> nat \<Rightarrow> FleetModel option \<Rightarrow> Run \<Rightarrow> FleetModel result" where
  "get_or_create_fleet_model_for_job env fleet_id fleet run = (case fleet of Some f \<Rightarrow> Inr f | None \<Rightarrow> new_fleet_for_job env fleet_id run)"

definition get_next_instance_num :: "db \<Rightarrow> FleetModel \<Rightarrow> nat" where
  "get_next_instance_num d fleet = length (filter (\<lambda>i. im_fleet_id i = Some (flm_id fleet)) (db_instances d))"

definition create_instance_model_for_job ::
    "sj_env \<Rightarrow> nat \<Rightarrow> PoolModel \<Rightarrow> FleetModel \<Rightarrow> ProfileParams \<Rightarrow> JobProvisioningData \<Rightarrow> InstanceOffer \<Rightarrow> nat \<Rightarrow> InstanceModel" where
  "create_instance_model_for_job env iid pool fleet profile jpd offer instance_num =
     (let (policy, idle) = (if \<not> jpd_dockerized jpd then (DESTROY_AFTER_IDLE, 0)
            else get_termination profile DEFAULT_RUN_TERMINATION_IDLE_TIME)
      in (blank_instance iid (sj_now env) (flm_name fleet @ ''-'' @ show_nat instance_num) instance_num
            (pj_id (sj_project env)) (plm_id pool))
           \<lparr>im_status := I_PROVISIONING, im_job_provisioning_data := Some jpd, im_offer := Some offer,
            im_termination_policy := Some policy, im_termination_idle_time := idle, im_backend := Some (of_backend offer),
            im_price := Some (of_price offer), im_region := Some (of_region offer), im_total_blocks := Some 1,
            im_busy_blocks := 1\<rparr>)"

section \<open>Attaching volumes\<close>

datatype attach_outcome = Skipped | Attached | AttachFailed

text \<open>One volume of a mount point; the row is read again to see whether the volume was deleted.\<close>

definition attach_volume :: "db \<Rightarrow> Backend \<Rightarrow> JobProvisioningData \<Rightarrow> VolumeModel \<Rightarrow> attach_outcome" where
  "attach_volume d backend jpd volume_model =
     (let volume = volume_model_to_volume volume_model in
      if get_base_backend jpd \<noteq> vc_backend (vol_configuration volume) \<or> jpd_region jpd \<noteq> vc_region (vol_configuration volume)
      then Skipped
      else (case vol_provisioning_data volume of
          None \<Rightarrow> Skipped
        | Some vpd \<Rightarrow>
            if \<not> vpd_attachable vpd then Skipped
            else (case find (\<lambda>v. vm_id v = vm_id volume_model) (db_volumes d) of
                None \<Rightarrow> AttachFailed
              | Some row \<Rightarrow>
                  if vm_deleted row then AttachFailed
                  else (case be_attach_volume backend volume (jpd_instance_id jpd) of
                      Inl _ \<Rightarrow> AttachFailed | Inr _ \<Rightarrow> Attached))))"

definition fail_attach :: "JobModel \<Rightarrow> JobModel" where
  "fail_attach job = job\<lparr>jm_status := J_TERMINATING, jm_termination_reason := Some TERMINATED_BY_SERVER,
     jm_termination_reason_message := Some ''Failed to attach volume''\<rparr>"

definition attached_names :: "JobRuntimeData \<Rightarrow> string list" where
  "attached_names jrd = (case jrd_volume_names jrd of None \<Rightarrow> [] | Some ns \<Rightarrow> ns)"

text \<open>
  The volumes of a mount point are tried in order until one is attached; a failure marks the job and
  the next one is tried. The runtime data of the job is written after every volume.
\<close>

fun attach_mount_point ::
    "(VolumeModel \<Rightarrow> attach_outcome) \<Rightarrow> VolumeModel list \<Rightarrow> JobModel \<times> InstanceModel \<times> JobRuntimeData
     \<Rightarrow> JobModel \<times> InstanceModel \<times> JobRuntimeData" where
  "attach_mount_point attach [] st = st"
| "attach_mount_point attach (v # vs) (job, inst, jrd) = (case attach v of
      Skipped \<Rightarrow> attach_mount_point attach vs (job\<lparr>jm_job_runtime_data := Some jrd\<rparr>, inst, jrd)
    | AttachFailed \<Rightarrow> attach_mount_point attach vs ((fail_attach job)\<lparr>jm_job_runtime_data := Some jrd\<rparr>, inst, jrd)
    | Attached \<Rightarrow>
        let jrd' = jrd\<lparr>jrd_volume_names := Some (attached_names jrd @ [vm_name v])\<rparr>
        in (job\<lparr>jm_job_runtime_data := Some jrd'\<rparr>,
            inst\<lparr>im_volume_attachments := im_volume_attachments inst @ [vm_id v]\<rparr>, jrd'))"

definition attach_volumes ::
    "sj_env \<Rightarrow> db \<Rightarrow> JobModel \<Rightarrow> InstanceModel \<Rightarrow> VolumeModel list list \<Rightarrow> (JobModel \<times> InstanceModel) result" where
  "attach_volumes env d job inst volume_models =
     bindE (get_or_error (im_job_provisioning_data inst)) (\<lambda>jpd.
     bindE (case sj_backend_by_type env (jpd_backend jpd) of None \<Rightarrow> Inl BackendNotAvailable | Some b \<Rightarrow> Inr b) (\<lambda>backend.
     bindE (get_or_error (jm_job_runtime_data job)) (\<lambda>jrd.
     let (job', inst', jrd') = fold (attach_mount_point (attach_volume d backend jpd)) volume_models
           (job, inst, jrd\<lparr>jrd_volume_names := Some []\<rparr>)
     in Inr (job', inst'))))"

section \<open>One step\<close>

definition db_add_instance :: "InstanceModel \<Rightarrow> db \<Rightarrow> db" where
  "db_add_instance i d = d\<lparr>db_instances := db_instances d @ [i]\<rparr>"

definition db_fleet :: "db \<Rightarrow> nat option \<Rightarrow> FleetModel option" where
  "db_fleet d fid = Option.bind fid (\<lambda>f. find (\<lambda>m. flm_id m = f) (db_fleets d))"

text \<open>\<^verbatim>\<open>session.add(fleet_model)\<close>: a row that is already stored is not added again.\<close>

definition db_add_fleet :: "FleetModel \<Rightarrow> db \<Rightarrow> db" where
  "db_add_fleet f d = (if flm_id f \<in> flm_id ` set (db_fleets d) then d else d\<lparr>db_fleets := db_fleets d @ [f]\<rparr>)"

text \<open>The messages of the client errors; those of missing resources are not kept in the model.\<close>

fun error_msg :: "error \<Rightarrow> string" where
  "error_msg (ServerClientError m) = m"
| "error_msg ResourceNotExistsError = ''Resource not found''"
| "error_msg ResourceExistsError = ''Resource exists''"
| "error_msg BackendNotAvailable = ''Backend not available''"
| "error_msg (RepoDoesNotExistError m) = m"
| "error_msg (GatewayError m) = m"
| "error_msg _ = []"

definition no_capacity :: "JobModel \<Rightarrow> JobModel" where
  "no_capacity job = job\<lparr>jm_status := J_TERMINATING, jm_termination_reason := Some FAILED_TO_START_DUE_TO_NO_CAPACITY\<rparr>"

definition volume_failure :: "string \<Rightarrow> JobModel \<Rightarrow> JobModel" where
  "volume_failure msg job = job\<lparr>jm_status := J_TERMINATING, jm_termination_reason := Some TERMINATED_BY_SERVER,
     jm_termination_reason_message := Some msg\<rparr>"

definition touch_job :: "sj_env \<Rightarrow> JobModel \<Rightarrow> JobModel" where
  "touch_job env job = job\<lparr>jm_last_processed_at := sj_now env\<rparr>"

text \<open>
  Where the master job of the replica runs: \<open>Inr None\<close> in the job of the master itself,
  and \<open>Inl\<close> while it is not provisioned.
\<close>

definition master_data :: "Job list \<Rightarrow> Job \<Rightarrow> JobProvisioningData option option result" where
  "master_data jobs job =
     bindE (find_job jobs (js_replica_num (job_spec job)) 0) (\<lambda>master.
     if js_job_num (job_spec job) = 0 then Inr (Some None)
     else if job_submissions master = [] then Inl IndexError
     else Inr (map_option Some (sub_job_provisioning_data (last (job_submissions master)))))"

text \<open>The first step: assign an instance of the pool.\<close>

definition assign_step ::
    "sj_env \<Rightarrow> db \<Rightarrow> db \<Rightarrow> PoolModel \<Rightarrow> ProfileParams \<Rightarrow> JobSpec \<Rightarrow> nat option \<Rightarrow> JobProvisioningData option
     \<Rightarrow> Volume list list \<Rightarrow> JobModel \<Rightarrow> db result" where
  "assign_step env seen d pool profile spec fleet_id master volumes job =
     fmapE (\<lambda>(job', inst). db_put_job (touch_job env (job'\<lparr>jm_instance_assigned := True\<rparr>))
         (case inst of None \<Rightarrow> d | Some i \<Rightarrow> db_put_instance i d))
       (assign_job_to_pool_instance env (refetch_pool_instances d (pool_instance_ids seen (plm_id pool))) profile spec
          fleet_id master volumes job)"

text \<open>The end of the second step: attach the volumes and store the rows.\<close>

definition finish_step ::
    "sj_env \<Rightarrow> db \<Rightarrow> (InstanceModel \<Rightarrow> db \<Rightarrow> db) \<Rightarrow> VolumeModel list list \<Rightarrow> JobModel \<Rightarrow> InstanceModel \<Rightarrow> db result" where
  "finish_step env d store volume_models job inst =
     fmapE (\<lambda>(job', inst'). db_put_job (touch_job env job') (store inst' d))
       (if volume_models = [] then Inr (job, inst) else attach_volumes env d job inst volume_models)"

definition provision_step ::
    "sj_env \<Rightarrow> db \<Rightarrow> PoolModel \<Rightarrow> RunModel \<Rightarrow> Run \<Rightarrow> Job \<Rightarrow> JobProvisioningData option \<Rightarrow> VolumeModel list list \<Rightarrow> JobModel \<Rightarrow> db result" where
  "provision_step env d pool run_model run job master volume_models job_model =
     (case jm_instance_id job_model of
        Some i \<Rightarrow> (case db_instance d i of
            None \<Rightarrow> Inl NoResultFound
          | Some inst \<Rightarrow> finish_step env d db_put_instance volume_models (job_model\<lparr>jm_status := J_PROVISIONING\<rparr>) inst)
      | None \<Rightarrow>
          let profile = pr_params (spec_merged_profile (rm_run_spec run_model));
              fleet = db_fleet d (rm_fleet_id run_model) in
          if pp_creation_policy profile = Some REUSE then Inr (db_put_job (touch_job env (no_capacity job_model)) d)
          else bindE (run_job_on_new_instance env fleet run job master (map (map volume_model_to_volume) volume_models)) (\<lambda>r.
            case r of
              None \<Rightarrow> Inr (db_put_job (touch_job env (no_capacity job_model)) d)
            | Some (jpd, offer) \<Rightarrow>
                bindE (get_or_create_fleet_model_for_job env (Suc (sj_uid env)) fleet (run_after_offers run)) (\<lambda>fleet_model.
                bindE (prepare_job_runtime_data env offer) (\<lambda>jrd.
                let inst = (create_instance_model_for_job env (sj_uid env) pool fleet_model profile jpd offer
                              (get_next_instance_num d fleet_model))\<lparr>im_fleet_id := Some (flm_id fleet_model)\<rparr>
                in finish_step env d (\<lambda>i d. db_add_fleet fleet_model (db_add_instance i d)) volume_models
                     (job_model\<lparr>jm_job_provisioning_data := Some jpd, jm_status := J_PROVISIONING,
                        jm_job_runtime_data := Some jrd, jm_instance_id := Some (im_id inst),
                        jm_used_instance_id := Some (im_id inst)\<rparr>) inst))))"

definition process_submitted_job :: "sj_env \<Rightarrow> db \<Rightarrow> db \<Rightarrow> JobModel \<Rightarrow> db result" where
  "process_submitted_job env seen d job_model =
     bindE (case db_run_of_job d job_model of None \<Rightarrow> Inl NoResultFound | Some r \<Rightarrow> Inr r) (\<lambda>run_model.
     bindE (run_model_to_run (sj_now env) True False run_model) (\<lambda>run.
     bindE (find_job (run_jobs run) (jm_replica_num job_model) (jm_job_num job_model)) (\<lambda>job.
     bindE (master_data (run_jobs run) job) (\<lambda>master.
     let spec = job_spec job; profile = pr_params (spec_merged_profile (rm_run_spec run_model));
         wait = Inr (db_put_job (touch_job env job_model) d) in
     case master of
       None \<Rightarrow> wait
     | Some master_jpd \<Rightarrow>
         if (js_job_num spec \<noteq> 0 \<or> js_replica_num spec \<noteq> 0) \<and> rm_fleet_id run_model = None then wait
         else
           (case bindE (get_job_configured_volume_models (db_volumes seen) (rm_project_id run_model)
                    (interpolate_job_volumes (bc_volumes (base_of (rm_run_spec run_model))) (js_job_num spec)) (Some spec))
                  (\<lambda>vms. fmapE (\<lambda>_. vms) (check_can_attach_job_volumes (map (map volume_model_to_volume) vms))) of
              Inl e \<Rightarrow> if is_ServerClientError e
                then Inr (db_put_job (touch_job env (volume_failure (error_msg e) job_model)) d) else Inl e
            | Inr volume_models \<Rightarrow>
                bindE (get_job_pool d (rm_project_id run_model) profile) (\<lambda>pool.
                if \<not> jm_instance_assigned job_model
                then assign_step env seen d pool profile spec (rm_fleet_id run_model) master_jpd
                       (map (map volume_model_to_volume) volume_models) job_model
                else provision_step env d pool run_model run job master_jpd volume_models job_model))))))"

section \<open>The task\<close>

definition next_submitted_job :: "nat set \<Rightarrow> db \<Rightarrow> JobModel option" where
  "next_submitted_job lockset d =
     (case sort_key jm_last_processed_at (filter (\<lambda>j. jm_status j = J_SUBMITTED \<and> jm_id j \<notin> lockset) (db_jobs d)) of
        [] \<Rightarrow> None | j # _ \<Rightarrow> Some j)"

definition process_next_submitted_job :: "sj_env \<Rightarrow> nat set \<Rightarrow> db \<Rightarrow> db \<Rightarrow> db result" where
  "process_next_submitted_job env lockset seen d =
     (case next_submitted_job lockset d of None \<Rightarrow> Inr d | Some j \<Rightarrow> process_submitted_job env seen d j)"

end
