(* ===== verification/Job_Provisioning.thy ===== *)
theory Job_Provisioning
  imports Submitted_Jobs
begin

text \<open>
  What the submitted-jobs task guarantees: the accounting of instance blocks, the choice of an instance,
  the offers that are tried, and that for a run each step is one of the events of its transition system.
\<close>

section \<open>Cases of a step\<close>

definition parked :: "sj_env \<Rightarrow> JobModel \<Rightarrow> JobModel \<Rightarrow> bool" where
  "parked env j j' \<longleftrightarrow> j' = touch_job env j \<or> j' = touch_job env (no_capacity j)
     \<or> (\<exists>msg. j' = touch_job env (volume_failure msg j)) \<or> j' = touch_job env (j\<lparr>jm_instance_assigned := True\<rparr>)"

definition assigned_row :: "sj_env \<Rightarrow> JobModel \<Rightarrow> InstanceModel \<Rightarrow> JobRuntimeData \<Rightarrow> JobModel" where
  "assigned_row env j i jrd = touch_job env (j\<lparr>jm_instance_id := Some (im_id i), jm_used_instance_id := Some (im_id i),
     jm_job_provisioning_data := im_job_provisioning_data i, jm_job_runtime_data := Some jrd, jm_instance_assigned := True\<rparr>)"

definition provisioned_row :: "JobModel \<Rightarrow> JobProvisioningData \<Rightarrow> JobRuntimeData \<Rightarrow> nat \<Rightarrow> JobModel" where
  "provisioned_row j jpd jrd i = j\<lparr>jm_job_provisioning_data := Some jpd, jm_status := J_PROVISIONING,
     jm_job_runtime_data := Some jrd, jm_instance_id := Some i, jm_used_instance_id := Some i\<rparr>"

lemma assign_step_cases:
  assumes "assign_step env seen d pool profile spec fid master volumes j = Inr d'"
  obtains (none) "d' = db_put_job (touch_job env (j\<lparr>jm_instance_assigned := True\<rparr>)) d"
  | (some) i off jrd iwo rest where
      "instances_with_offers (sj_matches env) (refetch_pool_instances d (pool_instance_ids seen (plm_id pool))) profile spec fid master volumes = Inr iwo"
      "sort_key (\<lambda>(i, off). instance_price i) iwo = (i, off) # rest" "prepare_job_runtime_data env off = Inr jrd"
      "d' = db_put_job (assigned_row env j i jrd)
         (db_put_instance (i\<lparr>im_status := I_BUSY, im_busy_blocks := im_busy_blocks i + of_blocks off\<rparr>) d)"
proof -
  from assms obtain job' oi where a: "assign_job_to_pool_instance env (refetch_pool_instances d (pool_instance_ids seen (plm_id pool)))
      profile spec fid master volumes j = Inr (job', oi)"
    and d': "d' = db_put_job (touch_job env (job'\<lparr>jm_instance_assigned := True\<rparr>)) (case oi of None \<Rightarrow> d | Some i \<Rightarrow> db_put_instance i d)"
    by (auto simp: assign_step_def fmapE_Inr_conv)
  from a obtain iwo where iwo: "instances_with_offers (sj_matches env) (refetch_pool_instances d (pool_instance_ids seen (plm_id pool))) profile spec fid master volumes = Inr iwo"
    and r: "(case sort_key (\<lambda>(i, off). instance_price i) iwo of
       [] \<Rightarrow> Inr (j, None)
     | (i, off) # _ \<Rightarrow>
         bindE (prepare_job_runtime_data env off) (\<lambda>jrd.
         Inr (j\<lparr>jm_instance_id := Some (im_id i), jm_used_instance_id := Some (im_id i),
                  jm_job_provisioning_data := im_job_provisioning_data i, jm_job_runtime_data := Some jrd\<rparr>,
              Some (i\<lparr>im_status := I_BUSY, im_busy_blocks := im_busy_blocks i + of_blocks off\<rparr>)))) = Inr (job', oi)"
    by (auto simp: assign_job_to_pool_instance_def bindE_Inr_conv)
  show ?thesis
  proof (cases "sort_key (\<lambda>(i, off). instance_price i) iwo")
    case Nil
    with r d' show ?thesis by (intro none) auto
  next
    case (Cons p rest)
    obtain i off where p: "p = (i, off)" by (cases p)
    from r Cons p obtain jrd where "prepare_job_runtime_data env off = Inr jrd"
      "job' = j\<lparr>jm_instance_id := Some (im_id i), jm_used_instance_id := Some (im_id i),
                  jm_job_provisioning_data := im_job_provisioning_data i, jm_job_runtime_data := Some jrd\<rparr>"
      "oi = Some (i\<lparr>im_status := I_BUSY, im_busy_blocks := im_busy_blocks i + of_blocks off\<rparr>)"
      by (auto simp: bindE_Inr_conv)
    with iwo Cons p d' show ?thesis by (intro some) (auto simp: assigned_row_def)
  qed
qed

text \<open>What attaching volumes keeps of the rows.\<close>

definition attach_frame :: "JobModel \<Rightarrow> InstanceModel \<Rightarrow> JobModel \<Rightarrow> InstanceModel \<Rightarrow> bool" where
  "attach_frame j i j' i' \<longleftrightarrow> same_row j j' \<and> jm_run_id j' = jm_run_id j \<and> jm_instance_id j' = jm_instance_id j
     \<and> jm_instance_assigned j' = jm_instance_assigned j \<and> job_blocks j' = job_blocks j
     \<and> jm_used_instance_id j' = jm_used_instance_id j \<and> jm_volumes_detached_at j' = jm_volumes_detached_at j
     \<and> (jm_status j' = jm_status j \<and> jm_termination_reason j' = jm_termination_reason j
        \<or> jm_status j' = J_TERMINATING \<and> jm_termination_reason j' = Some TERMINATED_BY_SERVER)
     \<and> i'\<lparr>im_volume_attachments := []\<rparr> = i\<lparr>im_volume_attachments := []\<rparr>"

definition offer_kept :: "JobModel \<Rightarrow> JobRuntimeData \<Rightarrow> bool" where
  "offer_kept j jrd \<longleftrightarrow> map_option jrd_offer (jm_job_runtime_data j) = Some (jrd_offer jrd)"

lemma attach_frame_refl [simp]: "attach_frame j i j i"
  by (simp add: attach_frame_def same_row_def)

lemma attach_frame_instance:
  assumes "attach_frame j i j' i'"
  shows "im_id i' = im_id i" "im_busy_blocks i' = im_busy_blocks i" "im_total_blocks i' = im_total_blocks i" "im_offer i' = im_offer i"
    "im_fleet_id i' = im_fleet_id i" "im_status i' = im_status i"
proof -
  have e: "i'\<lparr>im_volume_attachments := []\<rparr> = i\<lparr>im_volume_attachments := []\<rparr>" using assms by (simp add: attach_frame_def)
  show "im_id i' = im_id i" "im_busy_blocks i' = im_busy_blocks i" "im_total_blocks i' = im_total_blocks i" "im_offer i' = im_offer i"
    "im_fleet_id i' = im_fleet_id i" "im_status i' = im_status i"
    using arg_cong [OF e, of im_id] arg_cong [OF e, of im_busy_blocks] arg_cong [OF e, of im_total_blocks]
      arg_cong [OF e, of im_offer] arg_cong [OF e, of im_fleet_id] arg_cong [OF e, of im_status] by simp_all
qed

lemma attach_frame_trans: "attach_frame j i j1 i1 \<Longrightarrow> attach_frame j1 i1 j2 i2 \<Longrightarrow> attach_frame j i j2 i2"
  by (auto simp: attach_frame_def same_row_def)

lemma offer_kept_blocks: "offer_kept j jrd \<Longrightarrow> jrd_offer jrd' = jrd_offer jrd \<Longrightarrow> job_blocks (j\<lparr>jm_job_runtime_data := Some jrd'\<rparr>) = job_blocks j"
  by (auto simp: offer_kept_def job_blocks_def)

lemma attach_frame_save:
  assumes "offer_kept j jrd" and "jrd_offer jrd' = jrd_offer jrd"
  shows "attach_frame j i (j\<lparr>jm_job_runtime_data := Some jrd'\<rparr>) (i\<lparr>im_volume_attachments := vs\<rparr>)"
    and "attach_frame j i ((fail_attach j)\<lparr>jm_job_runtime_data := Some jrd'\<rparr>) i"
proof -
  have "job_blocks ((fail_attach j)\<lparr>jm_job_runtime_data := Some jrd'\<rparr>) = job_blocks (j\<lparr>jm_job_runtime_data := Some jrd'\<rparr>)"
    by (simp add: job_blocks_def)
  then show "attach_frame j i (j\<lparr>jm_job_runtime_data := Some jrd'\<rparr>) (i\<lparr>im_volume_attachments := vs\<rparr>)"
    "attach_frame j i ((fail_attach j)\<lparr>jm_job_runtime_data := Some jrd'\<rparr>) i"
    using offer_kept_blocks [OF assms]
    by (simp_all add: attach_frame_def same_row_def fail_attach_def job_key_def)
qed

lemma attach_frame_same:
  assumes "offer_kept j jrd" shows "attach_frame j i (j\<lparr>jm_job_runtime_data := Some jrd\<rparr>) i"
  using attach_frame_save(1) [OF assms refl, of i "im_volume_attachments i"] by simp

lemma attach_mount_point_frame:
  assumes "attach_mount_point attach vs (j, i, jrd) = (j', i', jrd')" and "offer_kept j jrd"
  shows "attach_frame j i j' i' \<and> offer_kept j' jrd'"
  using assms
proof (induction vs arbitrary: j)
  case (Cons v vs)
  show ?case
  proof (cases "attach v")
    case Skipped
    let ?j = "j\<lparr>jm_job_runtime_data := Some jrd\<rparr>"
    have "attach_frame ?j i j' i' \<and> offer_kept j' jrd'"
      using Cons.prems(1) Skipped by (intro Cons.IH) (simp_all add: offer_kept_def)
    with attach_frame_same [OF Cons.prems(2)] show ?thesis using attach_frame_trans by blast
  next
    case AttachFailed
    let ?j = "(fail_attach j)\<lparr>jm_job_runtime_data := Some jrd\<rparr>"
    have "attach_frame ?j i j' i' \<and> offer_kept j' jrd'"
      using Cons.prems(1) AttachFailed by (intro Cons.IH) (simp_all add: offer_kept_def)
    with attach_frame_save(2) [OF Cons.prems(2) refl] show ?thesis using attach_frame_trans by blast
  next
    case Attached
    then have "j' = j\<lparr>jm_job_runtime_data := Some jrd'\<rparr>" "i' = i\<lparr>im_volume_attachments := im_volume_attachments i @ [vm_id v]\<rparr>"
      "jrd_offer jrd' = jrd_offer jrd" using Cons.prems(1) by (auto simp: Let_def)
    then show ?thesis using attach_frame_save(1) [OF Cons.prems(2)] by (simp add: offer_kept_def)
  qed
qed simp

lemma attach_fold_frame:
  assumes "fold (attach_mount_point attach) vss (j, i, jrd) = (j', i', jrd')" and "offer_kept j jrd"
  shows "attach_frame j i j' i'"
  using assms
proof (induction vss arbitrary: j i jrd)
  case (Cons vs vss)
  obtain j1 i1 jrd1 where m: "attach_mount_point attach vs (j, i, jrd) = (j1, i1, jrd1)" by (metis prod_cases3)
  note f = attach_mount_point_frame [OF m Cons.prems(2)]
  have "attach_frame j1 i1 j' i'" using Cons.prems(1) m f by (intro Cons.IH [of j1 i1 jrd1]) simp_all
  with f show ?case using attach_frame_trans by blast
qed simp

lemma attach_volumes_frame:
  assumes "attach_volumes env d j i vss = Inr (j', i')"
  shows "attach_frame j i j' i'"
proof -
  from assms obtain jpd b jrd where jrd: "jm_job_runtime_data j = Some jrd"
    and r: "(case fold (attach_mount_point (attach_volume d b jpd)) vss (j, i, jrd\<lparr>jrd_volume_names := Some []\<rparr>) of
        (job', inst', jrd') \<Rightarrow> Inr (job', inst')) = (Inr (j', i') :: (JobModel \<times> InstanceModel) result)"
    by (auto simp: attach_volumes_def bindE_Inr_conv get_or_error_def split: option.splits)
  obtain jrd' where "fold (attach_mount_point (attach_volume d b jpd)) vss (j, i, jrd\<lparr>jrd_volume_names := Some []\<rparr>) = (j', i', jrd')"
    using r by (auto split: prod.splits)
  moreover have "offer_kept j (jrd\<lparr>jrd_volume_names := Some []\<rparr>)" using jrd by (simp add: offer_kept_def)
  ultimately show ?thesis by (rule attach_fold_frame)
qed

lemma finish_step_cases:
  assumes "finish_step env d store vss j i = Inr d'"
  obtains j' i' where "attach_frame j i j' i'" and "d' = db_put_job (touch_job env j') (store i' d)"
proof -
  from assms obtain j' i' where d': "d' = db_put_job (touch_job env j') (store i' d)"
    and r: "(if vss = [] then Inr (j, i) else attach_volumes env d j i vss) = Inr (j', i')"
    by (auto simp: finish_step_def fmapE_Inr_conv)
  then have "attach_frame j i j' i'" by (cases "vss = []") (auto intro: attach_volumes_frame)
  with d' show ?thesis by (intro that)
qed

definition new_instance_of :: "sj_env \<Rightarrow> db \<Rightarrow> PoolModel \<Rightarrow> FleetModel \<Rightarrow> ProfileParams \<Rightarrow> JobProvisioningData \<Rightarrow> InstanceOffer \<Rightarrow> InstanceModel" where
  "new_instance_of env d pool fleet profile jpd offer =
     (create_instance_model_for_job env (sj_uid env) pool fleet profile jpd offer (get_next_instance_num d fleet))
       \<lparr>im_fleet_id := Some (flm_id fleet)\<rparr>"

lemma new_instance_of_fields [simp]:
  "im_id (new_instance_of env d pool fleet profile jpd offer) = sj_uid env"
  "im_busy_blocks (new_instance_of env d pool fleet profile jpd offer) = 1"
  "im_total_blocks (new_instance_of env d pool fleet profile jpd offer) = Some 1"
  "im_offer (new_instance_of env d pool fleet profile jpd offer) = Some offer"
  by (simp_all add: new_instance_of_def create_instance_model_for_job_def blank_instance_def split_def Let_def)

lemma provision_step_cases:
  assumes "provision_step env d pool run_model run job master vms j = Inr d'"
  obtains (no_capacity) "d' = db_put_job (touch_job env (no_capacity j)) d" "jm_instance_id j = None"
  | (existing) i j' i' where "jm_instance_id j = Some (im_id i)" "i \<in> set (db_instances d)"
      "attach_frame (j\<lparr>jm_status := J_PROVISIONING\<rparr>) i j' i'" "d' = db_put_job (touch_job env j') (db_put_instance i' d)"
  | (new) jpd offer fleet jrd j' i' where "jm_instance_id j = None"
      "run_job_on_new_instance env (db_fleet d (rm_fleet_id run_model)) run job master (map (map volume_model_to_volume) vms) = Inr (Some (jpd, offer))"
      "prepare_job_runtime_data env offer = Inr jrd"
      "attach_frame (provisioned_row j jpd jrd (sj_uid env))
         (new_instance_of env d pool fleet (pr_params (spec_merged_profile (rm_run_spec run_model))) jpd offer) j' i'"
      "d' = db_put_job (touch_job env j') (db_add_fleet fleet (db_add_instance i' d))"
proof (cases "jm_instance_id j")
  case (Some k)
  with assms obtain i where i: "db_instance d k = Some i"
    and f: "finish_step env d db_put_instance vms (j\<lparr>jm_status := J_PROVISIONING\<rparr>) i = Inr d'"
    by (auto simp: provision_step_def split: option.splits)
  from db_instance_Some [OF i] Some have i': "jm_instance_id j = Some (im_id i)" "i \<in> set (db_instances d)" by auto
  show ?thesis
  proof (rule finish_step_cases [OF f])
    fix j' i' assume "attach_frame (j\<lparr>jm_status := J_PROVISIONING\<rparr>) i j' i'" "d' = db_put_job (touch_job env j') (db_put_instance i' d)"
    with i' show ?thesis by (rule existing)
  qed
next
  case None
  let ?pp = "pr_params (spec_merged_profile (rm_run_spec run_model))"
  let ?r = "run_job_on_new_instance env (db_fleet d (rm_fleet_id run_model)) run job master (map (map volume_model_to_volume) vms)"
  show ?thesis
  proof (cases "pp_creation_policy ?pp = Some REUSE \<or> ?r = Inr None")
    case True
    with None assms have "d' = db_put_job (touch_job env (no_capacity j)) d"
      by (auto simp: provision_step_def Let_def split: if_split_asm)
    then show ?thesis using None by (rule no_capacity)
  next
    case False
    then obtain jpd offer where r: "?r = Inr (Some (jpd, offer))"
      using None assms by (cases ?r) (auto simp: provision_step_def Let_def)
    with False None assms obtain fleet jrd where
        jrd: "prepare_job_runtime_data env offer = Inr jrd"
      and f: "finish_step env d (\<lambda>i d. db_add_fleet fleet (db_add_instance i d)) vms
          (provisioned_row j jpd jrd (im_id (new_instance_of env d pool fleet ?pp jpd offer)))
          (new_instance_of env d pool fleet ?pp jpd offer) = Inr d'"
      by (auto simp: provision_step_def Let_def bindE_Inr_conv provisioned_row_def new_instance_of_def)
    show ?thesis
    proof (rule finish_step_cases [OF f])
      fix j' i' assume fr: "attach_frame (provisioned_row j jpd jrd (im_id (new_instance_of env d pool fleet ?pp jpd offer)))
          (new_instance_of env d pool fleet ?pp jpd offer) j' i'"
        "d' = db_put_job (touch_job env j') (db_add_fleet fleet (db_add_instance i' d))"
      show ?thesis by (rule new [OF None r jrd]) (use fr in \<open>simp_all\<close>)
    qed
  qed
qed

lemma process_submitted_job_cases:
  assumes "process_submitted_job env seen d j = Inr d'"
  obtains (parked) j' where "parked env j j'" "d' = db_put_job j' d"
  | (assign) run_model spec pool master vss where "db_run_of_job d j = Some run_model" "\<not> jm_instance_assigned j"
      "assign_step env seen d pool (pr_params (spec_merged_profile (rm_run_spec run_model))) spec (rm_fleet_id run_model) master vss j = Inr d'"
  | (provision) run_model run job pool master vms where "db_run_of_job d j = Some run_model" "jm_instance_assigned j"
      "provision_step env d pool run_model run job master vms j = Inr d'"
proof -
  from assms obtain run_model run job master where r: "db_run_of_job d j = Some run_model"
    and p: "(let spec = job_spec job; profile = pr_params (spec_merged_profile (rm_run_spec run_model));
         wait = Inr (db_put_job (touch_job env j) d) in
     case master of
       None \<Rightarrow> wait
     | Some master_jpd \<Rightarrow>
         if (js_job_num spec \<noteq> 0 \<or> js_replica_num spec \<noteq> 0) \<and> rm_fleet_id run_model = None then wait
         else
           (case bindE (get_job_configured_volume_models (db_volumes seen) (rm_project_id run_model)
                    (interpolate_job_volumes (bc_volumes (base_of (rm_run_spec run_model))) (js_job_num spec)) (Some spec))
                  (\<lambda>vms. fmapE (\<lambda>_. vms) (check_can_attach_job_volumes (map (map volume_model_to_volume) vms))) of
              Inl e \<Rightarrow> if is_ServerClientError e
                then Inr (db_put_job (touch_job env (volume_failure (error_msg e) j)) d) else Inl e
            | Inr volume_models \<Rightarrow>
                bindE (get_job_pool d (rm_project_id run_model) profile) (\<lambda>pool.
                if \<not> jm_instance_assigned j
                then assign_step env seen d pool profile spec (rm_fleet_id run_model) master_jpd
                       (map (map volume_model_to_volume) volume_models) j
                else provision_step env d pool run_model run job master_jpd volume_models j))) = Inr d'"
    unfolding process_submitted_job_def by (auto simp only: bindE_Inr_conv split: option.splits) 
  show ?thesis
  proof (cases "d' = db_put_job (touch_job env j) d \<or> (\<exists>msg. d' = db_put_job (touch_job env (volume_failure msg j)) d)")
    case True
    then obtain j' where "parked env j j'" "d' = db_put_job j' d" by (auto simp: parked_def)
    then show ?thesis by (rule parked)
  next
    case False
    with p consider (a) master_jpd vms pool where "\<not> jm_instance_assigned j" "assign_step env seen d pool
          (pr_params (spec_merged_profile (rm_run_spec run_model))) (job_spec job) (rm_fleet_id run_model) master_jpd
          (map (map volume_model_to_volume) vms) j = Inr d'"
      | (p) master_jpd vms pool where "jm_instance_assigned j" "provision_step env d pool run_model run job master_jpd vms j = Inr d'"
      by (cases "jm_instance_assigned j")
        (auto simp: Let_def bindE_Inr_conv split: option.split_asm if_split_asm sum.split_asm)
    then show ?thesis
    proof cases
      case a
      with r show ?thesis by (intro assign)
    next
      case p
      with r show ?thesis by (intro provision)
    qed
  qed
qed

section \<open>Instances that are chosen\<close>

lemma filter_pool_candidate:
  "i \<in> set (filter_pool_instances matches is p q) \<Longrightarrow> i \<in> set is \<and> pool_candidate p q i
    \<and> (\<forall>r. pq_requirements q = Some r \<longrightarrow> (\<exists>off. im_offer i = Some off
         \<and> matches (offer_to_catalog_item off) (requirements_to_query_filter (Some r))))"
  by (auto simp: filter_pool_instances_def Let_def split: option.splits)

text \<open>An idle instance that is used as a whole.\<close>

definition whole_instance :: "matcher \<Rightarrow> ProfileParams \<Rightarrow> JobSpec \<Rightarrow> JobProvisioningData option \<Rightarrow> InstanceModel \<Rightarrow> InstanceOffer \<Rightarrow> bool" where
  "whole_instance matches profile spec master i off \<longleftrightarrow>
     im_status i = I_IDLE \<and> (\<exists>n. im_total_blocks i = Some n \<and> n \<le> 1) \<and> im_offer i = Some off
     \<and> matches (offer_to_catalog_item off) (requirements_to_query_filter (Some (js_requirements spec)))
     \<and> (\<forall>m jpd. master = Some m \<longrightarrow> im_job_provisioning_data i = Some jpd \<longrightarrow>
          get_base_backend jpd = get_base_backend m \<and> jpd_region jpd = jpd_region m)"

text \<open>A share of an instance, only for jobs that run on a single node.\<close>

definition shared_blocks :: "matcher \<Rightarrow> JobSpec \<Rightarrow> InstanceModel \<Rightarrow> InstanceOffer \<Rightarrow> bool" where
  "shared_blocks matches spec i off \<longleftrightarrow> js_jobs_per_replica spec \<le> 1 \<and> im_status i \<in> {I_IDLE, I_BUSY}
     \<and> (\<exists>n. im_total_blocks i = Some n \<and> 1 < n) \<and> least_share matches (js_requirements spec) i off"

lemma candidate_master:
  assumes "pool_candidate p q i" and "pq_master q = Some m" and "im_job_provisioning_data i = Some jpd"
  shows "get_base_backend jpd = get_base_backend m \<and> jpd_region jpd = jpd_region m"
  using assms by (auto simp: pool_candidate_def jpd_suits_def pool_backends_def pool_regions_def Let_def)

lemma instances_with_offers_sound:
  assumes "instances_with_offers matches is profile spec fid master vss = Inr iwo" and "(i, off) \<in> set iwo"
  shows "i \<in> set is \<and> \<not> im_unreachable i \<and> (fid \<noteq> None \<longrightarrow> im_fleet_id i = fid)
    \<and> (whole_instance matches profile spec master i off \<or> shared_blocks matches spec i off)"
proof -
  let ?q = "\<lparr>pq_requirements = Some (js_requirements spec), pq_status = Some I_IDLE, pq_fleet_id = fid,
             pq_multinode = js_jobs_per_replica spec > 1, pq_master = master, pq_volumes = vss, pq_shared = False\<rparr>"
  let ?sh = "get_shared_pool_instances_with_offers matches is profile (js_requirements spec) True fid vss"
  from assms(1) obtain own where own: "mapE (\<lambda>i. fmapE (Pair i) (get_or_error (im_offer i))) (filter_pool_instances matches is profile ?q) = Inr own"
    and iwo: "iwo = own @ (if js_jobs_per_replica spec > 1 then [] else ?sh)"
    by (auto simp: instances_with_offers_def Let_def bindE_Inr_conv)
  consider (own) "(i, off) \<in> set own" | (shared) "(i, off) \<in> set ?sh" "js_jobs_per_replica spec \<le> 1"
    using assms(2) iwo by (auto split: if_split_asm)
  then show ?thesis
  proof cases
    case own
    then have "\<exists>k \<in> set (filter_pool_instances matches is profile ?q). fmapE (Pair k) (get_or_error (im_offer k)) = Inr (i, off)"
      using \<open>mapE _ _ = Inr own\<close> list_all2_mem unfolding mapE_Inr_conv by fastforce
    then have mem: "i \<in> set (filter_pool_instances matches is profile ?q)" and off: "im_offer i = Some off"
      by (auto simp: fmapE_Inr_conv get_or_error_def split: option.splits)
    note c = filter_pool_candidate [OF mem]
    then have "whole_instance matches profile spec master i off"
      using off candidate_master [of profile ?q i] by (auto simp: whole_instance_def pool_candidate_def split: option.splits)
    with c show ?thesis by (auto simp: pool_candidate_def)
  next
    case shared
    from get_shared_pool_instances_correct [OF shared(1)] shared(2) show ?thesis by (auto simp: shared_blocks_def)
  qed
qed

lemma sort_key_hd_least:
  assumes "sort_key f xs = x # rest" and "y \<in> set xs"
  shows "f x \<le> f y" and "x \<in> set xs"
proof -
  have s: "sorted (map f (x # rest))" using assms(1) sorted_sort_key [of f xs] by simp
  have "set xs = set (x # rest)" using assms(1) set_sort [of f xs] by simp
  with s assms(2) show "f x \<le> f y" "x \<in> set xs" by auto
qed

text \<open>
  C13. The instance that a job is assigned is one of the offered ones, reachable and of the run's
  fleet: either an idle instance that is used as a whole and meets the requirements, in the backend and
  region of the master job, or the least sufficient number of free blocks of a shared instance, the
  latter for single-node jobs only. None of the suitable instances is cheaper. The instance becomes
  busy, its busy blocks grow by those of the offer, and the job refers to it.
\<close>

theorem assign_job_correct:
  assumes "assign_job_to_pool_instance env is profile spec fid master volumes job = Inr (job', Some i')"
  shows "\<exists>i off iwo. i \<in> set is \<and> \<not> im_unreachable i \<and> (fid \<noteq> None \<longrightarrow> im_fleet_id i = fid)
    \<and> (whole_instance (sj_matches env) profile spec master i off \<or> shared_blocks (sj_matches env) spec i off)
    \<and> instances_with_offers (sj_matches env) is profile spec fid master volumes = Inr iwo
    \<and> (\<forall>(k, koff) \<in> set iwo. instance_price i \<le> instance_price k)
    \<and> i' = i\<lparr>im_status := I_BUSY, im_busy_blocks := im_busy_blocks i + of_blocks off\<rparr>
    \<and> jm_instance_id job' = Some (im_id i) \<and> jm_used_instance_id job' = Some (im_id i)
    \<and> jm_job_provisioning_data job' = im_job_provisioning_data i \<and> job_blocks job' = of_blocks off"
proof -
  from assms obtain iwo where iwo: "instances_with_offers (sj_matches env) is profile spec fid master volumes = Inr iwo"
    by (auto simp: assign_job_to_pool_instance_def bindE_Inr_conv)
  from assms iwo obtain i off rest jrd where s: "sort_key (\<lambda>(i, off). instance_price i) iwo = (i, off) # rest"
    and jrd: "prepare_job_runtime_data env off = Inr jrd"
    and j: "job' = job\<lparr>jm_instance_id := Some (im_id i), jm_used_instance_id := Some (im_id i),
                  jm_job_provisioning_data := im_job_provisioning_data i, jm_job_runtime_data := Some jrd\<rparr>"
    and i': "i' = i\<lparr>im_status := I_BUSY, im_busy_blocks := im_busy_blocks i + of_blocks off\<rparr>"
    by (auto simp: assign_job_to_pool_instance_def bindE_Inr_conv split: list.split_asm)
  have "jrd_offer jrd = Some off" using jrd
    by (auto simp: prepare_job_runtime_data_def fmapE_Inr_conv Let_def split: if_split_asm)
  then have blocks: "job_blocks job' = of_blocks off" using j by (simp add: job_blocks_def)
  have mem: "(i, off) \<in> set iwo" using s set_sort [of "\<lambda>(i, off). instance_price i" iwo] by auto
  have least: "\<forall>(k, koff) \<in> set iwo. instance_price i \<le> instance_price k"
    using sort_key_hd_least(1) [OF s] by fastforce
  from instances_with_offers_sound [OF iwo mem] least iwo blocks i' j show ?thesis by fastforce
qed

definition sample_sj_env :: "Backend list \<Rightarrow> sj_env" where
  "sample_sj_env backends = \<lparr>sj_now = seconds 60, sj_uid = 100, sj_project = sample_project, sj_backends = backends,
     sj_backend_by_type = (\<lambda>t. find (\<lambda>b. be_type b = t) backends), sj_matches = (\<lambda>item q. cat_cpu item \<ge> 2), sj_environ = []\<rparr>"

definition idle_instance :: "nat \<Rightarrow> rat \<Rightarrow> InstanceModel" where
  "idle_instance i price = (sample_instance i I_IDLE 0)\<lparr>im_price := Some price, im_offer := Some (sample_offer AWS 8 [] price)\<rparr>"

lemmas pool_eval = assign_job_to_pool_instance_def instances_with_offers_def filter_pool_instances_def pool_candidate_def jpd_suits_def
  pool_backends_def pool_regions_def pool_zones_def admits_def restrict_if_def get_shared_pool_instances_with_offers_def
  prepare_job_runtime_data_def get_bool_def instance_price_def Let_def List.map_filter_simps

theorem assign_job_correct_witness:
  "\<exists>i off. i \<in> set [idle_instance 5 2, idle_instance 6 1] \<and> whole_instance (\<lambda>item q. cat_cpu item \<ge> 2) no_params (sample_job_spec 0 0) None i off
     \<and> im_id i = 6"
proof -
  have "assign_job_to_pool_instance (sample_sj_env []) [idle_instance 5 2, idle_instance 6 1] no_params (sample_job_spec 0 0) None None []
      (sample_job 1 0 0 0 J_SUBMITTED) =
    Inr ((sample_job 1 0 0 0 J_SUBMITTED)\<lparr>jm_instance_id := Some 6, jm_used_instance_id := Some 6,
        jm_job_provisioning_data := Some sample_jpd, jm_job_runtime_data := Some \<lparr>jrd_network_mode = HOST, jrd_gpu = None, jrd_cpu = None,
            jrd_memory = None, jrd_ports = None, jrd_volume_names = None, jrd_offer = Some (sample_offer AWS 8 [] 1)\<rparr>\<rparr>,
      Some ((idle_instance 6 1)\<lparr>im_status := I_BUSY, im_busy_blocks := 1\<rparr>))"
    by (simp add: pool_eval sample_sj_env_def idle_instance_def sample_offer_def offer_to_catalog_item_def no_params_def row_simps)
  from assign_job_correct [OF this] obtain i off where i: "i \<in> set [idle_instance 5 2, idle_instance 6 1]"
    and w: "whole_instance (sj_matches (sample_sj_env [])) no_params (sample_job_spec 0 0) None i off
      \<or> shared_blocks (sj_matches (sample_sj_env [])) (sample_job_spec 0 0) i off"
    and "jm_instance_id ((sample_job 1 0 0 0 J_SUBMITTED)\<lparr>jm_instance_id := Some 6, jm_used_instance_id := Some 6,
        jm_job_provisioning_data := Some sample_jpd, jm_job_runtime_data := Some \<lparr>jrd_network_mode = HOST, jrd_gpu = None, jrd_cpu = None,
            jrd_memory = None, jrd_ports = None, jrd_volume_names = None, jrd_offer = Some (sample_offer AWS 8 [] 1)\<rparr>\<rparr>) = Some (im_id i)"
    by blast
  then have "im_id i = 6" by simp
  moreover have "im_total_blocks i = Some 1" using i by (auto simp: idle_instance_def sample_instance_def)
  then have "\<not> shared_blocks (sj_matches (sample_sj_env [])) (sample_job_spec 0 0) i off" by (simp add: shared_blocks_def)
  ultimately show ?thesis using i w by (auto simp: sample_sj_env_def)
qed

section \<open>Offers that are tried\<close>

lemma try_offers_Some:
  assumes "try_offers run job volumes offers = Inr (Some (jpd, offer))"
  shows "\<exists>k backend vs. k < length offers \<and> offers ! k = (backend, offer) \<and> get_offer_volumes volumes offer = Inr vs
    \<and> be_run_job backend run job offer vs = Inr jpd
    \<and> (\<forall>m < k. \<exists>ws e. be_run_job (fst (offers ! m)) run job (snd (offers ! m)) ws = Inl e)"
  using assms
proof (induction offers)
  case (Cons p offers)
  obtain b o1 where p: "p = (b, o1)" by (cases p)
  with Cons.prems obtain vs where vs: "get_offer_volumes volumes o1 = Inr vs" by (auto simp: bindE_Inr_conv)
  show ?case
  proof (cases "be_run_job b run job o1 vs")
    case (Inr x)
    with Cons.prems p vs show ?thesis by (intro exI [of _ 0] exI [of _ b] exI [of _ vs]) auto
  next
    case (Inl e)
    with Cons p vs obtain k backend ws where k: "k < length offers" "offers ! k = (backend, offer)" "get_offer_volumes volumes offer = Inr ws"
      "be_run_job backend run job offer ws = Inr jpd"
      "\<forall>m < k. \<exists>ws e. be_run_job (fst (offers ! m)) run job (snd (offers ! m)) ws = Inl e" by auto
    have "\<forall>m < Suc k. \<exists>ws e. be_run_job (fst ((p # offers) ! m)) run job (snd ((p # offers) ! m)) ws = Inl e"
      using k(5) Inl p by (auto simp: nth_Cons split: nat.split)
    with k show ?thesis by (intro exI [of _ "Suc k"] exI [of _ backend] exI [of _ ws]) auto
  qed
qed simp

lemma get_offer_volumes_Inr:
  "get_offer_volumes volumes offer = Inr vs \<Longrightarrow> list_all2 (\<lambda>mvs v. v \<in> set mvs
     \<and> vc_backend (vol_configuration v) = of_backend offer \<and> vc_region (vol_configuration v) = of_region offer) volumes vs"
  unfolding get_offer_volumes_def mapE_Inr_conv
  by (erule list_all2_mono) (auto simp: get_offer_mount_point_volume_def find_Some_iff split: option.splits)

lemma prepare_offer_rest:
  "prepare_offer p opts off = Some off' \<Longrightarrow> of_backend off' = of_backend off \<and> of_region off' = of_region off
     \<and> of_instance off' = of_instance off \<and> of_availability off' = of_availability off \<and> of_blocks off' = of_blocks off"
  by (auto simp: prepare_offer_def narrow_zones_def share_offer_def Let_def split_def bind_eq_Some_conv
      split: option.splits if_splits)

text \<open>
  C14. A job that is started on a new instance is started on one of the first fifteen offers that meet
  its requirements, all earlier ones having failed. The offer is available, its backend and region are
  admitted by the profile, are those of the master job, and those of a volume for each mount point.
\<close>

theorem run_job_on_new_instance_correct:
  assumes "run_job_on_new_instance env fleet run job master volumes = Inr (Some (jpd, offer))"
  shows "\<exists>k backend vs. k < 15 \<and> be_run_job backend (run_after_offers run) job offer vs = Inr jpd
    \<and> (let offers = get_offers_by_requirements (sj_backends env) (pr_params (spec_merged_profile (run_run_spec run)))
            (js_requirements (job_spec job)) (job_offer_options fleet (job_spec job) (run_run_spec run) master volumes) in
       k < length offers \<and> offers ! k = (backend, offer)
       \<and> (\<forall>m < k. \<exists>ws e. be_run_job (fst (offers ! m)) (run_after_offers run) job (snd (offers ! m)) ws = Inl e))
    \<and> backend \<in> set (sj_backends env) \<and> available offer
    \<and> backend_allowed (pr_params (spec_merged_profile (run_run_spec run))) (job_offer_options fleet (job_spec job) (run_run_spec run) master volumes) (of_backend offer)
    \<and> (\<forall>m. master = Some m \<longrightarrow> of_backend offer = get_base_backend m \<and> of_region offer = jpd_region m)
    \<and> list_all2 (\<lambda>mvs v. v \<in> set mvs \<and> vc_backend (vol_configuration v) = of_backend offer
         \<and> vc_region (vol_configuration v) = of_region offer) volumes vs"
proof -
  let ?p = "pr_params (spec_merged_profile (run_run_spec run))"
  let ?o = "job_offer_options fleet (job_spec job) (run_run_spec run) master volumes"
  obtain offers where offers: "offers = get_offers_by_requirements (sj_backends env) ?p (js_requirements (job_spec job)) ?o" by blast
  have "try_offers (run_after_offers run) job volumes (take 15 offers) = Inr (Some (jpd, offer))"
    using assms by (simp add: run_job_on_new_instance_def Let_def offers)
  from try_offers_Some [OF this] obtain k backend vs where k: "k < 15" "k < length offers" "offers ! k = (backend, offer)"
    and v: "get_offer_volumes volumes offer = Inr vs" and r: "be_run_job backend (run_after_offers run) job offer vs = Inr jpd"
    and fail: "\<forall>m < k. \<exists>ws e. be_run_job (fst (take 15 offers ! m)) (run_after_offers run) job (snd (take 15 offers ! m)) ws = Inl e"
    by auto
  have fail': "\<forall>m < k. \<exists>ws e. be_run_job (fst (offers ! m)) (run_after_offers run) job (snd (offers ! m)) ws = Inl e"
    using fail k(1) by simp
  have "(backend, offer) \<in> set offers" using k nth_mem by metis
  then obtain off where off: "(backend, off) \<in> offered (sj_backends env) (js_requirements (job_spec job))" "available off"
      "offer_passes (drop_dstack ?p) ?o off" "prepare_offer ?p ?o off = Some offer"
    unfolding offers set_get_offers_by_requirements by (auto simp: job_offer_options_def)
  note rest = prepare_offer_rest [OF off(4)]
  have allowed: "backend_allowed ?p ?o (of_backend offer)" "region_allowed ?p ?o (of_region offer)"
    using off(3) rest by (simp_all add: offer_passes_allowed)
  have "\<forall>m. master = Some m \<longrightarrow> of_backend offer = get_base_backend m \<and> of_region offer = jpd_region m"
    using allowed by (auto simp: backend_allowed_def region_allowed_def job_offer_options_def)
  moreover have "backend \<in> set (sj_backends env)" "available offer" using off rest by (auto simp: offered_def)
  ultimately show ?thesis
    using k r fail' allowed(1) get_offer_volumes_Inr [OF v] unfolding Let_def offers by blast
qed

definition sample_job_data :: Job where
  "sample_job_data = \<lparr>job_spec = sample_job_spec 0 0, job_submissions = []\<rparr>"

definition sample_run_data :: Run where
  "sample_run_data = \<lparr>run_id = 1, run_submitted_at = 0, run_last_processed_at = 0, run_status = R_SUBMITTED,
     run_termination_reason = None, run_run_spec = sample_run_spec sample_task, run_jobs = [sample_job_data],
     run_latest_job_submission = None, run_service = None, run_deleted = False, run_error = [], run_cost = 0\<rparr>"

lemmas offers_eval = get_offers_by_requirements_def get_instance_offers_def backend_offers_def heapq_merge_def sample_backend_def
  sample_offer_def no_params_def drop_dstack_def admitted_backends_def admitted_regions_def restrict_if_def restrict_def offer_passes_def
  admits_def snd_option_def narrow_zones_def List.map_filter_simps availability_is_available_def job_offer_options_def
  check_run_spec_requires_instance_mounts_def base_of_def fleet_cluster_def

theorem run_job_on_new_instance_correct_witness:
  "\<exists>k backend vs. k < (15 :: nat) \<and> be_run_job backend (run_after_offers sample_run_data) sample_job_data (sample_offer AWS 8 [] 1) vs = Inr sample_jpd
    \<and> backend \<in> set (sj_backends (sample_sj_env [sample_backend AWS [sample_offer AWS 8 [] 1]]))"
proof -
  have "run_job_on_new_instance (sample_sj_env [sample_backend AWS [sample_offer AWS 8 [] 1]]) None sample_run_data sample_job_data None []
      = Inr (Some (sample_jpd, sample_offer AWS 8 [] 1))"
    by (simp add: run_job_on_new_instance_def offers_eval sample_sj_env_def sample_run_data_def sample_job_data_def sample_run_spec_def
        merged_profile_def sample_task_def sample_base_def merge_params_def over_def sample_job_spec_def get_offer_volumes_def Let_def)
  from run_job_on_new_instance_correct [OF this] show ?thesis by blast
qed

section \<open>Accounting of blocks\<close>

text \<open>
  No instance is used beyond its blocks, and the stored offer of an instance is for one block (the default
  of \<^verbatim>\<open>InstanceOfferWithAvailability\<close>, which backends do not set).
\<close>

definition capacity_ok :: "InstanceModel \<Rightarrow> bool" where
  "capacity_ok i \<longleftrightarrow> (\<forall>n. im_total_blocks i = Some n \<longrightarrow> im_busy_blocks i \<le> n) \<and> (\<forall>off. im_offer i = Some off \<longrightarrow> of_blocks off = 1)"

definition instances_ok :: "(nat \<Rightarrow> int) \<Rightarrow> db \<Rightarrow> bool" where
  "instances_ok twice d \<longleftrightarrow> keys_ok d \<and> blocks_inv twice d \<and> (\<forall>i \<in> set (db_instances d). capacity_ok i)"

definition fresh_key :: "nat \<Rightarrow> db \<Rightarrow> bool" where
  "fresh_key u d \<longleftrightarrow> (\<forall>i \<in> set (db_instances d). im_id i < u) \<and> (\<forall>j \<in> set (db_jobs d). \<forall>k. jm_instance_id j = Some k \<longrightarrow> k < u)"

lemma db_add_simps [simp]:
  "db_instances (db_add_instance i d) = db_instances d @ [i]"
  "db_jobs (db_add_instance i d) = db_jobs d"
  "db_runs (db_add_instance i d) = db_runs d"
  "instance_jobs (db_add_instance i d) k = instance_jobs d k"
  "db_instances (db_add_fleet f d) = db_instances d"
  "db_jobs (db_add_fleet f d) = db_jobs d"
  "db_runs (db_add_fleet f d) = db_runs d"
  "instance_jobs (db_add_fleet f d) k = instance_jobs d k"
  by (simp_all add: db_add_instance_def db_add_fleet_def db_jobs_def instance_jobs_def)

lemma blocks_inv_add_fleet [simp]: "blocks_inv twice (db_put_job j (db_add_fleet f d)) = blocks_inv twice (db_put_job j d)"
  by (simp add: blocks_inv_def instance_jobs_def)

lemma keys_ok_add [simp]:
  "keys_ok (db_add_fleet f d) = keys_ok d"
  "fresh_key (im_id i) d \<Longrightarrow> keys_ok (db_add_instance i d) = keys_ok d"
  by (auto simp: keys_ok_def fresh_key_def)

lemma blocks_inv_add_instance:
  assumes k: "keys_ok d" and b: "blocks_inv twice d" and f: "fresh_key (im_id i) d" and z: "twice (im_id i) = 0"
    and j: "j \<in> set (db_jobs d)" "jm_id j' = jm_id j" and jn: "jm_instance_id j = None"
    and j': "jm_instance_id j' = Some (im_id i)" "im_busy_blocks i = job_blocks j'"
  shows "blocks_inv twice (db_put_job j' (db_add_instance i d))"
proof -
  let ?i0 = "i\<lparr>im_busy_blocks := 0\<rparr>" and ?d0 = "db_add_instance (i\<lparr>im_busy_blocks := 0\<rparr>) d"
  have "instance_jobs d (im_id i) = []" using f by (auto simp: instance_jobs_def fresh_key_def filter_empty_conv)
  then have b0: "blocks_inv twice ?d0" using b z by (auto simp: blocks_inv_def)
  have k0: "keys_ok ?d0" using k f by (simp add: fresh_key_def)
  have "put_row im_id i (db_instances d @ [?i0]) = db_instances d @ [i]"
  proof -
    have "put_row im_id i (db_instances d) = db_instances d"
      using f by (intro put_row_absent) (auto simp: fresh_key_def)
    then show ?thesis by (simp add: put_row_def map_rows_def)
  qed
  then have eq: "db_put_instance i ?d0 = db_add_instance i d" by (simp add: db_put_instance_def db_add_instance_def)
  have "blocks_inv twice (db_put_job j' (db_put_instance i ?d0))"
    by (rule blocks_inv_put [OF k0 b0, of j j' ?i0 i]) (use j jn j' in auto)
  then show ?thesis unfolding eq .
qed

lemma put_job_instances:
  assumes "keys_ok d" and "blocks_inv twice d" and "j \<in> set (db_jobs d)" and "jm_id j' = jm_id j" and "i \<in> set (db_instances d)"
    and "im_id i' = im_id i" and "jm_instance_id j \<in> {None, Some (im_id i)}" and "jm_instance_id j' = Some (im_id i)"
    and "im_busy_blocks i' = im_busy_blocks i - (if jm_instance_id j = Some (im_id i) then job_blocks j else 0) + job_blocks j'"
    and "\<forall>i \<in> set (db_instances d). capacity_ok i" and "capacity_ok i'"
  shows "instances_ok twice (db_put_job j' (db_put_instance i' d))"
proof -
  have "blocks_inv twice (db_put_job j' (db_put_instance i' d))"
    by (rule blocks_inv_put [OF assms(1-6)]) (use assms(7-9) in auto)
  moreover have "\<forall>i \<in> set (put_row im_id i' (db_instances d)). capacity_ok i" using set_put_row assms(10,11) by fastforce
  ultimately show ?thesis using assms(1) by (simp add: instances_ok_def)
qed

lemma parked_row:
  "parked env j j' \<Longrightarrow> same_row j j' \<and> jm_run_id j' = jm_run_id j \<and> jm_instance_id j' = jm_instance_id j \<and> job_blocks j' = job_blocks j"
  by (auto simp: parked_def touch_job_def no_capacity_def volume_failure_def same_row_def job_key_def job_blocks_def)

lemma same_row_id: "same_row j j' \<Longrightarrow> jm_id j' = jm_id j"
  by (simp add: same_row_def)

lemma touch_job_fields [simp]:
  "jm_id (touch_job env j) = jm_id j" "jm_instance_id (touch_job env j) = jm_instance_id j" "job_blocks (touch_job env j) = job_blocks j"
  "jm_status (touch_job env j) = jm_status j" "jm_termination_reason (touch_job env j) = jm_termination_reason j"
  "same_row k (touch_job env j) = same_row k j" "reason_ok (touch_job env j) = reason_ok j"
  by (simp_all add: touch_job_def job_blocks_def same_row_def job_key_def reason_ok_def job_stopped_def)

lemma prepare_runtime_offer: "prepare_job_runtime_data env off = Inr jrd \<Longrightarrow> jrd_offer jrd = Some off"
  by (auto simp: prepare_job_runtime_data_def fmapE_Inr_conv Let_def split: if_split_asm)

lemma assigned_row_fields [simp]:
  "jm_id (assigned_row env j i jrd) = jm_id j" "jm_instance_id (assigned_row env j i jrd) = Some (im_id i)"
  "jm_status (assigned_row env j i jrd) = jm_status j" "jm_termination_reason (assigned_row env j i jrd) = jm_termination_reason j"
  "same_row j (assigned_row env j i jrd)" "jm_run_id (assigned_row env j i jrd) = jm_run_id j"
  by (simp_all add: assigned_row_def touch_job_def same_row_def job_key_def)

lemma assigned_row_blocks: "jrd_offer jrd = Some off \<Longrightarrow> job_blocks (assigned_row env j i jrd) = of_blocks off"
  by (simp add: assigned_row_def touch_job_def job_blocks_def)

lemma assign_capacity:
  assumes iwo: "instances_with_offers matches (refetch_pool_instances d ids) profile spec fid master vss = Inr iwo"
    and mem: "(i, off) \<in> set iwo" and ok: "\<forall>i \<in> set (db_instances d). capacity_ok i"
  shows "i \<in> set (db_instances d)" and "\<not> im_deleted i"
    and "im_id i \<notin> set (get_instances_ids_with_detaching_volumes (db_jobs d))"
    and "capacity_ok (i\<lparr>im_status := st, im_busy_blocks := im_busy_blocks i + of_blocks off\<rparr>)"
proof -
  note s = instances_with_offers_sound [OF iwo mem]
  from s have r: "i \<in> set (refetch_pool_instances d ids)" by blast
  then show i: "i \<in> set (db_instances d)" and "\<not> im_deleted i" "im_id i \<notin> set (get_instances_ids_with_detaching_volumes (db_jobs d))"
    by (auto simp: refetch_pool_instances_def has_free_blocks_def Let_def)
  have free: "\<exists>n. im_total_blocks i = Some n \<and> im_busy_blocks i < n"
    using r by (auto simp: refetch_pool_instances_def has_free_blocks_def Let_def split: option.splits)
  have c: "capacity_ok i" using ok i by blast
  have "\<exists>n. im_total_blocks i = Some n \<and> im_busy_blocks i + of_blocks off \<le> n"
  proof (cases "whole_instance matches profile spec master i off")
    case True
    then have "of_blocks off = 1" using c by (simp add: whole_instance_def capacity_ok_def)
    with free show ?thesis by auto
  next
    case False
    with s have "least_share matches (js_requirements spec) i off" by (simp add: shared_blocks_def)
    then show ?thesis unfolding least_share_def by force
  qed
  with c show "capacity_ok (i\<lparr>im_status := st, im_busy_blocks := im_busy_blocks i + of_blocks off\<rparr>)" by (auto simp: capacity_ok_def)
qed

lemma attach_frame_capacity: "attach_frame j i j' i' \<Longrightarrow> capacity_ok i' = capacity_ok i"
  using attach_frame_instance [of j i j' i'] by (simp add: capacity_ok_def)

lemma assign_step_ok:
  assumes ok: "instances_ok twice d" and j: "j \<in> set (db_jobs d)" and none: "jm_instance_id j = None"
    and a: "assign_step env seen d pool profile spec fid master vss j = Inr d'"
  shows "instances_ok twice d'"
  using a
proof (cases rule: assign_step_cases)
  case none: none
  have "blocks_inv twice d'" unfolding none
    by (rule blocks_inv_put_job [of d _ j]) (use ok j in \<open>simp_all add: instances_ok_def, simp add: touch_job_def job_blocks_def\<close>)
  then show ?thesis using ok by (simp add: instances_ok_def none)
next
  case (some i off jrd iwo rest)
  have mem: "(i, off) \<in> set iwo" using some(2) set_sort [of "\<lambda>(i, off). instance_price i" iwo] by auto
  have oks: "keys_ok d" "blocks_inv twice d" "\<forall>i \<in> set (db_instances d). capacity_ok i" using ok by (simp_all add: instances_ok_def)
  note c = assign_capacity [OF some(1) mem oks(3)]
  show ?thesis unfolding some(4)
    by (rule put_job_instances [OF oks(1,2) j, of _ i])
      (use c none oks(3) assigned_row_blocks [OF prepare_runtime_offer [OF some(3)]] in auto)
qed

lemma new_offer_blocks:
  assumes "run_job_on_new_instance env fleet run job master vss = Inr (Some (jpd, offer))"
    and "\<forall>req. \<forall>(b, off) \<in> offered (sj_backends env) req. of_blocks off = 1"
  shows "of_blocks offer = 1"
proof -
  let ?p = "pr_params (spec_merged_profile (run_run_spec run))"
  let ?o = "job_offer_options fleet (job_spec job) (run_run_spec run) master vss"
  have "try_offers (run_after_offers run) job vss (take 15 (get_offers_by_requirements (sj_backends env) ?p (js_requirements (job_spec job)) ?o))
     = Inr (Some (jpd, offer))"
    using assms(1) by (simp add: run_job_on_new_instance_def Let_def)
  from try_offers_Some [OF this] obtain b where
    "(b, offer) \<in> set (take 15 (get_offers_by_requirements (sj_backends env) ?p (js_requirements (job_spec job)) ?o))"
    using nth_mem by metis
  then have "(b, offer) \<in> set (get_offers_by_requirements (sj_backends env) ?p (js_requirements (job_spec job)) ?o)"
    using set_take_subset by fast
  then obtain off where "(b, off) \<in> offered (sj_backends env) (js_requirements (job_spec job))" "prepare_offer ?p ?o off = Some offer"
    unfolding set_get_offers_by_requirements by blast
  with prepare_offer_rest assms(2) show ?thesis by fastforce
qed

lemma provision_step_ok:
  assumes ok: "instances_ok twice d" and j: "j \<in> set (db_jobs d)" and fresh: "fresh_key (sj_uid env) d" and z: "twice (sj_uid env) = 0"
    and one: "\<forall>req. \<forall>(b, off) \<in> offered (sj_backends env) req. of_blocks off = 1"
    and p: "provision_step env d pool run_model run job master vms j = Inr d'"
  shows "instances_ok twice d'"
  using p
proof (cases rule: provision_step_cases)
  case no_capacity
  have "blocks_inv twice d'" unfolding no_capacity(1)
    by (rule blocks_inv_put_job [of d _ j]) (use ok j in \<open>simp_all add: instances_ok_def, simp_all add: no_capacity_def job_blocks_def\<close>)
  then show ?thesis using ok by (simp add: instances_ok_def no_capacity(1))
next
  case (existing i j' i')
  note f = attach_frame_instance [OF existing(3)]
  have fj: "jm_id j' = jm_id j" "jm_instance_id j' = jm_instance_id j" "job_blocks j' = job_blocks j"
    using existing(3) by (simp_all add: attach_frame_def same_row_def job_blocks_def)
  have "capacity_ok i'" using attach_frame_capacity [OF existing(3)] ok existing(2) by (simp add: instances_ok_def)
  then show ?thesis unfolding existing(4)
    by (intro put_job_instances [of d _ j _ i]) (use ok j existing(1,2) f fj in \<open>auto simp: instances_ok_def\<close>)
next
  case (new jpd offer fleet jrd j' i')
  let ?i = "new_instance_of env d pool fleet (pr_params (spec_merged_profile (rm_run_spec run_model))) jpd offer"
  note f = attach_frame_instance [OF new(4)]
  have one': "of_blocks offer = 1" using new(2) one by (rule new_offer_blocks)
  have fj: "jm_id j' = jm_id j" "jm_instance_id j' = Some (sj_uid env)" "job_blocks j' = of_blocks offer"
    using new(4) prepare_runtime_offer [OF new(3)] by (simp_all add: attach_frame_def same_row_def provisioned_row_def job_blocks_def)
  have k: "keys_ok d" "blocks_inv twice d" "\<forall>i \<in> set (db_instances d). capacity_ok i" using ok by (simp_all add: instances_ok_def)
  have "blocks_inv twice (db_put_job (touch_job env j') (db_add_instance i' d))"
    by (rule blocks_inv_add_instance [OF k(1,2) _ _ j]) (use fresh z f fj one' new(1) in auto)
  moreover have "capacity_ok i'" unfolding attach_frame_capacity [OF new(4)] using one' by (simp add: capacity_ok_def)
  moreover have "keys_ok (db_add_instance i' d)" using k(1) fresh f by simp
  ultimately show ?thesis using k unfolding new(5) by (simp add: instances_ok_def)
qed

lemma submitted_job_blocks:
  assumes "instances_ok twice d" and "j \<in> set (db_jobs d)" and "\<not> jm_instance_assigned j \<longrightarrow> jm_instance_id j = None"
    and "fresh_key (sj_uid env) d" and "twice (sj_uid env) = 0" and "\<forall>req. \<forall>(b, off) \<in> offered (sj_backends env) req. of_blocks off = 1"
    and "process_submitted_job env seen d j = Inr d'"
  shows "instances_ok twice d'"
  using assms(7)
proof (cases rule: process_submitted_job_cases)
  case (parked j')
  note r = parked_row [OF parked(1)]
  have "blocks_inv twice d'" unfolding parked(2)
    by (rule blocks_inv_put_job [of d _ j]) (use assms(1,2) r in \<open>simp_all add: instances_ok_def same_row_id\<close>)
  then show ?thesis using assms(1) by (simp add: instances_ok_def parked(2))
next
  case (assign run_model spec pool master vss)
  with assms show ?thesis by (intro assign_step_ok [OF assms(1,2)]) simp_all
next
  case (provision run_model run job pool master vms)
  then show ?thesis by (intro provision_step_ok [OF assms(1,2,4,5,6)])
qed

text \<open>
  Processing a submitted job keeps the accounting of instance blocks: in the rows it writes, the busy
  blocks of every instance are those of the jobs assigned to it and do not exceed its blocks, although
  other jobs were assigned between its two looks at the database.
\<close>

theorem process_submitted_job_blocks:
  assumes "instances_ok twice d" and "j \<in> set (db_jobs d)" and "\<not> jm_instance_assigned j \<longrightarrow> jm_instance_id j = None"
    and "fresh_key (sj_uid env) d" and "twice (sj_uid env) = 0" and "\<forall>req. \<forall>(b, off) \<in> offered (sj_backends env) req. of_blocks off = 1"
    and "process_submitted_job env seen d j = Inr d'"
  shows "instances_ok twice d'"
  using assms by (rule submitted_job_blocks)

definition demo_pool_db :: db where
  "demo_pool_db = \<lparr>db_runs = [sample_run sample_task R_SUBMITTED [sample_job 1 0 0 0 J_SUBMITTED]],
     db_instances = [idle_instance 5 2], db_volumes = [], db_fleets = [], db_pools = [sample_pool 1], db_placement_groups = []\<rparr>"

theorem process_submitted_job_blocks_witness:
  "\<exists>d'. process_submitted_job (sample_sj_env []) demo_pool_db demo_pool_db (sample_job 1 0 0 0 J_SUBMITTED) = Inr d' \<and> instances_ok (\<lambda>_. 0) d'"
proof -
  have "case process_submitted_job (sample_sj_env []) demo_pool_db demo_pool_db (sample_job 1 0 0 0 J_SUBMITTED) of Inr _ \<Rightarrow> True | Inl _ \<Rightarrow> False"
    by code_simp
  then obtain d' where d': "process_submitted_job (sample_sj_env []) demo_pool_db demo_pool_db (sample_job 1 0 0 0 J_SUBMITTED) = Inr d'"
    by (auto split: sum.splits)
  have ok: "instances_ok (\<lambda>_. 0) demo_pool_db" "sample_job 1 0 0 0 J_SUBMITTED \<in> set (db_jobs demo_pool_db)"
    by (simp_all add: instances_ok_def keys_ok_def blocks_inv_def instance_jobs_def db_jobs_def demo_pool_db_def capacity_ok_def
        idle_instance_def sample_offer_def row_simps)
  have "fresh_key (sj_uid (sample_sj_env [])) demo_pool_db" "\<forall>req. \<forall>(b, off) \<in> offered (sj_backends (sample_sj_env [])) req. of_blocks off = 1"
    by (simp_all add: fresh_key_def db_jobs_def demo_pool_db_def sample_sj_env_def idle_instance_def offered_def row_simps)
  from process_submitted_job_blocks [OF ok _ this(1) _ this(2) d'] have "instances_ok (\<lambda>_. 0) d'" by (simp add: row_simps)
  with d' show ?thesis by blast
qed

section \<open>Steps of the task as events of a run\<close>

lemma put_row_same:
  assumes "distinct (map jm_id jobs)" and "j \<in> set jobs" and "same_row j j'"
  shows "list_all2 same_row jobs (put_row jm_id j' jobs)"
proof -
  have "same_row k (if jm_id k = jm_id j' then j' else k)" if "k \<in> set jobs" for k
    using assms that by (auto simp: same_row_def distinct_map inj_on_def)
  then show ?thesis by (auto simp: put_row_def map_rows_def list_all2_conv_all_nth)
qed

lemma put_row_no_row:
  assumes "jm_id j' \<notin> jm_id ` set jobs" shows "put_row jm_id j' jobs = jobs"
  using assms by (rule put_row_absent)

lemma same_row_refl [simp]: "same_row j j"
  by (simp add: same_row_def)

lemma put_job_event:
  assumes k: "keys_ok d" and j: "j \<in> set (db_jobs d)" and s: "same_row j j'" and r: "reason_ok j'" and ok: "\<forall>k \<in> set (db_jobs d). reason_ok k"
  shows "list_all2 (\<lambda>r r'. run_event (r, uid) (r', uid)) (db_runs d) (db_runs (db_put_job j' d))"
proof -
  have "run_event (r, uid) (r\<lparr>rm_jobs := put_row jm_id j' (rm_jobs r)\<rparr>, uid)" if rr: "r \<in> set (db_runs d)" for r
  proof (rule run_event.jobs)
    have sub: "set (rm_jobs r) \<subseteq> set (db_jobs d)" using rr by (auto simp: db_jobs_def)
    have di: "distinct (map jm_id (rm_jobs r))"
    proof -
      have "distinct (map jm_id (concat (map rm_jobs (db_runs d))))" using k by (simp add: keys_ok_def db_jobs_def)
      then show ?thesis using rr by (induction "db_runs d" arbitrary: d) (auto simp: map_concat distinct_concat_iff)
    qed
    show "list_all2 same_row (rm_jobs r) (put_row jm_id j' (rm_jobs r))"
    proof (cases "jm_id j' \<in> jm_id ` set (rm_jobs r)")
      case True
      then obtain i where i: "i \<in> set (rm_jobs r)" "jm_id i = jm_id j" using s by (auto simp: same_row_def)
      with sub j k have "i = j" by (auto simp: keys_ok_def distinct_map inj_on_def)
      with i di s show ?thesis by (intro put_row_same) auto
    next
      case False
      then show ?thesis by (simp add: put_row_no_row list_all2_refl)
    qed
    show "\<forall>k \<in> set (put_row jm_id j' (rm_jobs r)). reason_ok k"
      using set_put_row [of jm_id j' "rm_jobs r"] sub ok r by blast
  qed
  then show ?thesis by (simp add: db_put_job_def list_all2_conv_all_nth)
qed

lemma parked_status:
  assumes "parked env j j'" and "jm_status j = J_SUBMITTED" and "reason_ok j"
  shows "reason_ok j' \<and> jm_status j' \<in> {J_SUBMITTED, J_TERMINATING}"
  using assms by (auto simp: parked_def reason_ok_def job_stopped_def no_capacity_def volume_failure_def)

lemma attach_frame_status:
  assumes "attach_frame j i j' i'" and "jm_status j = J_PROVISIONING" and "jm_termination_reason j = None"
  shows "reason_ok j' \<and> jm_status j' \<in> {J_PROVISIONING, J_TERMINATING}"
  using assms by (auto simp: attach_frame_def reason_ok_def job_stopped_def)

lemma submitted_no_reason: "reason_ok j \<Longrightarrow> jm_status j = J_SUBMITTED \<Longrightarrow> jm_termination_reason j = None"
  by (auto simp: reason_ok_def job_stopped_def)

lemma process_submitted_job_row:
  assumes p: "process_submitted_job env seen d j = Inr d'" and s: "jm_status j = J_SUBMITTED" and r: "reason_ok j"
  obtains j' x where "d' = db_put_job j' x" "db_runs x = db_runs d" "same_row j j'" "reason_ok j'"
    "jm_status j' \<in> {J_SUBMITTED, J_PROVISIONING, J_TERMINATING}"
proof -
  note no = submitted_no_reason [OF r s]
  from p have "\<exists>j' x. d' = db_put_job j' x \<and> db_runs x = db_runs d \<and> same_row j j' \<and> reason_ok j'
    \<and> jm_status j' \<in> {J_SUBMITTED, J_PROVISIONING, J_TERMINATING}"
  proof (cases rule: process_submitted_job_cases)
    case (parked j')
    with parked_row [OF parked(1)] parked_status [OF parked(1) s r] show ?thesis by blast
  next
    case (assign run_model spec pool master vss)
    from assign(3) show ?thesis
    proof (cases rule: assign_step_cases)
      case none
      have "parked env j (touch_job env (j\<lparr>jm_instance_assigned := True\<rparr>))" by (simp add: parked_def)
      with none parked_row parked_status [OF _ s r] show ?thesis by blast
    next
      case (some i off jrd iwo rest)
      have "reason_ok (assigned_row env j i jrd)" using r by (simp add: reason_ok_def job_stopped_def)
      with s show ?thesis unfolding some(4)
        by (intro exI [of _ "assigned_row env j i jrd"]
          exI [of _ "db_put_instance (i\<lparr>im_status := I_BUSY, im_busy_blocks := im_busy_blocks i + of_blocks off\<rparr>) d"]) auto
    qed
  next
    case (provision run_model run job pool master vms)
    from provision(3) show ?thesis
    proof (cases rule: provision_step_cases)
      case no_capacity
      have "parked env j (touch_job env (no_capacity j))" by (simp add: parked_def)
      with no_capacity parked_row parked_status [OF _ s r] show ?thesis by blast
    next
      case (existing i j' i')
      have "same_row j j'" using existing(3) by (simp add: attach_frame_def same_row_def job_key_def)
      moreover have "reason_ok j' \<and> jm_status j' \<in> {J_PROVISIONING, J_TERMINATING}"
        by (rule attach_frame_status [OF existing(3)]) (simp_all add: no)
      ultimately show ?thesis using existing(4)
        by (intro exI [of _ "touch_job env j'"] exI [of _ "db_put_instance i' d"]) auto
    next
      case (new jpd offer fleet jrd j' i')
      have "same_row j j'" using new(4) by (simp add: attach_frame_def provisioned_row_def same_row_def job_key_def)
      moreover have "reason_ok j' \<and> jm_status j' \<in> {J_PROVISIONING, J_TERMINATING}"
        by (rule attach_frame_status [OF new(4)]) (simp_all add: no provisioned_row_def)
      ultimately show ?thesis using new(5)
        by (intro exI [of _ "touch_job env j'"] exI [of _ "db_add_fleet fleet (db_add_instance i' d)"]) auto
    qed
  qed
  then show ?thesis using that by blast
qed

text \<open>
  C7. For every run a step of the submitted-jobs task is one of the events of its transition system, so
  that what holds in all states a run reaches holds after it; the processed job stays submitted, is
  provisioning, or terminates with a reason.
\<close>

theorem process_submitted_job_event:
  assumes "keys_ok d" and "\<forall>k \<in> set (db_jobs d). reason_ok k" and "j \<in> set (db_jobs d)" and "jm_status j = J_SUBMITTED"
    and "process_submitted_job env seen d j = Inr d'"
  shows "list_all2 (\<lambda>r r'. run_event (r, uid) (r', uid)) (db_runs d) (db_runs d')
    \<and> (\<forall>k \<in> set (db_jobs d'). jm_id k = jm_id j \<longrightarrow> jm_status k \<in> {J_SUBMITTED, J_PROVISIONING, J_TERMINATING})
    \<and> (\<forall>k \<in> set (db_jobs d'). jm_id k \<noteq> jm_id j \<longrightarrow> k \<in> set (db_jobs d))"
proof -
  have r: "reason_ok j" using assms(2,3) by blast
  obtain j' x where d': "d' = db_put_job j' x" and x: "db_runs x = db_runs d" and j': "same_row j j'" "reason_ok j'"
    and st: "jm_status j' \<in> {J_SUBMITTED, J_PROVISIONING, J_TERMINATING}"
    using process_submitted_job_row [OF assms(5,4) r] by blast
  have "db_runs d' = db_runs (db_put_job j' d)" using x by (simp add: d' db_put_job_def)
  then have runs: "list_all2 (\<lambda>r r'. run_event (r, uid) (r', uid)) (db_runs d) (db_runs d')"
    using put_job_event [OF assms(1,3) j' assms(2)] by simp
  have jobs: "db_jobs d' = put_row jm_id j' (db_jobs d)" using x by (simp add: d') (simp add: db_jobs_def)
  have id: "jm_id j' = jm_id j" using j'(1) by (rule same_row_id)
  have "k = j' \<or> k \<in> set (db_jobs d) \<and> jm_id k \<noteq> jm_id j" if "k \<in> set (db_jobs d')" for k
    using that unfolding jobs put_row_def set_map_rows id by auto
  with st id runs show ?thesis by auto
qed

theorem process_submitted_job_event_witness:
  "\<exists>d'. process_submitted_job (sample_sj_env []) demo_pool_db demo_pool_db (sample_job 1 0 0 0 J_SUBMITTED) = Inr d'
     \<and> list_all2 (\<lambda>r r'. run_event (r, 10) (r', 10)) (db_runs demo_pool_db) (db_runs d')"
proof -
  have "case process_submitted_job (sample_sj_env []) demo_pool_db demo_pool_db (sample_job 1 0 0 0 J_SUBMITTED) of Inr _ \<Rightarrow> True | Inl _ \<Rightarrow> False"
    by code_simp
  then obtain d' where d': "process_submitted_job (sample_sj_env []) demo_pool_db demo_pool_db (sample_job 1 0 0 0 J_SUBMITTED) = Inr d'"
    by (auto split: sum.splits)
  have "keys_ok demo_pool_db" "\<forall>k \<in> set (db_jobs demo_pool_db). reason_ok k"
    "sample_job 1 0 0 0 J_SUBMITTED \<in> set (db_jobs demo_pool_db)" "jm_status (sample_job 1 0 0 0 J_SUBMITTED) = J_SUBMITTED"
    by (simp_all add: keys_ok_def db_jobs_def demo_pool_db_def idle_instance_def row_simps reason_ok_def job_stopped_def)
  from process_submitted_job_event [OF this d'] d' show ?thesis by blast
qed

section \<open>Failures of the task\<close>

text \<open>
  Two mount points whose volumes have the same backends and regions, but not the same combinations of
  them: the check of the volumes accepts them, no offer suits both.
\<close>

definition placed_volume :: "nat \<Rightarrow> string \<Rightarrow> BackendType \<Rightarrow> string \<Rightarrow> VolumeModel" where
  "placed_volume i name backend region = (sample_volume i)\<lparr>vm_name := name,
     vm_configuration := (vm_configuration (sample_volume i))\<lparr>vc_backend := backend, vc_region := region\<rparr>\<rparr>"

definition crossed_job :: JobModel where
  "crossed_job = (sample_job 1 0 0 0 J_SUBMITTED)\<lparr>jm_instance_assigned := True,
     jm_job_spec := (sample_job_spec 0 0)\<lparr>js_volumes := Some [VolumeMountPoint (ManyNames [''a'', ''b'']) ''/a'',
        VolumeMountPoint (ManyNames [''c'', ''d'']) ''/b'']\<rparr>\<rparr>"

definition crossed_db :: db where
  "crossed_db = \<lparr>db_runs = [sample_run sample_task R_SUBMITTED [crossed_job]], db_instances = [],
     db_volumes = [placed_volume 1 ''a'' AWS ''us'', placed_volume 2 ''b'' GCP ''eu'', placed_volume 3 ''c'' AWS ''eu'', placed_volume 4 ''d'' GCP ''us''],
     db_fleets = [], db_pools = [sample_pool 1], db_placement_groups = []\<rparr>"

text \<open>
  The volume of an offer is looked up outside the handler of launch failures. With the volumes above,
  which pass the check, the step ends in an exception that undoes it: the job stays submitted with its
  old processing time, so that the task picks the same job again.
\<close>

theorem crossed_volumes_stall:
  "check_can_attach_job_volumes [map volume_model_to_volume [placed_volume 1 ''a'' AWS ''us'', placed_volume 2 ''b'' GCP ''eu''],
       map volume_model_to_volume [placed_volume 3 ''c'' AWS ''eu'', placed_volume 4 ''d'' GCP ''us'']] = Inr ()
   \<and> process_next_submitted_job (sample_sj_env [sample_backend AWS [sample_offer AWS 8 [] 1]]) {} crossed_db crossed_db
     = Inl (ServerClientError ''Failed to find an eligible volume for the mount point'')"
  by code_simp

text \<open>
  A project whose default pool has another name: resolving no pool name gives that pool, but a
  submitted job that names no pool looks for a pool with the standard name, and its step fails.
\<close>

theorem job_misses_default_pool:
  "case create_pool 0 ''mine'' empty_project of
     Inl _ \<Rightarrow> False
   | Inr (p, s) \<Rightarrow> get_or_create_pool_by_name 0 None s = Inr (p, s)
       \<and> process_next_submitted_job (sample_sj_env []) {} (demo_pool_db\<lparr>db_pools := ps_pools s\<rparr>) (demo_pool_db\<lparr>db_pools := ps_pools s\<rparr>)
         = Inl NoResultFound"
  by code_simp

end
