(* ===== verification/Network.thy ===== *)
theory Network
  imports Py_Strings "HOL-Library.Word"
begin

text \<open>
  \<^verbatim>\<open>utils/network.py\<close>: the internal address of a host among the addresses it reports. IPv4
  addresses are 32-bit words; parsing follows Python's \<^verbatim>\<open>ipaddress\<close>. Which networks count as
  private depends on the Python version and is a parameter.
\<close>

unbundle bit_operations_syntax

section \<open>IPv4 addresses and networks\<close>

type_synonym ipv4 = "32 word"

definition parse_octet :: "string \<Rightarrow> nat option" where
  "parse_octet s = (if s \<noteq> [] \<and> list_all is_digit s \<and> length s \<le> 3 \<and> \<not> (s \<noteq> ''0'' \<and> hd s = CHR ''0'')
     \<and> nat_of_digits s \<le> 255 then Some (nat_of_digits s) else None)"

definition ipv4_of_octets :: "nat \<Rightarrow> nat \<Rightarrow> nat \<Rightarrow> nat \<Rightarrow> ipv4" where
  "ipv4_of_octets a b c d = of_nat (((a * 256 + b) * 256 + c) * 256 + d)"

definition parse_ipv4 :: "string \<Rightarrow> ipv4 option" where
  "parse_ipv4 s = (case map parse_octet (split_on CHR ''.'' s) of
      [Some a, Some b, Some c, Some d] \<Rightarrow> Some (ipv4_of_octets a b c d)
    | _ \<Rightarrow> None)"

definition octet :: "ipv4 \<Rightarrow> nat \<Rightarrow> nat" where
  "octet w k = unat w div 256 ^ k mod 256"

definition show_ipv4 :: "ipv4 \<Rightarrow> string" where
  "show_ipv4 w = join ''.'' (map (\<lambda>k. show_nat (octet w k)) [3, 2, 1, 0])"

definition netmask :: "nat \<Rightarrow> ipv4" where
  "netmask n = NOT (mask (32 - n))"

text \<open>A prefix length, a netmask or a host mask.\<close>

definition prefix_of_mask :: "ipv4 \<Rightarrow> nat option" where
  "prefix_of_mask w = find (\<lambda>n. netmask n = w) [0..<33]"

definition make_netmask :: "string \<Rightarrow> nat option" where
  "make_netmask s =
     (if s \<noteq> [] \<and> list_all is_digit s \<and> nat_of_digits s \<le> 32 then Some (nat_of_digits s)
      else (case parse_ipv4 s of
          None \<Rightarrow> None
        | Some w \<Rightarrow> (case prefix_of_mask w of Some n \<Rightarrow> Some n | None \<Rightarrow> prefix_of_mask (NOT w))))"

text \<open>
  \<^verbatim>\<open>IPv4Interface(address).ip\<close>: a bad address is skipped by the callers (\<open>Inr None\<close>), a bad mask
  raises another error, which they do not catch.
\<close>

definition interface_ip :: "string \<Rightarrow> ipv4 option result" where
  "interface_ip s = (case split_on CHR ''/'' s of
      [a] \<Rightarrow> Inr (parse_ipv4 a)
    | [a, m] \<Rightarrow> (case parse_ipv4 a of
          None \<Rightarrow> Inr None
        | Some w \<Rightarrow> (case make_netmask m of None \<Rightarrow> Inl ValueError | Some _ \<Rightarrow> Inr (Some w)))
    | _ \<Rightarrow> Inr None)"

text \<open>
  \<^verbatim>\<open>ip_network(network)\<close>, which refuses host bits. IPv6 networks contain no IPv4 address, so the
  callers do the same with them as with a text that is no network.
\<close>

definition ip_network :: "string \<Rightarrow> (ipv4 \<times> nat) option" where
  "ip_network s =
     (let net = (\<lambda>a n. case parse_ipv4 a of None \<Rightarrow> None
            | Some w \<Rightarrow> if w AND netmask n = w then Some (w, n) else None) in
      case split_on CHR ''/'' s of
        [a] \<Rightarrow> net a 32
      | [a, m] \<Rightarrow> (case make_netmask m of None \<Rightarrow> None | Some n \<Rightarrow> net a n)
      | _ \<Rightarrow> None)"

definition in_network :: "ipv4 \<Rightarrow> ipv4 \<times> nat \<Rightarrow> bool" where
  "in_network ip net \<longleftrightarrow> ip AND netmask (snd net) = fst net"

section \<open>Addresses of a host\<close>

definition interface_ips :: "string list \<Rightarrow> ipv4 list result" where
  "interface_ips addresses = fmapE (List.map_filter id) (mapE interface_ip addresses)"

definition get_ip_from_network ::
    "(ipv4 \<times> nat \<Rightarrow> bool) \<Rightarrow> string option \<Rightarrow> string list \<Rightarrow> string option result" where
  "get_ip_from_network is_private network addresses =
     bindE (interface_ips addresses) (\<lambda>ips. Inr (case network of
        None \<Rightarrow> (case ips of [] \<Rightarrow> None | ip # _ \<Rightarrow> Some (show_ipv4 ip))
      | Some n \<Rightarrow>
          if ips = [] then None
          else (case ip_network n of
              None \<Rightarrow> None
            | Some net \<Rightarrow>
                if \<not> is_private net then None
                else map_option show_ipv4 (find (\<lambda>ip. in_network ip net) ips))))"

definition get_ips_from_addresses :: "string list \<Rightarrow> string list result" where
  "get_ips_from_addresses addresses = fmapE (map show_ipv4) (interface_ips addresses)"

definition is_ip_among_addresses :: "string \<Rightarrow> string list \<Rightarrow> bool result" where
  "is_ip_among_addresses ip addresses = fmapE (\<lambda>ips. ip \<in> set ips) (get_ips_from_addresses addresses)"

section \<open>Properties\<close>

lemma octet_le: "octet w k \<le> 255"
  by (simp add: octet_def less_Suc_eq_le [symmetric])

lemma octets_value:
  assumes "n < 256 ^ 4"
  shows "((n div 256 ^ 3 mod 256 * 256 + n div 256 ^ 2 mod 256) * 256 + n div 256 ^ 1 mod 256) * 256 + n div 256 ^ 0 mod 256 = (n :: nat)"
proof -
  have d: "n div 256 ^ 2 = n div 256 div 256" "n div 256 ^ 3 = n div 256 div 256 div 256"
    by (simp_all add: div_mult2_eq [symmetric])
  have "n div 256 div 256 div 256 < 256" using assms by (simp add: div_mult2_eq [symmetric] less_mult_imp_div_less)
  then have "n div 256 div 256 div 256 mod 256 * 256 + n div 256 div 256 mod 256 = n div 256 div 256"
    by (simp add: div_mult_mod_eq)
  then show ?thesis unfolding d by (simp add: div_mult_mod_eq)
qed

lemma ipv4_octets: "ipv4_of_octets (octet w 3) (octet w 2) (octet w 1) (octet w 0) = w"
proof -
  have "unat w < 2 ^ LENGTH(32)" by (rule unsigned_less)
  then have w: "unat w < 256 ^ 4" by simp
  show ?thesis unfolding ipv4_of_octets_def octet_def octets_value [OF w] by simp
qed

lemma char_of_digits [simp]: "char_of (48 :: nat) = CHR ''0''" "char_of (49 :: nat) = CHR ''1''" "char_of (53 :: nat) = CHR ''5''"
  by code_simp+

lemma digit_char_zero: "n < 10 \<Longrightarrow> digit_char n = CHR ''0'' \<longleftrightarrow> n = 0"
proof -
  have "digit_char 0 = CHR ''0''" by (simp add: digit_char_def)
  moreover assume "n < 10"
  ultimately show ?thesis using digit_val_digit_char [of n] digit_val_digit_char [of 0] by fastforce
qed

lemma hd_show_nat: "0 < n \<Longrightarrow> hd (show_nat n) \<noteq> CHR ''0''"
proof (induction n rule: show_nat.induct)
  case (1 n)
  then show ?case by (subst show_nat.simps) (auto simp: digit_char_zero hd_append)
qed

lemma length_show_nat:
  assumes "n < 1000" shows "length (show_nat n) \<le> 3"
proof -
  have "length (show_nat m) = 1" if "m < 10" for m using that by (subst show_nat.simps) simp
  then have "length (show_nat m) \<le> 2" if "m < 100" for m using that by (subst show_nat.simps) simp
  then show ?thesis using assms by (subst show_nat.simps) simp
qed

lemma parse_octet_show:
  assumes "n \<le> 255"
  shows "parse_octet (show_nat n) = Some n"
proof -
  have "show_nat 0 = ''0''" by (subst show_nat.simps) (simp add: digit_char_def)
  then have "show_nat n = ''0'' \<or> hd (show_nat n) \<noteq> CHR ''0''" using hd_show_nat by (cases n) auto
  with assms length_show_nat [of n] show ?thesis by (auto simp: parse_octet_def)
qed

lemma show_nat_no_dot: "CHR ''.'' \<notin> set (show_nat n)"
  using show_nat_digits [of n] by (auto simp: list_all_iff is_digit_def)

lemma parse_show_ipv4: "parse_ipv4 (show_ipv4 w) = Some w"
proof -
  have "split_on CHR ''.'' (show_ipv4 w) = map (\<lambda>k. show_nat (octet w k)) [3, 2, 1, 0]"
    unfolding show_ipv4_def using show_nat_no_dot by (intro split_on_join) auto
  then show ?thesis using ipv4_octets [of w] by (simp add: parse_ipv4_def parse_octet_show octet_le)
qed

text \<open>
  The internal address that is chosen for a host is one of the addresses it reports, which the later
  check therefore confirms; with a network given it is an address of that network, which is private.
\<close>

theorem get_ip_from_network_correct:
  assumes "get_ip_from_network is_private network addresses = Inr (Some ip)"
  shows "is_ip_among_addresses ip addresses = Inr True
    \<and> (\<forall>n. network = Some n \<longrightarrow> (\<exists>net w. ip_network n = Some net \<and> is_private net \<and> parse_ipv4 ip = Some w \<and> in_network w net))"
proof -
  from assms obtain ips where ips: "interface_ips addresses = Inr ips"
    and r: "(case network of None \<Rightarrow> (case ips of [] \<Rightarrow> None | ip # _ \<Rightarrow> Some (show_ipv4 ip))
      | Some n \<Rightarrow> if ips = [] then None else (case ip_network n of None \<Rightarrow> None | Some net \<Rightarrow>
          if \<not> is_private net then None else map_option show_ipv4 (find (\<lambda>ip. in_network ip net) ips))) = Some ip"
    by (auto simp: get_ip_from_network_def bindE_Inr_conv)
  have among: "is_ip_among_addresses (show_ipv4 w) addresses = Inr True" if "w \<in> set ips" for w
    using ips that by (simp add: is_ip_among_addresses_def get_ips_from_addresses_def)
  show ?thesis
  proof (cases network)
    case None
    with r obtain w rest where "ips = w # rest" "ip = show_ipv4 w" by (auto split: list.splits)
    with among [of w] None show ?thesis by simp
  next
    case (Some n)
    with r obtain net w where net: "ip_network n = Some net" "is_private net" and f: "find (\<lambda>ip. in_network ip net) ips = Some w" "ip = show_ipv4 w"
      by (auto split: if_split_asm option.split_asm)
    then have "w \<in> set ips" "in_network w net" by (auto simp: find_Some_iff)
    with among [of w] net f(2) Some show ?thesis by (cases net) (auto simp: parse_show_ipv4)
  qed
qed

theorem get_ip_from_network_correct_witness:
  "is_ip_among_addresses ''10.0.0.5'' [''127.0.0.1/8'', ''10.0.0.5/24''] = Inr True"
proof -
  have "get_ip_from_network (\<lambda>_. True) (Some ''10.0.0.0/24'') [''127.0.0.1/8'', ''10.0.0.5/24''] = Inr (Some ''10.0.0.5'')"
    by (simp add: get_ip_from_network_def interface_ips_def interface_ip_def parse_ipv4_def parse_octet_def is_digit_def
        nat_of_digits_def digit_val_def ipv4_of_octets_def make_netmask_def ip_network_def netmask_def mask_numeral in_network_def
        show_ipv4_def octet_def show_nat.simps digit_char_def join_def List.map_filter_simps Let_def)
  from get_ip_from_network_correct [OF this] show ?thesis by blast
qed

end
