(* ===== verification/Fleets.thy ===== *)
theory Fleets
  imports Pools
begin

text \<open>
  \<^verbatim>\<open>server/services/fleets.py\<close> with the permission it asks for, and the background tasks
  \<^verbatim>\<open>process_fleets.py\<close> and \<^verbatim>\<open>process_placement_groups.py\<close>. Random names and suffixes, the
  parser of SSH keys and the clouds are parameters.
\<close>

section \<open>Users and permissions\<close>

datatype GlobalRole = GR_ADMIN | GR_USER
datatype ProjectRole = PR_ADMIN | PR_MANAGER | PR_USER

record UserModel =
  us_id :: nat
  us_name :: string
  us_global_role :: GlobalRole

definition get_member :: "UserModel \<Rightarrow> (nat \<times> ProjectRole) list \<Rightarrow> ProjectRole option" where
  "get_member user members = map_option snd (find (\<lambda>(u, r). u = us_id user) members)"

definition member_can_manage_ssh_fleets :: "bool \<Rightarrow> UserModel \<Rightarrow> ProjectRole \<Rightarrow> bool" where
  "member_can_manage_ssh_fleets allow_non_admins user role \<longleftrightarrow>
     allow_non_admins \<or> us_global_role user = GR_ADMIN \<or> role = PR_ADMIN"

record fleet_env =
  fe_now :: time
  fe_user :: UserModel
  fe_members :: "(nat \<times> ProjectRole) list"
  fe_allow_non_admins :: bool
  fe_names :: "string list"
  fe_suffix :: string
  fe_key_ok :: "string \<Rightarrow> bool"
  fe_uuid_text :: "nat \<Rightarrow> string"
  fe_backends :: "Backend list"

definition check_can_manage_ssh_fleets :: "fleet_env \<Rightarrow> unit result" where
  "check_can_manage_ssh_fleets env =
     (if us_global_role (fe_user env) = GR_ADMIN then Inr ()
      else (case get_member (fe_user env) (fe_members env) of
          None \<Rightarrow> Inl ForbiddenError
        | Some role \<Rightarrow> if member_can_manage_ssh_fleets (fe_allow_non_admins env) (fe_user env) role
            then Inr () else Inl ForbiddenError))"

section \<open>Fleets and their instances\<close>

definition fleet_instances :: "db \<Rightarrow> FleetModel \<Rightarrow> InstanceModel list" where
  "fleet_instances d f = filter (\<lambda>i. im_fleet_id i = Some (flm_id f)) (db_instances d)"

definition fleet_runs :: "db \<Rightarrow> FleetModel \<Rightarrow> RunModel list" where
  "fleet_runs d f = filter (\<lambda>r. rm_fleet_id r = Some (flm_id f)) (db_runs d)"

definition list_project_fleet_models :: "db \<Rightarrow> nat \<Rightarrow> string list option \<Rightarrow> bool \<Rightarrow> FleetModel list" where
  "list_project_fleet_models d project_id names include_deleted =
     filter (\<lambda>f. flm_project_id f = project_id \<and> (case names of None \<Rightarrow> True | Some ns \<Rightarrow> flm_name f \<in> set ns)
       \<and> (include_deleted \<or> \<not> flm_deleted f)) (db_fleets d)"

definition get_project_fleet_model_by_id :: "db \<Rightarrow> nat \<Rightarrow> nat \<Rightarrow> FleetModel option result" where
  "get_project_fleet_model_by_id d project_id fleet_id =
     one_or_none (filter (\<lambda>f. flm_id f = fleet_id \<and> flm_project_id f = project_id) (db_fleets d))"

definition get_project_fleet_model_by_name :: "db \<Rightarrow> nat \<Rightarrow> string \<Rightarrow> FleetModel option result" where
  "get_project_fleet_model_by_name d project_id name =
     one_or_none (filter (\<lambda>f. flm_name f = name \<and> flm_project_id f = project_id \<and> \<not> flm_deleted f) (db_fleets d))"

text \<open>The private keys of the connection parameters and of each host are removed before a specification is shown.\<close>

fun remove_host_key :: "ssh_host \<Rightarrow> ssh_host" where
  "remove_host_key (HostName h) = HostName h"
| "remove_host_key (HostParams p) = HostParams (p\<lparr>hp_ssh_key := None\<rparr>)"

definition remove_fleet_spec_sensitive_info :: "FleetSpec \<Rightarrow> FleetSpec" where
  "remove_fleet_spec_sensitive_info spec =
     (case fc_ssh_config (fs_configuration spec) of
        None \<Rightarrow> spec
      | Some ssh \<Rightarrow> spec\<lparr>fs_configuration := (fs_configuration spec)\<lparr>fc_ssh_config :=
          Some (ssh\<lparr>sh_ssh_key := None, sh_hosts := map remove_host_key (sh_hosts ssh)\<rparr>)\<rparr>\<rparr>)"

record Fleet =
  fl_id :: nat
  fl_name :: string
  fl_project_name :: string
  fl_spec :: FleetSpec
  fl_created_at :: time
  fl_status :: FleetStatus
  fl_status_message :: "string option"
  fl_instances :: "Instance list"

definition fleet_model_to_fleet :: "db \<Rightarrow> string \<Rightarrow> bool \<Rightarrow> bool \<Rightarrow> FleetModel \<Rightarrow> Fleet" where
  "fleet_model_to_fleet d project_name include_deleted_instances include_sensitive f =
     \<lparr>fl_id = flm_id f, fl_name = flm_name f, fl_project_name = project_name,
      fl_spec = (if include_sensitive then flm_spec f else remove_fleet_spec_sensitive_info (flm_spec f)),
      fl_created_at = flm_created_at f, fl_status = flm_status f, fl_status_message = flm_status_message f,
      fl_instances = sort_key in_instance_num (map (instance_model_to_instance project_name (db_fleets d))
        (filter (\<lambda>i. include_deleted_instances \<or> \<not> im_deleted i) (fleet_instances d f)))\<rparr>"

definition get_fleet :: "db \<Rightarrow> ProjectModel \<Rightarrow> string option \<Rightarrow> nat option \<Rightarrow> Fleet option result" where
  "get_fleet d project name fleet_id =
     bindE (case fleet_id of
        Some i \<Rightarrow> get_project_fleet_model_by_id d (pj_id project) i
      | None \<Rightarrow> (case name of
            Some n \<Rightarrow> get_project_fleet_model_by_name d (pj_id project) n
          | None \<Rightarrow> Inl (ServerClientError ''name or id must be specified'')))
     (\<lambda>f. Inr (map_option (fleet_model_to_fleet d (pj_name project) False False) f))"

definition is_fleet_in_use :: "db \<Rightarrow> FleetModel \<Rightarrow> nat list option \<Rightarrow> bool" where
  "is_fleet_in_use d f instance_nums =
     (let in_use = filter (\<lambda>i. instance_jobs d (im_id i) \<noteq> [] \<and> \<not> im_deleted i) (fleet_instances d f);
          selected = (case instance_nums of None \<Rightarrow> in_use | Some ns \<Rightarrow> filter (\<lambda>i. im_instance_num i \<in> set ns) in_use);
          active_runs = filter (\<lambda>r. \<not> run_is_finished (rm_status r)) (fleet_runs d f)
      in selected \<noteq> [] \<or> in_use = [] \<and> active_runs \<noteq> [])"

definition is_fleet_empty :: "db \<Rightarrow> FleetModel \<Rightarrow> bool" where
  "is_fleet_empty d f \<longleftrightarrow> filter (\<lambda>i. \<not> im_deleted i) (fleet_instances d f) = []"

definition generate_fleet_name :: "db \<Rightarrow> nat \<Rightarrow> string list \<Rightarrow> string option" where
  "generate_fleet_name d project_id names =
     first_free (flm_name ` set (list_project_fleet_models d project_id None False)) names"

section \<open>Validation\<close>

fun check_host_params :: "SSHParams \<Rightarrow> ssh_host \<Rightarrow> unit result" where
  "check_host_params ssh (HostName h) =
     (if sh_ssh_key ssh = None then Inl (ServerClientError (''No ssh key specified for host '' @ h))
      else if sh_user ssh = None then Inl (ServerClientError (''No ssh user specified for host '' @ h)) else Inr ())"
| "check_host_params ssh (HostParams p) =
     (if sh_ssh_key ssh = None \<and> hp_ssh_key p = None then Inl (ServerClientError (''No ssh key specified for host '' @ hp_hostname p))
      else if sh_user ssh = None \<and> hp_user p = None then Inl (ServerClientError (''No ssh user specified for host '' @ hp_hostname p))
      else Inr ())"

definition validate_all_ssh_params_specified :: "SSHParams \<Rightarrow> unit result" where
  "validate_all_ssh_params_specified ssh = fmapE (\<lambda>_. ()) (mapE (check_host_params ssh) (sh_hosts ssh))"

definition validate_ssh_key :: "(string \<Rightarrow> bool) \<Rightarrow> SSHKey \<Rightarrow> unit result" where
  "validate_ssh_key key_ok key = (case sk_private key of
      None \<Rightarrow> Inl (ServerClientError ''Private key not provided'')
    | Some k \<Rightarrow> if key_ok k then Inr () else Inl (ServerClientError ''Unsupported key type''))"

fun host_key :: "ssh_host \<Rightarrow> SSHKey option" where
  "host_key (HostName h) = None"
| "host_key (HostParams p) = hp_ssh_key p"

fun host_internal_ip :: "ssh_host \<Rightarrow> string option" where
  "host_internal_ip (HostName h) = None"
| "host_internal_ip (HostParams p) = hp_internal_ip p"

definition validate_internal_ips :: "SSHParams \<Rightarrow> unit result" where
  "validate_internal_ips ssh =
     (let n = length (filter (\<lambda>h. host_internal_ip h \<noteq> None) (sh_hosts ssh)) in
      if n \<noteq> 0 \<and> n \<noteq> length (sh_hosts ssh) then Inl (ServerClientError ''internal_ip must be specified for all hosts'')
      else if n > 0 \<and> sh_network ssh \<noteq> None then Inl (ServerClientError ''internal_ip is mutually exclusive with network'')
      else Inr ())"

definition validate_fleet_spec :: "fleet_env \<Rightarrow> FleetSpec \<Rightarrow> unit result" where
  "validate_fleet_spec env spec =
     (let conf = fs_configuration spec in
      bindE (case fc_name conf of None \<Rightarrow> Inr () | Some n \<Rightarrow> validate_dstack_resource_name n) (\<lambda>_.
      case fc_ssh_config conf of
        None \<Rightarrow> if fc_nodes conf = None then Inl (ServerClientError ''No ssh_config or nodes specified'') else Inr ()
      | Some ssh \<Rightarrow>
          bindE (validate_all_ssh_params_specified ssh) (\<lambda>_.
          bindE (case sh_ssh_key ssh of None \<Rightarrow> Inr () | Some k \<Rightarrow> validate_ssh_key (fe_key_ok env) k) (\<lambda>_.
          bindE (mapE (validate_ssh_key (fe_key_ok env)) (List.map_filter host_key (sh_hosts ssh))) (\<lambda>_.
          validate_internal_ips ssh)))))"

definition check_ssh_hosts_not_yet_added :: "db \<Rightarrow> FleetSpec \<Rightarrow> nat option \<Rightarrow> unit result" where
  "check_ssh_hosts_not_yet_added d spec current_fleet_id = (case fc_ssh_config (fs_configuration spec) of
      None \<Rightarrow> Inr ()
    | Some ssh \<Rightarrow>
        let others = filter (\<lambda>i. \<not> (current_fleet_id \<noteq> None \<and> im_fleet_id i = current_fleet_id))
              (list_active_remote_instances (db_instances d));
            existing = (\<lambda>i. map_option rci_host (im_remote_connection_info i)) ` set others;
            already = filter (\<lambda>h. Some h \<in> existing) (map host_name (sh_hosts ssh))
        in if already = [] then Inr ()
           else Inl (ServerClientError (''Instances ['' @ join '', '' already @ ''] are already assigned to a fleet.'')))"

section \<open>Creating fleets\<close>

definition get_fleet_requirements :: "FleetSpec \<Rightarrow> Requirements" where
  "get_fleet_requirements spec =
     (let p = pr_params (fs_merged_profile spec) in
      \<lparr>rq_resources = (case fc_resources (fs_configuration spec) of None \<Rightarrow> default_resources | Some r \<Rightarrow> r),
       rq_max_price = pp_max_price p, rq_spot = get_policy_map (pp_spot_policy p) ONDEMAND,
       rq_reservation = pp_reservation (fc_params (fs_configuration spec))\<rparr>)"

definition get_fleet_nodes_to_provision :: "FleetSpec \<Rightarrow> nat" where
  "get_fleet_nodes_to_provision spec = (case fc_nodes (fs_configuration spec) of
      None \<Rightarrow> 0 | Some r \<Rightarrow> (case rmin r of None \<Rightarrow> 0 | Some n \<Rightarrow> nat n))"

definition get_placement_group_name :: "fleet_env \<Rightarrow> ProjectModel \<Rightarrow> FleetSpec \<Rightarrow> string option" where
  "get_placement_group_name env project spec =
     (if fc_placement (fs_configuration spec) \<noteq> Some CLUSTER then None
      else Some (pj_name project @ ''-'' @ (case fc_name (fs_configuration spec) of None \<Rightarrow> ''None'' | Some n \<Rightarrow> n)
        @ ''-'' @ fe_suffix env @ ''-pg''))"

definition fleet_name_text :: "FleetSpec \<Rightarrow> string" where
  "fleet_name_text spec = (case fc_name (fs_configuration spec) of None \<Rightarrow> ''None'' | Some n \<Rightarrow> n)"

definition create_fleet_instance_model ::
    "fleet_env \<Rightarrow> nat \<Rightarrow> ProjectModel \<Rightarrow> nat \<Rightarrow> FleetSpec \<Rightarrow> string option \<Rightarrow> nat \<Rightarrow> InstanceModel" where
  "create_fleet_instance_model env iid project pool_id spec placement_group_name instance_num =
     create_instance_model (fe_now env) iid project (us_name (fe_user env)) pool_id (fs_merged_profile spec)
       (get_fleet_requirements spec) (fleet_name_text spec @ ''-'' @ show_nat instance_num) instance_num
       placement_group_name (pp_reservation (fc_params (fs_configuration spec))) (fc_blocks (fs_configuration spec))
       (fe_uuid_text env)"

text \<open>Python's \<^verbatim>\<open>or\<close> on optional texts and numbers: the empty text and zero count as absent.\<close>

definition or_text :: "string option \<Rightarrow> string option \<Rightarrow> string option" where
  "or_text a b = (if a = None \<or> a = Some [] then b else a)"

definition or_port :: "int option \<Rightarrow> int option \<Rightarrow> int option" where
  "or_port a b = (if a = None \<or> a = Some 0 then b else a)"

fun host_parameters ::
    "SSHParams \<Rightarrow> ssh_host \<Rightarrow> string option \<times> SSHKey option \<times> int option \<times> SSHProxyParams option \<times> string option \<times> blocks_arg" where
  "host_parameters ssh (HostName h) = (sh_user ssh, sh_ssh_key ssh, sh_port ssh, sh_proxy_jump ssh, None, Blocks 1)"
| "host_parameters ssh (HostParams p) = (or_text (hp_user p) (sh_user ssh), over (hp_ssh_key p) (sh_ssh_key ssh),
     or_port (hp_port p) (sh_port ssh), over (hp_proxy_jump p) (sh_proxy_jump ssh), hp_internal_ip p, hp_blocks p)"

text \<open>The proxy of a host; a proxy without key does not pass the validation of the connection data.\<close>

definition proxy_connection :: "SSHProxyParams option \<Rightarrow> (SSHConnectionParams option \<times> SSHKey list option) result" where
  "proxy_connection proxy = (case proxy of
      None \<Rightarrow> Inr (None, None)
    | Some x \<Rightarrow> (case spx_ssh_key x of
          None \<Rightarrow> Inl ValueError
        | Some k \<Rightarrow> Inr (Some \<lparr>sp_hostname = spx_hostname x, sp_username = spx_user x,
              sp_port = (case or_port (spx_port x) (Some 22) of Some n \<Rightarrow> n | None \<Rightarrow> 22)\<rparr>, Some [k])))"

definition create_fleet_ssh_instance_model ::
    "fleet_env \<Rightarrow> nat \<Rightarrow> ProjectModel \<Rightarrow> nat \<Rightarrow> FleetSpec \<Rightarrow> SSHParams \<Rightarrow> nat \<Rightarrow> ssh_host \<Rightarrow> InstanceModel result" where
  "create_fleet_ssh_instance_model env iid project pool_id spec ssh instance_num host =
     (case host_parameters ssh host of (user, key, port, proxy, internal_ip, blocks) \<Rightarrow>
        (case (user, key) of
           (Some u, Some k) \<Rightarrow>
             bindE (proxy_connection proxy) (\<lambda>(ssh_proxy, ssh_proxy_keys).
             Inr (create_ssh_instance_model (fe_now env) iid project pool_id
               (fleet_name_text spec @ ''-'' @ show_nat instance_num) instance_num internal_ip (sh_network ssh) (Some ''remote'')
               \<lparr>rci_host = host_name host, rci_port = (case or_port port (Some 22) of Some n \<Rightarrow> n | None \<Rightarrow> 22),
                rci_ssh_user = u, rci_ssh_keys = [k], rci_ssh_proxy = ssh_proxy, rci_ssh_proxy_keys = ssh_proxy_keys,
                rci_env = fc_env (fs_configuration spec)\<rparr> blocks))
         | _ \<Rightarrow> Inl (ServerClientError ''ssh key or user not specified'')))"

definition fleet_name :: "fleet_env \<Rightarrow> db \<Rightarrow> nat \<Rightarrow> FleetSpec \<Rightarrow> string option result" where
  "fleet_name env d project_id spec = (case fc_name (fs_configuration spec) of
      Some n \<Rightarrow> bindE (get_project_fleet_model_by_name d project_id n) (\<lambda>f.
        case f of None \<Rightarrow> Inr (Some n) | Some _ \<Rightarrow> Inl ResourceExistsError)
    | None \<Rightarrow> Inr (generate_fleet_name d project_id (fe_names env)))"

definition new_fleet_instances ::
    "fleet_env \<Rightarrow> nat \<Rightarrow> ProjectModel \<Rightarrow> nat \<Rightarrow> FleetSpec \<Rightarrow> InstanceModel list result" where
  "new_fleet_instances env uid project pool_id spec = (case fc_ssh_config (fs_configuration spec) of
      Some ssh \<Rightarrow> mapE (\<lambda>(i, host). create_fleet_ssh_instance_model env (uid + i) project pool_id spec ssh i host)
        (zip [0..<length (sh_hosts ssh)] (sh_hosts ssh))
    | None \<Rightarrow> Inr (map (\<lambda>i. create_fleet_instance_model env (uid + i) project pool_id spec (get_placement_group_name env project spec) i)
        [0..<get_fleet_nodes_to_provision spec]))"

text \<open>
  \<^verbatim>\<open>create_fleet\<close>: \<open>uid\<close> is the next fresh key. \<open>Inr None\<close> when the random names run
  out, which stands for not returning.
\<close>

definition create_fleet ::
    "fleet_env \<Rightarrow> nat \<Rightarrow> ProjectModel \<Rightarrow> FleetSpec \<Rightarrow> db \<Rightarrow> (FleetModel \<times> ProjectModel \<times> db) option result" where
  "create_fleet env uid project spec d =
     bindE (validate_fleet_spec env spec) (\<lambda>_.
     bindE (if fc_ssh_config (fs_configuration spec) \<noteq> None then check_can_manage_ssh_fleets env else Inr ()) (\<lambda>_.
     bindE (fleet_name env d (pj_id project) spec) (\<lambda>oname.
     case oname of
       None \<Rightarrow> Inr None
     | Some name \<Rightarrow>
         let spec' = spec\<lparr>fs_configuration := (fs_configuration spec)\<lparr>fc_name := Some name\<rparr>\<rparr> in
         bindE (get_or_create_pool_by_name (fe_now env) None \<lparr>ps_pools = db_pools d, ps_project = project, ps_uid = uid\<rparr>) (\<lambda>(pool, ps).
         let f = \<lparr>flm_id = Suc uid, flm_name = name, flm_project_id = pj_id project, flm_created_at = fe_now env,
                  flm_last_processed_at = fe_now env, flm_deleted = False, flm_deleted_at = None, flm_status = F_ACTIVE,
                  flm_status_message = None, flm_spec = spec'\<rparr> in
         bindE (new_fleet_instances env (uid + 2) project (plm_id pool) spec') (\<lambda>is.
         Inr (Some (f, ps_project ps, d\<lparr>db_pools := ps_pools ps, db_fleets := db_fleets d @ [f],
           db_instances := db_instances d @ map (\<lambda>i. i\<lparr>im_fleet_id := Some (flm_id f)\<rparr>) is\<rparr>)))))))"

section \<open>Deleting fleets\<close>

text \<open>\<^verbatim>\<open>_terminate_fleet_instances\<close>\<close>

definition selects :: "FleetModel \<Rightarrow> nat list option \<Rightarrow> InstanceModel \<Rightarrow> bool" where
  "selects f instance_nums i \<longleftrightarrow> im_fleet_id i = Some (flm_id f)
     \<and> (case instance_nums of None \<Rightarrow> True | Some ns \<Rightarrow> im_instance_num i \<in> set ns)"

definition stop_fleet_instance :: "InstanceModel \<Rightarrow> InstanceModel" where
  "stop_fleet_instance i = (if im_status i = I_TERMINATED then i\<lparr>im_deleted := True\<rparr> else i\<lparr>im_status := I_TERMINATING\<rparr>)"

definition terminate_fleet_instances :: "FleetModel \<Rightarrow> nat list option \<Rightarrow> db \<Rightarrow> db result" where
  "terminate_fleet_instances f instance_nums d =
     (if is_fleet_in_use d f instance_nums
      then Inl (ServerClientError (''Failed to delete fleet '' @ flm_name f @ (case instance_nums of
          Some ns \<Rightarrow> '' instances ['' @ join '', '' (map show_nat ns) @ '']. Fleet instances are in use.''
        | None \<Rightarrow> ''. Fleet is in use.'')))
      else Inr (d\<lparr>db_instances := map_rows (selects f instance_nums) stop_fleet_instance (db_instances d)\<rparr>))"

fun delete_each :: "nat list option \<Rightarrow> FleetModel list \<Rightarrow> db \<Rightarrow> db result" where
  "delete_each instance_nums [] d = Inr d"
| "delete_each instance_nums (f # fs) d =
     bindE (terminate_fleet_instances f instance_nums d) (\<lambda>d1.
       delete_each instance_nums fs (if instance_nums = None
         then d1\<lparr>db_fleets := put_row flm_id (f\<lparr>flm_status := F_TERMINATING\<rparr>) (db_fleets d1)\<rparr> else d1))"

definition delete_fleets :: "fleet_env \<Rightarrow> nat \<Rightarrow> string list \<Rightarrow> nat list option \<Rightarrow> db \<Rightarrow> db result" where
  "delete_fleets env project_id names instance_nums d =
     (let fleets = list_project_fleet_models d project_id (Some names) False in
      bindE (if \<exists>f \<in> set fleets. fc_ssh_config (fs_configuration (flm_spec f)) \<noteq> None
             then check_can_manage_ssh_fleets env else Inr ()) (\<lambda>_.
      delete_each instance_nums fleets d))"

section \<open>Offers for fleets\<close>

definition get_create_instance_offers ::
    "Backend list \<Rightarrow> ProfileParams \<Rightarrow> Requirements \<Rightarrow> FleetSpec option \<Rightarrow> (FleetModel \<times> InstanceModel list) option
     \<Rightarrow> blocks_arg \<Rightarrow> bool \<Rightarrow> (Backend \<times> InstanceOffer) list" where
  "get_create_instance_offers backends profile requirements fleet_spec fleet_model blocks exclude_not_available =
     (let cluster = (\<lambda>s. fc_placement (fs_configuration s) = Some CLUSTER);
          multinode = (case fleet_model of Some (f, is) \<Rightarrow> cluster (flm_spec f)
             | None \<Rightarrow> (case fleet_spec of Some s \<Rightarrow> cluster s | None \<Rightarrow> False));
          master = (case fleet_model of None \<Rightarrow> None
             | Some (f, is) \<Rightarrow> (case List.map_filter im_job_provisioning_data is of [] \<Rightarrow> None | jpd # _ \<Rightarrow> Some jpd))
      in filter (\<lambda>(b, off). be_type b \<in> set BACKENDS_WITH_CREATE_INSTANCE_SUPPORT)
           (get_offers_by_requirements backends profile requirements
              \<lparr>oo_exclude_not_available = exclude_not_available, oo_multinode = multinode, oo_master = master,
               oo_volumes = [], oo_privileged = False, oo_instance_mounts = False, oo_blocks = blocks\<rparr>))"

record FleetPlan =
  fp_spec :: FleetSpec
  fp_current_resource :: "Fleet option"
  fp_offers :: "InstanceOffer list"
  fp_total_offers :: nat
  fp_max_offer_price :: "rat option"

definition get_fleet_plan :: "fleet_env \<Rightarrow> ProjectModel \<Rightarrow> FleetSpec \<Rightarrow> db \<Rightarrow> FleetPlan result" where
  "get_fleet_plan env project spec d =
     bindE (case fc_name (fs_configuration spec) of None \<Rightarrow> Inr None
        | Some n \<Rightarrow> get_project_fleet_model_by_name d (pj_id project) n) (\<lambda>current.
     bindE (check_ssh_hosts_not_yet_added d spec (map_option flm_id current)) (\<lambda>_.
     let offers = (if fc_ssh_config (fs_configuration spec) \<noteq> None then []
           else map snd (get_create_instance_offers (fe_backends env) (pr_params (fs_merged_profile spec))
             (get_fleet_requirements spec) (Some spec) None (fc_blocks (fs_configuration spec)) False))
     in Inr \<lparr>fp_spec = remove_fleet_spec_sensitive_info spec,
             fp_current_resource = map_option (fleet_model_to_fleet d (pj_name project) False False) current,
             fp_offers = take 50 offers, fp_total_offers = length offers,
             fp_max_offer_price = (if offers = [] then None else Some (Max (of_price ` set offers)))\<rparr>))"

section \<open>The background tasks\<close>

definition next_fleet :: "nat set \<Rightarrow> db \<Rightarrow> FleetModel option" where
  "next_fleet lockset d =
     (case sort_key flm_last_processed_at (filter (\<lambda>f. \<not> flm_deleted f \<and> flm_id f \<notin> lockset) (db_fleets d)) of
        [] \<Rightarrow> None | f # _ \<Rightarrow> Some f)"

definition process_fleet :: "time \<Rightarrow> FleetModel \<Rightarrow> db \<Rightarrow> db" where
  "process_fleet now f d =
     (if is_fleet_in_use d f None \<or> \<not> is_fleet_empty d f
      then d\<lparr>db_fleets := put_row flm_id (f\<lparr>flm_last_processed_at := now\<rparr>) (db_fleets d)\<rparr>
      else d\<lparr>db_fleets := put_row flm_id (f\<lparr>flm_status := F_TERMINATED, flm_deleted := True, flm_last_processed_at := now\<rparr>) (db_fleets d),
             db_placement_groups := map_rows (\<lambda>g. pgm_fleet_id g = flm_id f) (\<lambda>g. g\<lparr>pgm_fleet_deleted := True\<rparr>) (db_placement_groups d)\<rparr>)"

definition process_next_fleet :: "time \<Rightarrow> nat set \<Rightarrow> db \<Rightarrow> db" where
  "process_next_fleet now lockset d = (case next_fleet lockset d of None \<Rightarrow> d | Some f \<Rightarrow> process_fleet now f d)"

text \<open>
  \<open>backend\<close> gives the backend of a project by type. A group stays when it has no provisioning data,
  when its backend is not available, or when the deletion fails.
\<close>

definition delete_placement_group ::
    "time \<Rightarrow> (nat \<Rightarrow> string) \<Rightarrow> (nat \<Rightarrow> BackendType \<Rightarrow> Backend option) \<Rightarrow> PlacementGroupModel \<Rightarrow> PlacementGroupModel" where
  "delete_placement_group now project_name backend g = (case pgm_provisioning_data g of
      None \<Rightarrow> g
    | Some pd \<Rightarrow> (case backend (pgm_project_id g) (pgd_backend pd) of
          None \<Rightarrow> g
        | Some b \<Rightarrow> (case be_delete_placement_group b (placement_group_model_to_placement_group (project_name (pgm_project_id g)) g) of
              Inl _ \<Rightarrow> g
            | Inr _ \<Rightarrow> g\<lparr>pgm_deleted := True, pgm_deleted_at := Some now\<rparr>)))"

definition process_placement_groups ::
    "time \<Rightarrow> (nat \<Rightarrow> string) \<Rightarrow> (nat \<Rightarrow> BackendType \<Rightarrow> Backend option) \<Rightarrow> nat set \<Rightarrow> db \<Rightarrow> db" where
  "process_placement_groups now project_name backend lockset d =
     d\<lparr>db_placement_groups := map_rows (\<lambda>g. pgm_fleet_deleted g \<and> \<not> pgm_deleted g \<and> pgm_id g \<notin> lockset)
        (delete_placement_group now project_name backend) (db_placement_groups d)\<rparr>"

section \<open>New fleets\<close>

definition live_fleets :: "nat \<Rightarrow> db \<Rightarrow> FleetModel list" where
  "live_fleets project_id d = filter (\<lambda>f. flm_project_id f = project_id \<and> \<not> flm_deleted f) (db_fleets d)"

text \<open>Keys are below the next fresh one and unique, and so are the names of the live fleets of a project.\<close>

definition fleets_ok :: "nat \<Rightarrow> nat \<Rightarrow> db \<Rightarrow> bool" where
  "fleets_ok uid project_id d \<longleftrightarrow>
     distinct (map flm_id (db_fleets d)) \<and> (\<forall>f \<in> set (db_fleets d). flm_id f < uid)
     \<and> distinct (map im_id (db_instances d)) \<and> (\<forall>i \<in> set (db_instances d). im_id i < uid)
     \<and> (\<forall>i \<in> set (db_instances d). \<forall>k. im_fleet_id i = Some k \<longrightarrow> k < uid)
     \<and> distinct (map flm_name (live_fleets project_id d))"

definition fleet_size :: "FleetSpec \<Rightarrow> nat" where
  "fleet_size spec = (case fc_ssh_config (fs_configuration spec) of
      Some ssh \<Rightarrow> length (sh_hosts ssh) | None \<Rightarrow> get_fleet_nodes_to_provision spec)"

definition fresh_instance :: "nat \<Rightarrow> nat \<Rightarrow> nat \<Rightarrow> InstanceModel \<Rightarrow> bool" where
  "fresh_instance project_id pool_id num i \<longleftrightarrow> im_instance_num i = num \<and> im_project_id i = project_id
     \<and> im_pool_id i = pool_id \<and> im_status i = I_PENDING \<and> \<not> im_deleted i \<and> \<not> im_unreachable i
     \<and> im_busy_blocks i = 0 \<and> im_volume_attachments i = []"

text \<open>What makes an instance of a fleet one to connect to over SSH, or one to create in a cloud.\<close>

definition instance_of_spec :: "FleetSpec \<Rightarrow> nat \<Rightarrow> InstanceModel \<Rightarrow> bool" where
  "instance_of_spec spec num i = (case fc_ssh_config (fs_configuration spec) of
      Some ssh \<Rightarrow> map_option rci_host (im_remote_connection_info i) = Some (host_name (sh_hosts ssh ! num))
    | None \<Rightarrow> im_remote_connection_info i = None \<and> im_profile i = Some (fs_merged_profile spec)
        \<and> im_requirements i = Some (get_fleet_requirements spec))"

lemma blank_instance_fresh [simp]: "fresh_instance p pool num (blank_instance iid now name num p pool)"
  "im_id (blank_instance iid now name num p pool) = iid"
  "im_remote_connection_info (blank_instance iid now name num p pool) = None"
  by (simp_all add: fresh_instance_def blank_instance_def)

lemma create_fleet_instance_fresh:
  "fresh_instance (pj_id project) pool_id num (create_fleet_instance_model env iid project pool_id spec g num)
   \<and> im_id (create_fleet_instance_model env iid project pool_id spec g num) = iid
   \<and> im_remote_connection_info (create_fleet_instance_model env iid project pool_id spec g num) = None
   \<and> im_profile (create_fleet_instance_model env iid project pool_id spec g num) = Some (fs_merged_profile spec)
   \<and> im_requirements (create_fleet_instance_model env iid project pool_id spec g num) = Some (get_fleet_requirements spec)"
  by (simp add: create_fleet_instance_model_def create_instance_model_def Let_def fresh_instance_def blank_instance_def split: prod.split)

lemma create_ssh_instance_fresh:
  "fresh_instance (pj_id project) pool_id num (create_ssh_instance_model now iid project pool_id name num ip net region rci blocks)
   \<and> im_id (create_ssh_instance_model now iid project pool_id name num ip net region rci blocks) = iid
   \<and> im_remote_connection_info (create_ssh_instance_model now iid project pool_id name num ip net region rci blocks) = Some rci"
  by (simp add: create_ssh_instance_model_def Let_def fresh_instance_def blank_instance_def)

lemma create_fleet_ssh_instance_fresh:
  assumes "create_fleet_ssh_instance_model env iid project pool_id spec ssh num host = Inr i"
  shows "fresh_instance (pj_id project) pool_id num i \<and> im_id i = iid
    \<and> map_option rci_host (im_remote_connection_info i) = Some (host_name host)"
  using assms unfolding create_fleet_ssh_instance_model_def
  by (auto simp: bindE_Inr_conv create_ssh_instance_fresh split: prod.splits option.splits)

lemma new_fleet_instances_nth:
  assumes "new_fleet_instances env uid project pool_id spec = Inr is"
  shows "length is = fleet_size spec \<and> (\<forall>k < length is. im_id (is ! k) = uid + k
    \<and> fresh_instance (pj_id project) pool_id k (is ! k) \<and> instance_of_spec spec k (is ! k))"
proof (cases "fc_ssh_config (fs_configuration spec)")
  case None
  with assms show ?thesis
    by (auto simp: new_fleet_instances_def fleet_size_def instance_of_spec_def create_fleet_instance_fresh)
next
  case (Some ssh)
  with assms have "list_all2 (\<lambda>(k, host) i. create_fleet_ssh_instance_model env (uid + k) project pool_id spec ssh k host = Inr i)
      (zip [0..<length (sh_hosts ssh)] (sh_hosts ssh)) is"
    by (simp add: new_fleet_instances_def mapE_Inr_conv case_prod_beta')
  then show ?thesis using Some
    by (auto simp: list_all2_conv_all_nth fleet_size_def instance_of_spec_def dest!: create_fleet_ssh_instance_fresh)
qed

lemma fleet_name_fresh:
  assumes "fleet_name env d project_id spec = Inr (Some name)"
  shows "name \<notin> flm_name ` set (live_fleets project_id d)"
proof (cases "fc_name (fs_configuration spec)")
  case None
  have free: "first_free used names = Some n \<Longrightarrow> n \<notin> used" for used n names
    by (induction names) (auto split: if_split_asm)
  from None assms have "generate_fleet_name d project_id (fe_names env) = Some name" by (simp add: fleet_name_def)
  from free [OF this [unfolded generate_fleet_name_def]] show ?thesis
    by (auto simp: list_project_fleet_models_def live_fleets_def)
next
  case (Some n)
  with assms have "filter (\<lambda>f. flm_name f = name \<and> flm_project_id f = project_id \<and> \<not> flm_deleted f) (db_fleets d) = []"
    by (auto simp: fleet_name_def get_project_fleet_model_by_name_def one_or_none_def bindE_Inr_conv split: option.splits list.splits)
  then show ?thesis by (auto simp: live_fleets_def filter_empty_conv)
qed

lemma create_fleet_cases:
  assumes "create_fleet env uid project spec d = Inr (Some (f, project', d'))"
  obtains name pool ps "is" where "fleet_name env d (pj_id project) spec = Inr (Some name)"
    and "get_or_create_pool_by_name (fe_now env) None \<lparr>ps_pools = db_pools d, ps_project = project, ps_uid = uid\<rparr> = Inr (pool, ps)"
    and "new_fleet_instances env (uid + 2) project (plm_id pool) (flm_spec f) = Inr is"
    and "flm_spec f = spec\<lparr>fs_configuration := (fs_configuration spec)\<lparr>fc_name := Some name\<rparr>\<rparr>"
    and "flm_id f = Suc uid" and "flm_name f = name" and "flm_project_id f = pj_id project" and "\<not> flm_deleted f"
    and "flm_status f = F_ACTIVE" and "project' = ps_project ps"
    and "d' = d\<lparr>db_pools := ps_pools ps, db_fleets := db_fleets d @ [f],
           db_instances := db_instances d @ map (\<lambda>i. i\<lparr>im_fleet_id := Some (Suc uid)\<rparr>) is\<rparr>"
  using assms unfolding create_fleet_def by (auto simp: bindE_Inr_conv Let_def split: option.splits prod.splits)

lemma fresh_instance_fleet [simp]: "fresh_instance p pool k (i\<lparr>im_fleet_id := f\<rparr>) = fresh_instance p pool k i"
  "instance_of_spec spec k (i\<lparr>im_fleet_id := f\<rparr>) = instance_of_spec spec k i"
  by (simp_all add: fresh_instance_def instance_of_spec_def split: option.split)

lemma filter_append_new:
  assumes "\<forall>x \<in> set xs. \<not> P x" and "\<forall>x \<in> set ys. P x"
  shows "filter P (xs @ ys) = ys"
  using assms by (simp add: filter_id_conv filter_empty_conv)

lemma fleets_ok_add:
  assumes "fleets_ok uid pid d" and "flm_id f = Suc uid" and "flm_name f \<notin> flm_name ` set (live_fleets pid d)"
    and "flm_project_id f = pid"
    and new: "\<forall>k < length is. im_id (is ! k) = uid + 2 + k \<and> im_fleet_id (is ! k) = Some (Suc uid)"
  shows "fleets_ok (uid + 2 + length is) pid (d\<lparr>db_pools := ps, db_fleets := db_fleets d @ [f], db_instances := db_instances d @ is\<rparr>)"
proof -
  have "map im_id is = map (\<lambda>k. k + (uid + 2)) [0..<length is]" using new by (intro nth_equalityI) auto
  then have "map im_id is = [uid + 2 ..< uid + 2 + length is]" by (simp only: map_add_upt add.commute [of "length is"])
  moreover from this have "im_id ` set is = {uid + 2 ..< uid + 2 + length is}" by (metis list.set_map set_upt)
  moreover have "\<forall>i \<in> set is. im_fleet_id i = Some (Suc uid)" using new by (auto simp: in_set_conv_nth)
  ultimately show ?thesis using assms(1-4) unfolding fleets_ok_def live_fleets_def
    by (auto simp: image_iff distinct_map)
qed

text \<open>
  C23. Creating a fleet adds one active fleet under a name that no live fleet of the project has, which
  is the requested name when there is one, and exactly the instances it asks for: one for each host or
  each node, numbered from zero, pending, without jobs, in the default pool of the project, each with
  the connection of its host or the requirements of the fleet. Keys and names stay unique and nothing
  else of the database changes but the pools.
\<close>

theorem create_fleet_correct:
  assumes ok: "fleets_ok uid (pj_id project) d"
    and pools: "pool_inv \<lparr>ps_pools = db_pools d, ps_project = project, ps_uid = uid\<rparr>"
    and run: "create_fleet env uid project spec d = Inr (Some (f, project', d'))"
  defines "is \<equiv> fleet_instances d' f"
  shows "fleets_ok (uid + 2 + length is) (pj_id project) d'
    \<and> live_fleets (pj_id project) d' = live_fleets (pj_id project) d @ [f]
    \<and> (\<forall>n. fc_name (fs_configuration spec) = Some n \<longrightarrow> flm_name f = n)
    \<and> length is = fleet_size (flm_spec f)
    \<and> (\<forall>k < length is. \<exists>pool_id. pj_default_pool_id project' = Some pool_id
         \<and> fresh_instance (pj_id project) pool_id k (is ! k) \<and> instance_of_spec (flm_spec f) k (is ! k))
    \<and> d' = d\<lparr>db_pools := db_pools d', db_fleets := db_fleets d @ [f], db_instances := db_instances d @ is\<rparr>"
proof -
  from run obtain name pool ps ms where c: "fleet_name env d (pj_id project) spec = Inr (Some name)"
    "get_or_create_pool_by_name (fe_now env) None \<lparr>ps_pools = db_pools d, ps_project = project, ps_uid = uid\<rparr> = Inr (pool, ps)"
    "new_fleet_instances env (uid + 2) project (plm_id pool) (flm_spec f) = Inr ms"
    "flm_id f = Suc uid" "flm_name f = name" "flm_project_id f = pj_id project" "\<not> flm_deleted f" "project' = ps_project ps"
    and d': "d' = d\<lparr>db_pools := ps_pools ps, db_fleets := db_fleets d @ [f],
           db_instances := db_instances d @ map (\<lambda>i. i\<lparr>im_fleet_id := Some (Suc uid)\<rparr>) ms\<rparr>"
    by (rule create_fleet_cases) blast
  have n: "\<forall>n. fc_name (fs_configuration spec) = Some n \<longrightarrow> flm_name f = n"
    using c(1,5) by (auto simp: fleet_name_def bindE_Inr_conv split: option.splits)
  have is_eq: "is = map (\<lambda>i. i\<lparr>im_fleet_id := Some (Suc uid)\<rparr>) ms"
  proof -
    have "\<forall>i \<in> set (db_instances d). im_fleet_id i \<noteq> Some (flm_id f)" using ok c(4) by (auto simp: fleets_ok_def)
    then show ?thesis unfolding is_def fleet_instances_def d' by (simp add: filter_append_new c(4))
  qed
  note nth = new_fleet_instances_nth [OF c(3)]
  have pool: "pj_default_pool_id project' = Some (plm_id pool)"
    using get_or_create_cases [OF pools, of "fe_now env" None] c(2,8) by (auto simp: names_pool_def)
  have "fleets_ok (uid + 2 + length is) (pj_id project) d'"
    unfolding d' is_eq [symmetric] by (rule fleets_ok_add [OF ok c(4) _ c(6)]) (use nth c fleet_name_fresh [OF c(1)] in \<open>auto simp: is_eq\<close>)
  moreover have "live_fleets (pj_id project) d' = live_fleets (pj_id project) d @ [f]"
    using c(6,7) by (simp add: live_fleets_def d')
  moreover have "length is = fleet_size (flm_spec f)" using nth by (simp add: is_eq)
  moreover have "\<forall>k < length is. \<exists>pool_id. pj_default_pool_id project' = Some pool_id
         \<and> fresh_instance (pj_id project) pool_id k (is ! k) \<and> instance_of_spec (flm_spec f) k (is ! k)"
    using nth pool by (auto simp: is_eq)
  moreover have "d' = d\<lparr>db_pools := db_pools d', db_fleets := db_fleets d @ [f], db_instances := db_instances d @ is\<rparr>"
    by (simp add: d' is_eq)
  ultimately show ?thesis using n by blast
qed

definition sample_user :: UserModel where
  "sample_user = \<lparr>us_id = 1, us_name = ''admin'', us_global_role = GR_USER\<rparr>"

definition sample_fleet_env :: fleet_env where
  "sample_fleet_env = \<lparr>fe_now = 0, fe_user = sample_user, fe_members = [(1, PR_ADMIN)], fe_allow_non_admins = False, fe_names = [],
     fe_suffix = ''abc'', fe_key_ok = (\<lambda>_. True), fe_uuid_text = (\<lambda>n. show_nat n), fe_backends = []\<rparr>"

definition empty_db :: db where
  "empty_db = \<lparr>db_runs = [], db_instances = [], db_volumes = [], db_fleets = [], db_pools = [], db_placement_groups = []\<rparr>"

lemmas fleet_sample_simps = sample_user_def sample_fleet_env_def empty_db_def sample_fleet_simps sample_project_def mk_FleetSpec_def

lemma sample_fleet_created:
  "\<exists>f p d'. create_fleet sample_fleet_env 1 sample_project (flm_spec (sample_fleet 1)) empty_db = Inr (Some (f, p, d'))"
proof -
  have v: "validate_fleet_spec sample_fleet_env (flm_spec (sample_fleet 1)) = Inr ()"
    by code_simp
  have n: "fleet_name sample_fleet_env empty_db (pj_id sample_project) (flm_spec (sample_fleet 1)) = Inr (Some ''fleet'')"
    by code_simp
  have p: "pool_inv \<lparr>ps_pools = db_pools empty_db, ps_project = sample_project, ps_uid = 1\<rparr>"
    by (simp add: pool_inv_def live_pools_def fleet_sample_simps)
  have s: "fc_ssh_config (fs_configuration (flm_spec (sample_fleet 1))) = None" by (simp add: fleet_sample_simps)
  from get_or_create_cases [OF p, of "fe_now sample_fleet_env" None] obtain q ps where
    "get_or_create_pool_by_name (fe_now sample_fleet_env) None \<lparr>ps_pools = db_pools empty_db, ps_project = sample_project, ps_uid = 1\<rparr> = Inr (q, ps)" by blast
  with v n s show ?thesis by (simp add: create_fleet_def Let_def new_fleet_instances_def)
qed

theorem create_fleet_correct_witness:
  "\<exists>f p d'. create_fleet sample_fleet_env 1 sample_project (flm_spec (sample_fleet 1)) empty_db = Inr (Some (f, p, d'))
     \<and> flm_name f = ''fleet'' \<and> length (fleet_instances d' f) = fleet_size (flm_spec f)"
proof -
  obtain f p d' where c: "create_fleet sample_fleet_env 1 sample_project (flm_spec (sample_fleet 1)) empty_db = Inr (Some (f, p, d'))"
    using sample_fleet_created by blast
  have "fleets_ok 1 (pj_id sample_project) empty_db" by (simp add: fleets_ok_def live_fleets_def fleet_sample_simps)
  moreover have "pool_inv \<lparr>ps_pools = db_pools empty_db, ps_project = sample_project, ps_uid = 1\<rparr>"
    by (simp add: pool_inv_def live_pools_def fleet_sample_simps)
  moreover have "fc_name (fs_configuration (flm_spec (sample_fleet 1))) = Some ''fleet''" by (simp add: fleet_sample_simps)
  ultimately show ?thesis using create_fleet_correct [OF _ _ c] c by blast
qed

section \<open>Deleting fleets is safe\<close>

lemma stop_fleet_instance_idem [simp]: "stop_fleet_instance (stop_fleet_instance i) = stop_fleet_instance i"
  by (cases "im_status i = I_TERMINATED") (simp_all add: stop_fleet_instance_def)

lemma stop_fleet_instance_keeps [simp]: "im_id (stop_fleet_instance i) = im_id i"
  "im_fleet_id (stop_fleet_instance i) = im_fleet_id i" "im_instance_num (stop_fleet_instance i) = im_instance_num i"
  "selects f nums (stop_fleet_instance i) = selects f nums i"
  by (simp_all add: stop_fleet_instance_def selects_def split: option.split)

lemma map_rows_twice:
  assumes "\<And>x. f (f x) = f x" and "\<And>x. Q (f x) = Q x"
  shows "map_rows Q f (map_rows P f xs) = map_rows (\<lambda>x. P x \<or> Q x) f xs"
  using assms by (simp add: map_rows_def)

lemma instance_jobs_runs: "db_runs d' = db_runs d \<Longrightarrow> instance_jobs d' k = instance_jobs d k"
  by (simp add: instance_jobs_def db_jobs_def)

lemma not_in_use:
  assumes "\<not> is_fleet_in_use d f nums"
  shows "\<forall>i \<in> set (db_instances d). selects f nums i \<and> \<not> im_deleted i \<longrightarrow> instance_jobs d (im_id i) = []"
    and "nums = None \<Longrightarrow> \<forall>r \<in> set (db_runs d). rm_fleet_id r = Some (flm_id f) \<longrightarrow> run_is_finished (rm_status r)"
  using assms unfolding is_fleet_in_use_def selects_def fleet_instances_def fleet_runs_def
  by (auto simp: Let_def filter_empty_conv split: option.splits)

definition fleet_terminating :: "FleetModel \<Rightarrow> FleetModel" where
  "fleet_terminating f = f\<lparr>flm_status := F_TERMINATING\<rparr>"

text \<open>The state after the instances of some fleets were stopped, and what must hold for it.\<close>

definition stopped_fleets :: "nat list option \<Rightarrow> FleetModel list \<Rightarrow> db \<Rightarrow> db" where
  "stopped_fleets nums fs d = d\<lparr>
     db_instances := map_rows (\<lambda>i. \<exists>f \<in> set fs. selects f nums i) stop_fleet_instance (db_instances d),
     db_fleets := map_rows (\<lambda>g. nums = None \<and> flm_id g \<in> flm_id ` set fs) fleet_terminating (db_fleets d)\<rparr>"

definition fleets_unused :: "nat list option \<Rightarrow> FleetModel list \<Rightarrow> db \<Rightarrow> bool" where
  "fleets_unused nums fs d \<longleftrightarrow>
     (\<forall>f \<in> set fs. \<forall>i \<in> set (db_instances d). selects f nums i \<and> \<not> im_deleted i \<longrightarrow> instance_jobs d (im_id i) = [])
     \<and> (nums = None \<longrightarrow> (\<forall>f \<in> set fs. \<forall>r \<in> set (db_runs d). rm_fleet_id r = Some (flm_id f) \<longrightarrow> run_is_finished (rm_status r)))"

lemma put_row_map_rows:
  assumes "distinct (map key rs)" and "r \<in> set rs" and "key (g r) = key r"
  shows "put_row key (g r) rs = map_rows (\<lambda>x. key x = key r) g rs"
  unfolding put_row_def map_rows_def using assms by (auto simp: distinct_map inj_on_def)

text \<open>One fleet of the list; the rows of later fleets are still those of the database.\<close>

lemma delete_each_step:
  assumes "terminate_fleet_instances f nums d = Inr d1" and "distinct (map flm_id (db_fleets d))" and "f \<in> set (db_fleets d)"
  defines "d2 \<equiv> (if nums = None then d1\<lparr>db_fleets := put_row flm_id (f\<lparr>flm_status := F_TERMINATING\<rparr>) (db_fleets d1)\<rparr> else d1)"
  shows "d2 = stopped_fleets nums [f] d \<and> fleets_unused nums [f] d"
proof -
  from assms(1) have u: "\<not> is_fleet_in_use d f nums"
    and d1: "d1 = d\<lparr>db_instances := map_rows (selects f nums) stop_fleet_instance (db_instances d)\<rparr>"
    by (auto simp: terminate_fleet_instances_def split: if_split_asm)
  have "put_row flm_id (fleet_terminating f) (db_fleets d) = map_rows (\<lambda>x. flm_id x = flm_id f) fleet_terminating (db_fleets d)"
    using assms(2,3) by (rule put_row_map_rows) (simp add: fleet_terminating_def)
  then have "d2 = stopped_fleets nums [f] d"
    by (simp add: d2_def d1 stopped_fleets_def fleet_terminating_def)
  with not_in_use [OF u] show ?thesis by (simp add: fleets_unused_def)
qed

lemma stopped_fleets_append:
  "stopped_fleets nums (f # fs) d = stopped_fleets nums fs (stopped_fleets nums [f] d)"
proof -
  have i: "map_rows (\<lambda>i. \<exists>f \<in> set fs. selects f nums i) stop_fleet_instance (map_rows (selects f nums) stop_fleet_instance (db_instances d))
    = map_rows (\<lambda>i. selects f nums i \<or> (\<exists>f \<in> set fs. selects f nums i)) stop_fleet_instance (db_instances d)"
    by (rule map_rows_twice) simp_all
  have g: "map_rows (\<lambda>g. nums = None \<and> flm_id g \<in> flm_id ` set fs) fleet_terminating (map_rows (\<lambda>g. nums = None \<and> flm_id g = flm_id f) fleet_terminating (db_fleets d))
    = map_rows (\<lambda>g. (nums = None \<and> flm_id g = flm_id f) \<or> (nums = None \<and> flm_id g \<in> flm_id ` set fs)) fleet_terminating (db_fleets d)"
    by (rule map_rows_twice) (simp_all add: fleet_terminating_def)
  show ?thesis using i g by (simp add: stopped_fleets_def conj_disj_distribL)
qed

lemma fleets_unused_append:
  assumes "fleets_unused nums [f] d" and "fleets_unused nums fs (stopped_fleets nums [f] d)"
  shows "fleets_unused nums (f # fs) d"
proof -
  let ?d = "stopped_fleets nums [f] d"
  have runs: "db_runs ?d = db_runs d" by (simp add: stopped_fleets_def)
  have jobs: "instance_jobs ?d k = instance_jobs d k" for k
    using runs by (rule instance_jobs_runs)
  have "instance_jobs d (im_id i) = []"
    if h: "h \<in> set fs" "i \<in> set (db_instances d)" "selects h nums i" "\<not> im_deleted i" for h i
  proof (cases "selects f nums i")
    case True
    with that assms(1) show ?thesis by (auto simp: fleets_unused_def)
  next
    case False
    with h have "i \<in> set (db_instances ?d)" by (simp add: stopped_fleets_def set_map_rows)
    with h assms(2) show ?thesis by (auto simp: fleets_unused_def jobs)
  qed
  moreover have "run_is_finished (rm_status r)"
    if "nums = None" "h \<in> set fs" "r \<in> set (db_runs d)" "rm_fleet_id r = Some (flm_id h)" for h r
    using assms(2) that unfolding fleets_unused_def runs by blast
  ultimately show ?thesis using assms(1) by (simp add: fleets_unused_def)
qed

lemma delete_each_Inr:
  assumes "delete_each nums fs d = Inr d'" and "distinct (map flm_id (db_fleets d))" and "distinct (map flm_id fs)"
    and "set fs \<subseteq> set (db_fleets d)"
  shows "d' = stopped_fleets nums fs d \<and> fleets_unused nums fs d"
  using assms
proof (induction fs arbitrary: d)
  case Nil
  then show ?case by (simp add: stopped_fleets_def fleets_unused_def)
next
  case (Cons f fs)
  let ?d = "stopped_fleets nums [f] d"
  from Cons.prems obtain d1 where "terminate_fleet_instances f nums d = Inr d1" by (auto simp: bindE_Inr_conv)
  from delete_each_step [OF this] Cons.prems this
  have rest: "delete_each nums fs ?d = Inr d'" and u: "fleets_unused nums [f] d" by auto
  have "map flm_id (db_fleets ?d) = map flm_id (db_fleets d)"
    unfolding stopped_fleets_def by (simp add: map_map_rows fleet_terminating_def)
  moreover have "set fs \<subseteq> set (db_fleets ?d)"
  proof
    fix g assume g: "g \<in> set fs"
    with Cons.prems(3) have "flm_id g \<noteq> flm_id f" by (metis distinct.simps(2) imageI list.set_map list.simps(9))
    with g Cons.prems(4) show "g \<in> set (db_fleets ?d)" by (auto simp: stopped_fleets_def set_map_rows)
  qed
  ultimately have "d' = stopped_fleets nums fs ?d \<and> fleets_unused nums fs ?d"
    using Cons.IH [OF rest] Cons.prems(2,3) by simp
  with u fleets_unused_append [of nums f d fs] stopped_fleets_append [of nums f fs d] show ?case by simp
qed

text \<open>
  C24. A request to delete fleets, or some of their instances, is all or nothing. When it succeeds no
  instance that runs a job was touched, all runs of the deleted fleets have finished, exactly the
  selected instances are stopped (terminated ones are deleted, the others set to terminating), the
  named live fleets are terminating when they are deleted as a whole, and nothing else changes.
\<close>

theorem delete_fleets_safe:
  assumes "distinct (map flm_id (db_fleets d))" and "delete_fleets env project_id names nums d = Inr d'"
  defines "fs \<equiv> filter (\<lambda>f. flm_name f \<in> set names) (live_fleets project_id d)"
  shows "d' = stopped_fleets nums fs d \<and> fleets_unused nums fs d"
proof -
  have fs: "list_project_fleet_models d project_id (Some names) False = fs"
    by (auto simp: fs_def live_fleets_def list_project_fleet_models_def intro: filter_cong)
  with assms(2) have "delete_each nums fs d = Inr d'" by (simp add: delete_fleets_def Let_def bindE_Inr_conv)
  then show ?thesis
    by (rule delete_each_Inr) (use assms(1) in \<open>auto simp: fs_def live_fleets_def distinct_map_filter\<close>)
qed

definition fleet_db :: "InstanceModel list \<Rightarrow> db" where
  "fleet_db is = empty_db\<lparr>db_fleets := [sample_fleet 1], db_instances := is\<rparr>"

theorem delete_fleets_safe_witness:
  "stopped_fleets None [sample_fleet 1] (fleet_db [(blank_instance 2 0 ''a'' 0 1 1)\<lparr>im_fleet_id := Some 1\<rparr>])
     = fleet_db [(blank_instance 2 0 ''a'' 0 1 1)\<lparr>im_fleet_id := Some 1, im_status := I_TERMINATING\<rparr>]
         \<lparr>db_fleets := [fleet_terminating (sample_fleet 1)]\<rparr>"
proof -
  let ?d = "fleet_db [(blank_instance 2 0 ''a'' 0 1 1)\<lparr>im_fleet_id := Some 1\<rparr>]"
  let ?e = "fleet_db [(blank_instance 2 0 ''a'' 0 1 1)\<lparr>im_fleet_id := Some 1, im_status := I_TERMINATING\<rparr>]\<lparr>db_fleets := [fleet_terminating (sample_fleet 1)]\<rparr>"
  have run: "delete_fleets sample_fleet_env 1 [''fleet''] None ?d = Inr ?e"
    by (simp add: delete_fleets_def list_project_fleet_models_def fleet_db_def terminate_fleet_instances_def is_fleet_in_use_def
      fleet_instances_def fleet_runs_def instance_jobs_def db_jobs_def selects_def stop_fleet_instance_def blank_instance_def
      fleet_terminating_def fleet_sample_simps)
  have "distinct (map flm_id (db_fleets ?d))" by (simp add: fleet_db_def)
  from delete_fleets_safe [OF this run] show ?thesis by (simp add: live_fleets_def fleet_db_def fleet_sample_simps)
qed

section \<open>The tasks\<close>

lemma not_in_use_None:
  "\<not> is_fleet_in_use d f None \<and> is_fleet_empty d f \<longleftrightarrow>
     (\<forall>i \<in> set (db_instances d). im_fleet_id i = Some (flm_id f) \<longrightarrow> im_deleted i)
     \<and> (\<forall>r \<in> set (db_runs d). rm_fleet_id r = Some (flm_id f) \<longrightarrow> run_is_finished (rm_status r))"
  by (auto simp: is_fleet_in_use_def is_fleet_empty_def fleet_instances_def fleet_runs_def Let_def filter_empty_conv)

text \<open>The first element in the order of a key among those with a property.\<close>

lemma sort_filter_head:
  assumes "sort_key k (filter P xs) = x # ys"
  shows "x \<in> set xs \<and> P x \<and> (\<forall>y \<in> set xs. P y \<longrightarrow> k x \<le> k y)"
proof -
  have s: "set (x # ys) = set (filter P xs)" using assms by (metis set_sort)
  have "sorted (map k (x # ys))" using assms by (metis sorted_sort_key)
  moreover have "y \<in> set (x # ys)" if "y \<in> set xs" "P y" for y unfolding s using that by simp
  moreover have "x \<in> set (filter P xs)" unfolding s [symmetric] by simp
  ultimately show ?thesis by fastforce
qed

lemma next_fleet_Some:
  "next_fleet lockset d = Some f \<Longrightarrow> f \<in> set (db_fleets d) \<and> \<not> flm_deleted f \<and> flm_id f \<notin> lockset"
  by (auto simp: next_fleet_def split: list.splits dest: sort_filter_head)

text \<open>The fleet a placement group belongs to was deleted, as the code marks it on the group.\<close>

definition group_marks_ok :: "db \<Rightarrow> bool" where
  "group_marks_ok d \<longleftrightarrow> (\<forall>g \<in> set (db_placement_groups d).
     (pgm_fleet_deleted g \<or> pgm_deleted g) \<longrightarrow> (\<forall>f \<in> set (db_fleets d). flm_id f = pgm_fleet_id g \<longrightarrow> flm_deleted f))"

text \<open>
  The fleet task deletes the fleet it serves exactly when every instance of the fleet has been
  deleted and every run that refers to it has finished; then all placement groups of the fleet are
  marked for deletion. It changes no other fleet, no run and no instance, and a placement group is
  marked only when its fleet is deleted.
\<close>

theorem process_next_fleet_correct:
  fixes now :: time
  assumes keys: "distinct (map flm_id (db_fleets d))" and next_f: "next_fleet lockset d = Some f" and marks: "group_marks_ok d"
  defines "d' \<equiv> process_next_fleet now lockset d"
  shows "(\<exists>f' \<in> set (db_fleets d'). flm_id f' = flm_id f \<and> (flm_deleted f' \<longleftrightarrow>
      (\<forall>i \<in> set (db_instances d). im_fleet_id i = Some (flm_id f) \<longrightarrow> im_deleted i)
      \<and> (\<forall>r \<in> set (db_runs d). rm_fleet_id r = Some (flm_id f) \<longrightarrow> run_is_finished (rm_status r)))
      \<and> set (db_fleets d') = insert f' (set (db_fleets d) - {f})
      \<and> (flm_deleted f' \<longrightarrow> (\<forall>g \<in> set (db_placement_groups d'). pgm_fleet_id g = flm_id f \<longrightarrow> pgm_fleet_deleted g)))
    \<and> group_marks_ok d' \<and> db_instances d' = db_instances d \<and> db_runs d' = db_runs d \<and> db_volumes d' = db_volumes d"
proof -
  have f: "f \<in> set (db_fleets d)" "\<not> flm_deleted f" using next_fleet_Some [OF next_f] by simp_all
  let ?use = "is_fleet_in_use d f None \<or> \<not> is_fleet_empty d f"
  obtain f' where f': "f' = (if ?use then f\<lparr>flm_last_processed_at := now\<rparr>
      else f\<lparr>flm_status := F_TERMINATED, flm_deleted := True, flm_last_processed_at := now\<rparr>)" by blast
  have k: "flm_id f' = flm_id f" and del: "flm_deleted f' \<longleftrightarrow> \<not> ?use" using f(2) by (simp_all add: f')
  have fleets: "db_fleets d' = put_row flm_id f' (db_fleets d)"
    using next_f by (simp add: d'_def process_next_fleet_def process_fleet_def f')
  have set_fleets: "set (db_fleets d') = insert f' (set (db_fleets d) - {f})"
    unfolding fleets using keys f(1) k by (rule set_put_row_eq)
  have groups: "db_placement_groups d' = (if ?use then db_placement_groups d
      else map_rows (\<lambda>g. pgm_fleet_id g = flm_id f) (\<lambda>g. g\<lparr>pgm_fleet_deleted := True\<rparr>) (db_placement_groups d))"
    using next_f by (simp add: d'_def process_next_fleet_def process_fleet_def)
  have rest: "db_instances d' = db_instances d" "db_runs d' = db_runs d" "db_volumes d' = db_volumes d"
    using next_f by (simp_all add: d'_def process_next_fleet_def process_fleet_def)
  have other: "flm_id h \<noteq> flm_id f" if "h \<in> set (db_fleets d)" "h \<noteq> f" for h
    using keys f(1) that by (auto simp: distinct_map inj_on_def)
  have "group_marks_ok d'"
    using marks f unfolding group_marks_ok_def set_fleets groups
    by (auto simp: set_map_rows k del split: if_split_asm dest: other)
  moreover have "\<forall>g \<in> set (db_placement_groups d'). pgm_fleet_id g = flm_id f \<longrightarrow> pgm_fleet_deleted g" if "flm_deleted f'"
    using that del by (auto simp: groups set_map_rows)
  moreover have "f' \<in> set (db_fleets d')" by (simp add: set_fleets)
  ultimately show ?thesis using rest del k set_fleets not_in_use_None [of d f] by blast
qed

theorem process_next_fleet_correct_witness:
  "\<exists>f' \<in> set (db_fleets (process_next_fleet 5 {} (fleet_db []))). flm_deleted f'"
proof -
  have "next_fleet {} (fleet_db []) = Some (sample_fleet 1)"
    by (simp add: next_fleet_def fleet_db_def fleet_sample_simps)
  moreover have "distinct (map flm_id (db_fleets (fleet_db [])))" "group_marks_ok (fleet_db [])"
    by (simp_all add: fleet_db_def group_marks_ok_def empty_db_def)
  ultimately have "\<exists>f' \<in> set (db_fleets (process_next_fleet 5 {} (fleet_db []))). flm_deleted f' \<longleftrightarrow>
      (\<forall>i \<in> set (db_instances (fleet_db [])). im_fleet_id i = Some (flm_id (sample_fleet 1)) \<longrightarrow> im_deleted i)
      \<and> (\<forall>r \<in> set (db_runs (fleet_db [])). rm_fleet_id r = Some (flm_id (sample_fleet 1)) \<longrightarrow> run_is_finished (rm_status r))"
    using process_next_fleet_correct [of "fleet_db []" "{}" "sample_fleet 1" 5] by blast
  then show ?thesis by (simp add: fleet_db_def empty_db_def)
qed

text \<open>A placement group is removed in the cloud before it is deleted here, and only after its fleet.\<close>

lemma process_placement_groups_safe:
  assumes "group_marks_ok d"
  shows "group_marks_ok (process_placement_groups now project_name backend lockset d)"
proof -
  have "pgm_fleet_id (delete_placement_group now pn b g) = pgm_fleet_id g"
    "pgm_fleet_deleted (delete_placement_group now pn b g) = pgm_fleet_deleted g" for pn b g
    by (simp_all add: delete_placement_group_def split: option.split sum.split)
  with assms show ?thesis
    by (auto simp: group_marks_ok_def process_placement_groups_def set_map_rows)
qed

section \<open>Private keys\<close>

definition host_keys :: "ssh_host \<Rightarrow> SSHKey list" where
  "host_keys h = (case host_key h of None \<Rightarrow> [] | Some k \<Rightarrow> [k])"

fun host_proxy :: "ssh_host \<Rightarrow> SSHProxyParams option" where
  "host_proxy (HostName h) = None"
| "host_proxy (HostParams p) = hp_proxy_jump p"

definition proxy_keys :: "SSHParams \<Rightarrow> SSHKey list" where
  "proxy_keys ssh = List.map_filter (\<lambda>p. Option.bind p spx_ssh_key) (sh_proxy_jump ssh # map host_proxy (sh_hosts ssh))"

definition spec_keys :: "FleetSpec \<Rightarrow> SSHKey list" where
  "spec_keys spec = (case fc_ssh_config (fs_configuration spec) of
      None \<Rightarrow> []
    | Some ssh \<Rightarrow> (case sh_ssh_key ssh of None \<Rightarrow> [] | Some k \<Rightarrow> [k]) @ concat (map host_keys (sh_hosts ssh)) @ proxy_keys ssh)"

lemma remove_host_key_simps [simp]: "host_keys (remove_host_key h) = []" "host_proxy (remove_host_key h) = host_proxy h"
  by (cases h; simp add: host_keys_def)+

text \<open>
  The keys that stay in a fleet as it is shown to users are exactly those of its proxy hosts: the
  keys of the connection parameters and of the hosts are removed, those of the proxies are not.
\<close>

theorem shown_fleet_keys:
  "spec_keys (fl_spec (fleet_model_to_fleet d project_name deleted False f)) =
     (case fc_ssh_config (fs_configuration (flm_spec f)) of None \<Rightarrow> [] | Some ssh \<Rightarrow> proxy_keys ssh)"
proof -
  have "concat (map (host_keys \<circ> remove_host_key) hs) = []" for hs by (induction hs) simp_all
  then show ?thesis
    by (auto simp: fleet_model_to_fleet_def remove_fleet_spec_sensitive_info_def spec_keys_def proxy_keys_def o_def split: option.split)
qed

end
