(* ===== verification/Instances.thy ===== *)
theory Instances
  imports Fleets Network Submitted_Jobs
begin

text \<open>
  The background task \<^verbatim>\<open>process_instances.py\<close>: creating instances in the clouds and adding
  SSH hosts, health checks, idle time, and termination. One reading of the clock per step. The clouds,
  the deployment over SSH and the health check of the shim are parameters; an exception undoes the step.
\<close>

record HealthStatus =
  hs_healthy :: bool
  hs_reason :: string

text \<open>
  \<open>ie_deploy\<close> answers what \<^verbatim>\<open>_deploy_instance\<close> returns: the health of the shim and the
  host, as the instance type read from it and its addresses.
\<close>

record inst_env =
  ie_now :: time
  ie_uid :: nat
  ie_project :: ProjectModel
  ie_backends :: "Backend list"
  ie_backend_by_type :: "BackendType \<Rightarrow> Backend option"
  ie_key_ok :: "string \<Rightarrow> bool"
  ie_deploy :: "RemoteConnectionInfo \<Rightarrow> string list \<Rightarrow> (HealthStatus \<times> InstanceType result \<times> string list) result"
  ie_is_private :: "ipv4 \<times> nat \<Rightarrow> bool"
  ie_health :: "string \<times> string option \<Rightarrow> JobProvisioningData \<Rightarrow> HealthStatus option"

definition TERMINATION_DEADLINE_OFFSET :: time where "TERMINATION_DEADLINE_OFFSET = seconds 1200"
definition TERMINATION_RETRY_TIMEOUT :: time where "TERMINATION_RETRY_TIMEOUT = seconds 30"
definition TERMINATION_RETRY_MAX_DURATION :: time where "TERMINATION_RETRY_MAX_DURATION = seconds 900"
definition PROVISIONING_TIMEOUT_SECONDS :: int where "PROVISIONING_TIMEOUT_SECONDS = 600"

definition BACKENDS_WITH_PLACEMENT_GROUPS_SUPPORT :: "BackendType list" where
  "BACKENDS_WITH_PLACEMENT_GROUPS_SUPPORT = [AWS]"

section \<open>Choosing an instance\<close>

definition next_instance :: "nat set \<Rightarrow> db \<Rightarrow> InstanceModel option" where
  "next_instance lockset d =
     (case sort_key im_last_processed_at (filter (\<lambda>i.
          im_status i \<in> {I_PENDING, I_PROVISIONING, I_BUSY, I_IDLE, I_TERMINATING} \<and> im_id i \<notin> lockset) (db_instances d)) of
        [] \<Rightarrow> None | i # _ \<Rightarrow> Some i)"

section \<open>Idle time\<close>

definition get_instance_idle_duration :: "time \<Rightarrow> InstanceModel \<Rightarrow> time" where
  "get_instance_idle_duration now i =
     now - (case im_last_job_processed_at i of None \<Rightarrow> im_created_at i | Some t \<Rightarrow> t)"

definition terminating_for :: "string \<Rightarrow> InstanceModel \<Rightarrow> InstanceModel" where
  "terminating_for reason i = i\<lparr>im_status := I_TERMINATING, im_termination_reason := Some reason\<rparr>"

definition mark_terminating_if_idle_duration_expired :: "time \<Rightarrow> InstanceModel \<Rightarrow> InstanceModel" where
  "mark_terminating_if_idle_duration_expired now i =
     (if get_instance_idle_duration now i > seconds (im_termination_idle_time i)
      then terminating_for ''Idle timeout'' i else i)"

section \<open>SSH hosts\<close>

definition terminated_for :: "string \<Rightarrow> InstanceModel \<Rightarrow> InstanceModel" where
  "terminated_for reason i = i\<lparr>im_status := I_TERMINATED, im_termination_reason := Some reason\<rparr>"

definition ssh_keys_ok :: "inst_env \<Rightarrow> SSHKey list \<Rightarrow> bool" where
  "ssh_keys_ok env keys \<longleftrightarrow> list_all (ie_key_ok env) (List.map_filter sk_private keys)"

definition blocks_request :: "InstanceModel \<Rightarrow> blocks_arg" where
  "blocks_request i = (case im_total_blocks i of None \<Rightarrow> AutoBlocks | Some n \<Rightarrow> Blocks n)"

text \<open>The row of a host that was connected and whose internal address and blocks are known.\<close>

definition added_remote ::
    "inst_env \<Rightarrow> RemoteConnectionInfo \<Rightarrow> InstanceType \<Rightarrow> string \<Rightarrow> string option \<Rightarrow> string option \<Rightarrow> InstanceModel \<Rightarrow> InstanceModel" where
  "added_remote env rci itype region internal_ip network i =
     i\<lparr>im_status := I_IDLE, im_backend := Some REMOTE, im_price := Some 0,
       im_offer := Some \<lparr>of_backend = REMOTE, of_instance = itype, of_region = region, of_price = 0,
         of_availability = A_AVAILABLE, of_availability_zones = None, of_instance_runtime = SHIM, of_blocks = 1, of_total_blocks = 1\<rparr>,
       im_job_provisioning_data := Some \<lparr>jpd_backend = REMOTE, jpd_base_backend = None, jpd_instance_type = itype,
         jpd_instance_id = ''instance_id'', jpd_hostname = Some (rci_host rci), jpd_internal_ip = internal_ip,
         jpd_public_ip_enabled = True, jpd_instance_network = network, jpd_region = region, jpd_availability_zone = None,
         jpd_reservation = None, jpd_price = 0, jpd_username = rci_ssh_user rci, jpd_ssh_port = Some (rci_port rci),
         jpd_dockerized = True, jpd_ssh_proxy = rci_ssh_proxy rci, jpd_backend_data = None\<rparr>,
       im_started_at := Some (ie_now env), im_last_retry_at := Some (ie_now env)\<rparr>"

text \<open>
  What happens once the host has answered. The status is idle whatever the health: the code tests the
  health object, which is always true, and not its field.
\<close>

definition configure_remote ::
    "inst_env \<Rightarrow> RemoteConnectionInfo \<Rightarrow> InstanceType \<Rightarrow> string list \<Rightarrow> InstanceModel \<Rightarrow> InstanceModel result" where
  "configure_remote env rci itype addresses i =
     (let network = Option.bind (im_job_provisioning_data i) jpd_instance_network;
          given = Option.bind (im_job_provisioning_data i) jpd_internal_ip in
      bindE (case given of Some ip \<Rightarrow> Inr (Some ip) | None \<Rightarrow> get_ip_from_network (ie_is_private env) network addresses) (\<lambda>internal_ip.
      if network \<noteq> None \<and> internal_ip = None
      then Inr (terminated_for ''Failed to locate internal IP address on the given network'' i)
      else bindE (case internal_ip of None \<Rightarrow> Inr True | Some ip \<Rightarrow> is_ip_among_addresses ip addresses) (\<lambda>found.
      if \<not> found then Inr (terminated_for ''Specified internal IP not found among instance interfaces'' i)
      else (case is_divisible_into_blocks (res_cpus (it_resources itype)) (int (length (res_gpus (it_resources itype)))) (blocks_request i) of
          (divisible, blocks) \<Rightarrow>
            if \<not> divisible then Inr (terminated_for ''Cannot split into blocks'' i)
            else bindE (get_or_error (im_region i)) (\<lambda>region.
              Inr (added_remote env rci itype region internal_ip network (i\<lparr>im_total_blocks := Some blocks\<rparr>)))))))"

definition add_remote :: "inst_env \<Rightarrow> InstanceModel \<Rightarrow> InstanceModel result" where
  "add_remote env inst =
     (let i = inst\<lparr>im_status := I_PROVISIONING\<rparr> in
      if im_created_at i + seconds PROVISIONING_TIMEOUT_SECONDS < ie_now env
      then Inr (terminated_for ''Provisioning timeout expired'' i)
      else bindE (get_or_error (im_remote_connection_info i)) (\<lambda>rci.
      if \<not> (ssh_keys_ok env (rci_ssh_keys rci) \<and> (case rci_ssh_proxy_keys rci of None \<Rightarrow> True | Some ks \<Rightarrow> ssh_keys_ok env ks))
      then Inr (terminated_for ''Unsupported private SSH key type'' i)
      else (case ie_deploy env rci (map (strip \<circ> sk_public) (rci_ssh_keys rci) @ [strip (pj_ssh_public_key (ie_project env))]) of
          Inl _ \<Rightarrow> Inr (i\<lparr>im_status := I_PENDING, im_last_retry_at := Some (ie_now env)\<rparr>)
        | Inr (health, itype, addresses) \<Rightarrow> bindE itype (\<lambda>t. configure_remote env rci t addresses i))))"

section \<open>Cloud instances\<close>

text \<open>The fleet of an instance with its instances, in the order of the rows.\<close>

definition instance_fleet :: "db \<Rightarrow> InstanceModel \<Rightarrow> (FleetModel \<times> InstanceModel list) option" where
  "instance_fleet d i = map_option (\<lambda>f. (f, fleet_instances d f)) (db_fleet d (im_fleet_id i))"

definition need_to_wait_fleet_provisioning :: "(FleetModel \<times> InstanceModel list) option \<Rightarrow> InstanceModel \<Rightarrow> bool result" where
  "need_to_wait_fleet_provisioning fleet i = (case fleet of
      None \<Rightarrow> Inr False
    | Some (f, []) \<Rightarrow> Inl IndexError
    | Some (f, m # _) \<Rightarrow>
        Inr (\<not> (im_id i = im_id m \<or> im_job_provisioning_data m \<noteq> None \<or> im_status m = I_TERMINATED)
          \<and> fc_placement (fs_configuration (flm_spec f)) = Some CLUSTER \<and> fc_ssh_config (fs_configuration (flm_spec f)) = None))"

definition get_instance_offer_for_instance :: "(FleetModel \<times> InstanceModel list) option \<Rightarrow> InstanceOffer \<Rightarrow> InstanceOffer" where
  "get_instance_offer_for_instance fleet off = (case fleet of
      Some (f, m # _) \<Rightarrow>
        (case Option.bind (im_job_provisioning_data m) jpd_availability_zone of
           Some z \<Rightarrow>
             if fc_placement (fs_configuration (flm_spec f)) = Some CLUSTER
             then off\<lparr>of_availability_zones := Some (filter ((=) z) (case of_availability_zones off of None \<Rightarrow> [z] | Some zs \<Rightarrow> zs))\<rparr>
             else off
         | None \<Rightarrow> off)
    | _ \<Rightarrow> off)"

definition create_placement_group_if_does_not_exist ::
    "inst_env \<Rightarrow> FleetModel \<Rightarrow> PlacementGroup list \<Rightarrow> nat \<Rightarrow> string \<Rightarrow> BackendType \<Rightarrow> string \<Rightarrow> PlacementGroupModel option" where
  "create_placement_group_if_does_not_exist env f groups gid name backend region =
     (if \<exists>g \<in> set groups. pgc_backend (pg_configuration g) = backend \<and> pgc_region (pg_configuration g) = region then None
      else Some \<lparr>pgm_id = gid, pgm_name = name, pgm_project_id = flm_project_id f, pgm_fleet_id = flm_id f,
        pgm_fleet_deleted = False, pgm_created_at = ie_now env, pgm_last_processed_at = ie_now env, pgm_deleted = False,
        pgm_deleted_at = None, pgm_configuration = \<lparr>pgc_backend = backend, pgc_region = region, pgc_placement_strategy = PS_CLUSTER\<rparr>,
        pgm_provisioning_data = None\<rparr>)"

text \<open>
  The placement group of an offer: the rows to add and the groups known afterwards. A failure to
  create the group is not handled.
\<close>

definition group_for_offer ::
    "inst_env \<Rightarrow> FleetModel option \<Rightarrow> string option \<Rightarrow> Backend \<Rightarrow> InstanceOffer \<Rightarrow> PlacementGroup list \<Rightarrow> nat
     \<Rightarrow> (PlacementGroupModel list \<times> PlacementGroup list) result" where
  "group_for_offer env fleet group_name backend off groups gid =
     (case (fleet, group_name) of
        (Some f, Some name) \<Rightarrow>
          if of_backend off \<notin> set BACKENDS_WITH_PLACEMENT_GROUPS_SUPPORT \<or> name = [] then Inr ([], groups)
          else (case create_placement_group_if_does_not_exist env f groups gid name (of_backend off) (of_region off) of
              None \<Rightarrow> Inr ([], groups)
            | Some m \<Rightarrow>
                let g = placement_group_model_to_placement_group (pj_name (ie_project env)) m in
                fmapE (\<lambda>pd. ([m\<lparr>pgm_provisioning_data := Some pd\<rparr>], groups @ [g])) (be_create_placement_group backend g))
      | _ \<Rightarrow> Inr ([], groups))"

definition created_instance :: "inst_env \<Rightarrow> Backend \<Rightarrow> InstanceOffer \<Rightarrow> InstanceConfiguration \<Rightarrow> JobProvisioningData \<Rightarrow> InstanceModel \<Rightarrow> InstanceModel" where
  "created_instance env backend off conf jpd i =
     i\<lparr>im_status := I_PROVISIONING, im_backend := Some (be_type backend), im_region := Some (of_region off),
       im_price := Some (of_price off), im_instance_configuration := Some conf, im_job_provisioning_data := Some jpd,
       im_offer := Some off, im_total_blocks := Some (of_total_blocks off), im_started_at := Some (ie_now env),
       im_last_retry_at := Some (ie_now env)\<rparr>"

text \<open>The loop over the offers: the created instance, if any, and the new placement groups.\<close>

fun create_loop ::
    "inst_env \<Rightarrow> (FleetModel \<times> InstanceModel list) option \<Rightarrow> InstanceConfiguration \<Rightarrow> InstanceModel
     \<Rightarrow> (Backend \<times> InstanceOffer) list \<Rightarrow> PlacementGroup list \<Rightarrow> PlacementGroupModel list
     \<Rightarrow> (InstanceModel option \<times> PlacementGroupModel list) result" where
  "create_loop env fleet conf i [] groups new = Inr (None, new)"
| "create_loop env fleet conf i ((backend, offer) # offers) groups new =
     (if of_backend offer \<notin> set BACKENDS_WITH_CREATE_INSTANCE_SUPPORT then create_loop env fleet conf i offers groups new
      else
        let off = get_instance_offer_for_instance fleet offer in
        bindE (group_for_offer env (map_option fst fleet) (icf_placement_group_name conf) backend off groups (ie_uid env + length new)) (\<lambda>(added, groups').
        case be_create_instance backend off conf of
          Inr jpd \<Rightarrow> Inr (Some (created_instance env backend off conf jpd i), new @ added)
        | Inl e \<Rightarrow>
            if is_BackendError e \<or> e = NotImplementedError then create_loop env fleet conf i offers groups' (new @ added)
            else Inl e))"

definition retry_on_no_capacity :: "Retry option \<Rightarrow> bool" where
  "retry_on_no_capacity retry = (case retry of None \<Rightarrow> False | Some r \<Rightarrow> NO_CAPACITY \<in> set (on_events r))"

definition create_instance :: "inst_env \<Rightarrow> db \<Rightarrow> InstanceModel \<Rightarrow> (InstanceModel \<times> PlacementGroupModel list) result" where
  "create_instance env d i =
     (if (case im_last_retry_at i of None \<Rightarrow> False | Some t \<Rightarrow> ie_now env < t + seconds 60) then Inr (i, [])
      else (case (im_profile i, im_requirements i, im_instance_configuration i) of
          (Some profile, Some requirements, Some conf) \<Rightarrow>
            let fleet = instance_fleet d i in
            bindE (need_to_wait_fleet_provisioning fleet i) (\<lambda>wait.
            if wait then Inr (i, [])
            else
              let retry = get_retry (pr_params profile); should_retry = retry_on_no_capacity retry in
              if (case retry of None \<Rightarrow> False | Some r \<Rightarrow> ie_now env > im_created_at i + seconds (retry_duration r))
              then Inr (terminated_for ''Retry duration expired'' i, [])
              else
                let offers = get_create_instance_offers (ie_backends env) (pr_params profile) requirements None fleet (blocks_request i) True;
                    later = i\<lparr>im_last_retry_at := Some (ie_now env)\<rparr> in
                if offers = [] \<and> should_retry then Inr (later, [])
                else
                  fmapE (\<lambda>(created, new). (case created of Some i' \<Rightarrow> i'
                      | None \<Rightarrow> if should_retry then later else terminated_for ''No offers found'' later, new))
                    (create_loop env fleet conf i offers
                      (case im_fleet_id i of None \<Rightarrow> []
                       | Some fid \<Rightarrow> get_fleet_placement_groups (pj_name (ie_project env)) (db_placement_groups d) fid) []))
        | _ \<Rightarrow> Inr ((terminated_for ''Empty profile, requirements or instance_configuration'' i)
                  \<lparr>im_last_retry_at := Some (ie_now env)\<rparr>, [])))"

section \<open>Health checks\<close>

definition get_instance_timeout_interval :: "BackendType \<Rightarrow> string \<Rightarrow> time" where
  "get_instance_timeout_interval backend_type name =
     (if backend_type = RUNPOD then seconds 1200
      else if backend_type = OCI \<and> startswith name ''BM.'' then seconds 1200
      else if backend_type = VULTR \<and> startswith name ''vbm'' then seconds 3300
      else seconds 600)"

text \<open>A row without start time has no deadline: reading it raises.\<close>

definition get_provisioning_deadline :: "InstanceModel \<Rightarrow> JobProvisioningData \<Rightarrow> time result" where
  "get_provisioning_deadline i jpd = (case im_started_at i of
      None \<Rightarrow> Inl AttributeError
    | Some t \<Rightarrow> Inr (t + get_instance_timeout_interval (get_base_backend jpd) (it_name (jpd_instance_type jpd))))"

definition wait_for_instance_provisioning_data :: "inst_env \<Rightarrow> JobProvisioningData \<Rightarrow> InstanceModel \<Rightarrow> InstanceModel result" where
  "wait_for_instance_provisioning_data env jpd i =
     bindE (get_provisioning_deadline i jpd) (\<lambda>deadline.
     if ie_now env > deadline then Inr (terminating_for ''Instance has not become running in time'' i)
     else (case ie_backend_by_type env (jpd_backend jpd) of
         None \<Rightarrow> Inr (terminating_for ''Backend not available'' i)
       | Some backend \<Rightarrow> (case be_update_provisioning_data backend jpd of
             Inr jpd' \<Rightarrow> Inr (i\<lparr>im_job_provisioning_data := Some jpd'\<rparr>)
           | Inl e \<Rightarrow> if e = ProvisioningError
               then Inr (terminating_for ''Error while waiting for instance to become running'' i) else Inr i)))"

definition healthy_instance :: "JobModel list \<Rightarrow> InstanceModel \<Rightarrow> InstanceModel" where
  "healthy_instance jobs inst =
     (let i = inst\<lparr>im_termination_deadline := None, im_health_status := None, im_unreachable := False\<rparr> in
      if im_status i = I_PROVISIONING then i\<lparr>im_status := (if jobs = [] then I_IDLE else I_BUSY)\<rparr> else i)"

definition unhealthy_instance :: "inst_env \<Rightarrow> JobProvisioningData \<Rightarrow> string \<Rightarrow> InstanceModel \<Rightarrow> InstanceModel result" where
  "unhealthy_instance env jpd reason inst =
     (let deadline = (case im_termination_deadline inst of None \<Rightarrow> ie_now env + TERMINATION_DEADLINE_OFFSET | Some t \<Rightarrow> t);
          i = inst\<lparr>im_termination_deadline := Some deadline, im_health_status := Some reason, im_unreachable := True\<rparr> in
      if im_status i = I_PROVISIONING \<and> im_started_at i \<noteq> None then
        bindE (get_provisioning_deadline i jpd) (\<lambda>t. Inr (if ie_now env > t then i\<lparr>im_status := I_TERMINATING\<rparr> else i))
      else if im_status i \<in> {I_IDLE, I_BUSY} \<and> ie_now env > deadline then Inr (terminating_for ''Termination deadline'' i)
      else Inr i)"

definition check_health :: "inst_env \<Rightarrow> JobModel list \<Rightarrow> InstanceModel \<Rightarrow> InstanceModel result" where
  "check_health env jobs i =
     bindE (get_or_error (im_job_provisioning_data i)) (\<lambda>jpd.
      if jpd_hostname jpd = None then wait_for_instance_provisioning_data env jpd i
      else if \<not> jpd_dockerized jpd then Inr (if im_status i = I_PROVISIONING then i\<lparr>im_status := I_BUSY\<rparr> else i)
      else bindE (get_instance_ssh_private_keys (pj_ssh_private_key (ie_project env)) i) (\<lambda>keys.
        let health = (case ie_health env keys jpd of None \<Rightarrow> \<lparr>hs_healthy = False, hs_reason = ''SSH or tunnel error''\<rparr> | Some h \<Rightarrow> h)
        in if hs_healthy health then Inr (healthy_instance jobs i) else unhealthy_instance env jpd (hs_reason health) i))"

definition check_instance :: "inst_env \<Rightarrow> JobModel list \<Rightarrow> InstanceModel \<Rightarrow> InstanceModel result" where
  "check_instance env jobs i =
     (if im_status i = I_BUSY \<and> jobs \<noteq> [] \<and> list_all (\<lambda>j. job_is_finished (jm_status j)) jobs
      then Inr (terminating_for ''Instance job finished'' i) else check_health env jobs i)"

section \<open>Termination\<close>

definition finish_termination :: "time \<Rightarrow> InstanceModel \<Rightarrow> InstanceModel" where
  "finish_termination now i = i\<lparr>im_deleted := True, im_deleted_at := Some now, im_finished_at := Some now, im_status := I_TERMINATED\<rparr>"

definition waits_to_retry :: "time \<Rightarrow> InstanceModel \<Rightarrow> bool" where
  "waits_to_retry now i = (case im_last_termination_retry_at i of None \<Rightarrow> False | Some t \<Rightarrow> t + TERMINATION_RETRY_TIMEOUT > now)"

text \<open>After a failed attempt: try again later, or give up after the maximum duration.\<close>

definition termination_failed :: "time \<Rightarrow> InstanceModel \<Rightarrow> InstanceModel" where
  "termination_failed now i =
     (let first = (case im_first_termination_retry_at i of None \<Rightarrow> now | Some t \<Rightarrow> t);
          i' = i\<lparr>im_first_termination_retry_at := Some first, im_last_termination_retry_at := Some now\<rparr>
      in if now + TERMINATION_RETRY_TIMEOUT < first + TERMINATION_RETRY_MAX_DURATION then i' else finish_termination now i')"

definition terminate :: "inst_env \<Rightarrow> InstanceModel \<Rightarrow> InstanceModel" where
  "terminate env i =
     (if waits_to_retry (ie_now env) i then i
      else (case im_job_provisioning_data i of
          None \<Rightarrow> finish_termination (ie_now env) i
        | Some jpd \<Rightarrow>
            if jpd_backend jpd = REMOTE then finish_termination (ie_now env) i
            else (case ie_backend_by_type env (jpd_backend jpd) of
                None \<Rightarrow> finish_termination (ie_now env) i
              | Some backend \<Rightarrow> (case be_terminate_instance backend (jpd_instance_id jpd) (jpd_region jpd) of
                    Inr _ \<Rightarrow> finish_termination (ie_now env) i
                  | Inl _ \<Rightarrow> termination_failed (ie_now env) i))))"

section \<open>One step\<close>

definition idle_check :: "inst_env \<Rightarrow> JobModel list \<Rightarrow> InstanceModel \<Rightarrow> InstanceModel" where
  "idle_check env jobs i =
     (if im_status i = I_IDLE \<and> im_termination_policy i = Some DESTROY_AFTER_IDLE \<and> jobs = []
      then mark_terminating_if_idle_duration_expired (ie_now env) i else i)"

definition instance_step :: "inst_env \<Rightarrow> db \<Rightarrow> InstanceModel \<Rightarrow> (InstanceModel \<times> PlacementGroupModel list) result" where
  "instance_step env d inst =
     (let jobs = instance_jobs d (im_id inst); i = idle_check env jobs inst in
      case im_status i of
        I_PENDING \<Rightarrow> if im_remote_connection_info i \<noteq> None then fmapE (\<lambda>i'. (i', [])) (add_remote env i) else create_instance env d i
      | I_PROVISIONING \<Rightarrow> fmapE (\<lambda>i'. (i', [])) (check_instance env jobs i)
      | I_IDLE \<Rightarrow> fmapE (\<lambda>i'. (i', [])) (check_instance env jobs i)
      | I_BUSY \<Rightarrow> fmapE (\<lambda>i'. (i', [])) (check_instance env jobs i)
      | I_TERMINATING \<Rightarrow> Inr (terminate env i, [])
      | I_TERMINATED \<Rightarrow> Inr (i, []))"

definition process_instance :: "inst_env \<Rightarrow> InstanceModel \<Rightarrow> db \<Rightarrow> db result" where
  "process_instance env inst d =
     fmapE (\<lambda>(i, new). (db_put_instance (i\<lparr>im_last_processed_at := ie_now env\<rparr>) d)
         \<lparr>db_placement_groups := db_placement_groups d @ new\<rparr>) (instance_step env d inst)"

definition process_next_instance :: "inst_env \<Rightarrow> nat set \<Rightarrow> db \<Rightarrow> db result" where
  "process_next_instance env lockset d = (case next_instance lockset d of None \<Rightarrow> Inr d | Some i \<Rightarrow> process_instance env i d)"

end
