(* ===== verification/Instance_Lifecycle.thy ===== *)
theory Instance_Lifecycle
  imports Instances Job_Provisioning
begin

text \<open>
  What the instances task guarantees: every step follows the life cycle of instances, the accounting
  of blocks is kept, an instance with unfinished jobs is only stopped when it cannot be reached, clusters
  stay in one place, placement groups are unique, and termination comes to an end.
\<close>

section \<open>The life cycle\<close>

text \<open>The abstract life cycle of an instance with the given jobs; each rule says what a step needs.\<close>

inductive instance_life :: "time \<Rightarrow> JobModel list \<Rightarrow> InstanceModel \<Rightarrow> InstanceModel \<Rightarrow> bool" for now jobs i i' where
  stays: "im_status i' = im_status i \<Longrightarrow> instance_life now jobs i i'"
| created: "im_status i = I_PENDING \<Longrightarrow> im_remote_connection_info i = None \<Longrightarrow> im_status i' = I_PROVISIONING \<Longrightarrow>
    im_job_provisioning_data i' \<noteq> None \<Longrightarrow> im_started_at i' = Some now \<Longrightarrow> instance_life now jobs i i'"
| connected: "im_status i = I_PENDING \<Longrightarrow> im_remote_connection_info i \<noteq> None \<Longrightarrow> im_status i' = I_IDLE \<Longrightarrow>
    im_job_provisioning_data i' \<noteq> None \<Longrightarrow> im_started_at i' = Some now \<Longrightarrow> instance_life now jobs i i'"
| abandoned: "im_status i = I_PENDING \<Longrightarrow> im_status i' = I_TERMINATED \<Longrightarrow> im_termination_reason i' \<noteq> None \<Longrightarrow>
    instance_life now jobs i i'"
| ready: "im_status i = I_PROVISIONING \<Longrightarrow> im_status i' = I_BUSY \<or> im_status i' = I_IDLE \<and> jobs = [] \<Longrightarrow> instance_life now jobs i i'"
| never_running: "im_status i \<in> {I_PROVISIONING, I_IDLE, I_BUSY} \<Longrightarrow> im_status i' = I_TERMINATING \<Longrightarrow>
    im_job_provisioning_data i = Some jpd \<Longrightarrow> jpd_hostname jpd = None \<Longrightarrow> im_termination_reason i' \<noteq> None \<Longrightarrow> instance_life now jobs i i'"
| late: "im_status i = I_PROVISIONING \<Longrightarrow> im_status i' = I_TERMINATING \<Longrightarrow> im_unreachable i' \<Longrightarrow>
    im_started_at i = Some t \<Longrightarrow> t + seconds 600 < now \<Longrightarrow> instance_life now jobs i i'"
| unreachable: "im_status i \<in> {I_IDLE, I_BUSY} \<Longrightarrow> im_status i' = I_TERMINATING \<Longrightarrow> im_unreachable i' \<Longrightarrow>
    im_termination_deadline i = Some t \<Longrightarrow> t < now \<Longrightarrow> instance_life now jobs i i'"
| jobs_finished: "im_status i = I_BUSY \<Longrightarrow> im_status i' = I_TERMINATING \<Longrightarrow> jobs \<noteq> [] \<Longrightarrow>
    \<forall>j \<in> set jobs. job_is_finished (jm_status j) \<Longrightarrow> instance_life now jobs i i'"
| idle_expired: "im_status i = I_IDLE \<Longrightarrow> im_status i' \<in> {I_TERMINATING, I_TERMINATED} \<Longrightarrow> jobs = [] \<Longrightarrow>
    im_termination_policy i = Some DESTROY_AFTER_IDLE \<Longrightarrow>
    get_instance_idle_duration now i > seconds (im_termination_idle_time i) \<Longrightarrow> instance_life now jobs i i'"
| ended: "im_status i = I_TERMINATING \<Longrightarrow> im_status i' = I_TERMINATED \<Longrightarrow> im_deleted i' \<Longrightarrow> im_deleted_at i' = Some now \<Longrightarrow>
    instance_life now jobs i i'"

text \<open>What no step changes.\<close>

definition same_instance :: "InstanceModel \<Rightarrow> InstanceModel \<Rightarrow> bool" where
  "same_instance i i' \<longleftrightarrow> im_id i' = im_id i \<and> im_name i' = im_name i \<and> im_instance_num i' = im_instance_num i
     \<and> im_created_at i' = im_created_at i \<and> im_project_id i' = im_project_id i \<and> im_pool_id i' = im_pool_id i
     \<and> im_fleet_id i' = im_fleet_id i \<and> im_busy_blocks i' = im_busy_blocks i \<and> im_volume_attachments i' = im_volume_attachments i
     \<and> im_remote_connection_info i' = im_remote_connection_info i \<and> im_last_job_processed_at i' = im_last_job_processed_at i"

lemma same_instance_refl [simp]: "same_instance i i" by (simp add: same_instance_def)

lemma same_instance_trans: "same_instance a b \<Longrightarrow> same_instance b c \<Longrightarrow> same_instance a c"
  by (simp add: same_instance_def)

lemma marked_same [simp]: "same_instance i (terminating_for r i)" "same_instance i (terminated_for r i)"
  "im_status (terminating_for r i) = I_TERMINATING" "im_status (terminated_for r i) = I_TERMINATED"
  "im_termination_reason (terminating_for r i) = Some r" "im_termination_reason (terminated_for r i) = Some r"
  by (simp_all add: terminating_for_def terminated_for_def same_instance_def)

subsection \<open>SSH hosts\<close>

lemma added_remote_simps:
  "same_instance i (added_remote env rci t region ip net (i\<lparr>im_total_blocks := b\<rparr>))"
  "im_status (added_remote env rci t region ip net i) = I_IDLE"
  "im_job_provisioning_data (added_remote env rci t region ip net i) \<noteq> None"
  "im_started_at (added_remote env rci t region ip net i) = Some (ie_now env)"
  "im_total_blocks (added_remote env rci t region ip net i) = im_total_blocks i"
  by (simp_all add: added_remote_def same_instance_def)

lemma configure_remote_cases:
  assumes "configure_remote env rci t addresses i = Inr i'"
  obtains (refused) reason where "i' = terminated_for reason i"
  | (added) blocks region ip net where "i' = added_remote env rci t region ip net (i\<lparr>im_total_blocks := Some blocks\<rparr>)"
      and "is_divisible_into_blocks (res_cpus (it_resources t)) (int (length (res_gpus (it_resources t)))) (blocks_request i) = (True, blocks)"
  using assms unfolding configure_remote_def Let_def
  by (auto simp: bindE_Inr_conv split: if_split_asm prod.splits)

lemma add_remote_cases:
  assumes "add_remote env i = Inr i'"
  obtains (refused) reason where "i' = terminated_for reason (i\<lparr>im_status := I_PROVISIONING\<rparr>)"
  | (later) "i' = i\<lparr>im_status := I_PENDING, im_last_retry_at := Some (ie_now env)\<rparr>"
  | (added) rci t blocks region ip net where "i' = added_remote env rci t region ip net (i\<lparr>im_status := I_PROVISIONING, im_total_blocks := Some blocks\<rparr>)"
      and "is_divisible_into_blocks (res_cpus (it_resources t)) (int (length (res_gpus (it_resources t)))) (blocks_request i) = (True, blocks)"
proof -
  have b: "blocks_request (i\<lparr>im_status := I_PROVISIONING\<rparr>) = blocks_request i" by (simp add: blocks_request_def)
  show ?thesis using assms that unfolding add_remote_def Let_def
    by (auto simp: bindE_Inr_conv b split: if_split_asm sum.splits prod.splits elim!: configure_remote_cases)
qed

lemma add_remote_life:
  assumes "add_remote env i = Inr i'" and "im_status i = I_PENDING" and "im_remote_connection_info i \<noteq> None"
  shows "instance_life (ie_now env) jobs i i' \<and> same_instance i i'"
  using assms(1)
proof (cases rule: add_remote_cases)
  case (refused reason)
  then have "im_status i' = I_TERMINATED" "im_termination_reason i' \<noteq> None" "same_instance i i'"
    by (simp_all add: same_instance_def terminated_for_def)
  with assms(2) show ?thesis by (blast intro: instance_life.abandoned)
next
  case later
  with assms(2) show ?thesis by (auto intro: instance_life.stays simp: same_instance_def)
next
  case (added rci t blocks region ip net)
  then have "im_status i' = I_IDLE" "im_job_provisioning_data i' \<noteq> None" "im_started_at i' = Some (ie_now env)" "same_instance i i'"
    by (simp_all add: added_remote_def same_instance_def)
  with assms(2,3) show ?thesis by (blast intro: instance_life.connected)
qed

subsection \<open>Cloud instances\<close>

lemma created_instance_simps:
  "same_instance i (created_instance env b off conf jpd i)"
  "im_status (created_instance env b off conf jpd i) = I_PROVISIONING"
  "im_job_provisioning_data (created_instance env b off conf jpd i) = Some jpd"
  "im_started_at (created_instance env b off conf jpd i) = Some (ie_now env)"
  "im_total_blocks (created_instance env b off conf jpd i) = Some (of_total_blocks off)"
  "im_offer (created_instance env b off conf jpd i) = Some off"
  by (simp_all add: created_instance_def same_instance_def)

lemma create_loop_Some:
  assumes "create_loop env fleet conf i offers groups new = Inr (Some i', new')"
  shows "\<exists>b off jpd. (b, off) \<in> set offers \<and> of_backend off \<in> set BACKENDS_WITH_CREATE_INSTANCE_SUPPORT
    \<and> be_create_instance b (get_instance_offer_for_instance fleet off) conf = Inr jpd
    \<and> i' = created_instance env b (get_instance_offer_for_instance fleet off) conf jpd i"
  using assms
proof (induction env fleet conf i offers groups new rule: create_loop.induct)
  case (2 env fleet conf i b offer offers groups new)
  show ?case
  proof (cases "of_backend offer \<in> set BACKENDS_WITH_CREATE_INSTANCE_SUPPORT")
    case False
    with 2 show ?thesis by auto
  next
    case True
    let ?off = "get_instance_offer_for_instance fleet offer"
    from True "2.prems" obtain added groups' where g: "group_for_offer env (map_option fst fleet) (icf_placement_group_name conf) b ?off groups (ie_uid env + length new) = Inr (added, groups')"
      by (auto simp: Let_def bindE_Inr_conv)
    show ?thesis
    proof (cases "be_create_instance b ?off conf")
      case (Inr jpd)
      with True g "2.prems" show ?thesis by (auto simp: Let_def)
    next
      case (Inl e)
      with True g "2.prems" have c: "is_BackendError e \<or> e = NotImplementedError"
        and l: "create_loop env fleet conf i offers groups' (new @ added) = Inr (Some i', new')"
        by (auto simp: Let_def split: if_split_asm)
      from "2.IH"(2) [OF _ refl Inl c l] True show ?thesis by auto
    qed
  qed
qed simp

text \<open>How the row of a cloud instance that is to be created changes.\<close>

lemma create_instance_cases:
  assumes "create_instance env d i = Inr (i', new)"
  obtains (waits) "i' = i" | (later) "i' = i\<lparr>im_last_retry_at := Some (ie_now env)\<rparr>"
  | (refused) reason t where "i' = terminated_for reason (i\<lparr>im_last_retry_at := t\<rparr>)"
  | (created) profile req conf b off jpd where "im_profile i = Some profile" and "im_requirements i = Some req"
      and "(b, off) \<in> set (get_create_instance_offers (ie_backends env) (pr_params profile) req None (instance_fleet d i) (blocks_request i) True)"
      and "be_create_instance b (get_instance_offer_for_instance (instance_fleet d i) off) conf = Inr jpd"
      and "i' = created_instance env b (get_instance_offer_for_instance (instance_fleet d i) off) conf jpd i"
proof -
  have r: "terminated_for reason i = terminated_for reason (i\<lparr>im_last_retry_at := im_last_retry_at i\<rparr>)" for reason by simp
  have e: "(terminated_for reason i)\<lparr>im_last_retry_at := t\<rparr> = terminated_for reason (i\<lparr>im_last_retry_at := t\<rparr>)" for reason t
    by (simp add: terminated_for_def)
  show ?thesis
  proof (cases "\<exists>t. i' = i \<or> i' = i\<lparr>im_last_retry_at := Some (ie_now env)\<rparr> \<or> (\<exists>reason. i' = terminated_for reason (i\<lparr>im_last_retry_at := t\<rparr>))")
    case True
    then show ?thesis using waits later refused by blast
  next
    case False
    then have n: "i' \<noteq> i" "i' \<noteq> i\<lparr>im_last_retry_at := Some (ie_now env)\<rparr>" "i' \<noteq> terminated_for reason i"
      "i' \<noteq> terminated_for reason (i\<lparr>im_last_retry_at := t\<rparr>)" for reason t using r by metis+
    from assms n obtain profile req conf where p: "im_profile i = Some profile" "im_requirements i = Some req" "im_instance_configuration i = Some conf"
      by (auto simp: create_instance_def e split: if_split_asm option.splits)
    let ?offers = "get_create_instance_offers (ie_backends env) (pr_params profile) req None (instance_fleet d i) (blocks_request i) True"
    from assms p n obtain groups where "create_loop env (instance_fleet d i) conf i ?offers groups [] = Inr (Some i', new)"
      by (auto simp: create_instance_def Let_def bindE_Inr_conv fmapE_Inr_conv split: if_split_asm option.splits prod.splits)
    from create_loop_Some [OF this] created [OF p(1,2)] show ?thesis by blast
  qed
qed

lemma create_instance_life:
  assumes "create_instance env d i = Inr (i', new)" and "im_status i = I_PENDING" and "im_remote_connection_info i = None"
  shows "instance_life (ie_now env) jobs i i' \<and> same_instance i i'"
  using assms(1)
proof (cases rule: create_instance_cases)
  case waits
  then show ?thesis by (simp add: instance_life.stays)
next
  case later
  then show ?thesis by (auto intro: instance_life.stays simp: same_instance_def)
next
  case (refused reason t)
  then have "im_status i' = I_TERMINATED" "im_termination_reason i' \<noteq> None" "same_instance i i'"
    by (simp_all add: same_instance_def terminated_for_def)
  with assms(2) show ?thesis by (blast intro: instance_life.abandoned)
next
  case (created profile req conf b off jpd)
  then have "im_status i' = I_PROVISIONING" "im_job_provisioning_data i' \<noteq> None" "im_started_at i' = Some (ie_now env)" "same_instance i i'"
    by (simp_all add: created_instance_simps)
  with assms(2,3) show ?thesis by (blast intro: instance_life.created)
qed

subsection \<open>Health checks\<close>

lemma timeout_at_least: "seconds 600 \<le> get_instance_timeout_interval b n"
  by (simp add: get_instance_timeout_interval_def)

lemma wait_life:
  assumes "wait_for_instance_provisioning_data env jpd i = Inr i'" and "im_status i \<in> {I_PROVISIONING, I_IDLE, I_BUSY}"
    and "im_job_provisioning_data i = Some jpd" and "jpd_hostname jpd = None"
  shows "instance_life (ie_now env) jobs i i' \<and> same_instance i i'"
proof -
  from assms(1) consider "i' = i" | jpd' where "i' = i\<lparr>im_job_provisioning_data := Some jpd'\<rparr>" | reason where "i' = terminating_for reason i"
    unfolding wait_for_instance_provisioning_data_def by (auto simp: bindE_Inr_conv split: if_split_asm option.splits sum.splits)
  then show ?thesis
  proof cases
    case 3
    then have "im_status i' = I_TERMINATING" "im_termination_reason i' \<noteq> None" "same_instance i i'" by simp_all
    then show ?thesis using assms(2-4) instance_life.never_running by blast
  qed (auto intro: instance_life.stays simp: same_instance_def)
qed

lemma healthy_same: "same_instance i (healthy_instance jobs i)"
  by (simp add: healthy_instance_def Let_def same_instance_def)

lemma unhealthy_keeps:
  "case unhealthy_instance env jpd reason i of Inl _ \<Rightarrow> True | Inr i' \<Rightarrow> same_instance i i' \<and> im_unreachable i'"
  by (simp add: unhealthy_instance_def Let_def bindE_def get_provisioning_deadline_def same_instance_def terminating_for_def split: option.split)

lemma unhealthy_life:
  assumes "unhealthy_instance env jpd reason i = Inr i'"
  shows "instance_life (ie_now env) jobs i i' \<and> same_instance i i'"
proof -
  have same: "same_instance i i'" and un: "im_unreachable i'"
    using unhealthy_keeps [of i env jpd reason] assms by simp_all
  show ?thesis
  proof (cases "im_status i = I_PROVISIONING \<and> im_started_at i \<noteq> None")
    case True
    then obtain t where t: "im_status i = I_PROVISIONING" "im_started_at i = Some t" by blast
    let ?late = "t + get_instance_timeout_interval (get_base_backend jpd) (it_name (jpd_instance_type jpd)) < ie_now env"
    have st: "im_status i' = (if ?late then I_TERMINATING else I_PROVISIONING)"
      using assms t by (auto simp: unhealthy_instance_def Let_def get_provisioning_deadline_def)
    have "t + seconds 600 < ie_now env" if ?late
      using that timeout_at_least [of "get_base_backend jpd" "it_name (jpd_instance_type jpd)"] by linarith
    then have "instance_life (ie_now env) jobs i i'"
      using st t un by (cases ?late) (auto intro: instance_life.late instance_life.stays)
    with same show ?thesis by blast
  next
    case False
    let ?over = "im_status i \<in> {I_IDLE, I_BUSY} \<and> ie_now env > (case im_termination_deadline i of None \<Rightarrow> ie_now env + TERMINATION_DEADLINE_OFFSET | Some t \<Rightarrow> t)"
    have st: "im_status i' = (if ?over then I_TERMINATING else im_status i)"
      using assms False unfolding unhealthy_instance_def Let_def by (auto split: if_split_asm)
    have "\<exists>t. im_termination_deadline i = Some t \<and> t < ie_now env" if ?over
      using that by (auto simp: TERMINATION_DEADLINE_OFFSET_def seconds_def split: option.splits)
    then have "instance_life (ie_now env) jobs i i'"
      using st un by (cases ?over) (auto intro: instance_life.unreachable instance_life.stays)
    with same show ?thesis by blast
  qed
qed

lemma check_instance_cases:
  assumes "check_instance env jobs i = Inr i'"
  obtains (finished) "im_status i = I_BUSY" "jobs \<noteq> []" "\<forall>j \<in> set jobs. job_is_finished (jm_status j)" "i' = terminating_for ''Instance job finished'' i"
  | (waiting) jpd where "im_job_provisioning_data i = Some jpd" "jpd_hostname jpd = None" "wait_for_instance_provisioning_data env jpd i = Inr i'"
  | (plain) "i' = (if im_status i = I_PROVISIONING then i\<lparr>im_status := I_BUSY\<rparr> else i)"
  | (healthy) "i' = healthy_instance jobs i"
  | (unhealthy) jpd reason where "im_job_provisioning_data i = Some jpd" "unhealthy_instance env jpd reason i = Inr i'"
proof (cases "im_status i = I_BUSY \<and> jobs \<noteq> [] \<and> list_all (\<lambda>j. job_is_finished (jm_status j)) jobs")
  case True
  with assms show ?thesis by (intro finished) (simp_all add: check_instance_def list_all_iff)
next
  case False
  then have ck: "check_health env jobs i = Inr i'" using assms unfolding check_instance_def by (simp only: if_False)
  then obtain jpd where jpd: "im_job_provisioning_data i = Some jpd"
    by (cases "im_job_provisioning_data i") (auto simp: check_health_def)
  consider "jpd_hostname jpd = None" | "jpd_hostname jpd \<noteq> None" "\<not> jpd_dockerized jpd" | "jpd_hostname jpd \<noteq> None" "jpd_dockerized jpd" by blast
  then show ?thesis
  proof cases
    case 1
    with ck jpd show ?thesis by (intro waiting) (simp_all add: check_health_def)
  next
    case 2
    with ck jpd show ?thesis by (intro plain) (simp add: check_health_def)
  next
    case 3
    with ck jpd consider "i' = healthy_instance jobs i" | reason where "unhealthy_instance env jpd reason i = Inr i'"
      by (auto simp: check_health_def bindE_Inr_conv Let_def split: if_split_asm)
    then show ?thesis using healthy unhealthy [OF jpd] by cases
  qed
qed

lemma check_instance_life:
  assumes "check_instance env jobs i = Inr i'" and "im_status i \<in> {I_PROVISIONING, I_IDLE, I_BUSY}"
  shows "instance_life (ie_now env) jobs i i' \<and> same_instance i i'"
  using assms(1)
proof (cases rule: check_instance_cases)
  case finished
  then show ?thesis by (auto intro: instance_life.jobs_finished)
next
  case (waiting jpd)
  then show ?thesis using assms(2) by (intro wait_life)
next
  case plain
  then show ?thesis by (auto intro: instance_life.stays instance_life.ready simp: same_instance_def)
next
  case healthy
  have "instance_life (ie_now env) jobs i (healthy_instance jobs i)"
    by (cases "im_status i = I_PROVISIONING")
      (auto intro: instance_life.ready instance_life.stays simp: healthy_instance_def Let_def)
  with healthy healthy_same show ?thesis by simp
next
  case (unhealthy jpd reason)
  then show ?thesis by (intro unhealthy_life)
qed

subsection \<open>Termination and the whole step\<close>

lemma finish_termination_simps [simp]: "same_instance i (finish_termination now i)" "im_status (finish_termination now i) = I_TERMINATED"
  "im_deleted (finish_termination now i)" "im_deleted_at (finish_termination now i) = Some now"
  by (simp_all add: finish_termination_def same_instance_def)

lemma terminate_cases:
  obtains (waits) "waits_to_retry (ie_now env) i" "terminate env i = i"
  | (ended) "terminate env i = finish_termination (ie_now env) i"
  | (failed) "\<not> waits_to_retry (ie_now env) i" "terminate env i = termination_failed (ie_now env) i"
proof -
  have "waits_to_retry (ie_now env) i \<and> terminate env i = i \<or> terminate env i = finish_termination (ie_now env) i
      \<or> \<not> waits_to_retry (ie_now env) i \<and> terminate env i = termination_failed (ie_now env) i"
    unfolding terminate_def by (simp split: option.split sum.split)
  then show ?thesis using that by blast
qed

lemma termination_failed_cases:
  obtains (again) t where "termination_failed now i = i\<lparr>im_first_termination_retry_at := Some t, im_last_termination_retry_at := Some now\<rparr>"
  | (ended) t where "termination_failed now i = finish_termination now (i\<lparr>im_first_termination_retry_at := Some t, im_last_termination_retry_at := Some now\<rparr>)"
proof -
  let ?t = "case im_first_termination_retry_at i of None \<Rightarrow> now | Some t \<Rightarrow> t"
  show ?thesis
  proof (cases "now + TERMINATION_RETRY_TIMEOUT < ?t + TERMINATION_RETRY_MAX_DURATION")
    case True
    then show ?thesis by (intro again [of ?t]) (simp add: termination_failed_def)
  next
    case False
    then show ?thesis by (intro ended [of ?t]) (simp add: termination_failed_def)
  qed
qed

lemma terminate_outcome:
  "same_instance i (terminate env i) \<and> (im_status (terminate env i) = im_status i
     \<or> im_status (terminate env i) = I_TERMINATED \<and> im_deleted (terminate env i) \<and> im_deleted_at (terminate env i) = Some (ie_now env))"
proof (cases rule: terminate_cases [of env i])
  case failed
  show ?thesis unfolding failed(2)
    by (cases rule: termination_failed_cases [of "ie_now env" i]) (auto simp: same_instance_def finish_termination_def)
qed (auto simp: same_instance_def finish_termination_def)

lemma terminate_life:
  assumes "im_status i = I_TERMINATING"
  shows "instance_life (ie_now env) jobs i (terminate env i) \<and> same_instance i (terminate env i)"
  using terminate_outcome [of i env] assms by (auto intro: instance_life.stays instance_life.ended)

lemma instance_step_life:
  assumes "instance_step env d i = Inr (i', new)"
  shows "instance_life (ie_now env) (instance_jobs d (im_id i)) i i' \<and> same_instance i i'"
proof -
  let ?jobs = "instance_jobs d (im_id i)"
  consider "idle_check env ?jobs i = i"
    | "im_status i = I_IDLE" "im_termination_policy i = Some DESTROY_AFTER_IDLE" "?jobs = []"
      "get_instance_idle_duration (ie_now env) i > seconds (im_termination_idle_time i)"
      "idle_check env ?jobs i = terminating_for ''Idle timeout'' i"
    unfolding idle_check_def mark_terminating_if_idle_duration_expired_def by meson
  then show ?thesis
  proof cases
    case 1
    show ?thesis
    proof (cases "im_status i")
      case I_PENDING
      then show ?thesis using assms 1 add_remote_life create_instance_life
        by (auto simp: instance_step_def Let_def fmapE_Inr_conv split: if_split_asm)
    next
      case I_TERMINATING
      with assms 1 show ?thesis using terminate_life by (auto simp: instance_step_def Let_def)
    next
      case I_TERMINATED
      with assms 1 show ?thesis by (simp add: instance_step_def Let_def instance_life.stays)
    qed (use assms 1 check_instance_life in \<open>auto simp: instance_step_def Let_def fmapE_Inr_conv\<close>)
  next
    case 2
    with assms have i': "i' = terminate env (terminating_for ''Idle timeout'' i)" by (simp add: instance_step_def Let_def)
    have "same_instance i i'" unfolding i' using terminate_outcome same_instance_trans marked_same(1) by blast
    moreover have "im_status i' \<in> {I_TERMINATING, I_TERMINATED}"
      unfolding i' using terminate_outcome [of "terminating_for ''Idle timeout'' i" env] by auto
    ultimately show ?thesis using 2 by (blast intro: instance_life.idle_expired)
  qed
qed

lemma process_instance_Inr:
  assumes "process_instance env i d = Inr d'"
  obtains i' new where "instance_step env d i = Inr (i', new)"
    and "d' = (db_put_instance (i'\<lparr>im_last_processed_at := ie_now env\<rparr>) d)\<lparr>db_placement_groups := db_placement_groups d @ new\<rparr>"
  using assms unfolding process_instance_def by (auto simp: fmapE_Inr_conv)

lemma instance_life_touch [simp]: "instance_life now jobs i (i'\<lparr>im_last_processed_at := t\<rparr>) \<longleftrightarrow> instance_life now jobs i i'"
  by (simp add: instance_life.simps)

text \<open>
  C16. Every step of the instances task on an instance follows the life cycle of instances: a pending
  instance is created, connected, tried again or abandoned with a reason; a provisioning one becomes
  busy or idle, or is stopped when it never ran or cannot be reached in time; an idle or busy one stays
  so unless its idle time without jobs is over, all its jobs have finished, or it was unreachable past
  its deadline; a terminating one ends deleted. The step changes no identity, no busy blocks, no
  attachment, and no other instance.
\<close>

theorem process_instance_refines_life:
  assumes "process_next_instance env lockset d = Inr d'" and "next_instance lockset d = Some i" and "keys_ok d"
  shows "\<exists>i'. instance_life (ie_now env) (instance_jobs d (im_id i)) i i' \<and> same_instance i i'
    \<and> set (db_instances d') = insert i' (set (db_instances d) - {i})
    \<and> db_runs d' = db_runs d \<and> db_volumes d' = db_volumes d \<and> db_fleets d' = db_fleets d"
proof -
  from assms(2) have i: "i \<in> set (db_instances d)" by (auto simp: next_instance_def split: list.splits dest: sort_filter_head)
  from assms(1,2) have "process_instance env i d = Inr d'" by (simp add: process_next_instance_def)
  then obtain i1 new where s: "instance_step env d i = Inr (i1, new)"
    and d': "d' = (db_put_instance (i1\<lparr>im_last_processed_at := ie_now env\<rparr>) d)\<lparr>db_placement_groups := db_placement_groups d @ new\<rparr>"
    by (rule process_instance_Inr)
  obtain i' where i': "i' = i1\<lparr>im_last_processed_at := ie_now env\<rparr>" by blast
  have l: "instance_life (ie_now env) (instance_jobs d (im_id i)) i i'" "same_instance i i'"
    using instance_step_life [OF s] by (simp_all add: i' same_instance_def)
  have "set (db_instances d') = insert i' (set (db_instances d) - {i})"
    using assms(3) i l(2) unfolding d' i' [symmetric] by (simp add: set_put_row_eq keys_ok_def same_instance_def)
  with l show ?thesis by (auto simp: d' db_put_instance_def)
qed

definition sample_inst_env :: "time \<Rightarrow> Backend list \<Rightarrow> inst_env" where
  "sample_inst_env now backends = \<lparr>ie_now = now, ie_uid = 100, ie_project = sample_project, ie_backends = backends,
     ie_backend_by_type = (\<lambda>t. find (\<lambda>b. be_type b = t) backends), ie_key_ok = (\<lambda>_. True), ie_deploy = (\<lambda>_ _. Inl SSHError),
     ie_is_private = (\<lambda>_. True), ie_health = (\<lambda>_ _. Some \<lparr>hs_healthy = True, hs_reason = ''ok''\<rparr>)\<rparr>"

definition instance_db :: "InstanceModel \<Rightarrow> db" where
  "instance_db i = empty_db\<lparr>db_instances := [i]\<rparr>"

lemma instance_db_simps [simp]: "instance_jobs (instance_db i) k = []" "keys_ok (instance_db i)" "db_instances (instance_db i) = [i]"
  "db_placement_groups (instance_db i) = []"
  by (simp_all add: instance_db_def empty_db_def instance_jobs_def db_jobs_def keys_ok_def)

lemma next_instance_db:
  "im_status i \<noteq> I_TERMINATED \<Longrightarrow> next_instance {} (instance_db i) = Some i"
  by (cases "im_status i") (simp_all add: next_instance_def)

definition expired_instance :: InstanceModel where
  "expired_instance = (blank_instance 1 0 ''a'' 0 1 1)\<lparr>im_status := I_IDLE, im_termination_policy := Some DESTROY_AFTER_IDLE,
     im_termination_idle_time := 300\<rparr>"

theorem process_instance_refines_life_witness:
  "\<exists>i'. instance_life (seconds 301) [] expired_instance i' \<and> im_status i' = I_TERMINATED \<and> im_deleted i'"
proof -
  let ?env = "sample_inst_env (seconds 301) []"
  let ?d = "instance_db expired_instance"
  obtain d' where r: "process_next_instance ?env {} ?d = Inr d'" and
    s: "db_instances d' = [(finish_termination (seconds 301) (terminating_for ''Idle timeout'' expired_instance))\<lparr>im_last_processed_at := seconds 301\<rparr>]"
    by (simp add: process_next_instance_def next_instance_db process_instance_def instance_step_def idle_check_def expired_instance_def
      mark_terminating_if_idle_duration_expired_def get_instance_idle_duration_def blank_instance_def terminating_for_def seconds_def
      terminate_def waits_to_retry_def sample_inst_env_def finish_termination_def)
  have n: "next_instance {} ?d = Some expired_instance" by (simp add: next_instance_db expired_instance_def)
  have k: "keys_ok ?d" by simp
  obtain i' where "instance_life (ie_now ?env) (instance_jobs ?d (im_id expired_instance)) expired_instance i'"
    "set (db_instances d') = insert i' (set (db_instances ?d) - {expired_instance})"
    using process_instance_refines_life [OF r n k] by blast
  then show ?thesis unfolding s by (auto simp: sample_inst_env_def finish_termination_def)
qed

section \<open>Instances with running jobs\<close>

text \<open>
  C17. An idle or busy instance with an unfinished job that is reachable is left alone: a step of the
  task keeps its status, its host and its blocks, whatever its idle time and termination policy.
\<close>

theorem instance_with_jobs_kept:
  assumes "process_next_instance env lockset d = Inr d'" and "next_instance lockset d = Some i" and "keys_ok d"
    and "im_status i \<in> {I_IDLE, I_BUSY}" and "j \<in> set (instance_jobs d (im_id i))" and "\<not> job_is_finished (jm_status j)"
    and "im_job_provisioning_data i = Some jpd" and "jpd_hostname jpd \<noteq> None"
    and "\<forall>keys. \<exists>h. ie_health env keys jpd = Some h \<and> hs_healthy h"
  shows "\<exists>i' \<in> set (db_instances d'). same_instance i i' \<and> im_status i' = im_status i \<and> im_deleted i' = im_deleted i
    \<and> im_job_provisioning_data i' = Some jpd \<and> im_total_blocks i' = im_total_blocks i"
proof -
  let ?jobs = "instance_jobs d (im_id i)"
  have i: "i \<in> set (db_instances d)" using assms(2) by (auto simp: next_instance_def split: list.splits dest: sort_filter_head)
  from assms(1,2) have "process_instance env i d = Inr d'" by (simp add: process_next_instance_def)
  then obtain i1 new where s: "instance_step env d i = Inr (i1, new)"
    and d': "d' = (db_put_instance (i1\<lparr>im_last_processed_at := ie_now env\<rparr>) d)\<lparr>db_placement_groups := db_placement_groups d @ new\<rparr>"
    by (rule process_instance_Inr)
  have "?jobs \<noteq> []" using assms(5) by auto
  then have "idle_check env ?jobs i = i" by (simp add: idle_check_def)
  then have "check_instance env ?jobs i = Inr i1" using s assms(4) by (auto simp: instance_step_def Let_def fmapE_Inr_conv)
  moreover have "\<not> (im_status i = I_BUSY \<and> ?jobs \<noteq> [] \<and> list_all (\<lambda>j. job_is_finished (jm_status j)) ?jobs)"
    using assms(5,6) by (auto simp: list_all_iff)
  ultimately have ck: "check_health env ?jobs i = Inr i1" unfolding check_instance_def by (simp only: if_False)
  have "i1 = i \<or> i1 = healthy_instance ?jobs i"
  proof (cases "jpd_dockerized jpd")
    case False
    with ck assms(4,7,8) show ?thesis by (auto simp: check_health_def)
  next
    case True
    with ck assms(7,8) obtain keys where "(let health = (case ie_health env keys jpd of None \<Rightarrow> \<lparr>hs_healthy = False, hs_reason = ''SSH or tunnel error''\<rparr> | Some h \<Rightarrow> h)
        in if hs_healthy health then Inr (healthy_instance ?jobs i) else unhealthy_instance env jpd (hs_reason health) i) = Inr i1"
      by (auto simp: check_health_def bindE_Inr_conv)
    moreover obtain h where "ie_health env keys jpd = Some h" "hs_healthy h" using assms(9) by blast
    ultimately show ?thesis by simp
  qed
  then have keep: "same_instance i i1" "im_status i1 = im_status i" "im_deleted i1 = im_deleted i"
    "im_job_provisioning_data i1 = im_job_provisioning_data i" "im_total_blocks i1 = im_total_blocks i"
    using assms(4) by (auto simp: healthy_instance_def Let_def same_instance_def)
  obtain i' where i': "i' = i1\<lparr>im_last_processed_at := ie_now env\<rparr>" by blast
  have "i' \<in> set (db_instances d')"
    using assms(3) i keep(1) unfolding d' i' [symmetric] by (simp add: set_put_row_eq keys_ok_def same_instance_def i')
  moreover have "same_instance i i'" "im_status i' = im_status i" "im_deleted i' = im_deleted i"
    "im_job_provisioning_data i' = Some jpd" "im_total_blocks i' = im_total_blocks i"
    using keep assms(7) by (simp_all add: i' same_instance_def)
  ultimately show ?thesis by blast
qed

section \<open>Termination ends\<close>

definition step_row :: "db \<Rightarrow> InstanceModel \<Rightarrow> inst_env \<Rightarrow> InstanceModel" where
  "step_row d i env = (case instance_step env d i of Inr (i', _) \<Rightarrow> i' | Inl _ \<Rightarrow> i)"

definition ended_row :: "InstanceModel \<Rightarrow> bool" where
  "ended_row i \<longleftrightarrow> im_status i = I_TERMINATED \<and> im_deleted i"

lemma step_row_terminating: "im_status i = I_TERMINATING \<Longrightarrow> step_row d i env = terminate env i"
  by (simp add: step_row_def instance_step_def Let_def idle_check_def)

lemma ended_row_stays: "ended_row i \<Longrightarrow> foldl (step_row d) i envs = i"
  by (induction envs) (simp_all add: step_row_def instance_step_def Let_def idle_check_def ended_row_def)

lemma ended_finish [simp]: "ended_row (finish_termination now i)"
  by (simp add: ended_row_def)

text \<open>One attempt that is due: the instance ends, or there is time left and the attempt is recorded.\<close>

lemma terminate_attempt:
  assumes "\<not> waits_to_retry (ie_now env) i" and "im_status i = I_TERMINATING"
  shows "ended_row (terminate env i) \<or>
    (let first = (case im_first_termination_retry_at i of None \<Rightarrow> ie_now env | Some t \<Rightarrow> t) in
     im_status (terminate env i) = I_TERMINATING \<and> im_first_termination_retry_at (terminate env i) = Some first
     \<and> im_last_termination_retry_at (terminate env i) = Some (ie_now env)
     \<and> ie_now env + TERMINATION_RETRY_TIMEOUT < first + TERMINATION_RETRY_MAX_DURATION)"
proof (cases rule: terminate_cases [of env i])
  case failed
  show ?thesis unfolding failed(2) termination_failed_def Let_def using assms(2) by simp
qed (use assms in simp_all)

lemma terminating_retries:
  assumes "im_status i = I_TERMINATING" and "im_first_termination_retry_at i = Some first" and "im_last_termination_retry_at i = Some l"
    and "sorted_wrt (\<lambda>a b. ie_now a + TERMINATION_RETRY_TIMEOUT \<le> ie_now b) envs"
    and "\<forall>e \<in> set envs. l + TERMINATION_RETRY_TIMEOUT \<le> ie_now e"
    and "first + TERMINATION_RETRY_MAX_DURATION \<le> l + TERMINATION_RETRY_TIMEOUT * (int (length envs) + 1)"
    and "envs \<noteq> []"
  shows "ended_row (foldl (step_row d) i envs)"
  using assms
proof (induction envs arbitrary: i l)
  case (Cons env envs)
  have "\<not> waits_to_retry (ie_now env) i" using Cons.prems(3,5) by (simp add: waits_to_retry_def)
  then consider "ended_row (terminate env i)"
    | "im_status (terminate env i) = I_TERMINATING" "im_first_termination_retry_at (terminate env i) = Some first"
      "im_last_termination_retry_at (terminate env i) = Some (ie_now env)"
      "ie_now env + TERMINATION_RETRY_TIMEOUT < first + TERMINATION_RETRY_MAX_DURATION"
    using terminate_attempt [of env i] Cons.prems(1,2) by (auto simp: Let_def)
  then show ?case
  proof cases
    case 1
    then show ?thesis using Cons.prems(1) by (simp add: step_row_terminating ended_row_stays)
  next
    case 2
    have now: "l + TERMINATION_RETRY_TIMEOUT \<le> ie_now env" using Cons.prems(5) by simp
    then have le: "first + TERMINATION_RETRY_MAX_DURATION \<le> ie_now env + TERMINATION_RETRY_TIMEOUT * (int (length envs) + 1)"
      using Cons.prems(6) by (simp add: algebra_simps)
    then have "envs \<noteq> []" using 2(4) by auto
    with Cons.IH [OF 2(1-3) _ _ le] Cons.prems(1,4) show ?thesis by (simp add: step_row_terminating)
  qed
qed simp

text \<open>
  C18. A terminating instance ends: after at most thirty steps that are thirty seconds or more apart it
  is terminated and deleted, however often the cloud refuses to terminate it.
\<close>

theorem termination_ends:
  assumes "im_status i = I_TERMINATING" and "im_first_termination_retry_at i = None" and "im_last_termination_retry_at i = None"
    and "sorted_wrt (\<lambda>a b. ie_now a + TERMINATION_RETRY_TIMEOUT \<le> ie_now b) envs" and "length envs = 30"
  shows "ended_row (foldl (step_row d) i envs)"
proof -
  obtain env rest where e: "envs = env # rest" using assms(5) by (cases envs) auto
  have "\<not> waits_to_retry (ie_now env) i" using assms(3) by (simp add: waits_to_retry_def)
  then consider "ended_row (terminate env i)"
    | "im_status (terminate env i) = I_TERMINATING" "im_first_termination_retry_at (terminate env i) = Some (ie_now env)"
      "im_last_termination_retry_at (terminate env i) = Some (ie_now env)"
    using terminate_attempt [of env i] assms(1,2) by (auto simp: Let_def)
  then show ?thesis
  proof cases
    case 1
    then show ?thesis using assms(1) by (simp add: e step_row_terminating ended_row_stays)
  next
    case 2
    have "length rest = 29" using assms(5) e by simp
    then have "ie_now env + TERMINATION_RETRY_MAX_DURATION \<le> ie_now env + TERMINATION_RETRY_TIMEOUT * (int (length rest) + 1)" and "rest \<noteq> []"
      by (auto simp: TERMINATION_RETRY_MAX_DURATION_def TERMINATION_RETRY_TIMEOUT_def seconds_def)
    with terminating_retries [OF 2, of rest d] assms(1,4) e show ?thesis by (simp add: step_row_terminating)
  qed
qed

text \<open>A cloud that never terminates an instance.\<close>

definition stuck_backend :: Backend where
  "stuck_backend = (sample_backend AWS [])\<lparr>be_terminate_instance := (\<lambda>_ _. Inl BackendError)\<rparr>"

definition doomed_instance :: InstanceModel where
  "doomed_instance = (blank_instance 1 0 ''a'' 0 1 1)\<lparr>im_status := I_TERMINATING, im_job_provisioning_data := Some sample_jpd\<rparr>"

theorem termination_ends_witness:
  "ended_row (foldl (step_row empty_db) doomed_instance (map (\<lambda>k. sample_inst_env (seconds (30 * int k)) [stuck_backend]) [0..<30]))
   \<and> \<not> ended_row (step_row empty_db doomed_instance (sample_inst_env 0 [stuck_backend]))"
proof -
  let ?envs = "map (\<lambda>k. sample_inst_env (seconds (30 * int k)) [stuck_backend]) [0..<30]"
  have "sorted_wrt (\<lambda>a b. ie_now a + TERMINATION_RETRY_TIMEOUT \<le> ie_now b) ?envs"
    by (auto simp: sorted_wrt_map sample_inst_env_def TERMINATION_RETRY_TIMEOUT_def seconds_def intro!: sorted_wrt_mono_rel [OF _ sorted_wrt_upt])
  moreover have "im_status doomed_instance = I_TERMINATING" "im_first_termination_retry_at doomed_instance = None" "im_last_termination_retry_at doomed_instance = None"
    by (simp_all add: doomed_instance_def blank_instance_def)
  ultimately have "ended_row (foldl (step_row empty_db) doomed_instance ?envs)" by (intro termination_ends) simp_all
  moreover have "\<not> ended_row (step_row empty_db doomed_instance (sample_inst_env 0 [stuck_backend]))"
    by (simp add: step_row_terminating doomed_instance_def blank_instance_def terminate_def waits_to_retry_def sample_inst_env_def sample_jpd_def
      stuck_backend_def sample_backend_def termination_failed_def ended_row_def TERMINATION_RETRY_TIMEOUT_def TERMINATION_RETRY_MAX_DURATION_def seconds_def)
  ultimately show ?thesis by blast
qed

section \<open>Blocks\<close>

text \<open>
  The invariant of the instances: the accounting of blocks, and no job on an instance that is still
  pending.
\<close>

definition pending_unused :: "db \<Rightarrow> bool" where
  "pending_unused d \<longleftrightarrow> (\<forall>i \<in> set (db_instances d). im_status i = I_PENDING \<longrightarrow> instance_jobs d (im_id i) = [])"

definition plain_offers :: "Backend list \<Rightarrow> bool" where
  "plain_offers backends \<longleftrightarrow> (\<forall>req. \<forall>(b, off) \<in> offered backends req. of_blocks off = 1 \<and> of_total_blocks off = 1)"

lemma is_divisible_pos: "is_divisible_into_blocks c g arg = (True, n) \<Longrightarrow> 1 \<le> n"
  by (auto simp: is_divisible_into_blocks_def Let_def split: if_split_asm)

lemma share_offer_blocks: "share_offer arg off = Some off' \<Longrightarrow> of_blocks off' = of_blocks off \<and> 1 \<le> of_total_blocks off'"
  by (auto simp: share_offer_def Let_def split: if_split_asm prod.splits dest!: is_divisible_pos)

lemma narrow_zones_blocks: "narrow_zones zs off = Some off' \<Longrightarrow> of_blocks off' = of_blocks off \<and> of_total_blocks off' = of_total_blocks off"
  by (auto simp: narrow_zones_def Let_def split: option.splits if_splits)

lemma prepare_offer_blocks:
  assumes "prepare_offer p opts off = Some off'" and "of_blocks off = 1" and "of_total_blocks off = 1"
  shows "of_blocks off' = 1 \<and> 1 \<le> of_total_blocks off'"
proof -
  from assms(1) obtain o1 where "narrow_zones (pp_availability_zones p) off = Some o1"
    "(if oo_blocks opts = Blocks 1 then Some o1 else share_offer (oo_blocks opts) o1) = Some off'"
    by (auto simp: prepare_offer_def bind_eq_Some_conv split: if_split_asm)
  with assms(2,3) show ?thesis by (auto dest!: narrow_zones_blocks share_offer_blocks split: if_split_asm)
qed

lemma create_offers_blocks:
  assumes "plain_offers backends"
    and "(b, off) \<in> set (get_create_instance_offers backends p req fs fm blocks ex)"
  shows "of_blocks off = 1 \<and> 1 \<le> of_total_blocks off"
proof -
  from assms(2) obtain opts where "(b, off) \<in> set (get_offers_by_requirements backends p req opts)"
    by (auto simp: get_create_instance_offers_def Let_def)
  then obtain o1 where "(b, o1) \<in> offered backends req" "prepare_offer p opts o1 = Some off"
    by (auto simp: set_get_offers_by_requirements)
  with assms(1) show ?thesis using prepare_offer_blocks by (fastforce simp: plain_offers_def)
qed

lemma offer_for_instance_blocks [simp]:
  "of_blocks (get_instance_offer_for_instance fleet off) = of_blocks off"
  "of_total_blocks (get_instance_offer_for_instance fleet off) = of_total_blocks off"
  "of_backend (get_instance_offer_for_instance fleet off) = of_backend off"
  "of_region (get_instance_offer_for_instance fleet off) = of_region off"
  by (simp_all add: get_instance_offer_for_instance_def split: option.split list.split prod.split)

lemma capacity_kept:
  assumes "capacity_ok i" and "same_instance i i'" and "im_total_blocks i' = im_total_blocks i" and "im_offer i' = im_offer i"
  shows "capacity_ok i'"
  using assms by (simp add: capacity_ok_def same_instance_def)

lemma check_keeps_blocks:
  assumes "check_instance env jobs i = Inr i'"
  shows "im_total_blocks i' = im_total_blocks i \<and> im_offer i' = im_offer i"
proof -
  have u: "case unhealthy_instance env jpd reason i of Inl _ \<Rightarrow> True | Inr i' \<Rightarrow> im_total_blocks i' = im_total_blocks i \<and> im_offer i' = im_offer i" for jpd reason
    by (simp add: unhealthy_instance_def Let_def bindE_def get_provisioning_deadline_def terminating_for_def split: option.split)
  have w: "case wait_for_instance_provisioning_data env jpd i of Inl _ \<Rightarrow> True | Inr i' \<Rightarrow> im_total_blocks i' = im_total_blocks i \<and> im_offer i' = im_offer i" for jpd
    by (simp add: wait_for_instance_provisioning_data_def bindE_def terminating_for_def split: option.split sum.split)
  from assms show ?thesis
  proof (cases rule: check_instance_cases)
    case (waiting jpd)
    with w [of jpd] show ?thesis by simp
  next
    case (unhealthy jpd reason)
    with u [of jpd reason] show ?thesis by simp
  qed (simp_all add: terminating_for_def healthy_instance_def Let_def)
qed

lemma terminate_keeps_blocks: "im_total_blocks (terminate env i) = im_total_blocks i \<and> im_offer (terminate env i) = im_offer i"
proof (cases rule: terminate_cases [of env i])
  case failed
  show ?thesis unfolding failed(2) by (simp add: termination_failed_def Let_def finish_termination_def)
qed (simp_all add: finish_termination_def)

lemma idle_check_blocks: "im_total_blocks (idle_check env jobs i) = im_total_blocks i \<and> im_offer (idle_check env jobs i) = im_offer i
   \<and> (im_status (idle_check env jobs i) = I_PENDING \<longleftrightarrow> im_status i = I_PENDING)"
  by (simp add: idle_check_def mark_terminating_if_idle_duration_expired_def terminating_for_def)

lemma instance_step_capacity:
  assumes "instance_step env d i = Inr (i', new)" and "capacity_ok i" and "plain_offers (ie_backends env)"
    and "im_status i = I_PENDING \<Longrightarrow> im_busy_blocks i \<le> 0"
  shows "capacity_ok i'"
proof (cases "im_status i = I_PENDING")
  case False
  have s: "same_instance i i'" using instance_step_life [OF assms(1)] by blast
  let ?j = "idle_check env (instance_jobs d (im_id i)) i"
  have "im_status ?j \<noteq> I_PENDING" using False idle_check_blocks by blast
  then consider "check_instance env (instance_jobs d (im_id i)) ?j = Inr i'" | "i' = terminate env ?j" | "i' = ?j"
    using assms(1) by (cases "im_status ?j") (auto simp: instance_step_def Let_def fmapE_Inr_conv)
  then have "im_total_blocks i' = im_total_blocks ?j \<and> im_offer i' = im_offer ?j"
  proof cases
    case 1
    then show ?thesis by (rule check_keeps_blocks)
  next
    case 2
    then show ?thesis using terminate_keeps_blocks by simp
  qed simp
  with idle_check_blocks [of env _ i] have "im_total_blocks i' = im_total_blocks i" "im_offer i' = im_offer i" by simp_all
  with assms(2) s show ?thesis by (rule capacity_kept)
next
  case True
  then have "idle_check env (instance_jobs d (im_id i)) i = i" by (simp add: idle_check_def)
  with assms(1) True consider "add_remote env i = Inr i'" | "create_instance env d i = Inr (i', new)"
    by (auto simp: instance_step_def Let_def fmapE_Inr_conv split: if_split_asm)
  then show ?thesis
  proof cases
    case 1
    then show ?thesis
    proof (cases rule: add_remote_cases)
      case (added rci t blocks region ip net)
      with assms(4) True show ?thesis by (auto simp: capacity_ok_def added_remote_def dest: is_divisible_pos)
    qed (use assms(2) in \<open>auto simp: capacity_ok_def terminated_for_def\<close>)
  next
    case 2
    then show ?thesis
    proof (cases rule: create_instance_cases)
      case (created profile req conf b off jpd)
      with create_offers_blocks [OF assms(3) created(3)] assms(4) True
      show ?thesis by (simp add: capacity_ok_def created_instance_def)
    qed (use assms(2) in \<open>auto simp: capacity_ok_def terminated_for_def\<close>)
  qed
qed

lemma blocks_inv_put_instance:
  assumes "blocks_inv twice d" and "keys_ok d" and "i \<in> set (db_instances d)" and "im_id i' = im_id i" and "im_busy_blocks i' = im_busy_blocks i"
  shows "blocks_inv twice (db_put_instance i' d)"
  using assms by (auto simp: blocks_inv_def keys_ok_def set_put_row_eq [of im_id _ i])

lemma next_instance_blocks:
  assumes "process_next_instance env lockset d = Inr d'" and "instances_ok twice d" and "pending_unused d"
    and "plain_offers (ie_backends env)" and "\<forall>k. 0 \<le> twice k"
  shows "instances_ok twice d' \<and> pending_unused d'"
proof (cases "next_instance lockset d")
  case None
  with assms show ?thesis by (simp add: process_next_instance_def)
next
  case (Some i)
  then have i: "i \<in> set (db_instances d)" by (auto simp: next_instance_def split: list.splits dest: sort_filter_head)
  from assms(1) Some have "process_instance env i d = Inr d'" by (simp add: process_next_instance_def)
  then obtain i1 new where s: "instance_step env d i = Inr (i1, new)"
    and d': "d' = (db_put_instance (i1\<lparr>im_last_processed_at := ie_now env\<rparr>) d)\<lparr>db_placement_groups := db_placement_groups d @ new\<rparr>"
    by (rule process_instance_Inr)
  obtain i' where i': "i' = i1\<lparr>im_last_processed_at := ie_now env\<rparr>" by blast
  have k: "keys_ok d" and b: "blocks_inv twice d" and c: "\<forall>i \<in> set (db_instances d). capacity_ok i" using assms(2) by (simp_all add: instances_ok_def)
  have life: "instance_life (ie_now env) (instance_jobs d (im_id i)) i i1" and same: "same_instance i i1"
    using instance_step_life [OF s] by simp_all
  have same': "im_id i' = im_id i" "im_busy_blocks i' = im_busy_blocks i" using same by (simp_all add: i' same_instance_def)
  have busy: "im_status i = I_PENDING \<Longrightarrow> im_busy_blocks i \<le> 0" using assms(3,5) b i by (simp add: pending_unused_def blocks_inv_def)
  have "capacity_ok i1" using instance_step_capacity [OF s _ assms(4) busy] c i by blast
  then have cap: "capacity_ok i'" by (simp add: i' capacity_ok_def)
  have pend: "im_status i' = I_PENDING \<Longrightarrow> im_status i = I_PENDING" using life by (cases) (auto simp: i')
  have set': "set (db_instances d') = insert i' (set (db_instances d) - {i})"
    using k i same' by (simp add: d' i' [symmetric] set_put_row_eq keys_ok_def)
  have jobs: "instance_jobs d' = instance_jobs d" by (rule ext) (simp add: d' instance_jobs_def db_jobs_def)
  have "blocks_inv twice (db_put_instance i' d)" using b k i same' by (rule blocks_inv_put_instance)
  moreover have "keys_ok (db_put_instance i' d)" using k by simp
  ultimately have "keys_ok d' \<and> blocks_inv twice d'" by (simp add: d' i' [symmetric] keys_ok_def blocks_inv_def instance_jobs_def db_jobs_def)
  moreover have "\<forall>m \<in> set (db_instances d'). capacity_ok m" unfolding set' using cap c by blast
  moreover have "instance_jobs d (im_id m) = []" if "m \<in> set (db_instances d')" "im_status m = I_PENDING" for m
  proof (cases "m = i'")
    case True
    with that(2) pend i same'(1) assms(3) show ?thesis by (simp add: pending_unused_def)
  next
    case False
    with that assms(3) show ?thesis unfolding set' by (simp add: pending_unused_def)
  qed
  ultimately show ?thesis by (simp add: instances_ok_def pending_unused_def jobs)
qed

text \<open>
  Processing an instance keeps the accounting of blocks, also when the instance gets its number of
  blocks from a cloud offer or an SSH host: the busy blocks of every instance are those of the jobs
  assigned to it and do not exceed its blocks, and pending instances have no jobs.
\<close>

theorem process_instance_blocks:
  assumes "process_next_instance env lockset d = Inr d'" and "instances_ok twice d" and "pending_unused d"
    and "plain_offers (ie_backends env)" and "\<forall>k. 0 \<le> twice k"
  shows "instances_ok twice d' \<and> pending_unused d'"
  using assms by (rule next_instance_blocks)

theorem process_instance_blocks_witness:
  "\<exists>d'. process_next_instance (sample_inst_env (seconds 301) []) {} (instance_db expired_instance) = Inr d' \<and> instances_ok (\<lambda>_. 0) d'"
proof -
  let ?d = "instance_db expired_instance"
  have "\<exists>d'. process_next_instance (sample_inst_env (seconds 301) []) {} ?d = Inr d'"
    by (simp add: process_next_instance_def next_instance_db process_instance_def instance_step_def idle_check_def expired_instance_def
      mark_terminating_if_idle_duration_expired_def get_instance_idle_duration_def blank_instance_def terminating_for_def seconds_def sample_inst_env_def)
  then obtain d' where r: "process_next_instance (sample_inst_env (seconds 301) []) {} ?d = Inr d'" by blast
  have "instances_ok (\<lambda>_. 0) ?d" "pending_unused ?d" "plain_offers (ie_backends (sample_inst_env (seconds 301) []))"
    by (simp_all add: instances_ok_def blocks_inv_def capacity_ok_def pending_unused_def expired_instance_def blank_instance_def
      plain_offers_def offered_def sample_inst_env_def)
  with process_instance_blocks [OF r] r show ?thesis by (metis order_refl)
qed

section \<open>Clusters\<close>

lemma share_offer_place:
  "share_offer arg off = Some off' \<Longrightarrow> of_backend off' = of_backend off \<and> of_region off' = of_region off \<and> of_availability_zones off' = of_availability_zones off"
  by (auto simp: share_offer_def Let_def split: if_split_asm prod.splits)

lemma prepare_offer_place:
  assumes "prepare_offer p opts off = Some off'"
  shows "of_backend off' = of_backend off \<and> of_region off' = of_region off"
proof -
  from assms obtain o1 where "narrow_zones (pp_availability_zones p) off = Some o1" "o1 = off' \<or> share_offer (oo_blocks opts) o1 = Some off'"
    by (auto simp: prepare_offer_def bind_eq_Some_conv split: if_split_asm)
  then show ?thesis by (auto dest!: narrow_zones_rest share_offer_place)
qed

lemma create_offers_master:
  assumes "(b, off) \<in> set (get_create_instance_offers backends p req fs (Some (f, m # ms)) blocks ex)"
    and "im_job_provisioning_data m = Some jpd"
  shows "of_backend off = get_base_backend jpd \<and> of_region off = jpd_region jpd"
proof -
  from assms obtain opts where "(b, off) \<in> set (get_offers_by_requirements backends p req opts)" and o: "oo_master opts = Some jpd"
    by (auto simp: get_create_instance_offers_def Let_def List.map_filter_simps)
  then obtain o1 where "offer_passes (drop_dstack p) opts o1" "prepare_offer p opts o1 = Some off"
    by (auto simp: set_get_offers_by_requirements)
  with o show ?thesis by (auto simp: offer_passes_allowed backend_allowed_def region_allowed_def dest!: prepare_offer_place)
qed

text \<open>
  In a cluster fleet of cloud instances, an instance other than the first is created only once the
  first one has been provisioned (or was given up), and then in the same backend and region, and with
  zones that are at most the zone of the first one.
\<close>

theorem cluster_instances_together:
  assumes "create_instance env d i = Inr (i', new)" and "im_status i = I_PENDING" and "im_status i' = I_PROVISIONING"
    and "instance_fleet d i = Some (f, m # ms)"
    and "fc_placement (fs_configuration (flm_spec f)) = Some CLUSTER" and "fc_ssh_config (fs_configuration (flm_spec f)) = None"
    and "im_id i \<noteq> im_id m" and "im_status m \<noteq> I_TERMINATED"
  shows "\<exists>jpd off. im_job_provisioning_data m = Some jpd \<and> im_offer i' = Some off
    \<and> of_backend off = get_base_backend jpd \<and> of_region off = jpd_region jpd
    \<and> (\<forall>z. jpd_availability_zone jpd = Some z \<longrightarrow> (\<exists>zs. of_availability_zones off = Some zs \<and> set zs \<subseteq> {z}))"
proof (cases "im_job_provisioning_data m")
  case None
  then have "need_to_wait_fleet_provisioning (instance_fleet d i) i = Inr True" using assms(4-8) by (simp add: need_to_wait_fleet_provisioning_def)
  then have "i' = i \<or> im_status i' = I_TERMINATED"
    using assms(1) by (auto simp: create_instance_def Let_def terminated_for_def split: if_split_asm option.splits)
  with assms(2,3) show ?thesis by auto
next
  case (Some jpd)
  from assms(1) show ?thesis
  proof (cases rule: create_instance_cases)
    case (created profile req conf b off jpd')
    let ?off = "get_instance_offer_for_instance (instance_fleet d i) off"
    have p: "of_backend off = get_base_backend jpd \<and> of_region off = jpd_region jpd"
      using created(3) Some unfolding assms(4) by (rule create_offers_master)
    have "\<exists>zs. of_availability_zones ?off = Some zs \<and> set zs \<subseteq> {z}" if "jpd_availability_zone jpd = Some z" for z
      using that Some assms(4,5) by (auto simp: get_instance_offer_for_instance_def)
    with p created(5) Some show ?thesis by (simp add: created_instance_simps)
  qed (use assms(2,3) in \<open>auto simp: terminated_for_def\<close>)
qed

section \<open>Placement groups\<close>

definition group_place :: "PlacementGroupModel \<Rightarrow> BackendType \<times> string" where
  "group_place m = (pgc_backend (pgm_configuration m), pgc_region (pgm_configuration m))"

definition known_place :: "PlacementGroup \<Rightarrow> BackendType \<times> string" where
  "known_place g = (pgc_backend (pg_configuration g), pgc_region (pg_configuration g))"

lemma group_for_offer_cases:
  assumes "group_for_offer env fleet name b off groups gid = Inr (added, groups')"
  obtains (known) "added = []" "groups' = groups"
  | (new) f m g where "fleet = Some f" "added = [m]" "groups' = groups @ [g]" "known_place g = group_place m"
      "group_place m \<notin> known_place ` set groups" "pgm_fleet_id m = flm_id f" "pgm_id m = gid" "pgm_provisioning_data m \<noteq> None"
proof (cases "added = []")
  case True
  with assms known show ?thesis
    by (auto simp: group_for_offer_def Let_def fmapE_Inr_conv split: option.splits if_split_asm)
next
  case False
  from assms False obtain f n m pd where f: "fleet = Some f"
    and m: "create_placement_group_if_does_not_exist env f groups gid n (of_backend off) (of_region off) = Some m"
    and a: "added = [m\<lparr>pgm_provisioning_data := Some pd\<rparr>]"
    and g: "groups' = groups @ [placement_group_model_to_placement_group (pj_name (ie_project env)) m]"
    by (auto simp: group_for_offer_def Let_def fmapE_Inr_conv split: option.splits if_split_asm)
  from m have "\<not> (\<exists>g \<in> set groups. pgc_backend (pg_configuration g) = of_backend off \<and> pgc_region (pg_configuration g) = of_region off)"
    and "group_place m = (of_backend off, of_region off)" "pgm_fleet_id m = flm_id f" "pgm_id m = gid"
    by (auto simp: create_placement_group_if_does_not_exist_def group_place_def split: if_split_asm)
  then show ?thesis
    by (intro new [OF f a g])
      (auto simp: group_place_def known_place_def placement_group_model_to_placement_group_def)
qed

text \<open>The new groups of a loop are in places where the fleet had none, each in its own, and created in the cloud.\<close>

definition new_groups_ok :: "nat \<Rightarrow> nat \<Rightarrow> (BackendType \<times> string) set \<Rightarrow> PlacementGroupModel list \<Rightarrow> bool" where
  "new_groups_ok uid fid taken new \<longleftrightarrow> distinct (map group_place new) \<and> group_place ` set new \<inter> taken = {}
     \<and> map pgm_id new = [uid ..< uid + length new] \<and> (\<forall>m \<in> set new. pgm_fleet_id m = fid \<and> pgm_provisioning_data m \<noteq> None)"

lemma create_loop_groups:
  assumes "create_loop env fleet conf i offers groups new = Inr (r, new')"
    and "new_groups_ok (ie_uid env) fid taken new" and "group_place ` set new \<union> taken \<subseteq> known_place ` set groups"
    and "\<And>f is. fleet = Some (f, is) \<Longrightarrow> flm_id f = fid"
  shows "new_groups_ok (ie_uid env) fid taken new'"
  using assms
proof (induction env fleet conf i offers groups new rule: create_loop.induct)
  case (2 env fleet conf i b offer offers groups new)
  show ?case
  proof (cases "of_backend offer \<in> set BACKENDS_WITH_CREATE_INSTANCE_SUPPORT")
    case False
    with "2.prems"(1) have "create_loop env fleet conf i offers groups new = Inr (r, new')" by simp
    from "2.IH"(1) [OF _ this "2.prems"(2,3)] "2.prems"(4) False show ?thesis by blast
  next
    case True
    let ?off = "get_instance_offer_for_instance fleet offer"
    from True "2.prems"(1) obtain added groups' where g: "group_for_offer env (map_option fst fleet) (icf_placement_group_name conf) b ?off groups (ie_uid env + length new) = Inr (added, groups')"
      by (auto simp: Let_def bindE_Inr_conv)
    have ok: "new_groups_ok (ie_uid env) fid taken (new @ added) \<and> group_place ` set (new @ added) \<union> taken \<subseteq> known_place ` set groups'"
      using g
    proof (cases rule: group_for_offer_cases)
      case known
      with "2.prems"(2,3) show ?thesis by simp
    next
      case (new f m g)
      then have "pgm_fleet_id m = fid" using "2.prems"(4) by (cases fleet) auto
      moreover have "group_place m \<notin> group_place ` set new \<union> taken" using new(5) "2.prems"(3) by blast
      moreover have "distinct (map group_place new)" "group_place ` set new \<inter> taken = {}" "map pgm_id new = [ie_uid env ..< ie_uid env + length new]"
        "\<forall>m \<in> set new. pgm_fleet_id m = fid \<and> pgm_provisioning_data m \<noteq> None" using "2.prems"(2) by (simp_all add: new_groups_ok_def)
      ultimately have "new_groups_ok (ie_uid env) fid taken (new @ [m])" using new(7,8) by (auto simp: new_groups_ok_def)
      moreover have "group_place ` set (new @ [m]) \<union> taken \<subseteq> known_place ` set (groups @ [g])" using new(4) "2.prems"(3) by auto
      ultimately show ?thesis using new(2,3) by simp
    qed
    show ?thesis
    proof (cases "be_create_instance b ?off conf")
      case (Inr jpd)
      with True g "2.prems"(1) ok show ?thesis by (auto simp: Let_def)
    next
      case (Inl e)
      with True g "2.prems"(1) have c: "is_BackendError e \<or> e = NotImplementedError"
        and l: "create_loop env fleet conf i offers groups' (new @ added) = Inr (r, new')"
        by (auto simp: Let_def split: if_split_asm)
      from "2.IH"(2) [OF _ refl Inl c l] True ok "2.prems"(4) show ?thesis by blast
    qed
  qed
qed simp

lemma known_places:
  "known_place ` set (get_fleet_placement_groups n groups fid) = group_place ` {g \<in> set groups. pgm_fleet_id g = fid}"
  by (force simp: get_fleet_placement_groups_def known_place_def group_place_def placement_group_model_to_placement_group_def)

lemma create_instance_loop:
  assumes "create_instance env d i = Inr (i', new)" and "new \<noteq> []"
  obtains conf offers r where "create_loop env (instance_fleet d i) conf i offers (case im_fleet_id i of None \<Rightarrow> []
      | Some fid \<Rightarrow> get_fleet_placement_groups (pj_name (ie_project env)) (db_placement_groups d) fid) [] = Inr (r, new)"
  using assms unfolding create_instance_def Let_def
  by (auto simp: bindE_Inr_conv fmapE_Inr_conv split: if_split_asm option.splits prod.splits)

lemma create_instance_groups:
  assumes "create_instance env d i = Inr (i', new)"
  shows "new = [] \<or> (\<exists>fid. im_fleet_id i = Some fid
    \<and> new_groups_ok (ie_uid env) fid (group_place ` {g \<in> set (db_placement_groups d). pgm_fleet_id g = fid}) new)"
proof (cases "new = []")
  case False
  obtain conf offers r where loop: "create_loop env (instance_fleet d i) conf i offers (case im_fleet_id i of None \<Rightarrow> []
      | Some fid \<Rightarrow> get_fleet_placement_groups (pj_name (ie_project env)) (db_placement_groups d) fid) [] = Inr (r, new)"
    using assms False by (rule create_instance_loop)
  have empty: "new_groups_ok (ie_uid env) fid taken []" for fid taken by (simp add: new_groups_ok_def)
  show ?thesis
  proof (cases "im_fleet_id i")
    case None
    then have "instance_fleet d i = None" by (simp add: instance_fleet_def db_fleet_def)
    with loop None have "new_groups_ok (ie_uid env) fid {} new" for fid
      using create_loop_groups [OF loop empty [of fid "{}"]] by simp
    then have "\<forall>m \<in> set new. pgm_fleet_id m = 0 \<and> pgm_fleet_id m = 1" by (simp add: new_groups_ok_def)
    then have "new = []" by (cases new) auto
    then show ?thesis by simp
  next
    case (Some fid)
    let ?taken = "group_place ` {g \<in> set (db_placement_groups d). pgm_fleet_id g = fid}"
    have f: "flm_id f = fid" if "instance_fleet d i = Some (f, is)" for f "is"
      using that Some by (auto simp: instance_fleet_def db_fleet_def find_Some_iff)
    have "new_groups_ok (ie_uid env) fid ?taken new"
      using create_loop_groups [OF loop empty [of fid ?taken]] Some f by (simp add: known_places)
    with Some show ?thesis by blast
  qed
qed simp

definition groups_unique :: "db \<Rightarrow> bool" where
  "groups_unique d \<longleftrightarrow> distinct (map pgm_id (db_placement_groups d))
     \<and> distinct (map (\<lambda>g. (pgm_fleet_id g, group_place g)) (db_placement_groups d))"

text \<open>
  C25. A fleet gets at most one placement group in each region of a backend: a step of the instances
  task keeps the groups unique, adds groups only to the fleet of the instance, and every group it adds
  has been created in the cloud.
\<close>

theorem placement_groups_unique:
  assumes "process_next_instance env lockset d = Inr d'" and "next_instance lockset d = Some i"
    and "groups_unique d" and "\<forall>g \<in> set (db_placement_groups d). pgm_id g < ie_uid env"
  shows "groups_unique d' \<and> (\<exists>new. db_placement_groups d' = db_placement_groups d @ new
    \<and> (\<forall>g \<in> set new. im_fleet_id i = Some (pgm_fleet_id g) \<and> pgm_provisioning_data g \<noteq> None))"
proof -
  from assms(1,2) have "process_instance env i d = Inr d'" by (simp add: process_next_instance_def)
  then obtain i1 new where s: "instance_step env d i = Inr (i1, new)"
    and d': "d' = (db_put_instance (i1\<lparr>im_last_processed_at := ie_now env\<rparr>) d)\<lparr>db_placement_groups := db_placement_groups d @ new\<rparr>"
    by (rule process_instance_Inr)
  let ?j = "idle_check env (instance_jobs d (im_id i)) i"
  have fid: "im_fleet_id ?j = im_fleet_id i"
    by (simp add: idle_check_def mark_terminating_if_idle_duration_expired_def terminating_for_def)
  from s have "new = [] \<or> (\<exists>r. create_instance env d ?j = Inr (r, new))"
    by (cases "im_status ?j") (auto simp: instance_step_def Let_def fmapE_Inr_conv split: if_split_asm)
  then consider "new = []" | k where "im_fleet_id i = Some k"
      "new_groups_ok (ie_uid env) k (group_place ` {g \<in> set (db_placement_groups d). pgm_fleet_id g = k}) new"
    using create_instance_groups [of env d ?j _ new] unfolding fid by blast
  then show ?thesis
  proof cases
    case 1
    with assms(3) show ?thesis by (simp add: d' groups_unique_def)
  next
    case (2 k)
    have ids: "map pgm_id new = [ie_uid env ..< ie_uid env + length new]" using 2(2) by (simp add: new_groups_ok_def)
    have "pgm_id ` set new = {ie_uid env ..< ie_uid env + length new}" using arg_cong [OF ids, of set] by simp
    then have "distinct (map pgm_id (db_placement_groups d @ new))"
      using assms(3,4) ids by (fastforce simp: groups_unique_def)
    moreover have "distinct (map (\<lambda>g. (pgm_fleet_id g, group_place g)) new)"
      using 2(2) by (auto simp: new_groups_ok_def distinct_map inj_on_def)
    then have "distinct (map (\<lambda>g. (pgm_fleet_id g, group_place g)) (db_placement_groups d @ new))"
      using assms(3) 2(2) by (fastforce simp: groups_unique_def new_groups_ok_def)
    moreover have g: "db_placement_groups d' = db_placement_groups d @ new" by (simp add: d')
    ultimately have "groups_unique d'" unfolding groups_unique_def g by blast
    with 2 g show ?thesis by (auto simp: new_groups_ok_def)
  qed
qed

section \<open>Concrete steps\<close>

definition busy_db :: db where
  "busy_db = \<lparr>db_runs = [sample_run sample_task R_RUNNING [(sample_job 1 0 0 0 J_RUNNING)\<lparr>jm_instance_id := Some 5\<rparr>]],
     db_instances = [(sample_instance 5 I_BUSY 1)\<lparr>im_job_provisioning_data := Some (sample_jpd\<lparr>jpd_hostname := Some ''host''\<rparr>)\<rparr>],
     db_volumes = [], db_fleets = [], db_pools = [], db_placement_groups = []\<rparr>"

theorem instance_with_jobs_kept_witness:
  "\<exists>d'. process_next_instance (sample_inst_env 7 []) {} busy_db = Inr d' \<and> (\<exists>i' \<in> set (db_instances d'). im_status i' = I_BUSY)"
proof -
  let ?jpd = "sample_jpd\<lparr>jpd_hostname := Some ''host''\<rparr>"
  let ?i = "(sample_instance 5 I_BUSY 1)\<lparr>im_job_provisioning_data := Some ?jpd\<rparr>"
  let ?j = "(sample_job 1 0 0 0 J_RUNNING)\<lparr>jm_instance_id := Some 5\<rparr>"
  have "case process_next_instance (sample_inst_env 7 []) {} busy_db of Inr _ \<Rightarrow> True | Inl _ \<Rightarrow> False" by code_simp
  then obtain d' where r: "process_next_instance (sample_inst_env 7 []) {} busy_db = Inr d'" by (auto split: sum.splits)
  have n: "next_instance {} busy_db = Some ?i" by (simp add: next_instance_def busy_db_def sample_instance_def)
  have k: "keys_ok busy_db" by (simp add: keys_ok_def busy_db_def db_jobs_def sample_run_def)
  have j: "?j \<in> set (instance_jobs busy_db (im_id ?i))"
    by (simp add: instance_jobs_def db_jobs_def busy_db_def sample_run_def sample_instance_def)
  have "\<exists>i' \<in> set (db_instances d'). same_instance ?i i' \<and> im_status i' = im_status ?i \<and> im_deleted i' = im_deleted ?i
      \<and> im_job_provisioning_data i' = Some ?jpd \<and> im_total_blocks i' = im_total_blocks ?i"
    by (rule instance_with_jobs_kept [OF r n k _ j]) (simp_all add: sample_instance_def sample_job_def sample_inst_env_def status_simps)
  with r show ?thesis by (auto simp: sample_instance_def)
qed

text \<open>A cluster fleet: the first instance runs, the second is pending.\<close>

definition cluster_fleet :: FleetModel where
  "cluster_fleet = (sample_fleet 1)\<lparr>flm_spec := mk_FleetSpec (sample_fleet_conf\<lparr>fc_placement := Some CLUSTER\<rparr>) None sample_profile False\<rparr>"

definition cluster_conf :: InstanceConfiguration where
  "cluster_conf = \<lparr>icf_project_name = ''main'', icf_instance_name = ''b'', icf_user = ''admin'', icf_ssh_keys = [], icf_instance_id = None,
     icf_placement_group_name = Some ''pg'', icf_reservation = None, icf_volumes = None\<rparr>"

definition cluster_master :: InstanceModel where
  "cluster_master = (sample_instance 5 I_IDLE 0)\<lparr>im_fleet_id := Some 1, im_last_processed_at := 9,
     im_job_provisioning_data := Some (sample_jpd\<lparr>jpd_region := ''us'', jpd_availability_zone := Some ''us-a''\<rparr>)\<rparr>"

definition cluster_pending :: InstanceModel where
  "cluster_pending = (blank_instance 6 0 ''b'' 1 1 1)\<lparr>im_fleet_id := Some 1, im_profile := Some sample_profile,
     im_requirements := Some sample_requirements, im_instance_configuration := Some cluster_conf, im_total_blocks := Some 1\<rparr>"

definition cluster_db :: db where
  "cluster_db = \<lparr>db_runs = [], db_instances = [cluster_master, cluster_pending], db_volumes = [], db_fleets = [cluster_fleet],
     db_pools = [], db_placement_groups = []\<rparr>"

definition cluster_env :: inst_env where
  "cluster_env = sample_inst_env 7 [sample_backend AWS [sample_offer AWS 8 [] 1]]"

theorem cluster_instances_together_witness:
  "\<exists>i' new off. create_instance cluster_env cluster_db cluster_pending = Inr (i', new) \<and> im_offer i' = Some off
     \<and> of_backend off = AWS \<and> of_region off = ''us''"
proof -
  have "case create_instance cluster_env cluster_db cluster_pending of Inl _ \<Rightarrow> False | Inr (i', _) \<Rightarrow> im_status i' = I_PROVISIONING" by code_simp
  then obtain i' new where c: "create_instance cluster_env cluster_db cluster_pending = Inr (i', new)" "im_status i' = I_PROVISIONING"
    by (auto split: sum.splits prod.splits)
  have f: "instance_fleet cluster_db cluster_pending = Some (cluster_fleet, cluster_master # [cluster_pending])"
    by (simp add: instance_fleet_def db_fleet_def fleet_instances_def cluster_db_def cluster_pending_def cluster_master_def cluster_fleet_def
      sample_fleet_def blank_instance_def)
  have "\<exists>jpd off. im_job_provisioning_data cluster_master = Some jpd \<and> im_offer i' = Some off
    \<and> of_backend off = get_base_backend jpd \<and> of_region off = jpd_region jpd
    \<and> (\<forall>z. jpd_availability_zone jpd = Some z \<longrightarrow> (\<exists>zs. of_availability_zones off = Some zs \<and> set zs \<subseteq> {z}))"
    by (rule cluster_instances_together [OF c(1) _ c(2) f])
      (simp_all add: cluster_pending_def cluster_master_def cluster_fleet_def blank_instance_def sample_instance_def mk_FleetSpec_def sample_fleet_conf_def)
  then show ?thesis using c(1) by (auto simp: cluster_master_def get_base_backend_def sample_jpd_def)
qed

theorem placement_groups_unique_witness:
  "\<exists>d' g. process_next_instance cluster_env {} cluster_db = Inr d' \<and> db_placement_groups d' = [g] \<and> groups_unique d'"
proof -
  have "case process_next_instance cluster_env {} cluster_db of Inl _ \<Rightarrow> False | Inr d' \<Rightarrow> length (db_placement_groups d') = 1" by code_simp
  then obtain d' g where r: "process_next_instance cluster_env {} cluster_db = Inr d'" "db_placement_groups d' = [g]"
    by (auto split: sum.splits simp: length_Suc_conv)
  have n: "next_instance {} cluster_db = Some cluster_pending"
    by (simp add: next_instance_def cluster_db_def cluster_pending_def cluster_master_def blank_instance_def sample_instance_def)
  have "groups_unique cluster_db" "\<forall>g \<in> set (db_placement_groups cluster_db). pgm_id g < ie_uid cluster_env"
    by (simp_all add: groups_unique_def cluster_db_def)
  from placement_groups_unique [OF r(1) n this] r show ?thesis by blast
qed

text \<open>
  An SSH host whose shim answers that it is not healthy becomes an idle instance all the same.
\<close>

theorem unhealthy_host_becomes_idle:
  "case add_remote ((sample_inst_env 0 [])\<lparr>ie_deploy := (\<lambda>_ _. Inr (\<lparr>hs_healthy = False, hs_reason = ''bad''\<rparr>, Inr ssh_instance_type, []))\<rparr>)
       (create_ssh_instance_model 0 1 sample_project 1 ''a'' 0 None None None
         \<lparr>rci_host = ''10.0.0.5'', rci_port = 22, rci_ssh_user = ''u'', rci_ssh_keys = [], rci_ssh_proxy = None, rci_ssh_proxy_keys = None, rci_env = []\<rparr> (Blocks 1)) of
     Inl _ \<Rightarrow> False | Inr i \<Rightarrow> im_status i = I_IDLE"
  by code_simp

end
