(* ===== verification/Runner_Client.thy ===== *)
theory Runner_Client
  imports Offers
begin

text \<open>
  The clients of the two agents on an instance, \<^verbatim>\<open>server/services/runner/client.py\<close> with the
  messages of \<^verbatim>\<open>server/schemas/runner.py\<close>, and the decorator \<^verbatim>\<open>runner_ssh_tunnel\<close> of
  \<^verbatim>\<open>server/services/runner/ssh.py\<close>. The agents are a parameter: a function from HTTP requests to
  responses or a failed request. The body of a response is the message it encodes.
\<close>

section \<open>Messages\<close>

record JobStateEvent =
  jse_timestamp :: int
  jse_state :: JobStatus
  jse_termination_reason :: "string option"
  jse_termination_message :: "string option"

record LogEvent =
  le_timestamp :: int
  le_message :: string

record PullResponse =
  plr_job_states :: "JobStateEvent list"
  plr_job_logs :: "LogEvent list"
  plr_runner_logs :: "LogEvent list"
  plr_last_updated :: int
  plr_no_connections_secs :: "int option"

record HealthcheckResponse =
  hr_service :: string
  hr_version :: string

record ShimVolumeInfo =
  svi_backend :: string
  svi_name :: string
  svi_volume_id :: string
  svi_init_fs :: bool
  svi_device_name :: "string option"

record shim_port =
  spm_host :: int
  spm_container :: int

datatype TaskStatus = T_PENDING | T_PREPARING | T_PULLING | T_CREATING | T_RUNNING | T_TERMINATED

record TaskInfoResponse =
  tir_id :: nat
  tir_status :: TaskStatus
  tir_termination_reason :: string
  tir_termination_message :: string
  tir_ports :: "shim_port list option"

record TaskSubmitRequest =
  tsr_id :: nat
  tsr_name :: string
  tsr_registry_username :: string
  tsr_registry_password :: string
  tsr_image_name :: string
  tsr_container_user :: string
  tsr_privileged :: bool
  tsr_gpu :: int
  tsr_cpu :: rat
  tsr_memory :: int
  tsr_shm_size :: int
  tsr_network_mode :: NetworkMode
  tsr_volumes :: "ShimVolumeInfo list"
  tsr_volume_mounts :: "MountPoint list"
  tsr_instance_mounts :: "MountPoint list"
  tsr_host_ssh_user :: string
  tsr_host_ssh_keys :: "string list"
  tsr_container_ssh_keys :: "string list"

record TaskTerminateRequest =
  ttr_termination_reason :: string
  ttr_termination_message :: string
  ttr_timeout :: int

record LegacySubmitBody =
  lsb_username :: string
  lsb_password :: string
  lsb_image_name :: string
  lsb_privileged :: bool
  lsb_container_name :: string
  lsb_container_user :: string
  lsb_shm_size :: int
  lsb_public_keys :: "string list"
  lsb_ssh_user :: string
  lsb_ssh_key :: string
  lsb_mounts :: "MountPoint list"
  lsb_volumes :: "ShimVolumeInfo list"
  lsb_instance_mounts :: "MountPoint list"

record JobResult =
  jr_reason :: string
  jr_reason_message :: string

record LegacyPullResponse =
  lpr_state :: string
  lpr_result :: "JobResult option"

record SubmitBody =
  sb_run_spec :: RunSpec
  sb_job_spec :: JobSpec
  sb_cluster_info :: ClusterInfo
  sb_secrets :: "(string \<times> string) list"
  sb_repo_credentials :: "string option"

section \<open>HTTP\<close>

datatype http_body =
    NoBody
  | TaskSubmitBody TaskSubmitRequest
  | TaskTerminateBody TaskTerminateRequest
  | LegacySubmit LegacySubmitBody
  | LegacyStop bool
  | RunnerSubmit SubmitBody
  | CodeBody "string option"
  | TimestampParam int

record http_request =
  http_method :: string
  http_path :: string
  http_body :: http_body

datatype http_payload =
    HealthcheckPayload HealthcheckResponse
  | TaskPayload TaskInfoResponse
  | PullPayload PullResponse
  | LegacyPullPayload LegacyPullResponse
  | OtherPayload
  | NotJson

record http_response =
  http_status :: int
  http_payload :: http_payload

type_synonym transport = "http_request \<Rightarrow> http_response result"

text \<open>
  \<^verbatim>\<open>model.parse_obj(resp.json())\<close>: a body that is not JSON is a \<^verbatim>\<open>RequestException\<close>, one
  of another shape a \<^verbatim>\<open>ValidationError\<close>, which is a \<^verbatim>\<open>ValueError\<close>.
\<close>

definition parse_payload :: "(http_payload \<Rightarrow> 'a option) \<Rightarrow> http_response \<Rightarrow> 'a result" where
  "parse_payload select resp = (case http_payload resp of
      NotJson \<Rightarrow> Inl RequestError
    | p \<Rightarrow> (case select p of None \<Rightarrow> Inl ValueError | Some x \<Rightarrow> Inr x))"

fun healthcheck_payload :: "http_payload \<Rightarrow> HealthcheckResponse option" where
  "healthcheck_payload (HealthcheckPayload x) = Some x" | "healthcheck_payload _ = None"

fun task_payload :: "http_payload \<Rightarrow> TaskInfoResponse option" where
  "task_payload (TaskPayload x) = Some x" | "task_payload _ = None"

fun pull_payload :: "http_payload \<Rightarrow> PullResponse option" where
  "pull_payload (PullPayload x) = Some x" | "pull_payload _ = None"

fun legacy_pull_payload :: "http_payload \<Rightarrow> LegacyPullResponse option" where
  "legacy_pull_payload (LegacyPullPayload x) = Some x" | "legacy_pull_payload _ = None"

definition checked_request :: "error \<Rightarrow> transport \<Rightarrow> http_request \<Rightarrow> http_response result" where
  "checked_request err http req =
     bindE (http req) (\<lambda>resp. if http_status resp \<ge> 400 then Inl err else Inr resp)"

section \<open>The runner\<close>

text \<open>\<^verbatim>\<open>raise_for_status\<close> of a runner response raises a \<^verbatim>\<open>RequestException\<close>.\<close>

definition runner_request :: "transport \<Rightarrow> string \<Rightarrow> string \<Rightarrow> http_body \<Rightarrow> http_response result" where
  "runner_request http method path body =
     checked_request RequestError http \<lparr>http_method = method, http_path = path, http_body = body\<rparr>"

definition RunnerClient_healthcheck :: "transport \<Rightarrow> HealthcheckResponse option result" where
  "RunnerClient_healthcheck http =
     (case bindE (runner_request http ''GET'' ''/api/healthcheck'' NoBody) (parse_payload healthcheck_payload) of
        Inr r \<Rightarrow> Inr (Some r)
      | Inl e \<Rightarrow> if e = RequestError then Inr None else Inl e)"

text \<open>The environment of the instance, overridden by that of the job.\<close>

definition merge_env :: "Env option \<Rightarrow> JobSpec \<Rightarrow> JobSpec result" where
  "merge_env instance_env spec = (case instance_env of
      None \<Rightarrow> Inr spec
    | Some env \<Rightarrow> fmapE (\<lambda>d. spec\<lparr>js_env := fold (\<lambda>(k, v) d. dict_set k v d) (js_env spec) d\<rparr>) (as_dict env))"

definition RunnerClient_submit_job ::
    "transport \<Rightarrow> RunSpec \<Rightarrow> JobSpec \<Rightarrow> ClusterInfo \<Rightarrow> (string \<times> string) list \<Rightarrow> string option \<Rightarrow> Env option \<Rightarrow> unit result" where
  "RunnerClient_submit_job http run_spec spec cluster_info secrets creds instance_env =
     bindE (merge_env instance_env spec) (\<lambda>spec'.
     fmapE (\<lambda>_. ()) (runner_request http ''POST'' ''/api/submit'' (RunnerSubmit \<lparr>sb_run_spec = run_spec, sb_job_spec = spec',
       sb_cluster_info = cluster_info, sb_secrets = secrets, sb_repo_credentials = creds\<rparr>)))"

definition RunnerClient_upload_code :: "transport \<Rightarrow> string option \<Rightarrow> unit result" where
  "RunnerClient_upload_code http code = fmapE (\<lambda>_. ()) (runner_request http ''POST'' ''/api/upload_code'' (CodeBody code))"

definition RunnerClient_run_job :: "transport \<Rightarrow> unit result" where
  "RunnerClient_run_job http = fmapE (\<lambda>_. ()) (runner_request http ''POST'' ''/api/run'' NoBody)"

definition RunnerClient_pull :: "transport \<Rightarrow> int \<Rightarrow> PullResponse result" where
  "RunnerClient_pull http timestamp =
     bindE (runner_request http ''GET'' ''/api/pull'' (TimestampParam timestamp)) (parse_payload pull_payload)"

definition RunnerClient_stop :: "transport \<Rightarrow> unit result" where
  "RunnerClient_stop http = fmapE (\<lambda>_. ()) (runner_request http ''POST'' ''/api/stop'' NoBody)"

section \<open>The shim\<close>

text \<open>
  The version library is a parameter: what it reads from a version text, if it is one. A client
  remembers the version of the interface once it has negotiated it.
\<close>

record pkg_version =
  pv_release :: "int list"
  pv_is_prerelease :: bool
  pv_is_devrelease :: bool

type_synonym version_parser = "string \<Rightarrow> pkg_version option"

definition parse_version :: "version_parser \<Rightarrow> string \<Rightarrow> (int \<times> int \<times> int) option" where
  "parse_version pv s = (case pv s of
      None \<Rightarrow> None
    | Some v \<Rightarrow>
        if pv_is_prerelease v \<or> pv_is_devrelease v then None
        else (case pv_release v of
            a # b # c # _ \<Rightarrow> Some (a, b, c)
          | [a, b] \<Rightarrow> Some (a, b, 0)
          | _ \<Rightarrow> None))"

definition API_V2_MIN_SHIM_VERSION :: "int \<times> int \<times> int" where
  "API_V2_MIN_SHIM_VERSION = (0, 18, 34)"

record ShimClient =
  sc_http :: transport
  sc_versions :: version_parser
  sc_api_version :: "nat option"

definition mk_ShimClient :: "version_parser \<Rightarrow> transport \<Rightarrow> ShimClient" where
  "mk_ShimClient pv http = \<lparr>sc_http = http, sc_versions = pv, sc_api_version = None\<rparr>"

definition shim_request :: "ShimClient \<Rightarrow> string \<Rightarrow> string \<Rightarrow> http_body \<Rightarrow> http_response result" where
  "shim_request sc method path body =
     checked_request ShimHTTPError (sc_http sc) \<lparr>http_method = method, http_path = path, http_body = body\<rparr>"

definition negotiate_from :: "http_response \<Rightarrow> ShimClient \<Rightarrow> ShimClient result" where
  "negotiate_from resp sc =
     fmapE (\<lambda>h. sc\<lparr>sc_api_version := Some (case parse_version (sc_versions sc) (hr_version h) of
         None \<Rightarrow> 2 | Some v \<Rightarrow> if v \<ge> API_V2_MIN_SHIM_VERSION then 2 else 1)\<rparr>)
       (parse_payload healthcheck_payload resp)"

definition negotiate :: "ShimClient \<Rightarrow> ShimClient result" where
  "negotiate sc = bindE (shim_request sc ''GET'' ''/api/healthcheck'' NoBody) (\<lambda>resp. negotiate_from resp sc)"

definition is_api_v2_supported :: "ShimClient \<Rightarrow> (ShimClient \<times> bool) result" where
  "is_api_v2_supported sc =
     fmapE (\<lambda>sc'. (sc', sc_api_version sc' = Some 2)) (if sc_api_version sc = None then negotiate sc else Inr sc)"

text \<open>
  An unreachable shim gives no answer, unless the caller asks for the exception. A status that is an
  error raises in both cases: \<^verbatim>\<open>ShimHTTPError\<close> is not a \<^verbatim>\<open>RequestException\<close>.
\<close>

definition ShimClient_healthcheck :: "bool \<Rightarrow> ShimClient \<Rightarrow> (ShimClient \<times> HealthcheckResponse option) result" where
  "ShimClient_healthcheck unmask sc =
     (case shim_request sc ''GET'' ''/api/healthcheck'' NoBody of
        Inl e \<Rightarrow> if e = RequestError \<and> \<not> unmask then Inr (sc, None) else Inl e
      | Inr resp \<Rightarrow>
          bindE (if sc_api_version sc = None then negotiate_from resp sc else Inr sc) (\<lambda>sc'.
          fmapE (\<lambda>h. (sc', Some h)) (parse_payload healthcheck_payload resp)))"

definition require_v2 :: "ShimClient \<Rightarrow> (ShimClient \<Rightarrow> 'a result) \<Rightarrow> 'a result" where
  "require_v2 sc k = bindE (is_api_v2_supported sc) (\<lambda>(sc', v2). if v2 then k sc' else Inl ShimAPIVersionError)"

definition get_task :: "ShimClient \<Rightarrow> nat \<Rightarrow> TaskInfoResponse result" where
  "get_task sc task_id = require_v2 sc (\<lambda>sc.
     bindE (shim_request sc ''GET'' (''/api/tasks/'' @ show_nat task_id) NoBody) (parse_payload task_payload))"

text \<open>\<^verbatim>\<open>int(memory * 1024**3)\<close> truncates; amounts of memory are not negative.\<close>

definition memory_to_bytes :: "rat option \<Rightarrow> int" where
  "memory_to_bytes memory = (case memory of None \<Rightarrow> 0 | Some m \<Rightarrow> \<lfloor>m * 1024 ^ 3\<rfloor>)"

text \<open>
  The device of a volume's attachment to an instance is in the data the backend returned when it
  attached the volume; it is a parameter.
\<close>

definition volume_to_shim_volume_info ::
    "(nat \<Rightarrow> string \<Rightarrow> string option) \<Rightarrow> string \<Rightarrow> Volume \<Rightarrow> ShimVolumeInfo result" where
  "volume_to_shim_volume_info device instance_id v =
     fmapE (\<lambda>vid. \<lparr>svi_backend = backend_value (vc_backend (vol_configuration v)), svi_name = vol_name v, svi_volume_id = vid,
       svi_init_fs = (\<not> vol_external v), svi_device_name = device (vol_id v) instance_id\<rparr>) (get_or_error (vol_volume_id v))"

definition submit_task :: "ShimClient \<Rightarrow> TaskSubmitRequest \<Rightarrow> unit result" where
  "submit_task sc body = require_v2 sc (\<lambda>sc. fmapE (\<lambda>_. ()) (shim_request sc ''POST'' ''/api/tasks'' (TaskSubmitBody body)))"

definition terminate_task :: "ShimClient \<Rightarrow> nat \<Rightarrow> string option \<Rightarrow> string option \<Rightarrow> int \<Rightarrow> unit result" where
  "terminate_task sc task_id reason message timeout = require_v2 sc (\<lambda>sc.
     fmapE (\<lambda>_. ()) (shim_request sc ''POST'' (''/api/tasks/'' @ show_nat task_id @ ''/terminate'')
       (TaskTerminateBody \<lparr>ttr_termination_reason = (case reason of None \<Rightarrow> [] | Some r \<Rightarrow> r),
         ttr_termination_message = (case message of None \<Rightarrow> [] | Some m \<Rightarrow> m), ttr_timeout = timeout\<rparr>)))"

definition remove_task :: "ShimClient \<Rightarrow> nat \<Rightarrow> unit result" where
  "remove_task sc task_id = require_v2 sc (\<lambda>sc.
     fmapE (\<lambda>_. ()) (shim_request sc ''POST'' (''/api/tasks/'' @ show_nat task_id @ ''/remove'') NoBody))"

text \<open>The older interface. A conflict means that the shim has a job already.\<close>

definition shim_submit :: "ShimClient \<Rightarrow> LegacySubmitBody \<Rightarrow> bool result" where
  "shim_submit sc body =
     bindE (sc_http sc \<lparr>http_method = ''POST'', http_path = ''/api/submit'', http_body = LegacySubmit body\<rparr>) (\<lambda>resp.
     if http_status resp = 409 then Inr False
     else if http_status resp \<ge> 400 then Inl ShimHTTPError
     else Inr True)"

definition shim_stop :: "ShimClient \<Rightarrow> bool \<Rightarrow> unit result" where
  "shim_stop sc force = fmapE (\<lambda>_. ()) (shim_request sc ''POST'' ''/api/stop'' (LegacyStop force))"

definition shim_pull :: "ShimClient \<Rightarrow> LegacyPullResponse result" where
  "shim_pull sc = bindE (shim_request sc ''GET'' ''/api/pull'' NoBody) (parse_payload legacy_pull_payload)"

section \<open>The tunnel\<close>

text \<open>
  A session is one attempt: whether the SSH tunnel opens, and what answers behind each port of the
  host. The function that runs in the tunnel changes its state also when it raises; the exceptions
  that cause a retry are those of dstack, which include SSH errors, and of requests.
\<close>

record session =
  ss_opens :: bool
  ss_http :: "int \<Rightarrow> transport"

definition DSTACK_RUNNER_HTTP_PORT :: int where "DSTACK_RUNNER_HTTP_PORT = 10999"
definition DSTACK_SHIM_HTTP_PORT :: int where "DSTACK_SHIM_HTTP_PORT = 10998"

definition host_port :: "JobRuntimeData option \<Rightarrow> int \<Rightarrow> int" where
  "host_port jrd port = (case Option.bind jrd jrd_ports of
      None \<Rightarrow> port
    | Some ports \<Rightarrow> (case map_of ports port of None \<Rightarrow> port | Some p \<Rightarrow> p))"

fun tunnel_loop ::
    "(nat \<Rightarrow> session) \<Rightarrow> int \<Rightarrow> (nat \<Rightarrow> transport \<Rightarrow> 's \<Rightarrow> 's \<times> bool result) \<Rightarrow> nat \<Rightarrow> nat \<Rightarrow> 's \<Rightarrow> 's \<times> bool result" where
  "tunnel_loop sessions port f attempt 0 s = (s, Inr False)"
| "tunnel_loop sessions port f attempt (Suc retries) s =
     (if \<not> ss_opens (sessions attempt) then tunnel_loop sessions port f (Suc attempt) retries s
      else (case f attempt (ss_http (sessions attempt) port) s of
          (s', Inr b) \<Rightarrow> (s', Inr b)
        | (s', Inl e) \<Rightarrow>
            if is_DstackError e \<or> e = RequestError then tunnel_loop sessions port f (Suc attempt) retries s'
            else (s', Inl e)))"

definition runner_ssh_tunnel ::
    "(nat \<Rightarrow> session) \<Rightarrow> int \<Rightarrow> nat \<Rightarrow> JobProvisioningData \<Rightarrow> JobRuntimeData option
     \<Rightarrow> (nat \<Rightarrow> transport \<Rightarrow> 's \<Rightarrow> 's \<times> bool result) \<Rightarrow> 's \<Rightarrow> 's \<times> bool result" where
  "runner_ssh_tunnel sessions port retries jpd jrd f s =
     (if jpd_backend jpd = LOCAL then f 0 (ss_http (sessions 0) (host_port jrd port)) s
      else tunnel_loop sessions (host_port jrd port) f 0 retries s)"

section \<open>Properties of the clients\<close>

text \<open>A shim client that has negotiated keeps the version of its interface.\<close>

lemma is_api_v2_supported_known [simp]:
  "sc_api_version sc = Some v \<Longrightarrow> is_api_v2_supported sc = Inr (sc, v = 2)"
  by (simp add: is_api_v2_supported_def)

text \<open>
  What holds after the tunnel: \<open>P\<close> is kept from attempt to attempt, \<open>R\<close> holds when an
  attempt raises and \<open>Q\<close> when one returns.
\<close>

definition retried :: "error \<Rightarrow> bool" where
  "retried e \<longleftrightarrow> is_DstackError e \<or> e = RequestError"

lemma not_retried [simp]: "\<not> retried ValueError" "\<not> retried UnboundLocalError" "\<not> retried IndexError"
  by (simp_all add: retried_def is_DstackError_def)

definition tunnel_outcome :: "('s \<Rightarrow> error \<Rightarrow> bool) \<Rightarrow> ('s \<Rightarrow> bool \<Rightarrow> bool) \<Rightarrow> 's \<times> bool result \<Rightarrow> bool" where
  "tunnel_outcome R Q sr = (case sr of (s, Inl e) \<Rightarrow> R s e | (s, Inr b) \<Rightarrow> Q s b)"

lemma outcome_simps [simp]:
  "tunnel_outcome R Q (s, Inl e) = R s e"
  "tunnel_outcome R Q (s, Inr b) = Q s b"
  by (simp_all add: tunnel_outcome_def)

lemma tunnel_loop_outcome:
  assumes "P s" and step: "\<And>n http s. P s \<Longrightarrow> tunnel_outcome R Q (f n http s)"
    and again: "\<And>s e. R s e \<Longrightarrow> retried e \<Longrightarrow> P s" and stop: "\<And>s. P s \<Longrightarrow> Q s False"
  shows "tunnel_outcome R Q (tunnel_loop sessions port f n retries s)"
  using assms(1)
proof (induction retries arbitrary: n s)
  case 0
  then show ?case by (simp add: stop)
next
  case (Suc retries)
  obtain s1 r1 where f: "f n (ss_http (sessions n) port) s = (s1, r1)" by fastforce
  with step [OF Suc.prems, of n "ss_http (sessions n) port"] have o: "tunnel_outcome R Q (s1, r1)" by simp
  show ?case
  proof (cases r1)
    case (Inl e)
    with o Suc f again show ?thesis by (simp add: retried_def)
  next
    case (Inr b)
    with o Suc f show ?thesis by simp
  qed
qed

lemma runner_ssh_tunnel_outcome:
  assumes "P s" and "\<And>n http s. P s \<Longrightarrow> tunnel_outcome R Q (f n http s)"
    and "\<And>s e. R s e \<Longrightarrow> retried e \<Longrightarrow> P s" and "\<And>s. P s \<Longrightarrow> Q s False"
  shows "tunnel_outcome R Q (runner_ssh_tunnel sessions port retries jpd jrd f s)"
  using assms by (auto simp: runner_ssh_tunnel_def intro: tunnel_loop_outcome [of P])

text \<open>A tunnel that never opens gives up without a change.\<close>

lemma tunnel_loop_closed:
  "\<forall>k. \<not> ss_opens (sessions k) \<Longrightarrow> tunnel_loop sessions port f n retries s = (s, Inr False)"
  by (induction retries arbitrary: n) simp_all

end
