(* ===== verification/Running_Jobs.thy ===== *)
theory Running_Jobs
  imports Runner_Client Pools
begin

text \<open>
  The background task \<^verbatim>\<open>process_running_jobs.py\<close>: a job that has an instance is handed to the
  shim, then to the runner, and then followed until the runner reports its end. The answers of the
  agents, the repository credentials, the code storage, the log storage and the request to the gateway
  are parameters. One reading of the clock per step; an exception undoes the step.
\<close>

record rj_env =
  rj_now :: time
  rj_project :: ProjectModel
  rj_shim :: "nat \<Rightarrow> session"
  rj_runner :: "nat \<Rightarrow> session"
  rj_versions :: version_parser
  rj_device :: "nat \<Rightarrow> string \<Rightarrow> string option"
  rj_repo_creds :: "string option result"
  rj_code_model :: "string option \<Rightarrow> string option option"
  rj_storage :: "(string option \<Rightarrow> string result) option"
  rj_write_logs :: "nat \<Rightarrow> LogEvent list \<Rightarrow> LogEvent list \<Rightarrow> unit result"
  rj_register :: "unit result"

section \<open>Choosing a job\<close>

definition next_running_job :: "nat set \<Rightarrow> db \<Rightarrow> JobModel option" where
  "next_running_job lockset d =
     (case sort_key jm_last_processed_at (filter (\<lambda>j.
          jm_status j \<in> {J_PROVISIONING, J_PULLING, J_RUNNING} \<and> jm_id j \<notin> lockset) (db_jobs d)) of
        [] \<Rightarrow> None | j # _ \<Rightarrow> Some j)"

section \<open>The replica of a job\<close>

definition last_submission :: "Job \<Rightarrow> JobSubmission result" where
  "last_submission job = (case job_submissions job of [] \<Rightarrow> Inl IndexError | s # ss \<Rightarrow> Inr (last (s # ss)))"

definition replica_submissions :: "Job list \<Rightarrow> nat \<Rightarrow> JobSubmission list result" where
  "replica_submissions jobs r = mapE last_submission (filter (\<lambda>job. js_replica_num (job_spec job) = r) jobs)"

definition get_cluster_info :: "JobSubmission list \<Rightarrow> JobProvisioningData \<Rightarrow> JobRuntimeData option \<Rightarrow> ClusterInfo result" where
  "get_cluster_info subs jpd jrd =
     bindE (mapE (\<lambda>s. fmapE (\<lambda>p. case jpd_internal_ip p of None \<Rightarrow> [] | Some ip \<Rightarrow> ip)
         (get_or_error (sub_job_provisioning_data s))) subs) (\<lambda>ips.
     case ips of
       [] \<Rightarrow> Inl IndexError
     | master # _ \<Rightarrow>
         Inr \<lparr>ci_job_ips = ips, ci_master_job_ip = master,
           ci_gpus_per_job = (case Option.bind jrd jrd_offer of
               Some off \<Rightarrow> length (res_gpus (it_resources (of_instance off)))
             | None \<Rightarrow> length (res_gpus (it_resources (jpd_instance_type jpd))))\<rparr>)"

definition get_runner_timeout_interval :: "BackendType \<Rightarrow> string \<Rightarrow> time" where
  "get_runner_timeout_interval backend_type name =
     (if backend_type = LAMBDA then seconds 1200
      else if backend_type = KUBERNETES then seconds 1200
      else if backend_type = OCI \<and> startswith name ''BM.'' then seconds 1200
      else if backend_type = VULTR \<and> startswith name ''vbm'' then seconds 3300
      else seconds 600)"

definition get_job_code :: "rj_env \<Rightarrow> string option \<Rightarrow> string option result" where
  "get_job_code env code_hash = (case rj_code_model env code_hash of
      None \<Rightarrow> Inr (Some [])
    | Some blob \<Rightarrow> (case (rj_storage env, blob) of
          (Some get_code, None) \<Rightarrow> fmapE Some (get_code code_hash)
        | _ \<Rightarrow> Inr blob))"

section \<open>Provisioning with the shim\<close>

definition kill_job :: "JobTerminationReason \<Rightarrow> JobModel \<Rightarrow> JobModel" where
  "kill_job reason job = job\<lparr>jm_status := J_TERMINATING, jm_termination_reason := Some reason\<rparr>"

definition wait_for_job_instance :: "InstanceModel option \<Rightarrow> JobModel \<Rightarrow> JobModel" where
  "wait_for_job_instance inst job = (case inst of
      None \<Rightarrow> job
    | Some i \<Rightarrow> (case im_job_provisioning_data i of
          None \<Rightarrow> job
        | Some jpd \<Rightarrow>
            if im_status i = I_TERMINATED then kill_job FAILED_TO_START_DUE_TO_NO_CAPACITY job
            else job\<lparr>jm_job_provisioning_data := Some jpd\<rparr>))"

text \<open>There are no secrets yet: the dictionary of the interpolation is empty.\<close>

definition registry_login :: "(string \<times> string) option \<Rightarrow> (string \<times> string) result" where
  "registry_login auth = (case auth of
      None \<Rightarrow> Inr ([], [])
    | Some (u, p) \<Rightarrow> bindE (interpolate [] [] u) (\<lambda>(u', _). bindE (interpolate [] [] p) (\<lambda>(p', _). Inr (u', p'))))"

fun is_volume_mount :: "MountPoint \<Rightarrow> bool" where
  "is_volume_mount (VolumeMountPoint _ _) = True"
| "is_volume_mount (InstanceMountPoint _ _ _) = False"

fun resolve_volume_mounts :: "Volume list \<Rightarrow> MountPoint list \<Rightarrow> MountPoint list" where
  "resolve_volume_mounts (v # vs) (VolumeMountPoint _ path # ms) =
     VolumeMountPoint (OneName (vol_name v)) path # resolve_volume_mounts vs ms"
| "resolve_volume_mounts _ ms = ms"

text \<open>What a step on a provisioning job hands to the shim.\<close>

record shim_args =
  sa_run_spec :: RunSpec
  sa_jpd :: JobProvisioningData
  sa_volumes :: "Volume list"
  sa_registry_auth :: "(string \<times> string) option"
  sa_public_keys :: "string list"
  sa_ssh_user :: string
  sa_ssh_key :: string

definition shim_volume_mounts :: "shim_args \<Rightarrow> MountPoint list" where
  "shim_volume_mounts a = resolve_volume_mounts (sa_volumes a) (filter is_volume_mount (bc_volumes (base_of (sa_run_spec a))))"

definition shim_instance_mounts :: "shim_args \<Rightarrow> MountPoint list" where
  "shim_instance_mounts a = filter (\<lambda>m. \<not> is_volume_mount m) (bc_volumes (base_of (sa_run_spec a)))"

definition task_request :: "rj_env \<Rightarrow> shim_args \<Rightarrow> string \<times> string \<Rightarrow> JobModel \<Rightarrow> TaskSubmitRequest result" where
  "task_request env a login job =
     (let spec = jm_job_spec job; jrd = jm_job_runtime_data job in
      fmapE (\<lambda>volumes. \<lparr>tsr_id = jm_id job, tsr_name = jm_job_name job, tsr_registry_username = fst login,
          tsr_registry_password = snd login, tsr_image_name = js_image_name spec, tsr_container_user = ''root'',
          tsr_privileged = js_privileged spec,
          tsr_gpu = (case Option.bind jrd jrd_gpu of None \<Rightarrow> -1 | Some g \<Rightarrow> g),
          tsr_cpu = (case Option.bind jrd jrd_cpu of None \<Rightarrow> 0 | Some c \<Rightarrow> c),
          tsr_memory = memory_to_bytes (Option.bind jrd jrd_memory),
          tsr_shm_size = memory_to_bytes (rs_shm_size (rq_resources (js_requirements spec))),
          tsr_network_mode = (case jrd of None \<Rightarrow> HOST | Some d \<Rightarrow> jrd_network_mode d),
          tsr_volumes = volumes, tsr_volume_mounts = shim_volume_mounts a, tsr_instance_mounts = shim_instance_mounts a,
          tsr_host_ssh_user = sa_ssh_user a, tsr_host_ssh_keys = (if sa_ssh_key a = [] then [] else [sa_ssh_key a]),
          tsr_container_ssh_keys = sa_public_keys a\<rparr>)
        (mapE (volume_to_shim_volume_info (rj_device env) (jpd_instance_id (sa_jpd a))) (sa_volumes a)))"

definition legacy_request :: "rj_env \<Rightarrow> shim_args \<Rightarrow> string \<times> string \<Rightarrow> JobModel \<Rightarrow> LegacySubmitBody result" where
  "legacy_request env a login job =
     (let spec = jm_job_spec job in
      fmapE (\<lambda>volumes. \<lparr>lsb_username = fst login, lsb_password = snd login, lsb_image_name = js_image_name spec,
          lsb_privileged = js_privileged spec, lsb_container_name = jm_job_name job, lsb_container_user = ''root'',
          lsb_shm_size = memory_to_bytes (rs_shm_size (rq_resources (js_requirements spec))),
          lsb_public_keys = sa_public_keys a, lsb_ssh_user = sa_ssh_user a, lsb_ssh_key = sa_ssh_key a,
          lsb_mounts = shim_volume_mounts a, lsb_volumes = volumes, lsb_instance_mounts = shim_instance_mounts a\<rparr>)
        (mapE (volume_to_shim_volume_info (rj_device env) (jpd_instance_id (sa_jpd a))) (sa_volumes a)))"

definition submit_to_shim :: "rj_env \<Rightarrow> shim_args \<Rightarrow> JobModel \<Rightarrow> transport \<Rightarrow> bool result" where
  "submit_to_shim env a job http =
     bindE (ShimClient_healthcheck False (mk_ShimClient (rj_versions env) http)) (\<lambda>(sc, resp).
     case resp of
       None \<Rightarrow> Inr False
     | Some _ \<Rightarrow>
         bindE (registry_login (sa_registry_auth a)) (\<lambda>login.
         bindE (is_api_v2_supported sc) (\<lambda>(sc, v2).
         if v2 then bindE (task_request env a login job) (\<lambda>body. fmapE (\<lambda>_. True) (submit_task sc body))
         else bindE (legacy_request env a login job) (\<lambda>body.
           bindE (shim_submit sc body) (\<lambda>submitted.
           if submitted then Inr True else fmapE (\<lambda>_. False) (shim_stop sc True))))))"

definition process_provisioning_with_shim :: "rj_env \<Rightarrow> shim_args \<Rightarrow> nat \<Rightarrow> transport \<Rightarrow> JobModel \<Rightarrow> JobModel \<times> bool result" where
  "process_provisioning_with_shim env a n http job =
     (let r = submit_to_shim env a job http in (if r = Inr True then job\<lparr>jm_status := J_PULLING\<rparr> else job, r))"

section \<open>Handing the job to the runner\<close>

record runner_args =
  ra_run_spec :: RunSpec
  ra_job_spec :: JobSpec
  ra_cluster_info :: ClusterInfo
  ra_code :: "string option"
  ra_repo_creds :: "string option"
  ra_instance :: "InstanceModel option"
  ra_jpd :: JobProvisioningData

definition runner_instance_env :: "runner_args \<Rightarrow> Env option" where
  "runner_instance_env a = map_option rci_env (Option.bind (ra_instance a) im_remote_connection_info)"

definition submit_job_to_runner :: "runner_args \<Rightarrow> bool \<Rightarrow> transport \<Rightarrow> JobModel \<Rightarrow> JobModel \<times> bool result" where
  "submit_job_to_runner a success_if_not_available http job =
     (case RunnerClient_healthcheck http of
        Inl e \<Rightarrow> (job, Inl e)
      | Inr None \<Rightarrow> (job, Inr success_if_not_available)
      | Inr (Some _) \<Rightarrow>
          (case bindE (RunnerClient_submit_job http (ra_run_spec a) (ra_job_spec a) (ra_cluster_info a) [] (ra_repo_creds a) (runner_instance_env a))
                  (\<lambda>_. bindE (RunnerClient_upload_code http (ra_code a)) (\<lambda>_. RunnerClient_run_job http)) of
             Inl e \<Rightarrow> (job, Inl e)
           | Inr _ \<Rightarrow> (job\<lparr>jm_status := J_RUNNING\<rparr>, Inr True)))"

text \<open>The decorated function; within the tunnel to the shim it is the \<open>n\<close>-th session with the runner.\<close>

definition tunnelled_submit ::
    "rj_env \<Rightarrow> runner_args \<Rightarrow> nat \<Rightarrow> JobRuntimeData option \<Rightarrow> bool \<Rightarrow> JobModel \<Rightarrow> JobModel \<times> bool result" where
  "tunnelled_submit env a n jrd success_if_not_available job =
     runner_ssh_tunnel (\<lambda>k. rj_runner env (n + k)) DSTACK_RUNNER_HTTP_PORT 1 (ra_jpd a) jrd
       (\<lambda>_. submit_job_to_runner a success_if_not_available) job"

section \<open>Pulling with the shim\<close>

definition shim_failed :: "string \<Rightarrow> string \<Rightarrow> JobModel \<Rightarrow> JobModel \<times> bool result" where
  "shim_failed reason message job = (case job_reason_of_value (lower reason) of
      Inl e \<Rightarrow> (job, Inl e)
    | Inr r \<Rightarrow> (job\<lparr>jm_termination_reason := Some r, jm_termination_reason_message := Some message\<rparr>, Inr False))"

definition task_ports :: "shim_port list \<Rightarrow> (int \<times> int) list" where
  "task_ports ports = fold (\<lambda>pm. dict_set (spm_container pm) (spm_host pm)) ports []"

definition pulling_task :: "rj_env \<Rightarrow> runner_args \<Rightarrow> nat \<Rightarrow> TaskInfoResponse \<Rightarrow> JobModel \<Rightarrow> JobModel \<times> bool result" where
  "pulling_task env a n task job =
     (if tir_status task = T_TERMINATED then shim_failed (tir_termination_reason task) (tir_termination_message task) job
      else if tir_status task \<noteq> T_RUNNING then (job, Inr True)
      else (case jm_job_runtime_data job of
          None \<Rightarrow> tunnelled_submit env a n None True job
        | Some jrd \<Rightarrow> (case tir_ports task of
              None \<Rightarrow> (job, Inr True)
            | Some ports \<Rightarrow>
                let jrd' = jrd\<lparr>jrd_ports := Some (task_ports ports)\<rparr>
                in tunnelled_submit env a n (Some jrd') True (job\<lparr>jm_job_runtime_data := Some jrd'\<rparr>))))"

text \<open>
  In the branch for older shims \<^verbatim>\<open>job_runtime_data\<close> is never assigned: a job that runs raises
  \<^verbatim>\<open>UnboundLocalError\<close>.
\<close>

definition pulling_legacy :: "LegacyPullResponse \<Rightarrow> JobModel \<Rightarrow> JobModel \<times> bool result" where
  "pulling_legacy status job =
     (case (if lpr_state status = ''pending'' then lpr_result status else None) of
        Some r \<Rightarrow>
          if jr_reason r \<noteq> [] then shim_failed (jr_reason r) (jr_reason_message r) job
          else (job, Inl UnboundLocalError)
      | None \<Rightarrow> if lpr_state status \<in> {''pulling'', ''creating''} then (job, Inr True) else (job, Inl UnboundLocalError))"

definition process_pulling_with_shim :: "rj_env \<Rightarrow> runner_args \<Rightarrow> nat \<Rightarrow> transport \<Rightarrow> JobModel \<Rightarrow> JobModel \<times> bool result" where
  "process_pulling_with_shim env a n http job =
     (case is_api_v2_supported (mk_ShimClient (rj_versions env) http) of
        Inl e \<Rightarrow> (job, Inl e)
      | Inr (sc, v2) \<Rightarrow>
          if v2 then (case get_task sc (jm_id job) of Inl e \<Rightarrow> (job, Inl e) | Inr task \<Rightarrow> pulling_task env a n task job)
          else (case shim_pull sc of Inl e \<Rightarrow> (job, Inl e) | Inr status \<Rightarrow> pulling_legacy status job))"

section \<open>Following the runner\<close>

definition terminate_if_inactivity_duration_exceeded :: "RunConfiguration \<Rightarrow> int option \<Rightarrow> JobModel \<Rightarrow> JobModel" where
  "terminate_if_inactivity_duration_exceeded conf no_connections_secs job = (case conf of
      DevEnvironmentConfiguration _ dev \<Rightarrow> (case dv_inactivity_duration dev of
          None \<Rightarrow> job
        | Some duration \<Rightarrow>
            let job' = job\<lparr>jm_inactivity_secs := no_connections_secs\<rparr> in
            (case no_connections_secs of
               None \<Rightarrow> (kill_job INTERRUPTED_BY_NO_CAPACITY job')\<lparr>jm_termination_reason_message :=
                 Some ''The selected instance was created before dstack 0.18.41 and does not support inactivity_duration''\<rparr>
             | Some secs \<Rightarrow>
                 if secs \<ge> duration then (kill_job TERMINATED_BY_SERVER job')\<lparr>jm_termination_reason_message :=
                   Some (''The job was inactive for '' @ show_int secs @ '' seconds, exceeding the inactivity_duration of ''
                     @ show_int duration @ '' seconds'')\<rparr>
                 else job'))
    | _ \<Rightarrow> job)"

definition truthy :: "string option \<Rightarrow> string option" where
  "truthy s = (if s = Some [] then None else s)"

definition apply_state_event :: "JobStateEvent \<Rightarrow> JobModel \<Rightarrow> JobModel \<times> bool result" where
  "apply_state_event ev job =
     (if jse_state ev = J_DONE then (kill_job DONE_BY_RUNNER job, Inr True)
      else if jse_state ev \<in> {J_FAILED, J_TERMINATED} then
        (let job1 = kill_job CONTAINER_EXITED_WITH_ERROR job;
             r = (case truthy (jse_termination_reason ev) of
                 None \<Rightarrow> Inr job1
               | Some t \<Rightarrow> fmapE (\<lambda>reason. job1\<lparr>jm_termination_reason := Some reason\<rparr>) (job_reason_of_value (lower t)))
         in case r of
              Inl e \<Rightarrow> (job1, Inl e)
            | Inr job2 \<Rightarrow>
                (case truthy (jse_termination_message ev) of
                   None \<Rightarrow> job2 | Some m \<Rightarrow> job2\<lparr>jm_termination_reason_message := Some m\<rparr>, Inr True))
      else (job, Inr True))"

definition process_running :: "rj_env \<Rightarrow> RunModel \<Rightarrow> nat \<Rightarrow> transport \<Rightarrow> JobModel \<Rightarrow> JobModel \<times> bool result" where
  "process_running env run n http job =
     (case RunnerClient_pull http (case jm_runner_timestamp job of None \<Rightarrow> 0 | Some t \<Rightarrow> t) of
        Inl e \<Rightarrow> (job, Inl e)
      | Inr resp \<Rightarrow>
          let job1 = job\<lparr>jm_runner_timestamp := Some (plr_last_updated resp)\<rparr> in
          (case rj_write_logs env n (plr_runner_logs resp) (plr_job_logs resp) of
             Inl e \<Rightarrow> (job1, Inl e)
           | Inr _ \<Rightarrow>
               if plr_job_states resp = []
               then (terminate_if_inactivity_duration_exceeded (spec_configuration (rm_run_spec run)) (plr_no_connections_secs resp) job1, Inr True)
               else apply_state_event (last (plr_job_states resp)) job1))"

section \<open>One step\<close>

fun settle :: "JobModel \<times> bool result \<Rightarrow> (JobModel \<times> bool) result" where
  "settle (job, Inl e) = Inl e"
| "settle (job, Inr ok) = Inr (job, ok)"

text \<open>What the step has loaded, besides the job.\<close>

record rj_loaded =
  rl_run_model :: RunModel
  rl_run_spec :: RunSpec
  rl_job_spec :: JobSpec
  rl_subs :: "JobSubmission list"
  rl_jpd :: JobProvisioningData
  rl_jrd :: "JobRuntimeData option"
  rl_age :: time
  rl_cluster_info :: ClusterInfo
  rl_volumes :: "Volume list"
  rl_instance :: InstanceModel
  rl_repo_creds :: "string option"

definition shim_args_of :: "rj_env \<Rightarrow> rj_loaded \<Rightarrow> shim_args" where
  "shim_args_of env l =
     (let user_key = strip (spec_ssh_key_pub (rl_run_spec l)) in
      \<lparr>sa_run_spec = rl_run_spec l, sa_jpd = rl_jpd l, sa_volumes = rl_volumes l,
       sa_registry_auth = js_registry_auth (rl_job_spec l),
       sa_public_keys = [strip (pj_ssh_public_key (rj_project env)), user_key],
       sa_ssh_user = jpd_username (rl_jpd l),
       sa_ssh_key = (if jpd_backend (rl_jpd l) = LOCAL then [] else user_key)\<rparr>)"

definition runner_args_of :: "rj_loaded \<Rightarrow> string option \<Rightarrow> runner_args" where
  "runner_args_of l code = \<lparr>ra_run_spec = rl_run_spec l, ra_job_spec = rl_job_spec l, ra_cluster_info = rl_cluster_info l,
     ra_code = code, ra_repo_creds = rl_repo_creds l, ra_instance = Some (rl_instance l), ra_jpd = rl_jpd l\<rparr>"

definition waits_for_hosts :: "JobSubmission list \<Rightarrow> bool" where
  "waits_for_hosts subs \<longleftrightarrow> (\<exists>s \<in> set subs. sub_status s = J_PROVISIONING
     \<and> (case sub_job_provisioning_data s of None \<Rightarrow> False | Some p \<Rightarrow> jpd_hostname p = None))"

definition start_job :: "rj_env \<Rightarrow> rj_loaded \<Rightarrow> JobModel \<Rightarrow> (JobModel \<times> bool) result" where
  "start_job env l job =
     (if jpd_dockerized (rl_jpd l)
      then settle (runner_ssh_tunnel (rj_shim env) DSTACK_SHIM_HTTP_PORT 1 (rl_jpd l) None
             (process_provisioning_with_shim env (shim_args_of env l)) job)
      else bindE (get_job_code env (spec_repo_code_hash (rl_run_spec l))) (\<lambda>code.
        settle (tunnelled_submit env (runner_args_of l code) 0 None False job)))"

definition runner_overdue :: "rj_loaded \<Rightarrow> bool" where
  "runner_overdue l \<longleftrightarrow> rl_age l > get_runner_timeout_interval (get_base_backend (rl_jpd l)) (it_name (jpd_instance_type (rl_jpd l)))"

definition provisioning_step :: "rj_env \<Rightarrow> rj_loaded \<Rightarrow> JobModel \<Rightarrow> JobModel result" where
  "provisioning_step env l job =
     (if jpd_hostname (rl_jpd l) = None then Inr (wait_for_job_instance (Some (rl_instance l)) job)
      else if waits_for_hosts (rl_subs l) then Inr job
      else bindE (start_job env l job) (\<lambda>(job', success).
        Inr (if \<not> success \<and> runner_overdue l then kill_job WAITING_RUNNER_LIMIT_EXCEEDED job' else job')))"

definition pulling_step :: "rj_env \<Rightarrow> rj_loaded \<Rightarrow> JobModel \<Rightarrow> JobModel result" where
  "pulling_step env l job =
     bindE (get_job_code env (spec_repo_code_hash (rl_run_spec l))) (\<lambda>code.
     bindE (settle (runner_ssh_tunnel (rj_shim env) DSTACK_SHIM_HTTP_PORT 3 (rl_jpd l) None
        (process_pulling_with_shim env (runner_args_of l code)) job)) (\<lambda>(job', success).
     Inr (if success then job'
          else kill_job (case jm_termination_reason job' of None \<Rightarrow> INTERRUPTED_BY_NO_CAPACITY | Some r \<Rightarrow> r) job')))"

definition running_step :: "rj_env \<Rightarrow> rj_loaded \<Rightarrow> JobModel \<Rightarrow> JobModel result" where
  "running_step env l job =
     bindE (settle (runner_ssh_tunnel (rj_runner env) DSTACK_RUNNER_HTTP_PORT 3 (rl_jpd l) (rl_jrd l)
        (process_running env (rl_run_model l)) job)) (\<lambda>(job', success).
     Inr (if success then job' else kill_job INTERRUPTED_BY_NO_CAPACITY job'))"

definition status_step :: "rj_env \<Rightarrow> rj_loaded \<Rightarrow> JobModel \<Rightarrow> JobModel result" where
  "status_step env l job = (case jm_status job of
      J_PROVISIONING \<Rightarrow> provisioning_step env l job
    | J_PULLING \<Rightarrow> pulling_step env l job
    | J_RUNNING \<Rightarrow> running_step env l job
    | _ \<Rightarrow> Inl UnboundLocalError)"

text \<open>The first job of a replica that starts to run is registered with the gateway.\<close>

definition head_proxy_key :: "InstanceModel \<Rightarrow> string option result" where
  "head_proxy_key i = (case im_remote_connection_info i of
      None \<Rightarrow> Inr None
    | Some rci \<Rightarrow>
        if rci_ssh_proxy rci = None then Inr None
        else bindE (get_or_error (rci_ssh_proxy_keys rci)) (\<lambda>keys.
          case keys of [] \<Rightarrow> Inl IndexError | k # _ \<Rightarrow> Inr (sk_private k)))"

definition register_started :: "rj_env \<Rightarrow> rj_loaded \<Rightarrow> JobModel \<Rightarrow> JobModel \<Rightarrow> JobModel result" where
  "register_started env l job job' =
     (if jm_status job' \<noteq> jm_status job \<and> jm_status job' = J_RUNNING \<and> jm_job_num job' = 0
         \<and> conf_type (spec_configuration (rl_run_spec l)) = SERVICE
      then bindE (head_proxy_key (rl_instance l)) (\<lambda>_.
        case register_replica (rj_register env) (rm_gateway_id (rl_run_model l)) of
          Inr _ \<Rightarrow> Inr job'
        | Inl (GatewayError m) \<Rightarrow> Inr (kill_job GATEWAY_ERROR job')
        | Inl e \<Rightarrow> Inl e)
      else Inr job')"

definition active_step :: "rj_env \<Rightarrow> db \<Rightarrow> RunModel \<Rightarrow> Run \<Rightarrow> JobSubmission \<Rightarrow> JobProvisioningData \<Rightarrow> JobModel \<Rightarrow> JobModel result" where
  "active_step env d run_model run sub jpd job =
     bindE (find_job (run_jobs run) (jm_replica_num job) (jm_job_num job)) (\<lambda>j.
     bindE (replica_submissions (run_jobs run) (js_replica_num (job_spec j))) (\<lambda>subs.
     if \<exists>s \<in> set subs. sub_status s = J_SUBMITTED then Inr job
     else
       bindE (get_cluster_info subs jpd (sub_job_runtime_data sub)) (\<lambda>cluster_info.
       bindE (get_job_attached_volumes (db_volumes d) (pj_id (rj_project env))
                (interpolate_job_volumes (bc_volumes (base_of (run_run_spec run))) (js_job_num (job_spec j))) jpd) (\<lambda>volumes.
       bindE (get_or_error (Option.bind (jm_instance_id job) (db_instance d))) (\<lambda>inst.
       bindE (get_instance_ssh_private_keys (pj_ssh_private_key (rj_project env)) inst) (\<lambda>_.
       bindE (rj_repo_creds env) (\<lambda>creds.
       let l = \<lparr>rl_run_model = run_model, rl_run_spec = run_run_spec run, rl_job_spec = job_spec j, rl_subs = subs, rl_jpd = jpd,
                rl_jrd = sub_job_runtime_data sub, rl_age = submission_age (rj_now env) sub, rl_cluster_info = cluster_info,
                rl_volumes = volumes, rl_instance = inst, rl_repo_creds = creds\<rparr>
       in bindE (status_step env l job) (register_started env l job))))))))"

definition process_running_job :: "rj_env \<Rightarrow> JobModel \<Rightarrow> db \<Rightarrow> db result" where
  "process_running_job env job d =
     bindE (case db_run_of_job d job of None \<Rightarrow> Inl NoResultFound | Some r \<Rightarrow> Inr r) (\<lambda>run_model.
     bindE (run_model_to_run (rj_now env) True False run_model) (\<lambda>run.
     bindE (job_model_to_job_submission job) (\<lambda>sub.
     fmapE (\<lambda>job'. db_put_job (job'\<lparr>jm_last_processed_at := rj_now env\<rparr>) d)
       (case sub_job_provisioning_data sub of
          None \<Rightarrow> Inr (kill_job TERMINATED_BY_SERVER job)
        | Some jpd \<Rightarrow> active_step env d run_model run sub jpd job))))"

definition process_next_running_job :: "rj_env \<Rightarrow> nat set \<Rightarrow> db \<Rightarrow> db result" where
  "process_next_running_job env lockset d = (case next_running_job lockset d of None \<Rightarrow> Inr d | Some j \<Rightarrow> process_running_job env j d)"

end
