(* ===== verification/Job_Running.thy ===== *)
theory Job_Running
  imports Running_Jobs Job_Provisioning
begin

text \<open>
  What the running-jobs task guarantees: a job only moves forward, from provisioning over pulling to
  running, or is terminated with a reason; the jobs of a replica start together with the addresses of
  all; nothing but the job's row changes, and for the run each step is an event of its transition
  system. And what it does when the agents do not answer.
\<close>

section \<open>The life of an active job\<close>

text \<open>What no step changes of a job: its identity, its instance and its blocks.\<close>

definition job_kept :: "JobModel \<Rightarrow> JobModel \<Rightarrow> bool" where
  "job_kept j j' \<longleftrightarrow> same_row j j' \<and> jm_instance_id j' = jm_instance_id j \<and> jm_used_instance_id j' = jm_used_instance_id j
     \<and> jm_instance_assigned j' = jm_instance_assigned j \<and> job_blocks j' = job_blocks j \<and> jm_submitted_at j' = jm_submitted_at j
     \<and> jm_volumes_detached_at j' = jm_volumes_detached_at j \<and> jm_remove_at j' = jm_remove_at j"

lemma job_kept_refl [simp]: "job_kept j j"
  by (simp add: job_kept_def)

lemma job_kept_upd [simp]:
  "job_kept j (j'\<lparr>jm_status := st\<rparr>) \<longleftrightarrow> job_kept j j'"
  "job_kept j (j'\<lparr>jm_termination_reason := r\<rparr>) \<longleftrightarrow> job_kept j j'"
  "job_kept j (j'\<lparr>jm_termination_reason_message := m\<rparr>) \<longleftrightarrow> job_kept j j'"
  "job_kept j (j'\<lparr>jm_last_processed_at := t\<rparr>) \<longleftrightarrow> job_kept j j'"
  "job_kept j (j'\<lparr>jm_runner_timestamp := ts\<rparr>) \<longleftrightarrow> job_kept j j'"
  "job_kept j (j'\<lparr>jm_inactivity_secs := s\<rparr>) \<longleftrightarrow> job_kept j j'"
  "job_kept j (j'\<lparr>jm_job_provisioning_data := p\<rparr>) \<longleftrightarrow> job_kept j j'"
  by (simp_all add: job_kept_def same_row_def job_key_def job_blocks_def)

lemma job_kept_ports [simp]:
  "jm_job_runtime_data j' = Some jrd \<Longrightarrow> job_kept j (j'\<lparr>jm_job_runtime_data := Some (jrd\<lparr>jrd_ports := p\<rparr>)\<rparr>) \<longleftrightarrow> job_kept j j'"
  by (simp add: job_kept_def same_row_def job_key_def job_blocks_def)

lemma kill_job_simps [simp]:
  "jm_status (kill_job r j) = J_TERMINATING"
  "jm_termination_reason (kill_job r j) = Some r"
  "jm_job_num (kill_job r j) = jm_job_num j"
  "job_kept k (kill_job r j) \<longleftrightarrow> job_kept k j"
  by (simp_all add: kill_job_def)

fun next_statuses :: "JobStatus \<Rightarrow> JobStatus set" where
  "next_statuses J_PROVISIONING = {J_PROVISIONING, J_PULLING, J_RUNNING, J_TERMINATING}"
| "next_statuses J_PULLING = {J_PULLING, J_RUNNING, J_TERMINATING}"
| "next_statuses J_RUNNING = {J_RUNNING, J_TERMINATING}"
| "next_statuses st = {st}"

definition job_life :: "JobModel \<Rightarrow> JobModel \<Rightarrow> bool" where
  "job_life j j' \<longleftrightarrow> job_kept j j' \<and> jm_status j' \<in> next_statuses (jm_status j)
     \<and> (jm_termination_reason j' \<noteq> None \<longleftrightarrow> jm_status j' = J_TERMINATING)"

text \<open>A job in the middle of a step: its status is one of some and no reason is set.\<close>

definition on_way :: "JobModel \<Rightarrow> JobStatus set \<Rightarrow> JobModel \<Rightarrow> bool" where
  "on_way j sts j' \<longleftrightarrow> job_kept j j' \<and> jm_status j' \<in> sts \<and> jm_termination_reason j' = None"

lemma on_way_refl: "jm_status j \<in> sts \<Longrightarrow> jm_termination_reason j = None \<Longrightarrow> on_way j sts j"
  by (simp add: on_way_def)

lemma on_way_life: "on_way j sts j' \<Longrightarrow> sts \<subseteq> next_statuses (jm_status j) \<Longrightarrow> J_TERMINATING \<notin> sts \<Longrightarrow> job_life j j'"
  by (auto simp: on_way_def job_life_def)

lemma kill_life: "job_kept j j' \<Longrightarrow> jm_status j \<in> {J_PROVISIONING, J_PULLING, J_RUNNING} \<Longrightarrow> job_life j (kill_job r j')"
  by (auto simp: job_life_def)

lemma job_reason_error: "job_reason_of_value s = Inl e \<Longrightarrow> e = ValueError"
  by (auto simp: job_reason_of_value_def split: option.splits)

section \<open>Each attempt\<close>

lemma provisioning_attempt:
  assumes "on_way j {J_PROVISIONING} s"
  shows "tunnel_outcome (\<lambda>s _. on_way j {J_PROVISIONING} s) (\<lambda>s b. on_way j {J_PROVISIONING, J_PULLING} s)
    (process_provisioning_with_shim env a n http s)"
  using assms by (cases "submit_to_shim env a s http") (auto simp: process_provisioning_with_shim_def Let_def on_way_def)

lemma submit_attempt:
  assumes "on_way j {st} s"
  shows "tunnel_outcome (\<lambda>s _. on_way j {st} s) (\<lambda>s b. on_way j {st, J_RUNNING} s) (submit_job_to_runner a na http s)"
  using assms by (auto simp: submit_job_to_runner_def on_way_def split: sum.splits option.splits)

lemma on_way_mono: "on_way j sts s \<Longrightarrow> sts \<subseteq> sts' \<Longrightarrow> on_way j sts' s"
  by (auto simp: on_way_def)

lemma on_way_kept: "on_way j sts s \<Longrightarrow> job_kept j s"
  by (simp add: on_way_def)

lemma on_way_upd [simp]:
  "on_way j sts (s\<lparr>jm_runner_timestamp := t\<rparr>) \<longleftrightarrow> on_way j sts s"
  "jm_job_runtime_data s = Some jrd \<Longrightarrow> on_way j sts (s\<lparr>jm_job_runtime_data := Some (jrd\<lparr>jrd_ports := p\<rparr>)\<rparr>) \<longleftrightarrow> on_way j sts s"
  by (simp_all add: on_way_def)

lemma tunnelled_submit_outcome:
  assumes "on_way j {st} s"
  shows "tunnel_outcome (\<lambda>s _. on_way j {st} s) (\<lambda>s b. on_way j {st, J_RUNNING} s) (tunnelled_submit env a n jrd na s)"
  unfolding tunnelled_submit_def using assms
  by (rule runner_ssh_tunnel_outcome [of "on_way j {st}"]) (auto intro: submit_attempt on_way_mono)

text \<open>An attempt on a pulling job leaves it as it is, starts it, or has only set the reason of a failure.\<close>

definition pulled :: "JobModel \<Rightarrow> JobModel \<times> bool result \<Rightarrow> bool" where
  "pulled j = tunnel_outcome (\<lambda>s _. on_way j {J_PULLING} s) (\<lambda>s b. job_kept j s \<and> (b \<longrightarrow> on_way j {J_PULLING, J_RUNNING} s))"

lemma pulled_simps [simp]:
  "pulled j (s, Inl e) \<longleftrightarrow> on_way j {J_PULLING} s"
  "pulled j (s, Inr b) \<longleftrightarrow> job_kept j s \<and> (b \<longrightarrow> on_way j {J_PULLING, J_RUNNING} s)"
  by (simp_all add: pulled_def)

lemma pulled_unchanged: "on_way j {J_PULLING} s \<Longrightarrow> pulled j (s, Inr b)"
  by (auto intro: on_way_mono on_way_kept)

lemma shim_failed_pulled: "on_way j {J_PULLING} s \<Longrightarrow> pulled j (shim_failed r m s)"
  by (auto simp: shim_failed_def on_way_kept split: sum.splits)

lemma submit_pulled:
  assumes "on_way j {J_PULLING} s"
  shows "pulled j (tunnelled_submit env a n jrd na s)"
proof -
  obtain s1 r where r: "tunnelled_submit env a n jrd na s = (s1, r)" by fastforce
  with tunnelled_submit_outcome [OF assms, of env a n jrd na] show ?thesis by (cases r) (auto intro: on_way_kept)
qed

lemma pulling_attempt:
  assumes "on_way j {J_PULLING} s"
  shows "pulled j (process_pulling_with_shim env a n http s)"
proof -
  have task: "pulled j (pulling_task env a n t s)" for t
    unfolding pulling_task_def Let_def
    using assms by (auto simp del: pulled_simps(2) intro: pulled_unchanged shim_failed_pulled submit_pulled split: option.splits)
  have legacy: "pulled j (pulling_legacy st s)" for st
    unfolding pulling_legacy_def
    using assms by (auto simp del: pulled_simps(2) intro: pulled_unchanged shim_failed_pulled split: option.splits)
  show ?thesis
    unfolding process_pulling_with_shim_def using assms task legacy by (auto split: sum.splits)
qed

lemma inactivity_life:
  assumes "on_way j {J_RUNNING} s" and "jm_status j = J_RUNNING"
  shows "job_life j (terminate_if_inactivity_duration_exceeded conf n s)"
  using assms by (auto simp: terminate_if_inactivity_duration_exceeded_def Let_def on_way_def job_life_def split: RunConfiguration.splits option.splits)

lemma on_way_running_life: "on_way j {J_RUNNING} s \<Longrightarrow> jm_status j = J_RUNNING \<Longrightarrow> job_life j s"
  by (auto intro: on_way_life)

lemma state_event_outcome:
  assumes "on_way j {J_RUNNING} s" and "jm_status j = J_RUNNING"
  shows "tunnel_outcome (\<lambda>s e. retried e \<longrightarrow> on_way j {J_RUNNING} s) (\<lambda>s b. job_life j s) (apply_state_event ev s)"
proof -
  have k: "job_kept j s" using assms(1) by (rule on_way_kept)
  have life: "job_life j ((kill_job r s)\<lparr>jm_termination_reason := Some q\<rparr>)" "job_life j ((kill_job r s)\<lparr>jm_termination_reason_message := m\<rparr>)"
    "job_life j ((kill_job r s)\<lparr>jm_termination_reason := Some q, jm_termination_reason_message := m\<rparr>)" "job_life j (kill_job r s)" for r q m
    using k assms(2) by (simp_all add: job_life_def)
  show ?thesis
    using on_way_running_life [OF assms] life unfolding apply_state_event_def Let_def
    by (auto split: option.splits sum.splits dest!: job_reason_error simp: fmapE_def bindE_def)
qed

lemma running_attempt:
  assumes "on_way j {J_RUNNING} s" and "jm_status j = J_RUNNING"
  shows "tunnel_outcome (\<lambda>s e. retried e \<longrightarrow> on_way j {J_RUNNING} s) (\<lambda>s b. job_life j s) (process_running env run n http s)"
proof -
  have w: "on_way j {J_RUNNING} (s\<lparr>jm_runner_timestamp := t\<rparr>)" for t using assms(1) by (simp add: on_way_def)
  show ?thesis
    unfolding process_running_def using assms w state_event_outcome [OF w assms(2)] inactivity_life [OF w assms(2)]
    by (auto simp: Let_def split: sum.splits)
qed

section \<open>Each kind of step\<close>

lemma settle_Inr: "settle p = Inr (j', b) \<longleftrightarrow> p = (j', Inr b)"
  by (cases p rule: settle.cases) auto

lemma shim_tunnel_outcome:
  assumes "on_way j {J_PROVISIONING} s"
  shows "tunnel_outcome (\<lambda>s _. on_way j {J_PROVISIONING} s) (\<lambda>s b. on_way j {J_PROVISIONING, J_PULLING} s)
    (runner_ssh_tunnel sessions port retries jpd jrd (process_provisioning_with_shim env a) s)"
  using assms by (rule runner_ssh_tunnel_outcome [of "on_way j {J_PROVISIONING}"]) (auto intro: provisioning_attempt on_way_mono)

lemma start_job_way:
  assumes "start_job env l j = Inr (j', b)" and "jm_status j = J_PROVISIONING" and "jm_termination_reason j = None"
  shows "on_way j {J_PROVISIONING, J_PULLING, J_RUNNING} j'"
proof -
  have w: "on_way j {J_PROVISIONING} j" using assms(2,3) by (simp add: on_way_refl)
  from assms(1) consider
      "runner_ssh_tunnel (rj_shim env) DSTACK_SHIM_HTTP_PORT 1 (rl_jpd l) None
         (process_provisioning_with_shim env (shim_args_of env l)) j = (j', Inr b)"
    | code where "tunnelled_submit env (runner_args_of l code) 0 None False j = (j', Inr b)"
    by (auto simp: start_job_def settle_Inr bindE_Inr_conv split: if_split_asm)
  then show ?thesis
  proof cases
    case 1
    with shim_tunnel_outcome [OF w, of "rj_shim env" DSTACK_SHIM_HTTP_PORT 1 "rl_jpd l" None env "shim_args_of env l"]
    show ?thesis by (auto intro: on_way_mono)
  next
    case 2
    with tunnelled_submit_outcome [OF w, of env "runner_args_of l code" 0 None False] show ?thesis by (auto intro: on_way_mono)
  qed
qed

lemma wait_for_job_instance_life:
  "jm_status j = J_PROVISIONING \<Longrightarrow> jm_termination_reason j = None \<Longrightarrow> job_life j (wait_for_job_instance inst j)"
  by (auto simp: wait_for_job_instance_def job_life_def split: option.splits)

lemma provisioning_step_life:
  assumes "provisioning_step env l j = Inr j'" and "jm_status j = J_PROVISIONING" and "jm_termination_reason j = None"
  shows "job_life j j'"
proof -
  have way: "job_life j j1" if "on_way j {J_PROVISIONING, J_PULLING, J_RUNNING} j1" for j1
    using that assms(2) by (auto intro: on_way_life)
  have kill: "job_life j (kill_job r j1)" if "on_way j sts j1" for j1 r sts
    using that assms(2) by (auto intro: kill_life on_way_kept)
  have "job_life j j" using assms(2,3) by (simp add: job_life_def)
  with assms way kill wait_for_job_instance_life [OF assms(2,3)] start_job_way [OF _ assms(2,3)] show ?thesis
    by (auto simp: provisioning_step_def bindE_Inr_conv split: if_split_asm) blast+
qed

lemma pulling_step_life:
  assumes "pulling_step env l j = Inr j'" and "jm_status j = J_PULLING" and "jm_termination_reason j = None"
  shows "job_life j j'"
proof -
  have w: "on_way j {J_PULLING} j" using assms(2,3) by (simp add: on_way_refl)
  from assms(1) obtain code j1 b where t: "runner_ssh_tunnel (rj_shim env) DSTACK_SHIM_HTTP_PORT 3 (rl_jpd l) None
        (process_pulling_with_shim env (runner_args_of l code)) j = (j1, Inr b)"
    and j': "j' = (if b then j1 else kill_job (case jm_termination_reason j1 of None \<Rightarrow> INTERRUPTED_BY_NO_CAPACITY | Some r \<Rightarrow> r) j1)"
    by (auto simp: pulling_step_def settle_Inr bindE_Inr_conv)
  have "pulled j (j1, Inr b)"
    unfolding t [symmetric] pulled_def using w
    by (rule runner_ssh_tunnel_outcome [of "on_way j {J_PULLING}"])
      (auto intro: pulling_attempt [unfolded pulled_def] on_way_kept)
  then show ?thesis using assms(2) by (auto simp: j' intro: kill_life on_way_life)
qed

lemma running_step_life:
  assumes "running_step env l j = Inr j'" and "jm_status j = J_RUNNING" and "jm_termination_reason j = None"
  shows "job_life j j'"
proof -
  have w: "on_way j {J_RUNNING} j" using assms(2,3) by (simp add: on_way_refl)
  from assms(1) obtain j1 b where t: "runner_ssh_tunnel (rj_runner env) DSTACK_RUNNER_HTTP_PORT 3 (rl_jpd l) (rl_jrd l)
        (process_running env (rl_run_model l)) j = (j1, Inr b)"
    and j': "j' = (if b then j1 else kill_job INTERRUPTED_BY_NO_CAPACITY j1)"
    by (auto simp: running_step_def settle_Inr bindE_Inr_conv)
  have "tunnel_outcome (\<lambda>s e. retried e \<longrightarrow> on_way j {J_RUNNING} s) (\<lambda>s b. job_life j s) (j1, Inr b)"
    unfolding t [symmetric] using w
    by (rule runner_ssh_tunnel_outcome [of "on_way j {J_RUNNING}"])
      (auto intro: running_attempt [OF _ assms(2)] on_way_running_life assms(2))
  then have "job_life j j1" by simp
  then show ?thesis using assms(2) by (auto simp: j' job_life_def)
qed

lemma status_step_life:
  assumes "status_step env l j = Inr j'" and "jm_status j \<in> {J_PROVISIONING, J_PULLING, J_RUNNING}" and "jm_termination_reason j = None"
  shows "job_life j j'"
  using assms by (cases "jm_status j") (auto simp: status_step_def intro: provisioning_step_life pulling_step_life running_step_life)

lemma register_started_cases:
  assumes "register_started env l j j1 = Inr j'"
  shows "j' = j1 \<or> j' = kill_job GATEWAY_ERROR j1"
  using assms by (auto simp: register_started_def bindE_Inr_conv split: if_split_asm sum.splits error.splits)

lemma active_step_cases:
  assumes "active_step env d run_model run sub jpd j = Inr j'"
  obtains (waits) jb subs where "j' = j" "find_job (run_jobs run) (jm_replica_num j) (jm_job_num j) = Inr jb"
      "replica_submissions (run_jobs run) (js_replica_num (job_spec jb)) = Inr subs" "\<exists>s \<in> set subs. sub_status s = J_SUBMITTED"
  | (step) jb subs l j1 where "find_job (run_jobs run) (jm_replica_num j) (jm_job_num j) = Inr jb"
      "replica_submissions (run_jobs run) (js_replica_num (job_spec jb)) = Inr subs"
      "\<forall>s \<in> set subs. sub_status s \<noteq> J_SUBMITTED"
      "get_cluster_info subs jpd (sub_job_runtime_data sub) = Inr (rl_cluster_info l)"
      "rl_subs l = subs" "rl_jpd l = jpd" "rl_run_model l = run_model" "rl_jrd l = sub_job_runtime_data sub"
      "rl_age l = submission_age (rj_now env) sub" "rl_run_spec l = run_run_spec run" "rl_job_spec l = job_spec jb"
      "status_step env l j = Inr j1" "register_started env l j j1 = Inr j'"
proof -
  from assms obtain jb subs where f: "find_job (run_jobs run) (jm_replica_num j) (jm_job_num j) = Inr jb"
    "replica_submissions (run_jobs run) (js_replica_num (job_spec jb)) = Inr subs"
    by (auto simp: active_step_def bindE_Inr_conv)
  show thesis
  proof (cases "\<exists>s \<in> set subs. sub_status s = J_SUBMITTED")
    case True
    with assms f show thesis by (auto simp: active_step_def intro: waits)
  next
    case False
    let ?l = "\<lambda>ci vols inst creds. \<lparr>rl_run_model = run_model, rl_run_spec = run_run_spec run, rl_job_spec = job_spec jb, rl_subs = subs, rl_jpd = jpd,
                rl_jrd = sub_job_runtime_data sub, rl_age = submission_age (rj_now env) sub, rl_cluster_info = ci,
                rl_volumes = vols, rl_instance = inst, rl_repo_creds = creds\<rparr>"
    from False assms f obtain ci vols inst creds where
      c: "get_cluster_info subs jpd (sub_job_runtime_data sub) = Inr ci" and
      s: "bindE (status_step env (?l ci vols inst creds) j)
          (register_started env (?l ci vols inst creds) j) = Inr j'"
      unfolding active_step_def Let_def by (auto simp: bindE_Inr_conv [of "get_cluster_info _ _ _"] bindE_Inr_conv [of "get_job_attached_volumes _ _ _ _"]
        bindE_Inr_conv [of "get_or_error _"] bindE_Inr_conv [of "get_instance_ssh_private_keys _ _"] bindE_Inr_conv [of "rj_repo_creds env"])
    from s obtain j1 where "status_step env (?l ci vols inst creds) j = Inr j1"
      "register_started env (?l ci vols inst creds) j j1 = Inr j'" by (auto simp: bindE_Inr_conv)
    with f c False show thesis by (auto intro!: step)
  qed
qed

lemma process_running_job_cases:
  assumes "process_running_job env j d = Inr d'"
  obtains run_model run sub j1 where "db_run_of_job d j = Some run_model" "run_model_to_run (rj_now env) True False run_model = Inr run"
    "job_model_to_job_submission j = Inr sub" "d' = db_put_job (j1\<lparr>jm_last_processed_at := rj_now env\<rparr>) d"
    "case sub_job_provisioning_data sub of None \<Rightarrow> j1 = kill_job TERMINATED_BY_SERVER j
      | Some jpd \<Rightarrow> active_step env d run_model run sub jpd j = Inr j1"
proof -
  from assms obtain run_model run sub where r: "db_run_of_job d j = Some run_model"
    "run_model_to_run (rj_now env) True False run_model = Inr run" "job_model_to_job_submission j = Inr sub"
    by (auto simp: process_running_job_def bindE_Inr_conv split: option.splits)
  with assms obtain j1 where "(case sub_job_provisioning_data sub of None \<Rightarrow> Inr (kill_job TERMINATED_BY_SERVER j)
      | Some jpd \<Rightarrow> active_step env d run_model run sub jpd j) = Inr j1"
    "d' = db_put_job (j1\<lparr>jm_last_processed_at := rj_now env\<rparr>) d"
    by (auto simp: process_running_job_def fmapE_Inr_conv)
  with r show thesis by (intro that [of run_model run sub j1]) (auto split: option.splits)
qed

lemma active_step_life:
  assumes "active_step env d run_model run sub jpd j = Inr j1" and "jm_status j \<in> {J_PROVISIONING, J_PULLING, J_RUNNING}"
    and "jm_termination_reason j = None"
  shows "job_life j j1"
  using assms(1)
proof (cases rule: active_step_cases)
  case waits
  then show ?thesis using assms(2,3) by (auto simp: job_life_def)
next
  case (step jb subs l j2)
  have "job_life j j2" using step(12) assms(2,3) by (rule status_step_life)
  moreover from this have "job_kept j j2" by (simp add: job_life_def)
  ultimately show ?thesis using register_started_cases [OF step(13)] assms(2) by (auto intro: kill_life)
qed

text \<open>A step replaces the row of the job, and the new row is the only one with its key.\<close>

lemma process_running_job_row:
  assumes "process_running_job env j d = Inr d'" and "jm_status j \<in> {J_PROVISIONING, J_PULLING, J_RUNNING}"
    and "jm_termination_reason j = None" and "keys_ok d" and "j \<in> set (db_jobs d)"
  obtains run_model run sub j1 where "db_run_of_job d j = Some run_model" "run_model_to_run (rj_now env) True False run_model = Inr run"
    "job_model_to_job_submission j = Inr sub" "d' = db_put_job (j1\<lparr>jm_last_processed_at := rj_now env\<rparr>) d" "job_life j j1"
    "case sub_job_provisioning_data sub of None \<Rightarrow> j1 = kill_job TERMINATED_BY_SERVER j
      | Some jpd \<Rightarrow> active_step env d run_model run sub jpd j = Inr j1"
    "\<And>j'. j' \<in> set (db_jobs d') \<Longrightarrow> jm_id j' = jm_id j \<Longrightarrow> j' = j1\<lparr>jm_last_processed_at := rj_now env\<rparr>"
proof -
  from assms(1) obtain run_model run sub j1 where c: "db_run_of_job d j = Some run_model"
    "run_model_to_run (rj_now env) True False run_model = Inr run" "job_model_to_job_submission j = Inr sub"
    and d': "d' = db_put_job (j1\<lparr>jm_last_processed_at := rj_now env\<rparr>) d"
    and a: "case sub_job_provisioning_data sub of None \<Rightarrow> j1 = kill_job TERMINATED_BY_SERVER j
      | Some jpd \<Rightarrow> active_step env d run_model run sub jpd j = Inr j1"
    by (rule process_running_job_cases)
  have l: "job_life j j1"
    using a active_step_life [OF _ assms(2,3)] assms(2) by (auto intro: kill_life split: option.splits)
  have dk: "distinct (map jm_id (db_jobs d))" using assms(4) by (simp add: keys_ok_def)
  have "jm_id j1 = jm_id j" using l by (simp add: job_life_def job_kept_def same_row_def)
  then have "set (db_jobs d') = insert (j1\<lparr>jm_last_processed_at := rj_now env\<rparr>) (set (db_jobs d) - {j})"
    unfolding d' db_jobs_put_job using dk assms(5) by (simp add: set_put_row_eq [of jm_id _ j])
  moreover have "jm_id z \<noteq> jm_id j" if "z \<in> set (db_jobs d) - {j}" for z using that dk assms(5) by (auto simp: distinct_map inj_on_def)
  ultimately show thesis using c d' l a by (intro that) auto
qed

section \<open>The replica of a job\<close>

lemma concat_by_key:
  assumes "distinct (map fst G)" and "(r, g0) \<in> set G"
  shows "concat (map (\<lambda>(k, g). if k = r then F g else []) G) = F g0"
  using assms
proof (induction G)
  case (Cons x G)
  have none: "concat (map (\<lambda>(k, g). if k = r then F g else []) G) = []" if "r \<notin> fst ` set G"
    using that by (induction G) auto
  show ?case
  proof (cases "x = (r, g0)")
    case True
    with Cons.prems none show ?thesis by simp
  next
    case False
    with Cons.prems have "(r, g0) \<in> set G" by simp
    then have "r \<in> fst ` set G" by force
    with Cons.prems(1) have "fst x \<noteq> r" by auto
    with Cons \<open>(r, g0) \<in> set G\<close> show ?thesis by (cases x) simp
  qed
qed simp

lemma list_all2_filter:
  assumes "list_all2 R xs ys" and "\<And>x y. x \<in> set xs \<Longrightarrow> R x y \<Longrightarrow> P x \<longleftrightarrow> Q y"
  shows "list_all2 R (filter P xs) (filter Q ys)"
  using assms by (induction rule: list_all2_induct) auto

lemma replica_groups:
  assumes "(r, ls) \<in> set (group_jobs_by_replica_latest jobs)"
  shows "map last (filter (\<lambda>g. jm_replica_num (hd g) = r) (job_groups jobs)) = ls"
proof -
  let ?G = "groupby jm_replica_num (sort_key job_key jobs)"
  from assms obtain g0 where g0: "(r, g0) \<in> set ?G" and ls: "ls = map (last \<circ> snd) (groupby jm_job_num g0)"
    by (auto simp: group_jobs_by_replica_latest_def split_def o_def)
  have hd: "jm_replica_num (hd s) = k" if kg: "(k, g) \<in> set ?G" and s: "(n, s) \<in> set (groupby jm_job_num g)" for k g n s
  proof -
    from s replica_group [OF kg] have "(n, s) \<in> set (groupby jm_job_num (replica_jobs jobs k))" by simp
    from subgroup_member [OF this] have "hd s \<in> set (submissions_of jobs k n)" by (metis hd_in_set)
    then show ?thesis by (simp add: submissions_of_def)
  qed
  have "filter (\<lambda>g. jm_replica_num (hd g) = r) (map snd (groupby jm_job_num g))
      = (if k = r then map snd (groupby jm_job_num g) else [])" if "(k, g) \<in> set ?G" for k g
  proof -
    have "\<forall>s \<in> set (map snd (groupby jm_job_num g)). jm_replica_num (hd s) = k" using hd [OF that] by auto
    then show ?thesis by (auto intro: filter_True)
  qed
  then have "filter (\<lambda>g. jm_replica_num (hd g) = r) (job_groups jobs)
      = concat (map (\<lambda>(k, g). if k = r then map snd (groupby jm_job_num g) else []) ?G)"
    unfolding job_groups_def filter_concat map_map by (intro arg_cong [of _ _ concat]) (auto simp: filter_map)
  moreover have "distinct (map fst ?G)" using groups_distinct [of jobs] by (simp add: group_replica_nums)
  ultimately show ?thesis using concat_by_key [OF _ g0, of "\<lambda>g. map snd (groupby jm_job_num g)"] by (simp add: ls)
qed

lemma last_submission_group:
  assumes "job_of_group True False g = Inr job" and "g \<noteq> []" and "last_submission job = Inr s"
  shows "job_model_to_job_submission (last g) = Inr s"
proof -
  from assms(1) have l2: "list_all2 (\<lambda>j s. job_model_to_job_submission j = Inr s) g (job_submissions job)"
    by (auto simp: job_of_group_def bindE_Inr_conv mapE_Inr_conv fmapE_Inr_conv elim!: list_all2_mono)
  then have "job_submissions job \<noteq> []" using assms(2) by auto
  with assms(3) have s: "s = last (job_submissions job)" by (auto simp: last_submission_def split: list.splits)
  from l2 have "length g = length (job_submissions job)" by (rule list_all2_lengthD)
  with l2 assms(2) show ?thesis
    unfolding s using list_all2_nthD [OF l2, of "length g - 1"] \<open>job_submissions job \<noteq> []\<close> by (simp add: last_conv_nth)
qed

text \<open>The latest submissions of a replica are those of its latest rows, by job number.\<close>

lemma replica_submissions_rows:
  assumes inv: "jobs_inv (rm_jobs run) uid" and v: "run_model_to_run now True False run = Inr v"
    and ls: "(r, ls) \<in> set (group_jobs_by_replica_latest (rm_jobs run))" and s: "replica_submissions (run_jobs v) r = Inr subs"
  shows "list_all2 (\<lambda>k s. job_model_to_job_submission k = Inr s) ls subs"
proof -
  let ?gs = "job_groups (rm_jobs run)"
  have l2: "list_all2 (\<lambda>g job. job_of_group True False g = Inr job) ?gs (run_jobs v)"
    using v by (auto simp: run_model_to_run_def bindE_Inr_conv mapE_Inr_conv)
  have rep: "jm_replica_num (hd g) = r \<longleftrightarrow> js_replica_num (job_spec job) = r" if "g \<in> set ?gs" "job_of_group True False g = Inr job" for g job
  proof -
    have "hd g \<in> set (rm_jobs run)"
      using job_groups_member [OF that(1)] hd_in_set [of g] by (metis (no_types) filter_is_subset set_sort submissions_of_def subsetD)
    then have "spec_consistent (hd g)" by (rule jobs_invD(4) [OF inv])
    then show ?thesis using job_of_group_Inr(1) [OF that(2)] by (simp add: spec_consistent_def)
  qed
  have f: "list_all2 (\<lambda>g job. job_of_group True False g = Inr job) (filter (\<lambda>g. jm_replica_num (hd g) = r) ?gs)
      (filter (\<lambda>job. js_replica_num (job_spec job) = r) (run_jobs v))"
    using l2 rep by (rule list_all2_filter)
  have "list_all2 (\<lambda>job s. last_submission job = Inr s) (filter (\<lambda>job. js_replica_num (job_spec job) = r) (run_jobs v)) subs"
    using s by (simp add: replica_submissions_def mapE_Inr_conv)
  then have "list_all2 (\<lambda>g s. job_model_to_job_submission (last g) = Inr s) (filter (\<lambda>g. jm_replica_num (hd g) = r) ?gs) subs"
  proof (rule list_all2_trans [rotated 2])
    show "list_all2 (\<lambda>g job. g \<noteq> [] \<and> job_of_group True False g = Inr job) (filter (\<lambda>g. jm_replica_num (hd g) = r) ?gs)
        (filter (\<lambda>job. js_replica_num (job_spec job) = r) (run_jobs v))"
      by (rule list.rel_mono_strong [OF f]) (use job_groups_member(1) in auto)
  qed (auto intro: last_submission_group)
  then have "list_all2 (\<lambda>k s. job_model_to_job_submission k = Inr s) (map last (filter (\<lambda>g. jm_replica_num (hd g) = r) ?gs)) subs"
    by (simp add: list_all2_map1)
  then show ?thesis unfolding replica_groups [OF ls] .
qed

section \<open>Steps of the task as events of a run\<close>

lemma next_running_job_Some:
  assumes "next_running_job lockset d = Some j"
  shows "j \<in> set (db_jobs d)" and "jm_status j \<in> {J_PROVISIONING, J_PULLING, J_RUNNING}" and "jm_id j \<notin> lockset"
proof -
  from assms have "j \<in> set (filter (\<lambda>j. jm_status j \<in> {J_PROVISIONING, J_PULLING, J_RUNNING} \<and> jm_id j \<notin> lockset) (db_jobs d))"
    unfolding next_running_job_def
    by (metis (no_types, lifting) list.case_eq_if list.set_sel(1) option.distinct(1) option.inject set_sort)
  then show "j \<in> set (db_jobs d)" "jm_status j \<in> {J_PROVISIONING, J_PULLING, J_RUNNING}" "jm_id j \<notin> lockset" by auto
qed

lemma active_no_reason:
  "reason_ok j \<Longrightarrow> jm_status j \<in> {J_PROVISIONING, J_PULLING, J_RUNNING} \<Longrightarrow> jm_termination_reason j = None"
  by (auto simp: reason_ok_def job_stopped_def)

lemma job_life_reason_ok: "job_life j j' \<Longrightarrow> jm_status j \<in> {J_PROVISIONING, J_PULLING, J_RUNNING} \<Longrightarrow> reason_ok j'"
  by (auto simp: job_life_def reason_ok_def job_stopped_def)

text \<open>
  C8. A step of the running-jobs task on a job moves it only forward: from provisioning over pulling to
  running, or to terminating, and exactly then with a reason. The job keeps its identity, its instance
  and its blocks, no other row of any table changes, and for every run the step is one of the events of
  its transition system.
\<close>

theorem process_running_job_event:
  assumes "keys_ok d" and "\<forall>k \<in> set (db_jobs d). reason_ok k" and "next_running_job lockset d = Some j"
    and "process_next_running_job env lockset d = Inr d'"
  shows "\<exists>j'. job_life j j' \<and> set (db_jobs d') = insert j' (set (db_jobs d) - {j})
    \<and> db_instances d' = db_instances d \<and> db_volumes d' = db_volumes d \<and> db_fleets d' = db_fleets d
    \<and> list_all2 (\<lambda>r r'. run_event (r, uid) (r', uid)) (db_runs d) (db_runs d')"
proof -
  note j = next_running_job_Some [OF assms(3)]
  from assms(2) j have no: "jm_termination_reason j = None" by (blast intro: active_no_reason)
  from assms(3,4) have "process_running_job env j d = Inr d'" by (simp add: process_next_running_job_def)
  then obtain j1 where d1: "d' = db_put_job (j1\<lparr>jm_last_processed_at := rj_now env\<rparr>) d" and l1: "job_life j j1"
    by (rule process_running_job_row [OF _ j(2) no assms(1) j(1)])
  define j' where "j' = j1\<lparr>jm_last_processed_at := rj_now env\<rparr>"
  have d': "d' = db_put_job j' d" and l: "job_life j j'" using d1 l1 by (simp_all add: j'_def job_life_def)
  have s: "same_row j j'" using l by (simp add: job_life_def job_kept_def)
  have "distinct (map jm_id (db_jobs d))" using assms(1) by (simp add: keys_ok_def)
  then have "set (db_jobs d') = insert j' (set (db_jobs d) - {j})"
    unfolding d' db_jobs_put_job using j(1) same_row_id [OF s] by (rule set_put_row_eq)
  moreover have "list_all2 (\<lambda>r r'. run_event (r, uid) (r', uid)) (db_runs d) (db_runs d')"
    unfolding d' using assms(1) j(1) s job_life_reason_ok [OF l j(2)] assms(2) by (rule put_job_event)
  ultimately show ?thesis using l by (auto simp: d')
qed

section \<open>Starting the jobs of a replica\<close>

lemma submission_fields:
  assumes "job_model_to_job_submission k = Inr s"
  shows "sub_status s = jm_status k" "sub_submitted_at s = jm_submitted_at k" "sub_job_runtime_data s = jm_job_runtime_data k"
    and "map_option jpd_hostname (sub_job_provisioning_data s) = map_option jpd_hostname (jm_job_provisioning_data k)"
    and "map_option jpd_internal_ip (sub_job_provisioning_data s) = map_option jpd_internal_ip (jm_job_provisioning_data k)"
proof -
  from assms obtain p where p: "shown_provisioning_data k = Inr p" and s: "sub_job_provisioning_data s = p"
    "sub_status s = jm_status k" "sub_submitted_at s = jm_submitted_at k" "sub_job_runtime_data s = jm_job_runtime_data k"
    by (auto simp: job_model_to_job_submission_def bindE_Inr_conv)
  from p have "map_option jpd_hostname p = map_option jpd_hostname (jm_job_provisioning_data k)"
    "map_option jpd_internal_ip p = map_option jpd_internal_ip (jm_job_provisioning_data k)"
    by (cases "jm_job_provisioning_data k"; auto simp: shown_provisioning_data_def split: option.splits if_split_asm)+
  with s show "sub_status s = jm_status k" "sub_submitted_at s = jm_submitted_at k" "sub_job_runtime_data s = jm_job_runtime_data k"
    "map_option jpd_hostname (sub_job_provisioning_data s) = map_option jpd_hostname (jm_job_provisioning_data k)"
    "map_option jpd_internal_ip (sub_job_provisioning_data s) = map_option jpd_internal_ip (jm_job_provisioning_data k)" by simp_all
qed

text \<open>The address of a job: empty when its provisioning data has none.\<close>

definition job_ip :: "JobModel \<Rightarrow> string" where
  "job_ip k = (case Option.bind (jm_job_provisioning_data k) jpd_internal_ip of None \<Rightarrow> [] | Some ip \<Rightarrow> ip)"

lemma cluster_info_submissions:
  assumes "get_cluster_info subs jpd jrd = Inr ci" and "list_all2 (\<lambda>k s. job_model_to_job_submission k = Inr s) ls subs"
  shows "ci_job_ips ci = map job_ip ls" and "ls \<noteq> []" and "ci_master_job_ip ci = job_ip (hd ls)"
    and "\<forall>k \<in> set ls. jm_job_provisioning_data k \<noteq> None"
proof -
  from assms(1) obtain ips where l2: "list_all2 (\<lambda>s ip. fmapE (\<lambda>p. case jpd_internal_ip p of None \<Rightarrow> [] | Some ip \<Rightarrow> ip)
      (get_or_error (sub_job_provisioning_data s)) = Inr ip) subs ips"
    and ci: "ci_job_ips ci = ips" "ips \<noteq> []" "ci_master_job_ip ci = hd ips"
    unfolding get_cluster_info_def bindE_Inr_conv mapE_Inr_conv by (elim exE conjE, rename_tac ips) (case_tac ips; auto)
  have one: "jm_job_provisioning_data k \<noteq> None \<and> ip = job_ip k" if "job_model_to_job_submission k = Inr s"
    "fmapE (\<lambda>p. case jpd_internal_ip p of None \<Rightarrow> [] | Some ip \<Rightarrow> ip) (get_or_error (sub_job_provisioning_data s)) = Inr ip" for k s ip
  proof -
    from that(2) obtain p where p: "sub_job_provisioning_data s = Some p" "ip = (case jpd_internal_ip p of None \<Rightarrow> [] | Some ip \<Rightarrow> ip)"
      by (auto simp: fmapE_Inr_conv get_or_error_def split: option.splits)
    with submission_fields(5) [OF that(1)] obtain q where "jm_job_provisioning_data k = Some q" "jpd_internal_ip q = jpd_internal_ip p"
      by (cases "jm_job_provisioning_data k") auto
    with p show ?thesis by (simp add: job_ip_def)
  qed
  have l3: "list_all2 (\<lambda>k ip. jm_job_provisioning_data k \<noteq> None \<and> ip = job_ip k) ls ips"
    by (rule list_all2_trans [OF _ assms(2) l2]) (rule one)
  then have m: "ips = map job_ip ls" by (induction rule: list_all2_induct) auto
  with ci show "ci_job_ips ci = map job_ip ls" "ls \<noteq> []" "ci_master_job_ip ci = job_ip (hd ls)" by (auto simp: hd_map)
  show "\<forall>k \<in> set ls. jm_job_provisioning_data k \<noteq> None" using l3 by (auto simp: list_all2_conv_all_nth in_set_conv_nth)
qed

lemma find_job_replica:
  assumes "find_job jobs r n = Inr jb"
  shows "js_replica_num (job_spec jb) = r" and "jb \<in> set jobs"
  using assms by (auto simp: find_job_def find_Some_iff split: option.splits)

text \<open>A job of the replica that holds back the others.\<close>

definition holds_back :: "JobModel \<Rightarrow> bool" where
  "holds_back k \<longleftrightarrow> jm_status k = J_SUBMITTED
     \<or> jm_status k = J_PROVISIONING \<and> map_option jpd_hostname (jm_job_provisioning_data k) = Some None"

lemma holds_back_subs:
  assumes "list_all2 (\<lambda>k s. job_model_to_job_submission k = Inr s) ls subs"
  shows "(\<exists>k \<in> set ls. holds_back k) \<longleftrightarrow> (\<exists>s \<in> set subs. sub_status s = J_SUBMITTED) \<or> waits_for_hosts subs"
  using assms
proof (induction rule: list_all2_induct)
  case (Cons k ls s subs)
  from submission_fields(4) [OF Cons(1)] submission_fields(1) [OF Cons(1)] have "holds_back k \<longleftrightarrow> sub_status s = J_SUBMITTED \<or> waits_for_hosts [s]"
    by (cases "jm_job_provisioning_data k") (auto simp: holds_back_def waits_for_hosts_def split: option.splits)
  then show ?case using Cons.IH by (auto simp: waits_for_hosts_def)
qed (simp add: waits_for_hosts_def)

lemma provisioning_step_moves:
  assumes "provisioning_step env l j = Inr j'" and "jm_status j = J_PROVISIONING" and "jm_status j' \<in> {J_PULLING, J_RUNNING}"
  shows "jpd_hostname (rl_jpd l) \<noteq> None" and "\<not> waits_for_hosts (rl_subs l)"
  using assms by (auto simp: provisioning_step_def wait_for_job_instance_def split: if_split_asm option.splits)

text \<open>What a step that gets past the first wait knows about the replica.\<close>

lemma active_step_replica:
  assumes "active_step env d run_model run sub jpd j = Inr j1" and "run_model_to_run now True False run_model = Inr run"
    and "jobs_inv (rm_jobs run_model) uid" and "(jm_replica_num j, ls) \<in> set (group_jobs_by_replica_latest (rm_jobs run_model))"
  obtains (waits) "j1 = j" "\<exists>k \<in> set ls. holds_back k"
  | (step) l j2 where "status_step env l j = Inr j2" "register_started env l j j2 = Inr j1"
    "list_all2 (\<lambda>k s. job_model_to_job_submission k = Inr s) ls (rl_subs l)" "\<forall>s \<in> set (rl_subs l). sub_status s \<noteq> J_SUBMITTED"
    "get_cluster_info (rl_subs l) jpd (sub_job_runtime_data sub) = Inr (rl_cluster_info l)" "rl_jpd l = jpd"
    "rl_age l = submission_age (rj_now env) sub" "rl_run_model l = run_model" "rl_jrd l = sub_job_runtime_data sub"
proof -
  have rows: "list_all2 (\<lambda>k s. job_model_to_job_submission k = Inr s) ls subs"
    if "find_job (run_jobs run) (jm_replica_num j) (jm_job_num j) = Inr jb"
      "replica_submissions (run_jobs run) (js_replica_num (job_spec jb)) = Inr subs" for jb subs
    using replica_submissions_rows [OF assms(3,2,4)] that find_job_replica [OF that(1)] by simp
  from assms(1) show thesis
  proof (cases rule: active_step_cases)
    case w: (waits jb subs)
    with holds_back_subs [OF rows [OF w(2,3)]] show thesis by (intro waits) auto
  next
    case s: (step jb subs l j2)
    with rows [OF s(1,2)] show thesis by (intro step [of l j2]) auto
  qed
qed

text \<open>
  C27. The cluster information that a job of a replica is started with lists the addresses of all jobs
  of the replica, latest submissions by ascending job number, with the first one as master; a job
  without provisioning data makes it fail.
\<close>

theorem cluster_info_addresses:
  assumes "jobs_inv (rm_jobs run) uid" and "run_model_to_run now True False run = Inr v"
    and "(r, ls) \<in> set (group_jobs_by_replica_latest (rm_jobs run))" and "replica_submissions (run_jobs v) r = Inr subs"
    and "get_cluster_info subs jpd jrd = Inr ci"
  shows "ci_job_ips ci = map job_ip ls \<and> ci_master_job_ip ci = job_ip (hd ls) \<and> sorted_wrt (<) (map jm_job_num ls)
    \<and> set ls = {k. jm_replica_num k = r \<and> is_latest (rm_jobs run) k} \<and> (\<forall>k \<in> set ls. jm_job_provisioning_data k \<noteq> None)"
proof -
  have u: "unique_submissions (rm_jobs run)" using assms(1) by (simp add: jobs_inv_def)
  have "k \<in> set ls \<longleftrightarrow> jm_replica_num k = r \<and> is_latest (rm_jobs run) k" for k
    using group_iff_view [OF u assms(3)] latest_view_iff [OF u, of "(r, jm_job_num k)" k] by (auto simp: pair_key_def)
  then show ?thesis
    using cluster_info_submissions [OF assms(5) replica_submissions_rows [OF assms(1-4)]] group_job_nums_sorted(1) [OF assms(3)] by auto
qed

text \<open>
  C9. A job goes from provisioning to the shim or the runner (pulling or running) only when every job of its
  replica has been provisioned and every one that is still provisioning has a host.
\<close>

theorem replica_starts_together:
  assumes "process_next_running_job env lockset d = Inr d'" and "next_running_job lockset d = Some j" and "keys_ok d"
    and "\<forall>k \<in> set (db_jobs d). reason_ok k"
    and "db_run_of_job d j = Some run" and "jobs_inv (rm_jobs run) uid"
    and "(jm_replica_num j, ls) \<in> set (group_jobs_by_replica_latest (rm_jobs run))"
    and "jm_status j = J_PROVISIONING" and "j' \<in> set (db_jobs d')" and "jm_id j' = jm_id j" and "jm_status j' \<in> {J_PULLING, J_RUNNING}"
  shows "\<forall>k \<in> set ls. \<not> holds_back k \<and> jm_job_provisioning_data k \<noteq> None"
proof -
  note j = next_running_job_Some [OF assms(2)]
  have no: "jm_termination_reason j = None" using assms(4) j by (blast intro: active_no_reason)
  from assms(1,2) have "process_running_job env j d = Inr d'" by (simp add: process_next_running_job_def)
  then obtain r1 v sub j1 where c: "db_run_of_job d j = Some r1" "run_model_to_run (rj_now env) True False r1 = Inr v"
    and a: "case sub_job_provisioning_data sub of None \<Rightarrow> j1 = kill_job TERMINATED_BY_SERVER j
      | Some jpd \<Rightarrow> active_step env d r1 v sub jpd j = Inr j1"
    and j1: "j' \<in> set (db_jobs d') \<Longrightarrow> jm_id j' = jm_id j \<Longrightarrow> j' = j1\<lparr>jm_last_processed_at := rj_now env\<rparr>" for j'
    by (rule process_running_job_row [OF _ j(2) no assms(3) j(1)]) blast
  have st: "jm_status j1 \<in> {J_PULLING, J_RUNNING}" using j1 [OF assms(9,10)] assms(11) by simp
  with a obtain jpd where s: "active_step env d r1 v sub jpd j = Inr j1" by (auto split: option.splits)
  have r1: "r1 = run" using c(1) assms(5) by simp
  have ne: "j1 \<noteq> j" using st assms(8) by auto
  obtain l j2 where l: "status_step env l j = Inr j2" "register_started env l j j2 = Inr j1"
    "list_all2 (\<lambda>k s. job_model_to_job_submission k = Inr s) ls (rl_subs l)" "\<forall>s \<in> set (rl_subs l). sub_status s \<noteq> J_SUBMITTED"
    "get_cluster_info (rl_subs l) jpd (sub_job_runtime_data sub) = Inr (rl_cluster_info l)"
    by (rule active_step_replica [OF s [unfolded r1] c(2) [unfolded r1] assms(6,7)]) (use ne in auto)
  have "j2 = j1" using register_started_cases [OF l(2)] st by auto
  then have "\<not> waits_for_hosts (rl_subs l)"
    using l(1) assms(8) st provisioning_step_moves(2) [of env l j j1] by (simp add: status_step_def)
  with holds_back_subs [OF l(3)] l(4) cluster_info_submissions(4) [OF l(5,3)] show ?thesis by auto
qed

section \<open>Agents that do not answer\<close>

lemma start_job_silent:
  assumes "\<forall>k. \<not> ss_opens (rj_shim env k)" and "\<forall>k. \<not> ss_opens (rj_runner env k)" and "jpd_backend (rl_jpd l) \<noteq> LOCAL"
    and "start_job env l j = Inr (j', b)"
  shows "j' = j \<and> \<not> b"
  using assms by (auto simp: start_job_def tunnelled_submit_def runner_ssh_tunnel_def tunnel_loop_closed runner_args_of_def bindE_Inr_conv split: if_split_asm)

lemma register_not_started: "jm_status j2 = jm_status j \<or> jm_status j2 \<noteq> J_RUNNING \<Longrightarrow> register_started env l j j2 = Inr j2"
  by (auto simp: register_started_def)

text \<open>
  C10. What a step that completes does with a provisioning job that has a host, not on the local backend,
  when no tunnel to its shim or runner opens: while another job of its replica holds it back, or the time
  limit of its backend is not over, the job stays provisioning; otherwise it is terminated, and the reason is
  the exceeded limit. So a job that is held back is not given up after its limit.
\<close>

theorem runner_timeout:
  assumes "process_next_running_job env lockset d = Inr d'" and "next_running_job lockset d = Some j" and "keys_ok d"
    and "\<forall>k \<in> set (db_jobs d). reason_ok k"
    and "db_run_of_job d j = Some run" and "jobs_inv (rm_jobs run) uid"
    and "(jm_replica_num j, ls) \<in> set (group_jobs_by_replica_latest (rm_jobs run))"
    and "jm_status j = J_PROVISIONING" and "j' \<in> set (db_jobs d')" and "jm_id j' = jm_id j"
    and "shown_provisioning_data j = Inr (Some jpd)" and "jpd_hostname jpd \<noteq> None" and "jpd_backend jpd \<noteq> LOCAL"
    and "\<forall>k. \<not> ss_opens (rj_shim env k)" and "\<forall>k. \<not> ss_opens (rj_runner env k)"
  shows "if (\<exists>k \<in> set ls. holds_back k)
            \<or> rj_now env - jm_submitted_at j \<le> get_runner_timeout_interval (get_base_backend jpd) (it_name (jpd_instance_type jpd))
    then jm_status j' = J_PROVISIONING \<and> jm_termination_reason j' = None
    else jm_status j' = J_TERMINATING \<and> jm_termination_reason j' = Some WAITING_RUNNER_LIMIT_EXCEEDED"
proof -
  note j = next_running_job_Some [OF assms(2)]
  have no: "jm_termination_reason j = None" using assms(4) j by (blast intro: active_no_reason)
  from assms(1,2) have "process_running_job env j d = Inr d'" by (simp add: process_next_running_job_def)
  then obtain r1 v sub j1 where c: "db_run_of_job d j = Some r1" "run_model_to_run (rj_now env) True False r1 = Inr v"
    "job_model_to_job_submission j = Inr sub"
    and a: "case sub_job_provisioning_data sub of None \<Rightarrow> j1 = kill_job TERMINATED_BY_SERVER j
      | Some jpd \<Rightarrow> active_step env d r1 v sub jpd j = Inr j1"
    and j1: "j' \<in> set (db_jobs d') \<Longrightarrow> jm_id j' = jm_id j \<Longrightarrow> j' = j1\<lparr>jm_last_processed_at := rj_now env\<rparr>" for j'
    by (rule process_running_job_row [OF _ j(2) no assms(3) j(1)]) blast
  have j': "jm_status j' = jm_status j1" "jm_termination_reason j' = jm_termination_reason j1" using j1 [OF assms(9,10)] by simp_all
  have sub: "sub_job_provisioning_data sub = Some jpd" "sub_submitted_at sub = jm_submitted_at j"
    using c(3) assms(11) by (auto simp: job_model_to_job_submission_def)
  have r1: "r1 = run" using c(1) assms(5) by simp
  have s: "active_step env d run v sub jpd j = Inr j1" using a sub by (simp add: r1)
  show ?thesis
    using s c(2) [unfolded r1] assms(6,7)
  proof (cases rule: active_step_replica)
    case waits
    then show ?thesis using assms(8) no by (simp add: j')
  next
    case (step l j2)
    have age: "runner_overdue l \<longleftrightarrow> \<not> rj_now env - jm_submitted_at j \<le> get_runner_timeout_interval (get_base_backend jpd) (it_name (jpd_instance_type jpd))"
      by (auto simp: runner_overdue_def step submission_age_def sub)
    have hold: "(\<exists>k \<in> set ls. holds_back k) \<longleftrightarrow> waits_for_hosts (rl_subs l)" using holds_back_subs [OF step(3)] step(4) by auto
    have "provisioning_step env l j = Inr j2" using step(1) assms(8) by (simp add: status_step_def)
    then have j2: "j2 = (if waits_for_hosts (rl_subs l) \<or> \<not> runner_overdue l then j else kill_job WAITING_RUNNER_LIMIT_EXCEEDED j)"
      using assms(12-15) start_job_silent [of env l j] by (auto simp: provisioning_step_def step(6) bindE_Inr_conv split: if_split_asm)
    then have "j1 = j2" using step(2) register_not_started [of j2 j env l] assms(8) by (auto split: if_split_asm)
    then show ?thesis using assms(8) no unfolding j' age [symmetric] hold by (auto simp: j2 not_le [symmetric] age)
  qed
qed

section \<open>Following the runner\<close>

definition idle_too_long :: "RunConfiguration \<Rightarrow> int option \<Rightarrow> bool" where
  "idle_too_long conf secs = (case conf of
      DevEnvironmentConfiguration _ dev \<Rightarrow> (case dv_inactivity_duration dev of
          None \<Rightarrow> False | Some duration \<Rightarrow> (case secs of None \<Rightarrow> True | Some s \<Rightarrow> s \<ge> duration))
    | _ \<Rightarrow> False)"

lemma inactivity_effect:
  assumes "jm_status j = J_RUNNING" and "jm_termination_reason j = None"
  shows "jm_status (terminate_if_inactivity_duration_exceeded conf secs j) = (if idle_too_long conf secs then J_TERMINATING else J_RUNNING)"
    and "jm_runner_timestamp (terminate_if_inactivity_duration_exceeded conf secs j) = jm_runner_timestamp j"
  using assms by (auto simp: terminate_if_inactivity_duration_exceeded_def idle_too_long_def kill_job_def Let_def split: RunConfiguration.splits option.splits)

lemma state_event_effect:
  assumes "apply_state_event ev j = (j', Inr b)" and "jm_status j = J_RUNNING" and "jm_termination_reason j = None"
  shows "b" and "jm_status j' = (if jse_state ev \<in> {J_DONE, J_FAILED, J_TERMINATED} then J_TERMINATING else J_RUNNING)"
    and "jm_runner_timestamp j' = jm_runner_timestamp j"
    and "jse_state ev = J_DONE \<Longrightarrow> jm_termination_reason j' = Some DONE_BY_RUNNER"
    and "jse_state ev \<in> {J_FAILED, J_TERMINATED} \<Longrightarrow> jm_termination_reason j' = (case truthy (jse_termination_reason ev) of
        None \<Rightarrow> Some CONTAINER_EXITED_WITH_ERROR
      | Some t \<Rightarrow> (case job_reason_of_value (lower t) of Inl _ \<Rightarrow> None | Inr r \<Rightarrow> Some r))"
  using assms by (auto simp: apply_state_event_def kill_job_def Let_def fmapE_def bindE_def split: if_split_asm option.split_asm sum.split_asm)

text \<open>What a job takes over from an answer of its runner.\<close>

definition follows_runner :: "RunConfiguration \<Rightarrow> PullResponse \<Rightarrow> JobModel \<Rightarrow> bool" where
  "follows_runner conf resp j' \<longleftrightarrow> jm_runner_timestamp j' = Some (plr_last_updated resp)
     \<and> (jm_status j' = J_TERMINATING \<longleftrightarrow>
          (if plr_job_states resp = [] then idle_too_long conf (plr_no_connections_secs resp)
           else jse_state (last (plr_job_states resp)) \<in> {J_DONE, J_FAILED, J_TERMINATED}))
     \<and> (plr_job_states resp \<noteq> [] \<and> jse_state (last (plr_job_states resp)) = J_DONE \<longrightarrow> jm_termination_reason j' = Some DONE_BY_RUNNER)"

definition runner_answers :: "rj_env \<Rightarrow> rj_loaded \<Rightarrow> JobModel \<Rightarrow> PullResponse \<Rightarrow> bool" where
  "runner_answers env l j resp \<longleftrightarrow> ss_opens (rj_runner env 0)
     \<and> RunnerClient_pull (ss_http (rj_runner env 0) (host_port (rl_jrd l) DSTACK_RUNNER_HTTP_PORT))
         (case jm_runner_timestamp j of None \<Rightarrow> 0 | Some t \<Rightarrow> t) = Inr resp
     \<and> rj_write_logs env 0 (plr_runner_logs resp) (plr_job_logs resp) = Inr ()"

text \<open>An answer decides the attempt: nothing it leads to is tried again.\<close>

lemma answered_attempt:
  assumes "runner_answers env l j resp"
    and t: "tunnel_loop (rj_runner env) (host_port (rl_jrd l) DSTACK_RUNNER_HTTP_PORT) (process_running env (rl_run_model l)) 0 3 j = (j1, Inr b)"
  shows "(j1, Inr b) = (if plr_job_states resp = []
      then (terminate_if_inactivity_duration_exceeded (spec_configuration (rm_run_spec (rl_run_model l))) (plr_no_connections_secs resp)
              (j\<lparr>jm_runner_timestamp := Some (plr_last_updated resp)\<rparr>), Inr True)
      else apply_state_event (last (plr_job_states resp)) (j\<lparr>jm_runner_timestamp := Some (plr_last_updated resp)\<rparr>))"
proof -
  obtain s e where p: "process_running env (rl_run_model l) 0 (ss_http (rj_runner env 0) (host_port (rl_jrd l) DSTACK_RUNNER_HTTP_PORT)) j = (s, e)"
    by fastforce
  have q: "(s, e) = (if plr_job_states resp = []
      then (terminate_if_inactivity_duration_exceeded (spec_configuration (rm_run_spec (rl_run_model l))) (plr_no_connections_secs resp)
              (j\<lparr>jm_runner_timestamp := Some (plr_last_updated resp)\<rparr>), Inr True)
      else apply_state_event (last (plr_job_states resp)) (j\<lparr>jm_runner_timestamp := Some (plr_last_updated resp)\<rparr>))"
    using assms(1) p by (simp add: process_running_def runner_answers_def Let_def)
  have open0: "ss_opens (rj_runner env 0)" using assms(1) by (simp add: runner_answers_def)
  show ?thesis
  proof (cases e)
    case (Inl err)
    then have "err = ValueError" using q
      by (auto simp: apply_state_event_def Let_def fmapE_def bindE_def split: if_split_asm option.split_asm sum.split_asm dest: job_reason_error)
    with Inl p open0 t show ?thesis by (simp add: numeral_3_eq_3 is_DstackError_def)
  next
    case (Inr b1)
    with p open0 t q show ?thesis by (simp add: numeral_3_eq_3)
  qed
qed

lemma answered_follows:
  assumes "runner_answers env l j resp" and "jm_status j = J_RUNNING" and "jm_termination_reason j = None"
    and "tunnel_loop (rj_runner env) (host_port (rl_jrd l) DSTACK_RUNNER_HTTP_PORT) (process_running env (rl_run_model l)) 0 3 j = (j1, Inr b)"
  shows "follows_runner (spec_configuration (rm_run_spec (rl_run_model l))) resp (if b then j1 else kill_job INTERRUPTED_BY_NO_CAPACITY j1)"
proof (cases "plr_job_states resp = []")
  case True
  with answered_attempt [OF assms(1,4)] assms(2,3) show ?thesis by (simp add: inactivity_effect follows_runner_def)
next
  case False
  let ?j = "j\<lparr>jm_runner_timestamp := Some (plr_last_updated resp)\<rparr>"
  have a: "apply_state_event (last (plr_job_states resp)) ?j = (j1, Inr b)" using answered_attempt [OF assms(1,4)] False by simp
  have st: "jm_status ?j = J_RUNNING" "jm_termination_reason ?j = None" using assms(2,3) by simp_all
  show ?thesis using state_event_effect [OF a st] False by (auto simp: follows_runner_def)
qed

text \<open>
  C26. A running job follows its runner, on other than the local backend: when the first attempt reaches the
  runner, it answers and its logs are stored, the job remembers how far it has read; it terminates exactly
  when the last reported state is a final one, or when nothing was reported and a development environment was
  inactive for too long, and for a reported end the reason is that the runner is done. When no attempt opens a
  tunnel the job is interrupted. Where the logs cannot be stored a reported end can be lost
  (\<open>log_failure_loses_end\<close>).
\<close>

theorem running_job_followed:
  assumes "running_step env l j = Inr j'" and "jm_status j = J_RUNNING" and "jm_termination_reason j = None" and "jpd_backend (rl_jpd l) \<noteq> LOCAL"
  shows "((\<forall>k. \<not> ss_opens (rj_runner env k)) \<longrightarrow> jm_status j' = J_TERMINATING \<and> jm_termination_reason j' = Some INTERRUPTED_BY_NO_CAPACITY)
    \<and> (\<forall>resp. ss_opens (rj_runner env 0)
        \<and> RunnerClient_pull (ss_http (rj_runner env 0) (host_port (rl_jrd l) DSTACK_RUNNER_HTTP_PORT))
            (case jm_runner_timestamp j of None \<Rightarrow> 0 | Some t \<Rightarrow> t) = Inr resp
        \<and> rj_write_logs env 0 (plr_runner_logs resp) (plr_job_logs resp) = Inr () \<longrightarrow>
        jm_runner_timestamp j' = Some (plr_last_updated resp)
        \<and> (jm_status j' = J_TERMINATING \<longleftrightarrow>
             (if plr_job_states resp = [] then idle_too_long (spec_configuration (rm_run_spec (rl_run_model l))) (plr_no_connections_secs resp)
              else jse_state (last (plr_job_states resp)) \<in> {J_DONE, J_FAILED, J_TERMINATED}))
        \<and> (plr_job_states resp \<noteq> [] \<and> jse_state (last (plr_job_states resp)) = J_DONE \<longrightarrow> jm_termination_reason j' = Some DONE_BY_RUNNER))"
proof -
  let ?loop = "tunnel_loop (rj_runner env) (host_port (rl_jrd l) DSTACK_RUNNER_HTTP_PORT) (process_running env (rl_run_model l)) 0 3 j"
  from assms(1,4) obtain j1 b where t: "?loop = (j1, Inr b)" and j': "j' = (if b then j1 else kill_job INTERRUPTED_BY_NO_CAPACITY j1)"
    by (auto simp: running_step_def runner_ssh_tunnel_def settle_Inr bindE_Inr_conv)
  have "\<not> b" if "\<forall>k. \<not> ss_opens (rj_runner env k)" using t that by (simp add: tunnel_loop_closed)
  moreover have "follows_runner (spec_configuration (rm_run_spec (rl_run_model l))) resp j'" if "runner_answers env l j resp" for resp
    unfolding j' by (rule answered_follows [OF that assms(2,3) t])
  ultimately show ?thesis unfolding follows_runner_def runner_answers_def by (auto simp: j')
qed

section \<open>Sample agents and rows\<close>

definition silent :: session where
  "silent = \<lparr>ss_opens = False, ss_http = (\<lambda>_ _. Inl RequestError)\<rparr>"

text \<open>A runner that has reported the end of the job at time 5, and nothing after it.\<close>

definition done_runner :: session where
  "done_runner = \<lparr>ss_opens = True, ss_http = (\<lambda>_ req. case http_body req of
      TimestampParam t \<Rightarrow> Inr \<lparr>http_status = 200, http_payload = PullPayload \<lparr>plr_job_states =
          (if t < 5 then [\<lparr>jse_timestamp = 5, jse_state = J_DONE, jse_termination_reason = None, jse_termination_message = None\<rparr>] else []),
        plr_job_logs = [], plr_runner_logs = [], plr_last_updated = 5, plr_no_connections_secs = None\<rparr>\<rparr>
    | _ \<Rightarrow> Inl RequestError)\<rparr>"

text \<open>A shim of the current version that accepts every task.\<close>

definition ready_shim :: session where
  "ready_shim = \<lparr>ss_opens = True, ss_http = (\<lambda>_ req.
      Inr \<lparr>http_status = 200, http_payload = HealthcheckPayload \<lparr>hr_service = ''dstack-shim'', hr_version = ''0.18.42''\<rparr>\<rparr>)\<rparr>"

definition sample_rj_env :: "time \<Rightarrow> session \<Rightarrow> session \<Rightarrow> rj_env" where
  "sample_rj_env now shim runner = \<lparr>rj_now = now, rj_project = sample_project, rj_shim = (\<lambda>_. shim), rj_runner = (\<lambda>_. runner),
     rj_versions = (\<lambda>_. None), rj_device = (\<lambda>_ _. None), rj_repo_creds = Inr None, rj_code_model = (\<lambda>_. None), rj_storage = None,
     rj_write_logs = (\<lambda>_ _ _. Inr ()), rj_register = Inr ()\<rparr>"

definition placed_job :: "nat \<Rightarrow> nat \<Rightarrow> JobStatus \<Rightarrow> JobModel" where
  "placed_job i n st = (sample_job i 0 n 0 st)\<lparr>jm_job_provisioning_data := Some sample_jpd, jm_instance_assigned := True,
     jm_instance_id := Some 5, jm_used_instance_id := Some 5\<rparr>"

definition running_db :: "JobModel list \<Rightarrow> db" where
  "running_db jobs = \<lparr>db_runs = [sample_run sample_task R_RUNNING jobs], db_instances = [sample_instance 5 I_BUSY 1], db_volumes = [],
     db_fleets = [], db_pools = [], db_placement_groups = []\<rparr>"

text \<open>
  A job of a replica with a failed job that never got an instance cannot be processed: the cluster
  information needs the provisioning data of every job, and the exception undoes the step, so that the
  same job comes first again.
\<close>

theorem failed_sibling_stalls:
  "process_next_running_job (sample_rj_env 10 ready_shim silent) {}
     (running_db [placed_job 1 0 J_PROVISIONING, (sample_job 2 0 1 0 J_FAILED)\<lparr>jm_termination_reason := Some FAILED_TO_START_DUE_TO_NO_CAPACITY\<rparr>]) = Inl ValueError"
  by code_simp

text \<open>
  The end of a job is lost when the log storage fails once: the timestamp is advanced before the
  logs are written, the retry asks only for what is newer, and the job stays running although the
  runner has reported that it is done.
\<close>

theorem log_failure_loses_end:
  "case process_next_running_job ((sample_rj_env 10 silent done_runner)\<lparr>rj_write_logs := (\<lambda>n _ _. if n = 0 then Inl LogStorageError else Inr ())\<rparr>)
     {} (running_db [placed_job 1 0 J_RUNNING]) of
     Inl _ \<Rightarrow> False
   | Inr d \<Rightarrow> map jm_status (db_jobs d) = [J_RUNNING] \<and> map jm_runner_timestamp (db_jobs d) = [Some 5]"
  by code_simp

section \<open>Witnesses\<close>

lemma running_db_ok:
  assumes "jm_status (placed_job 1 0 st) \<in> {J_PROVISIONING, J_PULLING, J_RUNNING}"
  shows "keys_ok (running_db [placed_job 1 0 st])" "\<forall>k \<in> set (db_jobs (running_db [placed_job 1 0 st])). reason_ok k"
    and "next_running_job {} (running_db [placed_job 1 0 st]) = Some (placed_job 1 0 st)"
    and "db_run_of_job (running_db [placed_job 1 0 st]) (placed_job 1 0 st) = Some (sample_run sample_task R_RUNNING [placed_job 1 0 st])"
    and "jobs_inv [placed_job 1 0 st] 10"
    and "group_jobs_by_replica_latest [placed_job 1 0 st] = [(0, [placed_job 1 0 st])]"
  using assms
  by (auto simp: keys_ok_def db_jobs_def running_db_def placed_job_def row_simps reason_ok_def job_stopped_def next_running_job_def
      db_run_of_job_def jobs_inv_def unique_submissions_def job_key_def spec_consistent_def submission_count_def pair_key_def
      group_jobs_by_replica_latest_def)

theorem process_running_job_event_witness:
  "\<exists>d'. process_next_running_job (sample_rj_env 10 ready_shim silent) {} (running_db [placed_job 1 0 J_PROVISIONING]) = Inr d'
     \<and> list_all2 (\<lambda>r r'. run_event (r, 10) (r', 10)) (db_runs (running_db [placed_job 1 0 J_PROVISIONING])) (db_runs d')"
proof -
  have "case process_next_running_job (sample_rj_env 10 ready_shim silent) {} (running_db [placed_job 1 0 J_PROVISIONING]) of Inr _ \<Rightarrow> True | Inl _ \<Rightarrow> False"
    by code_simp
  then obtain d' where d': "process_next_running_job (sample_rj_env 10 ready_shim silent) {} (running_db [placed_job 1 0 J_PROVISIONING]) = Inr d'"
    by (auto split: sum.splits)
  have "jm_status (placed_job 1 0 J_PROVISIONING) \<in> {J_PROVISIONING, J_PULLING, J_RUNNING}" by (simp add: placed_job_def row_simps)
  note ok = running_db_ok [OF this]
  from process_running_job_event [OF ok(1,2,3) d', of 10] d' show ?thesis by blast
qed

text \<open>A replica of two jobs.\<close>

definition pair_jobs :: "JobModel list" where
  "pair_jobs = [placed_job 1 0 J_PROVISIONING, placed_job 2 1 J_PROVISIONING]"

lemma pair_db_ok:
  "keys_ok (running_db pair_jobs)" "\<forall>k \<in> set (db_jobs (running_db pair_jobs)). reason_ok k"
  "next_running_job {} (running_db pair_jobs) = Some (placed_job 1 0 J_PROVISIONING)"
  "db_run_of_job (running_db pair_jobs) (placed_job 1 0 J_PROVISIONING) = Some (sample_run sample_task R_RUNNING pair_jobs)"
  "jobs_inv pair_jobs 10" "group_jobs_by_replica_latest pair_jobs = [(0, pair_jobs)]"
  unfolding pair_jobs_def
  by (auto simp: keys_ok_def db_jobs_def running_db_def placed_job_def row_simps reason_ok_def job_stopped_def next_running_job_def
      db_run_of_job_def jobs_inv_def unique_submissions_def job_key_def spec_consistent_def submission_count_def pair_key_def
      group_jobs_by_replica_latest_def)

theorem replica_starts_together_witness:
  "\<exists>d' j' k. process_next_running_job (sample_rj_env 10 ready_shim silent) {} (running_db pair_jobs) = Inr d'
     \<and> db_jobs d' = [j', k] \<and> jm_status j' = J_PULLING \<and> (\<forall>k \<in> set pair_jobs. \<not> holds_back k \<and> jm_job_provisioning_data k \<noteq> None)"
proof -
  have "case process_next_running_job (sample_rj_env 10 ready_shim silent) {} (running_db pair_jobs) of
      Inr d \<Rightarrow> map jm_id (db_jobs d) = [1, 2] \<and> map jm_status (db_jobs d) = [J_PULLING, J_PROVISIONING] | Inl _ \<Rightarrow> False"
    by code_simp
  then obtain d' j' k where d': "process_next_running_job (sample_rj_env 10 ready_shim silent) {} (running_db pair_jobs) = Inr d'"
    and j': "db_jobs d' = [j', k]" "jm_id j' = 1" "jm_status j' = J_PULLING"
    by (auto split: sum.splits)
  have st: "jm_status (placed_job 1 0 J_PROVISIONING) = J_PROVISIONING" "jm_id (placed_job 1 0 J_PROVISIONING) = 1"
    "jm_replica_num (placed_job 1 0 J_PROVISIONING) = 0" by (simp_all add: placed_job_def row_simps)
  have "\<forall>k \<in> set pair_jobs. \<not> holds_back k \<and> jm_job_provisioning_data k \<noteq> None"
    by (rule replica_starts_together [OF d' pair_db_ok(3,1,2,4), where uid = 10 and j' = j']) (use pair_db_ok(5,6) st j' in \<open>simp_all add: sample_run_def\<close>)
  with d' j' show ?thesis by auto
qed

theorem runner_timeout_witness:
  "\<exists>d' j'. process_next_running_job (sample_rj_env (seconds 601) silent silent) {} (running_db [placed_job 1 0 J_PROVISIONING]) = Inr d'
     \<and> db_jobs d' = [j'] \<and> jm_status j' = J_TERMINATING \<and> jm_termination_reason j' = Some WAITING_RUNNER_LIMIT_EXCEEDED"
proof -
  let ?env = "sample_rj_env (seconds 601) silent silent"
  have "case process_next_running_job ?env {} (running_db [placed_job 1 0 J_PROVISIONING]) of
      Inr d \<Rightarrow> map jm_id (db_jobs d) = [1] | Inl _ \<Rightarrow> False"
    by code_simp
  then obtain d' j' where d': "process_next_running_job ?env {} (running_db [placed_job 1 0 J_PROVISIONING]) = Inr d'"
    and j': "db_jobs d' = [j']" "jm_id j' = 1"
    by (auto split: sum.splits)
  have st: "jm_status (placed_job 1 0 J_PROVISIONING) = J_PROVISIONING" "jm_id (placed_job 1 0 J_PROVISIONING) = 1"
    "jm_replica_num (placed_job 1 0 J_PROVISIONING) = 0" "jm_submitted_at (placed_job 1 0 J_PROVISIONING) = 0"
    "\<not> holds_back (placed_job 1 0 J_PROVISIONING)" "shown_provisioning_data (placed_job 1 0 J_PROVISIONING) = Inr (Some sample_jpd)"
    by (simp_all add: placed_job_def row_simps holds_back_def shown_provisioning_data_def)
  then have "jm_status (placed_job 1 0 J_PROVISIONING) \<in> {J_PROVISIONING, J_PULLING, J_RUNNING}" by simp
  note ok = running_db_ok [OF this]
  have "if (\<exists>k \<in> set [placed_job 1 0 J_PROVISIONING]. holds_back k)
            \<or> rj_now ?env - jm_submitted_at (placed_job 1 0 J_PROVISIONING)
              \<le> get_runner_timeout_interval (get_base_backend sample_jpd) (it_name (jpd_instance_type sample_jpd))
    then jm_status j' = J_PROVISIONING \<and> jm_termination_reason j' = None
    else jm_status j' = J_TERMINATING \<and> jm_termination_reason j' = Some WAITING_RUNNER_LIMIT_EXCEEDED"
    by (rule runner_timeout [OF d' ok(3,1,2,4), where uid = 10])
      (use ok(5,6) st j' in \<open>simp_all add: sample_run_def sample_rj_env_def silent_def sample_jpd_def\<close>)
  moreover have "\<not> rj_now ?env \<le> get_runner_timeout_interval (get_base_backend sample_jpd) (it_name (jpd_instance_type sample_jpd))" by code_simp
  ultimately show ?thesis using d' j' st by simp
qed

theorem cluster_info_addresses_witness:
  "\<exists>v subs ci. run_model_to_run 0 True False (sample_run sample_task R_RUNNING [placed_job 1 0 J_PROVISIONING]) = Inr v
     \<and> replica_submissions (run_jobs v) 0 = Inr subs \<and> get_cluster_info subs sample_jpd None = Inr ci \<and> ci_job_ips ci = [''10.0.0.1'']"
proof -
  let ?run = "sample_run sample_task R_RUNNING [placed_job 1 0 J_PROVISIONING]"
  have "case bindE (run_model_to_run 0 True False ?run) (\<lambda>v. bindE (replica_submissions (run_jobs v) 0) (\<lambda>subs. get_cluster_info subs sample_jpd None)) of
      Inr _ \<Rightarrow> True | Inl _ \<Rightarrow> False" by code_simp
  then obtain v subs ci where v: "run_model_to_run 0 True False ?run = Inr v" "replica_submissions (run_jobs v) 0 = Inr subs"
    "get_cluster_info subs sample_jpd None = Inr ci"
    by (auto split: sum.splits simp: bindE_Inr_conv)
  have "jm_status (placed_job 1 0 J_PROVISIONING) \<in> {J_PROVISIONING, J_PULLING, J_RUNNING}" by (simp add: placed_job_def row_simps)
  note ok = running_db_ok [OF this]
  have "jobs_inv (rm_jobs ?run) 10" "(0, [placed_job 1 0 J_PROVISIONING]) \<in> set (group_jobs_by_replica_latest (rm_jobs ?run))"
    using ok(5,6) by (simp_all add: sample_run_def)
  from cluster_info_addresses [OF this(1) v(1) this(2) v(2,3)] v show ?thesis
    by (auto simp: job_ip_def placed_job_def sample_jpd_def)
qed

definition sample_loaded :: rj_loaded where
  "sample_loaded = \<lparr>rl_run_model = sample_run sample_task R_RUNNING [], rl_run_spec = sample_run_spec sample_task, rl_job_spec = sample_job_spec 0 0,
     rl_subs = [], rl_jpd = sample_jpd, rl_jrd = None, rl_age = 0, rl_cluster_info = \<lparr>ci_job_ips = [], ci_master_job_ip = [], ci_gpus_per_job = 0\<rparr>,
     rl_volumes = [], rl_instance = sample_instance 5 I_BUSY 1, rl_repo_creds = None\<rparr>"

theorem running_job_followed_witness:
  "\<exists>j'. running_step (sample_rj_env 10 silent done_runner) sample_loaded (placed_job 1 0 J_RUNNING) = Inr j'
     \<and> jm_status j' = J_TERMINATING \<and> jm_termination_reason j' = Some DONE_BY_RUNNER \<and> jm_runner_timestamp j' = Some 5"
proof -
  let ?env = "sample_rj_env 10 silent done_runner"
  have "case running_step ?env sample_loaded (placed_job 1 0 J_RUNNING) of Inr _ \<Rightarrow> True | Inl _ \<Rightarrow> False" by code_simp
  then obtain j' where j': "running_step ?env sample_loaded (placed_job 1 0 J_RUNNING) = Inr j'" by (auto split: sum.splits)
  have "jm_status (placed_job 1 0 J_RUNNING) = J_RUNNING" "jm_termination_reason (placed_job 1 0 J_RUNNING) = None"
    "jm_runner_timestamp (placed_job 1 0 J_RUNNING) = None" "jpd_backend (rl_jpd sample_loaded) \<noteq> LOCAL"
    by (simp_all add: placed_job_def row_simps sample_loaded_def)
  with running_job_followed [OF j' this(1,2,4)]
  have "jm_status j' = J_TERMINATING \<and> jm_termination_reason j' = Some DONE_BY_RUNNER \<and> jm_runner_timestamp j' = Some 5"
    by (auto simp: sample_rj_env_def done_runner_def RunnerClient_pull_def runner_request_def checked_request_def parse_payload_def)
  with j' show ?thesis by blast
qed

end
