(* ===== verification/Server_System.thy ===== *)
theory Server_System
  imports Instance_Lifecycle Job_Running
begin

text \<open>
  The background tasks that share jobs and instances, as one transition system on the database: the
  tasks of submitted, running and terminating jobs and the task of instances, interleaved in any order
  and with any answers of the clouds and agents. Its invariant is the accounting of instances: what
  each task relies on is what the others keep.
\<close>

section \<open>The invariant\<close>

text \<open>
  The flag \<open>up\<close> says that the backends of terminating jobs could always be reached. Only where they could
  not there are jobs that have released their instance in a pass that is not marked as done, and blocks
  that were given back twice: the ledger \<open>twice\<close> counts them for each instance.
\<close>

definition job_row_ok :: "bool \<Rightarrow> nat set \<Rightarrow> JobModel \<Rightarrow> bool" where
  "job_row_ok up ids j \<longleftrightarrow> reason_ok j \<and> set_option (jm_used_instance_id j) \<subseteq> ids \<and> 0 \<le> job_blocks j \<and> (jm_instance_assigned j \<or> jm_instance_id j = None)
     \<and> (if job_is_finished (jm_status j) then jm_instance_id j = None
        else assignment_ok j \<or> \<not> up \<and> jm_status j = J_TERMINATING \<and> jm_instance_id j = None)
     \<and> (jm_volumes_detached_at j = None \<or> job_stopped j)"

definition instance_keys :: "db \<Rightarrow> nat set" where
  "instance_keys d = im_id ` set (db_instances d)"

definition ledger_ok :: "bool \<Rightarrow> (nat \<Rightarrow> int) \<Rightarrow> nat set \<Rightarrow> bool" where
  "ledger_ok up twice ids \<longleftrightarrow> (\<forall>k. 0 \<le> twice k \<and> (up \<or> k \<notin> ids \<longrightarrow> twice k = 0))"

definition server_inv :: "bool \<Rightarrow> (nat \<Rightarrow> int) \<Rightarrow> db \<Rightarrow> bool" where
  "server_inv up twice d \<longleftrightarrow> instances_ok twice d \<and> pending_unused d \<and> ledger_ok up twice (instance_keys d)
     \<and> (\<forall>j \<in> set (db_jobs d). job_row_ok up (instance_keys d) j)"

lemma ledger_ok_mono: "ledger_ok up twice ids \<Longrightarrow> ids \<subseteq> ids' \<Longrightarrow> ledger_ok up twice ids'"
  by (auto simp: ledger_ok_def)

lemma server_invD:
  assumes "server_inv up twice d"
  shows "instances_ok twice d" "keys_ok d" "blocks_inv twice d" "pending_unused d" "\<forall>i \<in> set (db_instances d). capacity_ok i"
    and "j \<in> set (db_jobs d) \<Longrightarrow> job_row_ok up (instance_keys d) j" "j \<in> set (db_jobs d) \<Longrightarrow> reason_ok j"
    and "ledger_ok up twice (instance_keys d)" "0 \<le> twice k" "k \<notin> instance_keys d \<Longrightarrow> twice k = 0"
  using assms by (auto simp: server_inv_def instances_ok_def job_row_ok_def ledger_ok_def)

lemma jobs_put_ok:
  assumes "\<forall>j \<in> set (db_jobs d). job_row_ok up ids j" and "job_row_ok up ids j'"
  shows "\<forall>j \<in> set (put_row jm_id j' (db_jobs d)). job_row_ok up ids j"
  using assms set_put_row by fastforce

lemma instance_keys_simps [simp]:
  "instance_keys (db_put_job j d) = instance_keys d" "instance_keys (db_put_instance i d) = instance_keys d"
  "instance_keys (db_add_instance i d) = insert (im_id i) (instance_keys d)"
  "instance_keys (d\<lparr>db_placement_groups := gs\<rparr>) = instance_keys d" "instance_keys (db_add_fleet f d) = instance_keys d"
proof -
  have "im_id ` set (put_row im_id i (db_instances d)) = im_id ` set (db_instances d)" by (metis put_row_keys set_map)
  then show "instance_keys (db_put_instance i d) = instance_keys d" by (simp add: instance_keys_def)
qed (simp_all add: instance_keys_def)

lemma row_ok_mono: "job_row_ok up ids j \<Longrightarrow> ids \<subseteq> ids' \<Longrightarrow> job_row_ok up ids' j"
  by (auto simp: job_row_ok_def)

text \<open>Replacing a job keeps pending instances unused when the job does not take one.\<close>

lemma instance_jobs_put_empty:
  assumes "instance_jobs d k = []" and "jm_instance_id j' \<noteq> Some k"
  shows "instance_jobs (db_put_job j' d) k = []"
  using assms set_put_row [of jm_id j' "db_jobs d"] by (fastforce simp: instance_jobs_def filter_empty_conv)

lemma pending_unused_put:
  assumes "pending_unused d" and "j \<in> set (db_jobs d)" and "jm_instance_id j' \<in> {None, jm_instance_id j}"
  shows "pending_unused (db_put_job j' d)"
proof -
  have "instance_jobs (db_put_job j' d) (im_id i) = []" if "i \<in> set (db_instances d)" "im_status i = I_PENDING" for i
  proof (rule instance_jobs_put_empty)
    show n: "instance_jobs d (im_id i) = []" using assms(1) that by (simp add: pending_unused_def)
    show "jm_instance_id j' \<noteq> Some (im_id i)" using n assms(2,3) by (auto simp: instance_jobs_def filter_empty_conv)
  qed
  then show ?thesis by (simp add: pending_unused_def)
qed

lemma pending_unused_put_both:
  assumes "pending_unused d" and "keys_ok d" and "i \<in> set (db_instances d)" and "im_id i' = im_id i"
    and "j \<in> set (db_jobs d)" and "jm_instance_id j' \<in> {None, jm_instance_id j, Some (im_id i)}"
    and "im_status i' = I_PENDING \<longrightarrow> im_status i = I_PENDING \<and> jm_instance_id j' = None"
  shows "pending_unused (db_put_job j' (db_put_instance i' d))"
proof -
  have di: "distinct (map im_id (db_instances d))" using assms(2) by (simp add: keys_ok_def)
  have "instance_jobs (db_put_job j' (db_put_instance i' d)) (im_id m) = []"
    if "m \<in> set (put_row im_id i' (db_instances d))" "im_status m = I_PENDING" for m
  proof (cases "m = i'")
    case True
    with that assms(1,3,4,7) show ?thesis by (intro instance_jobs_put_empty) (simp_all add: pending_unused_def)
  next
    case False
    with that have m: "m \<in> set (db_instances d)" "m \<noteq> i" by (auto simp: set_put_row_eq [OF di assms(3,4)])
    then have ne: "im_id m \<noteq> im_id i" using di assms(3) by (auto simp: distinct_map inj_on_def)
    have n: "instance_jobs d (im_id m) = []" using assms(1) m that by (simp add: pending_unused_def)
    then have "jm_instance_id j \<noteq> Some (im_id m)" using assms(5) by (auto simp: instance_jobs_def filter_empty_conv)
    with ne n assms(6) show ?thesis by (intro instance_jobs_put_empty) auto
  qed
  then show ?thesis by (simp add: pending_unused_def)
qed

section \<open>Running jobs\<close>

lemma job_kept_row_ok:
  assumes "job_row_ok up ids j" and "job_life j j'" and "jm_status j \<in> {J_PROVISIONING, J_PULLING, J_RUNNING}"
  shows "job_row_ok up ids j'"
proof -
  have k: "jm_instance_id j' = jm_instance_id j" "jm_used_instance_id j' = jm_used_instance_id j" "job_blocks j' = job_blocks j"
    "jm_instance_assigned j' = jm_instance_assigned j" "jm_volumes_detached_at j' = jm_volumes_detached_at j"
    using assms(2) by (simp_all add: job_life_def job_kept_def)
  have "jm_volumes_detached_at j = None" using assms(1,3) by (auto simp: job_row_ok_def job_stopped_def)
  moreover have "\<not> job_is_finished (jm_status j)" "\<not> job_is_finished (jm_status j')" using assms(2,3) by (auto simp: job_life_def)
  ultimately show ?thesis
    using assms(1,3) job_life_reason_ok [OF assms(2,3)] by (auto simp: job_row_ok_def k assignment_ok_def)
qed

lemma running_inv:
  assumes "server_inv up twice d" and "process_next_running_job env lockset d = Inr d'"
  shows "server_inv up twice d'"
proof (cases "next_running_job lockset d")
  case None
  with assms show ?thesis by (simp add: process_next_running_job_def)
next
  case (Some j)
  note inv = server_invD [OF assms(1)]
  note j = next_running_job_Some [OF Some]
  have no: "jm_termination_reason j = None" using active_no_reason [OF inv(7) [OF j(1)] j(2)] .
  from Some assms(2) have "process_running_job env j d = Inr d'" by (simp add: process_next_running_job_def)
  then obtain j1 where d1: "d' = db_put_job (j1\<lparr>jm_last_processed_at := rj_now env\<rparr>) d" and l1: "job_life j j1"
    by (rule process_running_job_row [OF _ j(2) no inv(2) j(1)])
  define j' where "j' = j1\<lparr>jm_last_processed_at := rj_now env\<rparr>"
  have d': "d' = db_put_job j' d" and l: "job_life j j'" using d1 l1 by (simp_all add: j'_def job_life_def)
  have k: "jm_id j' = jm_id j" "jm_instance_id j' = jm_instance_id j" "job_blocks j' = job_blocks j"
    using l by (simp_all add: job_life_def job_kept_def same_row_def)
  have "blocks_inv twice d'" unfolding d' by (rule blocks_inv_put_job [OF inv(2,3) j(1) k])
  moreover have "pending_unused d'" unfolding d' by (rule pending_unused_put [OF inv(4) j(1)]) (simp add: k)
  moreover have "\<forall>j \<in> set (put_row jm_id j' (db_jobs d)). job_row_ok up (instance_keys d) j"
    using inv(6) job_kept_row_ok [OF inv(6) [OF j(1)] l j(2)] by (intro jobs_put_ok) auto
  ultimately show ?thesis using inv(2,5,8) by (simp add: server_inv_def instances_ok_def d')
qed

section \<open>Instances\<close>

lemma instance_inv:
  assumes "server_inv up twice d" and "process_next_instance env lockset d = Inr d'" and "plain_offers (ie_backends env)"
  shows "server_inv up twice d'"
proof -
  note inv = server_invD [OF assms(1)]
  have d': "db_runs d' = db_runs d \<and> instance_keys d' = instance_keys d"
  proof (cases "next_instance lockset d")
    case (Some i)
    then have "process_instance env i d = Inr d'" using assms(2) by (simp add: process_next_instance_def)
    then show ?thesis by (auto simp: process_instance_def fmapE_Inr_conv)
  qed (use assms(2) in \<open>simp add: process_next_instance_def\<close>)
  then have "db_jobs d' = db_jobs d" by (simp add: db_jobs_def)
  with next_instance_blocks [OF assms(2) inv(1,4) assms(3)] inv(6,8,9) d' show ?thesis by (simp add: server_inv_def)
qed

section \<open>Terminating jobs\<close>

lemma set_status_row_ok:
  assumes "job_row_ok up ids j" and "jm_status j = J_TERMINATING"
    and "job_blocks j' = job_blocks j" and "jm_termination_reason j' = jm_termination_reason j" and "jm_status j' = jm_status j"
    and "jm_instance_assigned j' = jm_instance_assigned j" and "jm_instance_id j' = None"
    and "jm_used_instance_id j' = jm_used_instance_id j"
  shows "job_row_ok up ids (set_job_termination_status j')"
proof -
  from assms(1,2) obtain r where r: "jm_termination_reason j = Some r" by (auto simp: job_row_ok_def reason_ok_def job_stopped_def)
  have f: "job_is_finished (job_reason_to_status r)" by simp
  have "job_blocks (set_job_termination_status j') = job_blocks j'" by (simp add: set_job_termination_status_def job_blocks_def)
  with assms r f show ?thesis
    by (auto simp: job_row_ok_def set_job_termination_status_def reason_ok_def job_stopped_def)
qed

lemma detach_keeps_more [simp]:
  "jm_used_instance_id (dr_job (detach_volumes_from_job_instance env job jpd inst vs)) = jm_used_instance_id job"
  "jm_used_instance_id (dr_job (stop_and_detach env ws job inst)) = jm_used_instance_id job"
  "jm_instance_assigned (dr_job (detach_volumes_from_job_instance env job jpd inst vs)) = jm_instance_assigned job"
  "im_total_blocks (dr_instance (detach_volumes_from_job_instance env job jpd inst vs)) = im_total_blocks inst"
  "im_offer (dr_instance (detach_volumes_from_job_instance env job jpd inst vs)) = im_offer inst"
  "jm_instance_assigned (dr_job (stop_and_detach env ws job inst)) = jm_instance_assigned job"
  "im_total_blocks (dr_instance (stop_and_detach env ws job inst)) = im_total_blocks inst"
  "im_offer (dr_instance (stop_and_detach env ws job inst)) = im_offer inst"
  by (simp_all add: detach_volumes_from_job_instance_def stop_and_detach_def Let_def split: option.splits)

lemma detaching_marked:
  assumes "\<forall>b. te_backend env b" and "\<not> dr_all_detached (stop_and_detach env vs j i)"
  shows "jm_volumes_detached_at (dr_job (stop_and_detach env vs j i)) \<noteq> None"
  using assms by (auto simp: stop_and_detach_def detach_volumes_from_job_instance_def Let_def split: option.splits if_split_asm)

lemma released_not_pending: "released_status j ks st \<noteq> I_PENDING"
  by (auto simp: released_status_def Let_def split: option.splits)

lemma waiting_row_ok:
  assumes "job_row_ok up ids j" and "jm_status j = J_TERMINATING"
    and "job_blocks j' = job_blocks j" and "jm_termination_reason j' = jm_termination_reason j" and "jm_status j' = jm_status j"
    and "jm_instance_id j' = None" and "up \<Longrightarrow> jm_volumes_detached_at j' \<noteq> None" and "jm_used_instance_id j' = jm_used_instance_id j"
  shows "job_row_ok up ids j'"
  using assms by (auto simp: job_row_ok_def reason_ok_def job_stopped_def assignment_ok_def)

text \<open>One job: its row and the row of its instance afterwards.\<close>

lemma terminating_rows:
  assumes "job_row_ok up ids j" and "jm_status j = J_TERMINATING" and "process_terminating_job env vs run ks j (Some i) = Inr (j', oi, calls)"
    and "up \<longrightarrow> (\<forall>b. te_backend env b)" and "capacity_ok i"
  obtains (later) "j' = j" "oi = Some i"
  | (released) i' where "oi = Some i'" "job_row_ok up ids j'" "im_id i' = im_id i" "im_status i' \<noteq> I_PENDING" "capacity_ok i'"
      "jm_id j' = jm_id j" "jm_instance_id j' = None"
proof (cases "case jm_remove_at j of Some t \<Rightarrow> t > te_now env | None \<Rightarrow> False")
  case True
  with assms(3) show thesis by (intro later) (simp_all add: process_terminating_job_def)
next
  case False
  let ?r = "stop_and_detach env vs j i"
  let ?j = "(dr_job ?r)\<lparr>jm_instance_id := None\<rparr>"
  let ?i = "(dr_instance ?r)\<lparr>im_busy_blocks := im_busy_blocks i - job_blocks j, im_status := released_status j ks (im_status i),
      im_last_job_processed_at := Some (te_now env)\<rparr>"
  from assms(3) False have j': "j' = (if dr_all_detached ?r then set_job_termination_status ?j else ?j)" and oi: "oi = Some ?i"
    by (auto simp: process_terminating_job_def Let_def bindE_Inr_conv)
  have "job_row_ok up ids j'"
  proof (cases "dr_all_detached ?r")
    case True
    then show ?thesis unfolding j' using assms(1,2) by (simp del: set_status_keeps) (rule set_status_row_ok [OF assms(1,2)]; simp)
  next
    case False
    then show ?thesis unfolding j' using detaching_marked [of env vs j i] assms(4) waiting_row_ok [OF assms(1,2), of ?j] by simp
  qed
  moreover have "capacity_ok ?i" using assms(1,5) by (auto simp: capacity_ok_def job_row_ok_def)
  ultimately show thesis using oi by (intro released [of ?i]) (simp_all add: j' released_not_pending)
qed

lemma detaching_rows:
  assumes "job_row_ok up ids j" and "jm_status j = J_TERMINATING" and "jm_volumes_detached_at j \<noteq> None"
    and "process_volumes_detaching env vs j i = Inr (j', i', calls)" and "capacity_ok i"
  shows "job_row_ok up ids j'" "im_id i' = im_id i" "im_status i' = im_status i" "capacity_ok i'" "jm_id j' = jm_id j" "jm_instance_id j' = None"
proof -
  have none: "jm_instance_id j = None" using assms(1-3) by (auto simp: job_row_ok_def assignment_ok_def split: if_split_asm)
  from assms(4) obtain jpd where j': "j' = (if dr_all_detached (detach_volumes_from_job_instance env j jpd i (volumes_to_detach vs j i))
      then set_job_termination_status (dr_job (detach_volumes_from_job_instance env j jpd i (volumes_to_detach vs j i)))
      else dr_job (detach_volumes_from_job_instance env j jpd i (volumes_to_detach vs j i)))"
    and i': "i' = dr_instance (detach_volumes_from_job_instance env j jpd i (volumes_to_detach vs j i))"
    by (auto simp: process_volumes_detaching_def Let_def bindE_Inr_conv)
  let ?j = "dr_job (detach_volumes_from_job_instance env j jpd i (volumes_to_detach vs j i))"
  have m: "jm_volumes_detached_at ?j \<noteq> None" using assms(3) by (simp add: detach_volumes_from_job_instance_def Let_def)
  have "job_row_ok up ids (set_job_termination_status ?j)" by (rule set_status_row_ok [OF assms(1,2)]) (use none in simp_all)
  moreover have "job_row_ok up ids ?j" by (rule waiting_row_ok [OF assms(1,2)]) (use m none in simp_all)
  ultimately show "job_row_ok up ids j'" by (simp add: j')
  show "im_id i' = im_id i" "im_status i' = im_status i" "capacity_ok i'" "jm_id j' = jm_id j" "jm_instance_id j' = None"
    using assms(5) none by (simp_all add: i' j' capacity_ok_def)
qed

lemma row_ok_touch [simp]: "job_row_ok up ids (j\<lparr>jm_last_processed_at := t\<rparr>) = job_row_ok up ids j"
  by (simp add: job_row_ok_def reason_ok_def job_stopped_def assignment_ok_def)

lemma server_inv_put_both:
  assumes "server_inv up twice d" and "i \<in> set (db_instances d)" and "im_id i' = im_id i" and "capacity_ok i'"
    and "j \<in> set (db_jobs d)" and "job_row_ok up (instance_keys d) j'" and "jm_instance_id j' \<in> {None, jm_instance_id j, Some (im_id i)}"
    and "im_status i' = I_PENDING \<longrightarrow> im_status i = I_PENDING \<and> jm_instance_id j' = None"
    and "keys_ok (db_put_job j' (db_put_instance i' d)) \<and> blocks_inv twice' (db_put_job j' (db_put_instance i' d))"
    and "ledger_ok up twice' (instance_keys d)"
  shows "server_inv up twice' (db_put_job j' (db_put_instance i' d))"
proof -
  note inv = server_invD [OF assms(1)]
  have "pending_unused (db_put_job j' (db_put_instance i' d))"
    by (rule pending_unused_put_both [OF inv(4,2) assms(2,3,5,7,8)])
  moreover have "\<forall>m \<in> set (put_row im_id i' (db_instances d)). capacity_ok m" using inv(5) assms(4) set_put_row by fastforce
  moreover have "\<forall>k \<in> set (put_row jm_id j' (db_jobs d)). job_row_ok up (instance_keys d) k" using inv(6) assms(6) by (intro jobs_put_ok) auto
  ultimately show ?thesis using assms(9,10) by (simp add: server_inv_def instances_ok_def)
qed

lemma next_terminating_job_Some:
  assumes "next_terminating_job now jl il d = Some j"
  shows "j \<in> set (db_jobs d)" and "jm_status j = J_TERMINATING"
proof -
  from assms have "j \<in> set (terminating_candidates now jl (db_jobs d))"
    unfolding next_terminating_job_def
    by (auto split: list.split_asm option.split_asm if_split_asm dest: arg_cong [where f = set])
  then show "j \<in> set (db_jobs d)" "jm_status j = J_TERMINATING" by (auto simp: terminating_candidates_def)
qed

text \<open>The ledger after a step of the task of terminating jobs.\<close>

definition next_ledger :: "time \<Rightarrow> nat set \<Rightarrow> nat set \<Rightarrow> db \<Rightarrow> (nat \<Rightarrow> int) \<Rightarrow> nat \<Rightarrow> int" where
  "next_ledger now jl il d twice = (case next_terminating_job now jl il d of None \<Rightarrow> twice | Some j \<Rightarrow> ledger_after now j twice)"

lemma terminating_assigned:
  assumes "job_row_ok up (instance_keys d) j" and "jm_status j = J_TERMINATING"
  shows "assignment_ok j \<or> \<not> up \<and> jm_instance_id j = None \<and> (\<exists>i m. jm_used_instance_id j = Some i \<and> db_instance d i = Some m)"
proof (cases "assignment_ok j")
  case False
  then have n: "\<not> up" "jm_instance_id j = None" using assms by (auto simp: job_row_ok_def)
  with False obtain i where i: "jm_used_instance_id j = Some i" by (cases "jm_used_instance_id j") (auto simp: assignment_ok_def split: if_split_asm)
  with assms(1) have "i \<in> instance_keys d" by (simp add: job_row_ok_def)
  then have "db_instance d i \<noteq> None" by (auto simp: instance_keys_def db_instance_def find_None_iff)
  with n i show ?thesis by auto
qed simp

lemma ledger_after_ok:
  assumes "ledger_ok up twice (instance_keys d)" and "job_row_ok up (instance_keys d) j" and "jm_status j = J_TERMINATING"
  shows "ledger_ok up (ledger_after now j twice) (instance_keys d)"
proof (cases "assignment_ok j")
  case True
  with assms(1) show ?thesis by (simp add: ledger_after_assigned)
next
  case False
  then have "\<not> up" using assms(2,3) by (auto simp: job_row_ok_def)
  moreover have "0 \<le> job_blocks j" "set_option (jm_used_instance_id j) \<subseteq> instance_keys d" using assms(2) by (simp_all add: job_row_ok_def)
  ultimately show ?thesis using assms(1) by (auto simp: ledger_ok_def ledger_after_def split: option.split)
qed

lemma terminating_inv:
  assumes "server_inv up twice d" and "process_next_terminating_job env jl il d = Inr (d', calls)" and av: "up \<longrightarrow> (\<forall>b. te_backend env b)"
  shows "server_inv up (next_ledger (te_now env) jl il d twice) d'"
proof (cases "next_terminating_job (te_now env) jl il d")
  case None
  with assms show ?thesis by (simp add: process_next_terminating_job_def next_ledger_def)
next
  case (Some j)
  note inv = server_invD [OF assms(1)]
  note j = next_terminating_job_Some [OF Some]
  have ok: "job_row_ok up (instance_keys d) j" using inv(6) j(1) .
  note asg = terminating_assigned [OF ok j(2)]
  define twice' where "twice' = ledger_after (te_now env) j twice"
  have ledger: "ledger_ok up twice' (instance_keys d)" unfolding twice'_def using inv(8) ok j(2) by (rule ledger_after_ok)
  from Some assms(2) have p: "process_job env d j = Inr (d', calls)" by (simp add: process_next_terminating_job_def)
  have b: "keys_ok d' \<and> blocks_inv twice' d'"
    unfolding twice'_def using asg by (intro terminating_job_ledger [OF inv(2,3) j(1) _ p]) blast
  from p have "server_inv up twice' d'"
  proof (cases rule: process_job_cases)
    case (no_instance run j')
    then have j': "j' = j \<or> j' = set_job_termination_status j"
      by (auto simp: process_terminating_job_def bindE_Inr_conv split: if_split_asm)
    have "jm_instance_id j = None" using asg no_instance(3) ok
      by (cases "jm_used_instance_id j") (auto simp: assignment_ok_def job_row_ok_def instance_keys_def db_instance_def find_None_iff split: if_split_asm)
    with j' ok set_status_row_ok [OF ok j(2), of j] have r: "job_row_ok up (instance_keys d) j'" by auto
    have "pending_unused d'" unfolding no_instance(2) by (rule pending_unused_put [OF inv(4) j(1)]) (use j' in auto)
    moreover have "\<forall>k \<in> set (put_row jm_id (j'\<lparr>jm_last_processed_at := te_now env\<rparr>) (db_jobs d)). job_row_ok up (instance_keys d) k"
      using inv(6) r by (intro jobs_put_ok) auto
    ultimately show ?thesis using b inv(5) ledger by (simp add: server_inv_def instances_ok_def no_instance(2))
  next
    case (terminating run i m ks j' m')
    have m: "m \<in> set (db_instances d)" "im_id m = i" using db_instance_Some [OF terminating(2)] by auto
    have inst: "jm_instance_id j \<in> {None, Some (im_id m)}" using asg terminating(1,3) m by (auto simp: assignment_ok_def)
    have "capacity_ok m" using inv(5) m(1) by blast
    with ok j(2) terminating(4) av show ?thesis
    proof (cases rule: terminating_rows)
      case later
      have "im_status m' = I_PENDING \<Longrightarrow> jm_instance_id j = None"
        using inv(4) m later inst j(1) by (auto simp: pending_unused_def instance_jobs_def filter_empty_conv)
      then show ?thesis unfolding terminating(5)
        by (intro server_inv_put_both [OF assms(1) m(1) _ _ j(1)]) (use later inv(5) m(1) ok b ledger terminating(5) in auto)
    next
      case (released i')
      then show ?thesis unfolding terminating(5)
        by (intro server_inv_put_both [OF assms(1) m(1) _ _ j(1)]) (use b ledger terminating(5) in auto)
    qed
  next
    case (detaching i m j' m')
    have m: "m \<in> set (db_instances d)" "capacity_ok m" using db_instance_Some [OF detaching(2)] inv(5) by auto
    note r = detaching_rows [OF ok j(2) detaching(3,4) m(2)]
    show ?thesis unfolding detaching(5)
      by (intro server_inv_put_both [OF assms(1) m(1) _ _ j(1)]) (use r b ledger detaching(5) in auto)
  qed
  with Some show ?thesis by (simp add: next_ledger_def twice'_def)
qed

section \<open>Submitted jobs\<close>

lemma submitted_row:
  assumes "job_row_ok up ids j" and "jm_status j = J_SUBMITTED"
  shows "jm_volumes_detached_at j = None" "jm_used_instance_id j = jm_instance_id j" "jm_termination_reason j = None"
  using assms by (auto simp: job_row_ok_def assignment_ok_def reason_ok_def job_stopped_def)

lemma parked_row_ok:
  assumes "job_row_ok up ids j" and "jm_status j = J_SUBMITTED" and "parked env j j'"
  shows "job_row_ok up ids j'"
  using assms submitted_row [OF assms(1,2)]
  by (auto simp: parked_def touch_job_def no_capacity_def volume_failure_def job_row_ok_def reason_ok_def job_stopped_def assignment_ok_def job_blocks_def)

lemma assigned_blocks_nonneg:
  assumes iwo: "instances_with_offers matches (refetch_pool_instances d ids) profile spec fid master vss = Inr iwo"
    and mem: "(i, off) \<in> set iwo" and ok: "\<forall>i \<in> set (db_instances d). capacity_ok i"
  shows "0 \<le> of_blocks off"
proof (cases "whole_instance matches profile spec master i off")
  case True
  have "i \<in> set (db_instances d)" using assign_capacity(1) [OF assms] .
  with True ok have "of_blocks off = 1" by (auto simp: whole_instance_def capacity_ok_def)
  then show ?thesis by simp
next
  case False
  with instances_with_offers_sound [OF iwo mem] have "least_share matches (js_requirements spec) i off" by (simp add: shared_blocks_def)
  then show ?thesis unfolding least_share_def by force
qed

lemma assigned_row_ok:
  assumes "job_row_ok up ids j" and "jm_status j = J_SUBMITTED" and "jrd_offer jrd = Some off" and "0 \<le> of_blocks off" and "im_id i \<in> ids"
  shows "job_row_ok up ids (assigned_row env j i jrd)"
  using assms submitted_row [OF assms(1,2)]
  by (simp add: job_row_ok_def assigned_row_blocks [OF assms(3)])
    (simp add: assigned_row_def touch_job_def reason_ok_def job_stopped_def assignment_ok_def)

lemma attach_frame_row_ok:
  assumes "attach_frame j i j' i'" and "jm_status j = J_PROVISIONING" and "jm_termination_reason j = None" and "0 \<le> job_blocks j"
    and "jm_instance_assigned j" and "jm_volumes_detached_at j = None" and "jm_used_instance_id j = jm_instance_id j"
    and "set_option (jm_used_instance_id j) \<subseteq> ids"
  shows "job_row_ok up ids (touch_job env j')"
proof -
  have r: "reason_ok j'" "\<not> job_is_finished (jm_status j')" using attach_frame_status [OF assms(1-3)] by auto
  have f: "jm_instance_id j' = jm_instance_id j" "jm_used_instance_id j' = jm_used_instance_id j" "job_blocks j' = job_blocks j"
    "jm_instance_assigned j' = jm_instance_assigned j" "jm_volumes_detached_at j' = jm_volumes_detached_at j"
    using assms(1) by (simp_all add: attach_frame_def)
  have "assignment_ok (touch_job env j')" "jm_instance_assigned (touch_job env j')" "jm_volumes_detached_at (touch_job env j') = None"
    using assms(5-7) f by (simp_all add: assignment_ok_def touch_job_def)
  with r f assms(4,8) show ?thesis by (simp add: job_row_ok_def) (simp add: touch_job_def)
qed

lemma next_submitted_job_Some:
  assumes "next_submitted_job lockset d = Some j"
  shows "j \<in> set (db_jobs d)" and "jm_status j = J_SUBMITTED"
proof -
  from assms have "j \<in> set (filter (\<lambda>j. jm_status j = J_SUBMITTED \<and> jm_id j \<notin> lockset) (db_jobs d))"
    unfolding next_submitted_job_def by (auto split: list.split_asm dest: sort_filter_head)
  then show "j \<in> set (db_jobs d)" "jm_status j = J_SUBMITTED" by auto
qed

text \<open>What each kind of step of the task keeps besides the blocks.\<close>

definition rest_inv :: "bool \<Rightarrow> (nat \<Rightarrow> int) \<Rightarrow> db \<Rightarrow> bool" where
  "rest_inv up twice d \<longleftrightarrow> pending_unused d \<and> ledger_ok up twice (instance_keys d) \<and> (\<forall>j \<in> set (db_jobs d). job_row_ok up (instance_keys d) j)"

lemma rest_inv_put:
  assumes "server_inv up twice d" and "j \<in> set (db_jobs d)" and "job_row_ok up (instance_keys d) j'" and "jm_instance_id j' \<in> {None, jm_instance_id j}"
  shows "rest_inv up twice (db_put_job j' d)"
  using pending_unused_put [OF _ assms(2,4)] jobs_put_ok [of d up "instance_keys d" j'] assms(1,3) by (simp add: rest_inv_def server_inv_def)

lemma rest_inv_put_both:
  assumes "server_inv up twice d" and "i \<in> set (db_instances d)" and "im_id i' = im_id i"
    and "j \<in> set (db_jobs d)" and "job_row_ok up (instance_keys d) j'" and "jm_instance_id j' \<in> {None, jm_instance_id j, Some (im_id i)}"
    and "im_status i' = I_PENDING \<longrightarrow> im_status i = I_PENDING \<and> jm_instance_id j' = None"
  shows "rest_inv up twice (db_put_job j' (db_put_instance i' d))"
proof -
  note inv = server_invD [OF assms(1)]
  have "pending_unused (db_put_job j' (db_put_instance i' d))"
    by (rule pending_unused_put_both [OF inv(4,2) assms(2,3,4,6,7)])
  moreover have "\<forall>k \<in> set (put_row jm_id j' (db_jobs d)). job_row_ok up (instance_keys d) k" using inv(6) assms(5) by (intro jobs_put_ok) auto
  ultimately show ?thesis using inv(8) by (simp add: rest_inv_def)
qed

lemma parked_rest:
  assumes "server_inv up twice d" and "j \<in> set (db_jobs d)" and "jm_status j = J_SUBMITTED" and "parked env j j'"
  shows "rest_inv up twice (db_put_job j' d)"
proof -
  note inv = server_invD [OF assms(1)]
  have "job_row_ok up (instance_keys d) j'" using parked_row_ok [OF inv(6) [OF assms(2)] assms(3,4)] .
  then show ?thesis using parked_row [OF assms(4)] by (intro rest_inv_put [OF assms(1,2)]) simp_all
qed

lemma assign_rest:
  assumes "server_inv up twice d" and "j \<in> set (db_jobs d)" and "jm_status j = J_SUBMITTED"
    and "assign_step env seen d pool profile spec fid master vss j = Inr d'"
  shows "rest_inv up twice d'"
  using assms(4)
proof (cases rule: assign_step_cases)
  case none
  then show ?thesis using parked_rest [OF assms(1-3), of env] by (simp add: parked_def)
next
  case (some i off jrd iwo rest)
  note inv = server_invD [OF assms(1)]
  have mem: "(i, off) \<in> set iwo" using some(2) set_sort [of "\<lambda>(i, off). instance_price i" iwo] by auto
  have i: "i \<in> set (db_instances d)" using assign_capacity(1) [OF some(1) mem inv(5)] .
  have "job_row_ok up (instance_keys d) (assigned_row env j i jrd)"
    using inv(6) [OF assms(2)] assms(3) prepare_runtime_offer [OF some(3)] assigned_blocks_nonneg [OF some(1) mem inv(5)]
    by (rule assigned_row_ok) (use i in \<open>simp add: instance_keys_def\<close>)
  then show ?thesis unfolding some(4) by (intro rest_inv_put_both [OF assms(1) i _ assms(2)]) simp_all
qed

lemma provision_rest:
  assumes "server_inv up twice d" and "j \<in> set (db_jobs d)" and "jm_status j = J_SUBMITTED" and "jm_instance_assigned j"
    and "fresh_key (sj_uid env) d" and "\<forall>req. \<forall>(b, off) \<in> offered (sj_backends env) req. of_blocks off = 1"
    and "provision_step env d pool run_model run job master vms j = Inr d'"
  shows "rest_inv up twice d'"
  using assms(7)
proof (cases rule: provision_step_cases)
  case no_capacity
  then show ?thesis using parked_rest [OF assms(1-3), of env] by (simp add: parked_def)
next
  case (existing i j' i')
  note inv = server_invD [OF assms(1)]
  note s = submitted_row [OF inv(6) [OF assms(2)] assms(3)]
  have b: "0 \<le> job_blocks j" "set_option (jm_used_instance_id j) \<subseteq> instance_keys d"
    using inv(6) [OF assms(2)] by (simp_all add: job_row_ok_def)
  have "job_row_ok up (instance_keys d) (touch_job env j')"
    by (rule attach_frame_row_ok [OF existing(3)]) (use s b assms(4) in \<open>simp_all, simp add: job_blocks_def\<close>)
  moreover have "im_status i \<noteq> I_PENDING"
    using inv(4) existing(1,2) assms(2) by (auto simp: pending_unused_def instance_jobs_def filter_empty_conv)
  moreover have "jm_instance_id j' = jm_instance_id j" using existing(3) by (simp add: attach_frame_def)
  ultimately show ?thesis unfolding existing(4) using attach_frame_instance [OF existing(3)]
    by (intro rest_inv_put_both [OF assms(1) existing(2) _ assms(2)]) simp_all
next
  case (new jpd offer fleet jrd j' i')
  note inv = server_invD [OF assms(1)]
  note s = submitted_row [OF inv(6) [OF assms(2)] assms(3)]
  have one: "of_blocks offer = 1" using new(2) assms(6) by (rule new_offer_blocks)
  have st: "im_status i' = I_PROVISIONING" "im_id i' = sj_uid env" using attach_frame_instance [OF new(4)]
    by (simp_all add: new_instance_of_def create_instance_model_for_job_def split_def Let_def)
  have "job_row_ok up (instance_keys d') (touch_job env j')"
    by (rule attach_frame_row_ok [OF new(4)])
      (use st s one assms(4) prepare_runtime_offer [OF new(3)] in \<open>simp_all add: provisioned_row_def job_blocks_def new(5)\<close>)
  then have rows: "\<forall>k \<in> set (put_row jm_id (touch_job env j') (db_jobs d)). job_row_ok up (instance_keys d') k"
    using inv(6) row_ok_mono [of up "instance_keys d" _ "instance_keys d'"] by (intro jobs_put_ok) (auto simp: new(5))
  have id: "jm_instance_id j' = Some (sj_uid env)" using new(4) by (simp add: attach_frame_def provisioned_row_def)
  have "instance_jobs (db_put_job (touch_job env j') d) (im_id m) = []" if "m \<in> set (db_instances d)" "im_status m = I_PENDING" for m
    using that inv(4) assms(5) id by (intro instance_jobs_put_empty) (auto simp: pending_unused_def fresh_key_def)
  then have "pending_unused d'" using st unfolding new(5) by (auto simp: pending_unused_def instance_jobs_def)
  moreover have "ledger_ok up twice (instance_keys d')" using inv(8) by (rule ledger_ok_mono) (auto simp: new(5))
  ultimately show ?thesis using rows by (simp add: rest_inv_def new(5))
qed

lemma submitted_inv:
  assumes "server_inv up twice d" and "process_next_submitted_job env lockset seen d = Inr d'" and "fresh_key (sj_uid env) d"
    and "plain_offers (sj_backends env)"
  shows "server_inv up twice d'"
proof (cases "next_submitted_job lockset d")
  case None
  with assms show ?thesis by (simp add: process_next_submitted_job_def)
next
  case (Some j)
  note inv = server_invD [OF assms(1)]
  note j = next_submitted_job_Some [OF Some]
  have p: "process_submitted_job env seen d j = Inr d'" using Some assms(2) by (simp add: process_next_submitted_job_def)
  have one: "\<forall>req. \<forall>(b, off) \<in> offered (sj_backends env) req. of_blocks off = 1" using assms(4) by (fastforce simp: plain_offers_def)
  have free: "\<not> jm_instance_assigned j \<longrightarrow> jm_instance_id j = None" using inv(6) [OF j(1)] by (auto simp: job_row_ok_def)
  have "sj_uid env \<notin> instance_keys d" using assms(3) by (auto simp: fresh_key_def instance_keys_def)
  then have "instances_ok twice d'" by (intro submitted_job_blocks [OF inv(1) j(1) free assms(3) _ one p]) (rule inv(10))
  moreover from p have "rest_inv up twice d'"
  proof (cases rule: process_submitted_job_cases)
    case (parked j')
    then show ?thesis using parked_rest [OF assms(1) j] by simp
  next
    case (assign run_model spec pool master vss)
    then show ?thesis using assign_rest [OF assms(1) j] by simp
  next
    case (provision run_model run job pool master vms)
    then show ?thesis using provision_rest [OF assms(1) j _ assms(3) one] by simp
  qed
  ultimately show ?thesis by (simp add: server_inv_def rest_inv_def)
qed

end
