(* ===== verification/Run_Rows.thy ===== *)
theory Run_Rows
  imports Run_System
begin

text \<open>
  What the runs task and the requests on runs do to the placement of jobs on instances: nothing. The
  rows after a step are those before it, unchanged or marked terminating, and new rows without an
  instance and with fresh keys.
\<close>

named_theorems from_intros \<open>operations on runs keep the placement of the rows\<close>

definition placement :: "JobModel \<Rightarrow> nat option \<times> nat option \<times> bool \<times> int \<times> time option" where
  "placement j = (jm_instance_id j, jm_used_instance_id j, jm_instance_assigned j, job_blocks j, jm_volumes_detached_at j)"

definition row_step :: "JobModel \<Rightarrow> JobModel \<Rightarrow> bool" where
  "row_step j k \<longleftrightarrow> jm_id k = jm_id j \<and> placement k = placement j
     \<and> (jm_status k = jm_status j \<and> jm_termination_reason k = jm_termination_reason j
        \<or> \<not> job_is_finished (jm_status j) \<and> jm_status k = J_TERMINATING \<and> jm_termination_reason k \<noteq> None)"

definition unplaced :: "JobModel \<Rightarrow> bool" where
  "unplaced k \<longleftrightarrow> placement k = (None, None, False, 1, None) \<and> reason_ok k"

definition from_row :: "JobModel list \<Rightarrow> nat \<Rightarrow> JobModel \<Rightarrow> bool" where
  "from_row rows u k \<longleftrightarrow> (\<exists>j \<in> set rows. row_step j k) \<or> unplaced k \<and> u \<le> jm_id k"

definition rows_from :: "RunModel \<Rightarrow> nat \<Rightarrow> RunModel \<times> nat \<Rightarrow> bool" where
  "rows_from r0 u st \<longleftrightarrow> rm_id (fst st) = rm_id r0 \<and> u \<le> snd st \<and> (\<forall>k \<in> set (rm_jobs (fst st)). from_row (rm_jobs r0) u k)
     \<and> map jm_id (rm_jobs (fst st)) = map jm_id (rm_jobs r0) @ [u..<snd st]"

lemma row_step_refl [simp]: "row_step j j"
  by (simp add: row_step_def)

lemma from_row_refl: "j \<in> set rows \<Longrightarrow> from_row rows u j"
  by (auto simp: from_row_def intro: row_step_refl)

lemma rows_from_refl: "rows_from run uid (run, uid)"
  by (auto simp: rows_from_def from_row_def intro: row_step_refl)

lemma rows_from_upd [simp]:
  "rows_from r0 u (run\<lparr>rm_status := s\<rparr>, uid) = rows_from r0 u (run, uid)"
  "rows_from r0 u (run\<lparr>rm_termination_reason := q\<rparr>, uid) = rows_from r0 u (run, uid)"
  "rows_from r0 u (run\<lparr>rm_last_processed_at := now\<rparr>, uid) = rows_from r0 u (run, uid)"
  "rows_from r0 u (run\<lparr>rm_fleet_id := f\<rparr>, uid) = rows_from r0 u (run, uid)"
  by (simp_all add: rows_from_def)

lemma terminate_row_from:
  assumes "from_row (rm_jobs r0) u j" and "\<not> job_stopped j"
  shows "from_row (rm_jobs r0) u (terminate_row r j)"
proof -
  have p: "placement (terminate_row r j) = placement j" "jm_id (terminate_row r j) = jm_id j"
    by (simp_all add: placement_def terminate_row_def job_blocks_def)
  from assms(1) consider j0 where "j0 \<in> set (rm_jobs r0)" "row_step j0 j" | "unplaced j" "u \<le> jm_id j" by (auto simp: from_row_def)
  then show ?thesis
  proof cases
    case 1
    then have "row_step j0 (terminate_row r j)" using assms(2) p by (auto simp: row_step_def job_stopped_def terminate_row_def)
    with 1 show ?thesis by (auto simp: from_row_def)
  next
    case 2
    then have "unplaced (terminate_row r j)" using p by (simp add: unplaced_def reason_ok_def job_stopped_def terminate_row_def)
    with 2 p show ?thesis by (simp add: from_row_def)
  qed
qed

lemma created_unplaced [simp]:
  "unplaced (create_job_model_for_new_submission now uid run job J_SUBMITTED)"
  "unplaced (resubmission now uid run j)"
  "jm_id (create_job_model_for_new_submission now uid run job J_SUBMITTED) = uid"
  "jm_id (resubmission now uid run j) = uid"
  by (simp_all add: unplaced_def placement_def resubmission_def create_job_model_for_new_submission_def job_blocks_def reason_ok_def job_stopped_def)

lemma rows_from_append:
  assumes "rows_from r0 u (run, uid)" and "\<forall>k \<in> set jobs. from_row (rm_jobs r0) u k" and "map jm_id jobs = map jm_id (rm_jobs run)"
    and "unplaced k" and "jm_id k = uid"
  shows "rows_from r0 u (run\<lparr>rm_jobs := jobs @ [k]\<rparr>, Suc uid)"
  using assms by (auto simp: rows_from_def from_row_def)

lemma add_jobs_from [from_intros]: "rows_from r0 u st \<Longrightarrow> rows_from r0 u (add_jobs now jobs st)"
proof (induction jobs arbitrary: st)
  case (Cons job jobs)
  obtain run uid where st: "st = (run, uid)" by (cases st)
  have "\<forall>k \<in> set (rm_jobs run). from_row (rm_jobs r0) u k" using Cons.prems by (simp add: st rows_from_def)
  then have "rows_from r0 u (run\<lparr>rm_jobs := rm_jobs run @ [create_job_model_for_new_submission now uid run job J_SUBMITTED]\<rparr>, Suc uid)"
    using Cons.prems by (intro rows_from_append) (simp_all add: st)
  then show ?case by (simp add: st Cons.IH)
qed simp

lemma create_replicas_from [from_intros]: "rows_from r0 u st \<Longrightarrow> rows_from r0 u (fst (create_replicas jc now spec rs st))"
proof (induction rs arbitrary: spec st)
  case (Cons r rs)
  show ?case
  proof (cases "get_jobs_from_run_spec jc spec r")
    case (Inr p)
    have "rows_from r0 u (fst (create_replicas jc now (snd p) rs (add_jobs now (fst p) st)))"
      using Cons.prems by (intro Cons.IH add_jobs_from)
    then show ?thesis by (simp add: Inr split_def)
  qed (simp add: Cons.prems)
qed simp

lemma retry_from:
  assumes "rows_from r0 u st" and "\<forall>j \<in> set js. from_row (rm_jobs r0) u j"
  shows "rows_from r0 u (retry_run_replica_jobs now b js st)"
  using assms
proof (induction js arbitrary: st)
  case (Cons j js)
  obtain run uid where st: "st = (run, uid)" by (cases st)
  let ?rows = "if job_stopped j then rm_jobs run else put_row jm_id (terminate_row TERMINATED_BY_SERVER j) (rm_jobs run)"
  have "\<forall>k \<in> set ?rows. from_row (rm_jobs r0) u k"
    using Cons.prems terminate_row_from [of r0 u j TERMINATED_BY_SERVER] set_put_row [of jm_id "terminate_row TERMINATED_BY_SERVER j" "rm_jobs run"]
    by (auto simp: st rows_from_def)
  then have "rows_from r0 u (run\<lparr>rm_jobs := ?rows @ [resubmission now uid run j]\<rparr>, Suc uid)"
    using Cons.prems by (intro rows_from_append) (simp_all add: st)
  with Cons show ?case by (cases b; cases "job_stopped j") (simp_all add: st Let_def)
qed simp

lemma retry_replicas_from:
  assumes "rows_from r0 u st" and "\<forall>(r, js) \<in> set reps. \<forall>j \<in> set js. from_row (rm_jobs r0) u j"
  shows "rows_from r0 u (retry_replicas now reps st)"
  using assms
proof (induction reps arbitrary: st)
  case (Cons rep reps)
  obtain r js where rep: "rep = (r, js)" by (cases rep)
  have "rows_from r0 u (retry_run_replica_jobs now False js st)" using Cons.prems by (intro retry_from) (auto simp: rep)
  then have "rows_from r0 u (retry_replicas now reps (retry_run_replica_jobs now False js st))" using Cons.prems by (intro Cons.IH) auto
  then show ?case by (simp add: rep retry_replicas_def)
qed (simp add: retry_replicas_def)

text \<open>Keys stay distinct, so that a key names one row.\<close>

lemma rows_from_distinct:
  assumes "rows_from r0 u st" and "distinct (map jm_id (rm_jobs r0))" and "\<forall>j \<in> set (rm_jobs r0). jm_id j < u"
  shows "distinct (map jm_id (rm_jobs (fst st)))"
proof -
  have "map jm_id (rm_jobs (fst st)) = map jm_id (rm_jobs r0) @ [u..<snd st]" using assms(1) by (simp add: rows_from_def)
  then show ?thesis using assms(2,3) by auto
qed

lemma terminate_rows_from:
  assumes "rows_from r0 u (run, uid)" and "distinct (map jm_id (rm_jobs run))" and "set js \<subseteq> set (rm_jobs run)"
  shows "rows_from r0 u (run\<lparr>rm_jobs := map_rows (\<lambda>j. jm_id j \<in> jm_id ` set (filter (\<lambda>j. \<not> job_stopped j) js)) (terminate_row r) (rm_jobs run)\<rparr>, uid)"
proof -
  let ?P = "\<lambda>j. jm_id j \<in> jm_id ` set (filter (\<lambda>j. \<not> job_stopped j) js)"
  have "from_row (rm_jobs r0) u (if ?P k then terminate_row r k else k)" if k: "k \<in> set (rm_jobs run)" for k
  proof (cases "?P k")
    case True
    then obtain j where "j \<in> set js" "\<not> job_stopped j" "jm_id j = jm_id k" by auto
    with assms(2,3) k have "\<not> job_stopped k" by (metis distinct_map inj_onD subsetD)
    moreover have "from_row (rm_jobs r0) u k" using assms(1) k by (simp add: rows_from_def)
    ultimately have "from_row (rm_jobs r0) u (terminate_row r k)" by (intro terminate_row_from)
    with True show ?thesis by simp
  next
    case False
    then show ?thesis using assms(1) k by (auto simp: rows_from_def)
  qed
  moreover have "map jm_id (map_rows ?P (terminate_row r) (rm_jobs run)) = map jm_id (rm_jobs run)"
    by (rule map_map_rows) (simp add: terminate_row_def)
  moreover have "\<forall>k \<in> set (map_rows ?P (terminate_row r) (rm_jobs run)). from_row (rm_jobs r0) u k"
    unfolding map_rows_def set_map ball_simps using calculation(1) by (rule ballI)
  ultimately show ?thesis using assms(1) by (simp add: rows_from_def)
qed

text \<open>
  The rows at the start have distinct keys below the next one. The replicas that are stopped or
  retried are groups of rows of the run.
\<close>

definition keyed :: "JobModel list \<Rightarrow> nat \<Rightarrow> bool" where
  "keyed rows u \<longleftrightarrow> distinct (map jm_id rows) \<and> (\<forall>j \<in> set rows. jm_id j < u)"

lemma group_rows:
  "(\<Union>(r, js) \<in> set (group_jobs_by_replica_latest jobs). set js) \<subseteq> set jobs"
  using group_latest(3) [of _ _ jobs] by fastforce

lemma scaling_rows:
  "(\<Union>(imp, r, js) \<in> set (scaling_active jobs). set js) \<subseteq> set jobs"
  "(\<Union>(r, js) \<in> set (scaling_inactive jobs). set js) \<subseteq> set jobs"
  using group_latest(3) [of _ _ jobs]
  by (fastforce simp: scaling_active_def map_filter_def, fastforce simp: scaling_inactive_def)

lemma terminate_replicas_from:
  assumes "rows_from r0 u (run, uid)" and "keyed (rm_jobs r0) u" and "(\<Union>(imp, r, js) \<in> set reps. set js) \<subseteq> set (rm_jobs run)"
  shows "rows_from r0 u (terminate_replicas reps run, uid)"
proof -
  have d: "distinct (map jm_id (rm_jobs run))" using rows_from_distinct [OF assms(1)] assms(2) by (simp add: keyed_def)
  have "set (concat (map (snd \<circ> snd) reps)) \<subseteq> set (rm_jobs run)" using assms(3) by fastforce
  from terminate_rows_from [OF assms(1) d this, of SCALED_DOWN] show ?thesis
    by (simp add: terminate_replicas_def Let_def)
qed

lemma terminate_active_from:
  assumes "rows_from r0 u (run, uid)" and "keyed (rm_jobs r0) u" and "(\<Union>(r, js) \<in> set reps. set js) \<subseteq> set (rm_jobs run)"
  shows "rows_from r0 u (terminate_active reps run, uid)"
proof -
  have d: "distinct (map jm_id (rm_jobs run))" using rows_from_distinct [OF assms(1)] assms(2) by (simp add: keyed_def)
  have "set (concat (map snd reps)) \<subseteq> set (rm_jobs run)" using assms(3) by fastforce
  from terminate_rows_from [OF assms(1) d this, of TERMINATED_BY_SERVER] show ?thesis
    by (simp add: terminate_active_def Let_def)
qed

lemma scale_run_replicas_from:
  assumes "rows_from r0 u st" and "keyed (rm_jobs r0) u"
  shows "rows_from r0 u (fst (scale_run_replicas jc now st d))"
proof -
  obtain run uid where st: "st = (run, uid)" by (cases st)
  have down: "rows_from r0 u (terminate_replicas (last_n n (scaling_active (rm_jobs run))) run, uid)" for n
    by (rule terminate_replicas_from [OF assms(1) [unfolded st] assms(2)])
      (use scaling_rows(1) [of "rm_jobs run"] in \<open>fastforce simp: last_n_def dest: in_set_dropD\<close>)
  have "\<forall>(r, js) \<in> set (take n (scaling_inactive (rm_jobs run))). \<forall>j \<in> set js. from_row (rm_jobs r0) u j" for n
    using scaling_rows(2) [of "rm_jobs run"] assms(1) by (fastforce simp: st rows_from_def dest: in_set_takeD)
  then have up: "rows_from r0 u (retry_replicas now (take n (scaling_inactive (rm_jobs run))) (run, uid))" for n
    using assms(1) by (intro retry_replicas_from) (simp_all add: st)
  show ?thesis using assms(1) down up
    by (auto simp: scale_run_replicas_def st Let_def split: option.split intro!: create_replicas_from)
qed

lemma scale_active_from:
  assumes "rows_from r0 u st" and "keyed (rm_jobs r0) u"
  shows "rows_from r0 u (fst (scale_active_run env ros st))"
  using assms by (auto simp: scale_active_run_def intro: scale_run_replicas_from split: option.split sum.split)

lemma replicas_loop_groups:
  "replicas_loop env run gs f = (f', Inr ros) \<Longrightarrow> map (\<lambda>ro. (ro_num ro, ro_jobs ro)) ros = gs"
  by (induction env run gs f arbitrary: f' ros rule: replicas_loop.induct)
    (auto simp: fmapE_Inr_conv split: prod.split_asm sum.split_asm)

lemma act_on_jobs_from:
  assumes "rows_from r0 u st" and "keyed (rm_jobs r0) u" and "(\<Union>(r, js) \<in> set (replicas_to_retry ros). set js) \<subseteq> set (rm_jobs (fst st))"
  shows "rows_from r0 u (fst (act_on_jobs env False ros s st))"
proof -
  obtain run uid where st: "st = (run, uid)" by (cases st)
  have "\<forall>(r, js) \<in> set (replicas_to_retry ros). \<forall>j \<in> set js. from_row (rm_jobs r0) u j"
    using assms(1,3) by (fastforce simp: st rows_from_def)
  then have "rows_from r0 u (retry_active env False (replicas_to_retry ros) (run, uid))"
    unfolding retry_active_replicas using assms(1) by (intro retry_replicas_from) (simp_all add: st)
  then show ?thesis using assms terminate_active_from [of r0 u run uid "replicas_to_retry ros"]
    by (auto simp: act_on_jobs_def st intro: scale_active_from)
qed

lemma set_run_status_from [simp]: "rows_from r0 u (set_run_status s r run, uid) = rows_from r0 u (run, uid)"
  by (simp add: set_run_status_def)

lemma process_active_from:
  assumes "keyed (rm_jobs run) uid"
  shows "rows_from run uid (fst (process_active_run env (run, uid)))"
proof (cases "run_model_to_run (re_now env) True False run")
  case (Inr r)
  obtain f loop where l: "replicas_loop env r (group_jobs_by_replica_latest (rm_jobs run)) (rm_fleet_id run) = (f, loop)"
    by (cases "replicas_loop env r (group_jobs_by_replica_latest (rm_jobs run)) (rm_fleet_id run)")
  let ?st = "(run\<lparr>rm_fleet_id := f\<rparr>, uid)"
  have st: "rows_from run uid ?st" by (simp add: rows_from_refl)
  have act: "rows_from run uid (fst (act_on_jobs env False ros s ?st))" if "loop = Inr ros" for ros s
  proof (rule act_on_jobs_from [OF st assms])
    have "set (replicas_to_retry ros) \<subseteq> set (group_jobs_by_replica_latest (rm_jobs run))"
      unfolding replicas_loop_groups [OF l [unfolded that], symmetric] by (auto simp: replicas_to_retry_def)
    with group_rows [of "rm_jobs run"]
    show "(\<Union>(r, js) \<in> set (replicas_to_retry ros). set js) \<subseteq> set (rm_jobs (fst ?st))" by fastforce
  qed
  show ?thesis
  proof (cases loop)
    case loop: (Inr ros)
    then show ?thesis using act [OF loop] st
      by (auto simp: process_active_run_def Inr l can_retry_single_job_def Let_def split: sum.split prod.split option.split)
        (metis fst_conv)+
  qed (simp add: process_active_run_def Inr l rows_from_refl)
qed (simp add: process_active_run_def rows_from_refl)

lemma process_pending_from: "rows_from run uid (fst (process_pending_run env (run, uid)))"
proof -
  have "rows_from run uid (fst (create_replicas (re_jc env) (re_now env) (rm_run_spec run) rs (add_jobs (re_now env) js (run, uid))))" for rs js
    by (intro create_replicas_from add_jobs_from rows_from_refl)
  then show ?thesis
    by (auto simp: process_pending_run_def rows_from_refl Let_def split: sum.split prod.split option.split) (metis fst_conv)+
qed

lemma terminate_run_job_step: "terminate_run_job key is now r j = Inr k \<Longrightarrow> row_step j k"
  by (auto simp: terminate_run_job_def row_step_def placement_def terminate_row_def delay_job_instance_termination_def job_blocks_def
      bindE_Inr_conv fmapE_Inr_conv split: if_split_asm)

lemma process_terminating_from:
  assumes "process_terminating_run key is now run = Inr run'"
  shows "rows_from run uid (run', uid)"
proof -
  from assms obtain r jobs where "list_all2 (\<lambda>j k. terminate_run_job key is now r j = Inr k) (rm_jobs run) jobs"
    and run': "rm_jobs run' = jobs" "rm_id run' = rm_id run"
    by (auto simp: process_terminating_run_def bindE_Inr_conv mapE_Inr_conv split: option.split_asm if_split_asm)
  then have st: "list_all2 row_step (rm_jobs run) jobs" by (auto elim: list_all2_mono intro: terminate_run_job_step)
  then have "map jm_id jobs = map jm_id (rm_jobs run)" by (induction rule: list_all2_induct) (auto simp: row_step_def)
  moreover have "\<exists>j \<in> set (rm_jobs run). row_step j k" if "k \<in> set jobs" for k
    using st that by (induction rule: list_all2_induct) auto
  ultimately show ?thesis by (simp add: rows_from_def from_row_def run')
qed

lemma process_run_status_from:
  assumes "keyed (rm_jobs run) uid"
  shows "rows_from run uid (fst (process_run_status env (run, uid)))"
  using process_active_from [OF assms] process_pending_from process_terminating_from
  by (auto simp: process_run_status_def fail_run_def rows_from_refl split: sum.split)

lemma process_run_from:
  assumes "process_run env (run, uid) = Inr st" and "keyed (rm_jobs run) uid"
  shows "rows_from run uid st"
proof -
  have "rows_from run uid (fst (process_run_status env (run, uid)))" by (rule process_run_status_from [OF assms(2)])
  with assms(1) show ?thesis
    by (auto simp: process_run_def fmapE_Inr_conv fail_run_def split: prod.split_asm option.split_asm if_split_asm)
qed

lemma stop_run_from: "stop_run key is now abort run = Inr run' \<Longrightarrow> rows_from run uid (run', uid)"
  using process_terminating_from [of key "is" now "run\<lparr>rm_status := R_TERMINATING, rm_termination_reason := q\<rparr>" _ uid for q]
  by (auto simp: stop_run_def fmapE_Inr_conv rows_from_def intro: from_row_refl split: if_split_asm)

text \<open>The rows in order: the old ones, each after a step of its own, then the new ones.\<close>

lemma rows_from_split:
  assumes "rows_from r0 u (run, uid)" and "keyed (rm_jobs r0) u"
  obtains xs ys where "rm_jobs run = xs @ ys" "list_all2 row_step (rm_jobs r0) xs"
    "\<forall>y \<in> set ys. unplaced y \<and> u \<le> jm_id y" "distinct (map jm_id ys)"
proof -
  let ?n = "length (rm_jobs r0)"
  define xs where "xs = take ?n (rm_jobs run)"
  define ys where "ys = drop ?n (rm_jobs run)"
  have ids: "map jm_id (rm_jobs run) = map jm_id (rm_jobs r0) @ [u..<uid]" using assms(1) by (simp add: rows_from_def)
  have x: "map jm_id xs = map jm_id (rm_jobs r0)" and y: "map jm_id ys = [u..<uid]"
    unfolding xs_def ys_def take_map [symmetric] drop_map [symmetric] ids by simp_all
  have from_r0: "from_row (rm_jobs r0) u k" if "k \<in> set (rm_jobs run)" for k using assms(1) that by (simp add: rows_from_def)
  have len: "length xs = ?n" using x by (metis length_map)
  have "row_step (rm_jobs r0 ! n) (xs ! n)" if n: "n < ?n" for n
  proof -
    have id: "jm_id (xs ! n) = jm_id (rm_jobs r0 ! n)" using x n len by (metis nth_map)
    have lt: "jm_id (rm_jobs r0 ! n) < u" using assms(2) n by (simp add: keyed_def)
    have "xs ! n \<in> set (rm_jobs run)" using n len unfolding xs_def by (metis in_set_takeD nth_mem)
    with from_r0 id lt obtain j where j: "j \<in> set (rm_jobs r0)" "row_step j (xs ! n)" by (fastforce simp: from_row_def)
    then have "jm_id j = jm_id (rm_jobs r0 ! n)" using id by (simp add: row_step_def)
    then have "j = rm_jobs r0 ! n" using assms(2) j(1) n by (auto simp: keyed_def distinct_map inj_on_def)
    with j show ?thesis by simp
  qed
  then have "list_all2 row_step (rm_jobs r0) xs" using len by (simp add: list_all2_conv_all_nth)
  moreover have "unplaced k \<and> u \<le> jm_id k" if k: "k \<in> set ys" for k
  proof -
    have "jm_id k \<in> set (map jm_id ys)" using k by simp
    then have ge: "u \<le> jm_id k" unfolding y by simp
    have "k \<in> set (rm_jobs run)" using k unfolding ys_def by (rule in_set_dropD)
    with from_r0 ge assms(2) show ?thesis by (fastforce simp: from_row_def keyed_def row_step_def)
  qed
  moreover have "distinct (map jm_id ys)" unfolding y by simp
  ultimately show thesis by (intro that [of xs ys]) (simp_all add: xs_def ys_def)
qed

end
