(* ===== verification/Server_Tasks.thy ===== *)
theory Server_Tasks
  imports Server_System Run_Rows Fleets
begin

text \<open>
  The whole server as one transition system: the background tasks on runs, jobs and instances and the
  requests of users on runs and fleets, in any order and with any answers of the clouds, agents and
  clocks. The accounting of instances is its invariant.
\<close>

section \<open>Rows of runs\<close>

text \<open>
  A step of the jobs table that places nothing: the rows in some order are those before, each after a
  step of its own, and new rows without an instance whose keys are not in use.
\<close>

definition rows_change :: "nat \<Rightarrow> JobModel list \<Rightarrow> JobModel list \<Rightarrow> bool" where
  "rows_change u jobs jobs' \<longleftrightarrow> (\<exists>xs ys. mset jobs' = mset (xs @ ys) \<and> list_all2 row_step jobs xs
     \<and> (\<forall>y \<in> set ys. unplaced y \<and> u \<le> jm_id y) \<and> distinct (map jm_id ys))"

definition keys_below :: "nat \<Rightarrow> db \<Rightarrow> bool" where
  "keys_below u d \<longleftrightarrow> fresh_key u d \<and> (\<forall>j \<in> set (db_jobs d). jm_id j < u) \<and> (\<forall>r \<in> set (db_runs d). rm_id r < u)"

lemma row_step_row_ok: "row_step j k \<Longrightarrow> job_row_ok up ids j \<Longrightarrow> job_row_ok up ids k"
  by (auto simp: row_step_def placement_def job_row_ok_def reason_ok_def job_stopped_def assignment_ok_def)

lemma unplaced_row_ok: "unplaced k \<Longrightarrow> job_row_ok up ids k"
  by (auto simp: unplaced_def placement_def job_row_ok_def assignment_ok_def)

lemma row_step_placed:
  assumes "list_all2 row_step jobs xs"
  shows "map jm_id xs = map jm_id jobs"
    and "map job_blocks (filter (\<lambda>j. jm_instance_id j = k) xs) = map job_blocks (filter (\<lambda>j. jm_instance_id j = k) jobs)"
  using assms by (induction rule: list_all2_induct) (auto simp: row_step_def placement_def)

text \<open>The jobs of an instance hold the same blocks.\<close>

lemma rows_change_blocks:
  assumes "rows_change u jobs jobs'"
  shows "sum_list (map job_blocks (filter (\<lambda>j. jm_instance_id j = Some i) jobs'))
    = sum_list (map job_blocks (filter (\<lambda>j. jm_instance_id j = Some i) jobs))"
    and "filter (\<lambda>j. jm_instance_id j = Some i) jobs = [] \<Longrightarrow> filter (\<lambda>j. jm_instance_id j = Some i) jobs' = []"
proof -
  let ?P = "\<lambda>j. jm_instance_id j = Some i"
  from assms obtain xs ys where m: "mset jobs' = mset (xs @ ys)" and xs: "list_all2 row_step jobs xs" and ys: "\<forall>y \<in> set ys. unplaced y"
    unfolding rows_change_def by blast
  have "filter ?P ys = []" using ys by (auto simp: filter_empty_conv unplaced_def placement_def)
  then have f: "mset (filter ?P jobs') = mset (filter ?P xs)" using m by (simp add: mset_filter filter_empty_conv)
  then have "mset (map job_blocks (filter ?P jobs')) = mset (map job_blocks (filter ?P xs))" by simp
  then show "sum_list (map job_blocks (filter ?P jobs')) = sum_list (map job_blocks (filter ?P jobs))"
    unfolding row_step_placed(2) [OF xs] by (metis sum_mset_sum_list)
  assume "filter ?P jobs = []"
  then have "filter ?P xs = []" using row_step_placed(2) [OF xs, of "Some i"] by simp
  with f show "filter ?P jobs' = []" by simp
qed

lemma rows_change_keys:
  assumes "rows_change u jobs jobs'" and "distinct (map jm_id jobs)" and "\<forall>j \<in> set jobs. jm_id j < u"
  shows "distinct (map jm_id jobs')"
proof -
  from assms(1) obtain xs ys where m: "mset jobs' = mset (xs @ ys)" and xs: "list_all2 row_step jobs xs"
    and ys: "\<forall>y \<in> set ys. u \<le> jm_id y" "distinct (map jm_id ys)"
    unfolding rows_change_def by blast
  note x = row_step_placed(1) [OF xs]
  have "jm_id ` set xs = jm_id ` set jobs" using x by (metis set_map)
  then have "distinct (map jm_id (xs @ ys))" using assms(2,3) ys x by (fastforce simp del: distinct_map)
  moreover have "mset (map jm_id jobs') = mset (map jm_id (xs @ ys))" using m by simp
  ultimately show ?thesis by (metis mset_eq_imp_distinct_iff)
qed

lemma rows_change_row_ok:
  assumes "rows_change u jobs jobs'" and "\<forall>j \<in> set jobs. job_row_ok up ids j"
  shows "\<forall>j \<in> set jobs'. job_row_ok up ids j"
proof -
  from assms(1) obtain xs ys where m: "mset jobs' = mset (xs @ ys)" and xs: "list_all2 row_step jobs xs" and ys: "\<forall>y \<in> set ys. unplaced y"
    unfolding rows_change_def by blast
  have "\<forall>x \<in> set xs. job_row_ok up ids x" using xs assms(2) by (induction rule: list_all2_induct) (auto intro: row_step_row_ok)
  moreover have "set jobs' = set xs \<union> set ys" using m by (metis set_append set_mset_mset)
  ultimately show ?thesis using ys unplaced_row_ok by auto
qed

lemma rows_change_inv:
  assumes "server_inv up twice d" and "keys_below u d" and "rows_change u (db_jobs d) (db_jobs d')"
    and "db_instances d' = db_instances d" and "distinct (map rm_id (db_runs d'))"
  shows "server_inv up twice d'"
proof -
  note inv = server_invD [OF assms(1)]
  have "keys_ok d'" using rows_change_keys [OF assms(3)] inv(2) assms(2,4,5) by (simp add: keys_ok_def keys_below_def)
  moreover have "blocks_inv twice d'"
    using inv(3) rows_change_blocks(1) [OF assms(3)] by (simp add: blocks_inv_def instance_jobs_def assms(4))
  moreover have "pending_unused d'"
    using inv(4) rows_change_blocks(2) [OF assms(3)] by (simp add: pending_unused_def instance_jobs_def assms(4))
  moreover have "\<forall>j \<in> set (db_jobs d'). job_row_ok up (instance_keys d') j"
    using rows_change_row_ok [OF assms(3)] inv(6) by (simp add: instance_keys_def assms(4))
  moreover have "instance_keys d' = instance_keys d" by (simp add: instance_keys_def assms(4))
  ultimately show ?thesis using inv(5,8) by (simp add: server_inv_def instances_ok_def assms(4))
qed

section \<open>Requests and the task on runs\<close>

lemma rows_change_refl: "rows_change u jobs jobs"
  unfolding rows_change_def by (intro exI [of _ jobs] exI [of _ "[]"]) (simp add: list_all2_refl)

text \<open>The task: one run, replaced in its table.\<close>

lemma put_row_split:
  assumes "distinct (map rm_id (as @ r # bs))" and "rm_id r' = rm_id r"
  shows "put_row rm_id r' (as @ r # bs) = as @ r' # bs"
  using assms by (auto simp: put_row_def map_rows_def image_iff intro!: map_idI)

lemma keyed_run:
  assumes "keys_ok d" and "keys_below u d" and "r \<in> set (db_runs d)"
  shows "keyed (rm_jobs r) u"
proof -
  obtain as bs where d: "db_runs d = as @ r # bs" using assms(3) by (meson split_list)
  with assms(1,2) show ?thesis by (simp add: keyed_def keys_ok_def keys_below_def db_jobs_def)
qed

lemma next_run_mem: "next_run runs rl jl = Some r \<Longrightarrow> r \<in> set runs"
  unfolding next_run_def by (auto split: list.split_asm if_split_asm dest!: sort_filter_head)

lemma put_run_change:
  assumes "keys_ok d" and "keys_below u d" and "r \<in> set (db_runs d)" and "rows_from r u (r', u')"
  shows "rows_change u (db_jobs d) (db_jobs (d\<lparr>db_runs := put_row rm_id r' (db_runs d)\<rparr>))"
    and "distinct (map rm_id (put_row rm_id r' (db_runs d)))"
proof -
  obtain as bs where d: "db_runs d = as @ r # bs" using assms(3) by (meson split_list)
  have id: "rm_id r' = rm_id r" using assms(4) by (simp add: rows_from_def)
  from assms(4) keyed_run [OF assms(1-3)] obtain xs ys where r': "rm_jobs r' = xs @ ys" and xs: "list_all2 row_step (rm_jobs r) xs"
    and ys: "\<forall>y \<in> set ys. unplaced y \<and> u \<le> jm_id y" "distinct (map jm_id ys)" by (rule rows_from_split)
  let ?a = "concat (map rm_jobs as)" and ?b = "concat (map rm_jobs bs)"
  have put: "put_row rm_id r' (db_runs d) = as @ r' # bs"
    unfolding d by (rule put_row_split) (use assms(1) id in \<open>simp_all add: keys_ok_def d\<close>)
  have "list_all2 row_step (db_jobs d) (?a @ xs @ ?b)"
    using xs by (auto simp: db_jobs_def d intro!: list_all2_appendI list_all2_refl)
  moreover have "mset (db_jobs (d\<lparr>db_runs := put_row rm_id r' (db_runs d)\<rparr>)) = mset ((?a @ xs @ ?b) @ ys)"
    by (simp add: db_jobs_def put r')
  ultimately show "rows_change u (db_jobs d) (db_jobs (d\<lparr>db_runs := put_row rm_id r' (db_runs d)\<rparr>))"
    using ys unfolding rows_change_def by blast
  show "distinct (map rm_id (put_row rm_id r' (db_runs d)))" using assms(1) id by (simp add: put keys_ok_def d)
qed

lemma runs_inv:
  assumes "server_inv up twice d" and "keys_below u d" and "process_next_run env rl jl (db_runs d, u) = Inr (runs', u')"
  shows "server_inv up twice (d\<lparr>db_runs := runs'\<rparr>)"
proof (cases "next_run (db_runs d) rl jl")
  case None
  with assms have "runs' = db_runs d" by (simp add: process_next_run_def)
  with assms(1) show ?thesis by simp
next
  case (Some r)
  note k = server_invD(2) [OF assms(1)]
  have r: "r \<in> set (db_runs d)" using Some by (rule next_run_mem)
  with Some assms(3) obtain r' where p: "process_run env (r, u) = Inr (r', u')" and runs': "runs' = put_row rm_id r' (db_runs d)"
    by (auto simp: process_next_run_def fmapE_Inr_conv)
  from p keyed_run [OF k assms(2) r] have "rows_from r u (r', u')" by (rule process_run_from)
  note ch = put_run_change [OF k assms(2) r this]
  show ?thesis unfolding runs' by (rule rows_change_inv [OF assms(1,2) ch(1)]) (use ch(2) in simp_all)
qed

text \<open>Requests that change rows in place: stopping, deleting, updating runs.\<close>

lemma rows_change_runs:
  assumes "list_all2 (\<lambda>r r'. list_all2 row_step (rm_jobs r) (rm_jobs r')) (db_runs d) runs'"
  shows "rows_change u (db_jobs d) (db_jobs (d\<lparr>db_runs := runs'\<rparr>))"
proof -
  have "list_all2 row_step (concat (map rm_jobs (db_runs d))) (concat (map rm_jobs runs'))"
    using assms by (induction rule: list_all2_induct) (auto intro: list_all2_appendI)
  then show ?thesis unfolding rows_change_def db_jobs_def by (intro exI [of _ "concat (map rm_jobs runs')"] exI [of _ "[]"]) simp
qed

lemma runs_kept_inv:
  assumes "server_inv up twice d" and "keys_below u d"
    and "list_all2 (\<lambda>r r'. rm_id r' = rm_id r \<and> list_all2 row_step (rm_jobs r) (rm_jobs r')) (db_runs d) runs'"
  shows "server_inv up twice (d\<lparr>db_runs := runs'\<rparr>)"
proof (rule rows_change_inv [OF assms(1,2) rows_change_runs])
  show "list_all2 (\<lambda>r r'. list_all2 row_step (rm_jobs r) (rm_jobs r')) (db_runs d) runs'"
    using assms(3) by (auto elim: list_all2_mono)
  have "map rm_id runs' = map rm_id (db_runs d)" using assms(3) by (induction rule: list_all2_induct) auto
  then show "distinct (map rm_id (db_runs (d\<lparr>db_runs := runs'\<rparr>)))" using server_invD(2) [OF assms(1)] by (simp add: keys_ok_def)
qed simp

lemma process_terminating_rows:
  assumes "process_terminating_run key is now run = Inr run'"
  shows "rm_id run' = rm_id run \<and> list_all2 row_step (rm_jobs run) (rm_jobs run')"
  using assms
  by (auto simp: process_terminating_run_def bindE_Inr_conv mapE_Inr_conv intro: terminate_run_job_step elim!: list_all2_mono
      split: option.split_asm if_split_asm)

lemma stop_run_rows:
  "stop_run key is now abort r = Inr r' \<Longrightarrow> rm_id r' = rm_id r \<and> list_all2 row_step (rm_jobs r) (rm_jobs r')"
  by (auto simp: stop_run_def fmapE_Inr_conv list_all2_refl dest!: process_terminating_rows split: if_split_asm)

lemma stop_each_rows:
  "stop_each key is now abort sel runs = (runs', e) \<Longrightarrow>
    list_all2 (\<lambda>r r'. rm_id r' = rm_id r \<and> list_all2 row_step (rm_jobs r) (rm_jobs r')) runs runs'"
  by (induction runs arbitrary: runs' e)
    (auto simp: list_all2_refl stop_run_rows split: if_split_asm sum.split_asm prod.split_asm)

lemma stop_inv:
  assumes "server_inv up twice d" and "keys_below u d" and "stop_runs key is now p names abort (db_runs d) = (runs', e)"
  shows "server_inv up twice (d\<lparr>db_runs := runs'\<rparr>)"
  using assms by (auto simp: stop_runs_def intro: runs_kept_inv stop_each_rows)

lemma deleted_rows:
  "deleted_only_finished runs runs' \<Longrightarrow>
    list_all2 (\<lambda>r r'. rm_id r' = rm_id r \<and> list_all2 row_step (rm_jobs r) (rm_jobs r')) runs runs'"
  unfolding deleted_only_finished_def by (erule list_all2_mono) (auto simp: list_all2_refl)

lemma delete_inv:
  assumes "server_inv up twice d" and "keys_below u d" and "delete_runs p names (db_runs d) = Inr runs'"
  shows "server_inv up twice (d\<lparr>db_runs := runs'\<rparr>)"
  using assms by (auto intro: runs_kept_inv deleted_rows delete_runs_only_finished)

text \<open>A submission: a run whose rows are all new.\<close>

lemma build_run_rows:
  assumes "build_run env volumes p usr repo spec name uid = Inr (run, uid')" and "0 < conf_nodes (spec_configuration spec)"
  shows "rm_id run = uid" "\<forall>y \<in> set (rm_jobs run). unplaced y \<and> Suc uid \<le> jm_id y" "distinct (map jm_id (rm_jobs run))"
proof -
  note bi = build_run_Inr [OF assms]
  show "rm_id run = uid" by (rule bi(1))
  from bi(11) obtain run1 rs where "rm_jobs run1 = []" "create_replicas (se_jc env) (se_now env) spec rs (run1, Suc uid) = ((run, uid'), None)"
    by blast
  with create_replicas_from [OF rows_from_refl, of run1 "Suc uid" "se_jc env" "se_now env" spec rs]
  have "rows_from run1 (Suc uid) (run, uid')" "rm_jobs run1 = []" by simp_all
  then show "\<forall>y \<in> set (rm_jobs run). unplaced y \<and> Suc uid \<le> jm_id y" "distinct (map jm_id (rm_jobs run))"
    by (auto simp: rows_from_def from_row_def simp del: distinct_map)
qed

lemma keys_below_runs:
  assumes "keys_below u d" and "map rm_id runs = map rm_id (db_runs d)" and "db_jobs (d\<lparr>db_runs := runs\<rparr>) = db_jobs d"
  shows "keys_below u (d\<lparr>db_runs := runs\<rparr>)"
proof -
  have "(\<forall>k \<in> set (map rm_id runs). k < u) = (\<forall>k \<in> set (map rm_id (db_runs d)). k < u)" unfolding assms(2) ..
  with assms(1,3) show ?thesis by (simp add: keys_below_def fresh_key_def)
qed

lemma deleted_jobs:
  assumes "deleted_only_finished runs rs"
  shows "map rm_id rs = map rm_id runs" "concat (map rm_jobs rs) = concat (map rm_jobs runs)"
  using assms unfolding deleted_only_finished_def by (induction rule: list_all2_induct) auto

lemma add_run_inv:
  assumes "server_inv up twice d" and "keys_below u d" and "rm_id run = u"
    and "\<forall>y \<in> set (rm_jobs run). unplaced y \<and> Suc u \<le> jm_id y" and "distinct (map jm_id (rm_jobs run))"
  shows "server_inv up twice (d\<lparr>db_runs := db_runs d @ [run]\<rparr>)"
proof (rule rows_change_inv [OF assms(1,2)])
  show "rows_change u (db_jobs d) (db_jobs (d\<lparr>db_runs := db_runs d @ [run]\<rparr>))"
    unfolding rows_change_def using assms(4,5)
    by (intro exI [of _ "db_jobs d"] exI [of _ "rm_jobs run"]) (auto simp: db_jobs_def list_all2_refl)
  show "distinct (map rm_id (db_runs (d\<lparr>db_runs := db_runs d @ [run]\<rparr>)))"
    using server_invD(2) [OF assms(1)] assms(2,3) by (auto simp: keys_ok_def keys_below_def)
qed simp

lemma submit_inv:
  assumes "server_inv up twice d" and "keys_below u d" and "0 < conf_nodes (spec_configuration spec)"
    and "submit_run env volumes p usr spec (db_runs d) u = (runs', res)"
  shows "server_inv up twice (d\<lparr>db_runs := runs'\<rparr>)"
  using assms(4)
proof (cases rule: submit_run_cases)
  case (refused e)
  with assms(1) show ?thesis by simp
next
  case (renamed spec1 repo rs name)
  have del: "deleted_only_finished (db_runs d) rs" using renamed(2) by (rule submit_name_only_finished)
  have inv: "server_inv up twice (d\<lparr>db_runs := rs\<rparr>)" by (rule runs_kept_inv [OF assms(1,2) deleted_rows [OF del]])
  have below: "keys_below u (d\<lparr>db_runs := rs\<rparr>)"
    by (rule keys_below_runs [OF assms(2)]) (use deleted_jobs [OF del] in \<open>simp_all add: db_jobs_def\<close>)
  from renamed(3) show ?thesis
  proof (elim disjE exE conjE)
    fix e assume "runs' = rs" with inv show ?thesis by simp
  next
    fix row uid' assume row: "runs' = rs @ [row]"
      and b: "build_run env volumes p usr repo (spec1\<lparr>spec_run_name := Some name\<rparr>) name u = Inr (row, uid')"
    have "0 < conf_nodes (spec_configuration (spec1\<lparr>spec_run_name := Some name\<rparr>))"
      using validate_defaults_conf [OF renamed(1)] assms(3) by simp
    from add_run_inv [OF inv below build_run_rows [OF b this]] show ?thesis by (simp add: row)
  qed
qed

lemma updated_rows:
  "list_all2 (\<lambda>r r'. rm_id r' = rm_id r \<and> list_all2 row_step (rm_jobs r) (rm_jobs r')) runs
     (map_rows P (\<lambda>r. r\<lparr>rm_run_spec := spec\<rparr>) runs)"
  by (auto simp: map_rows_def list_all2_map2 list_all2_refl intro!: list_all2_refl)

lemma apply_inv:
  assumes "server_inv up twice d" and "keys_below u d" and "0 < conf_nodes (spec_configuration spec)"
    and "apply_plan env volumes p usr spec expected force (db_runs d) u = (runs', res)"
  shows "server_inv up twice (d\<lparr>db_runs := runs'\<rparr>)"
proof (cases "validate_run_spec_and_set_defaults spec")
  case (Inl e)
  with assms(1,4) show ?thesis by (auto simp: apply_plan_def)
next
  case (Inr spec1)
  with assms(4) show ?thesis
  proof (cases rule: apply_plan_cases)
    case 1
    with assms(1-3) validate_defaults_conf [OF Inr] show ?thesis by (intro submit_inv) simp_all
  next
    case 2
    with assms(1) show ?thesis by simp
  next
    case (3 cur)
    with assms(1,2) show ?thesis by (simp add: runs_kept_inv updated_rows)
  qed
qed

section \<open>Requests and the task on fleets\<close>

definition fleet_blocks_ok :: "FleetSpec \<Rightarrow> bool" where
  "fleet_blocks_ok spec \<longleftrightarrow> (\<forall>n. fc_blocks (fs_configuration spec) = Blocks n \<longrightarrow> 0 \<le> n)
     \<and> (\<forall>ssh hp n. fc_ssh_config (fs_configuration spec) = Some ssh \<and> HostParams hp \<in> set (sh_hosts ssh) \<and> hp_blocks hp = Blocks n \<longrightarrow> 0 \<le> n)"

lemma blank_capacity:
  "\<forall>n. arg = Blocks n \<longrightarrow> 0 \<le> n \<Longrightarrow> blocks_column arg = Some m \<Longrightarrow> 0 \<le> m"
  by (cases arg) auto

lemma new_ssh_capacity:
  assumes "create_fleet_ssh_instance_model env iid project pool spec ssh k host = Inr i"
    and "\<forall>hp n. host = HostParams hp \<and> hp_blocks hp = Blocks n \<longrightarrow> 0 \<le> n"
  shows "capacity_ok i"
  using assms unfolding create_fleet_ssh_instance_model_def
  by (cases host) (auto simp: bindE_Inr_conv create_ssh_instance_model_def Let_def blank_instance_def capacity_ok_def blank_capacity
      split: prod.splits option.splits)

lemma new_fleet_capacity:
  assumes "new_fleet_instances env uid project pool spec = Inr is" and "fleet_blocks_ok spec" and "i \<in> set is"
  shows "capacity_ok i"
proof (cases "fc_ssh_config (fs_configuration spec)")
  case None
  have "capacity_ok (create_fleet_instance_model env iid project pool spec g k)" for iid g k
    using assms(2) by (auto simp: create_fleet_instance_model_def create_instance_model_def Let_def split_def blank_instance_def
        capacity_ok_def fleet_blocks_ok_def blank_capacity)
  with None assms(1,3) show ?thesis by (auto simp: new_fleet_instances_def)
next
  case (Some ssh)
  with assms(1) have "list_all2 (\<lambda>(k, host) i. create_fleet_ssh_instance_model env (uid + k) project pool spec ssh k host = Inr i)
      (zip [0..<length (sh_hosts ssh)] (sh_hosts ssh)) is"
    by (simp add: new_fleet_instances_def mapE_Inr_conv case_prod_beta')
  with assms(3) obtain k host where "create_fleet_ssh_instance_model env (uid + k) project pool spec ssh k host = Inr i" "host \<in> set (sh_hosts ssh)"
    by (auto simp: list_all2_conv_all_nth in_set_conv_nth) blast
  with Some assms(2) show ?thesis by (intro new_ssh_capacity) (auto simp: fleet_blocks_ok_def)
qed

lemma add_instances_inv:
  assumes "server_inv up twice d" and "fresh_key u d" and "db_runs d' = db_runs d" and "db_instances d' = db_instances d @ is"
    and "\<forall>i \<in> set is. u \<le> im_id i \<and> im_busy_blocks i = 0 \<and> capacity_ok i" and "distinct (map im_id is)"
  shows "server_inv up twice d'"
proof -
  note inv = server_invD [OF assms(1)]
  have jobs: "db_jobs d' = db_jobs d" using assms(3) by (simp add: db_jobs_def)
  have none: "instance_jobs d' (im_id i) = []" if "i \<in> set is" for i
    using that assms(2,5) by (fastforce simp: instance_jobs_def jobs filter_empty_conv fresh_key_def)
  have same: "instance_jobs d' k = instance_jobs d k" for k by (simp add: instance_jobs_def jobs)
  have "keys_ok d'" using inv(2) assms(2,5,6) by (fastforce simp: keys_ok_def assms(3,4) jobs fresh_key_def)
  moreover have "twice (im_id i) = 0" if "i \<in> set is" for i
    using that assms(2,5) by (intro inv(10)) (fastforce simp: instance_keys_def fresh_key_def)
  then have "blocks_inv twice d'" using inv(3) none assms(5) by (auto simp: blocks_inv_def assms(4) same)
  moreover have "ledger_ok up twice (instance_keys d')" using inv(8) by (rule ledger_ok_mono) (auto simp: instance_keys_def assms(4))
  moreover have "pending_unused d'" using inv(4) none by (auto simp: pending_unused_def assms(4) same)
  moreover have "\<forall>j \<in> set (db_jobs d'). job_row_ok up (instance_keys d') j"
    using inv(6) row_ok_mono [of up "instance_keys d" _ "instance_keys d'"] by (auto simp: jobs instance_keys_def assms(4))
  ultimately show ?thesis using inv(5) assms(5) by (auto simp: server_inv_def instances_ok_def assms(4))
qed

lemma create_fleet_inv:
  assumes "server_inv up twice d" and "keys_below u d" and "fleet_blocks_ok spec"
    and "create_fleet env u project spec d = Inr (Some (f, project', d'))"
  shows "server_inv up twice d'"
  using assms(4)
proof (cases rule: create_fleet_cases)
  case (1 name pool ps "is")
  note nth = new_fleet_instances_nth [OF 1(3)]
  have "fleet_blocks_ok (flm_spec f)" using assms(3) by (auto simp: 1(4) fleet_blocks_ok_def)
  then have cap: "capacity_ok i" if "i \<in> set is" for i using new_fleet_capacity [OF 1(3)] that by blast
  have ids: "distinct (map im_id is)" using nth by (auto simp: distinct_conv_nth)
  have "\<forall>i \<in> set (map (\<lambda>i. i\<lparr>im_fleet_id := Some (Suc u)\<rparr>) is). u \<le> im_id i \<and> im_busy_blocks i = 0 \<and> capacity_ok i"
    using nth cap by (auto simp: in_set_conv_nth fresh_instance_def capacity_ok_def)
  moreover have "distinct (map im_id (map (\<lambda>i. i\<lparr>im_fleet_id := Some (Suc u)\<rparr>) is))" using ids by (simp add: comp_def)
  ultimately show ?thesis using 1(11) assms(2)
    by (intro add_instances_inv [OF assms(1), of u _ "map (\<lambda>i. i\<lparr>im_fleet_id := Some (Suc u)\<rparr>) is"]) (simp_all add: keys_below_def)
qed

text \<open>Deleting fleets: instances are marked, and only those that no job uses.\<close>

lemma marked_instance_keeps:
  "im_id (stop_fleet_instance i) = im_id i" "im_busy_blocks (stop_fleet_instance i) = im_busy_blocks i"
  "capacity_ok (stop_fleet_instance i) = capacity_ok i" "im_status (stop_fleet_instance i) \<noteq> I_PENDING"
  by (simp_all add: stop_fleet_instance_def capacity_ok_def)

lemma mark_instances_inv:
  assumes "server_inv up twice d" and "db_runs d' = db_runs d" and "db_instances d' = map_rows P f (db_instances d)"
    and f: "\<And>i. im_id (f i) = im_id i" "\<And>i. im_busy_blocks (f i) = im_busy_blocks i" "\<And>i. capacity_ok (f i) = capacity_ok i"
      "\<And>i. im_status (f i) \<noteq> I_PENDING"
  shows "server_inv up twice d'"
proof -
  note inv = server_invD [OF assms(1)]
  have jobs: "db_jobs d' = db_jobs d" "instance_jobs d' k = instance_jobs d k" for k
    using assms(2) by (simp_all add: db_jobs_def instance_jobs_def)
  have ids: "map im_id (db_instances d') = map im_id (db_instances d)"
    unfolding assms(3) by (rule map_map_rows) (simp add: f(1))
  then have "keys_ok d'" using inv(2) by (simp add: keys_ok_def assms(2) jobs)
  moreover have "blocks_inv twice d'" using inv(3) by (auto simp: blocks_inv_def assms(3) jobs set_map_rows f)
  moreover have "pending_unused d'" using inv(4) by (auto simp: pending_unused_def assms(3) jobs set_map_rows f)
  moreover have "\<forall>i \<in> set (db_instances d'). capacity_ok i"
    using inv(5) by (auto simp: assms(3) set_map_rows f)
  moreover have "instance_keys d' = instance_keys d" unfolding instance_keys_def set_map [symmetric] ids ..
  ultimately show ?thesis using inv(6,8) by (simp add: server_inv_def instances_ok_def jobs)
qed

lemma server_inv_fleets [simp]:
  "server_inv up twice (d\<lparr>db_fleets := fs\<rparr>) = server_inv up twice d" "server_inv up twice (d\<lparr>db_placement_groups := gs\<rparr>) = server_inv up twice d"
  "server_inv up twice (d\<lparr>db_volumes := vs\<rparr>) = server_inv up twice d" "server_inv up twice (d\<lparr>db_pools := ps\<rparr>) = server_inv up twice d"
  by (simp_all add: server_inv_def instances_ok_def keys_ok_def blocks_inv_def pending_unused_def instance_jobs_def db_jobs_def instance_keys_def)

lemma delete_each_inv: "delete_each nums fs d = Inr d' \<Longrightarrow> server_inv up twice d \<Longrightarrow> server_inv up twice d'"
proof (induction fs arbitrary: d)
  case (Cons f fs)
  then obtain d1 where t: "terminate_fleet_instances f nums d = Inr d1"
    and r: "delete_each nums fs (if nums = None
         then d1\<lparr>db_fleets := put_row flm_id (f\<lparr>flm_status := F_TERMINATING\<rparr>) (db_fleets d1)\<rparr> else d1) = Inr d'"
    by (auto simp: bindE_Inr_conv)
  from t have "server_inv up twice d1"
    by (auto simp: terminate_fleet_instances_def marked_instance_keeps intro!: mark_instances_inv [OF Cons.prems(2)] split: if_split_asm)
  then show ?case by (intro Cons.IH [OF r]) simp
qed simp

lemma delete_fleets_inv: "delete_fleets env p names nums d = Inr d' \<Longrightarrow> server_inv up twice d \<Longrightarrow> server_inv up twice d'"
  by (auto simp: delete_fleets_def Let_def bindE_Inr_conv intro: delete_each_inv)

lemma process_fleet_inv: "server_inv up twice d \<Longrightarrow> server_inv up twice (process_next_fleet now ls d)"
  by (simp add: process_next_fleet_def process_fleet_def split: option.split)

text \<open>Removing an instance of a pool only marks it, with force even when jobs use it.\<close>

lemma remove_instance_inv:
  assumes "server_inv up twice d" and "remove_instance jobs pool name force s (db_instances d) = (is, e)"
  shows "server_inv up twice (d\<lparr>db_instances := is\<rparr>)"
proof (cases "\<exists>p. get_pool False pool s = Inr (Some p)")
  case True
  then obtain P where "is = map_rows P (\<lambda>i. i\<lparr>im_status := I_TERMINATING\<rparr>) (db_instances d)"
    using assms(2) by (auto simp: remove_instance_def Let_def)
  with assms(1) show ?thesis by (intro mark_instances_inv [OF assms(1), of _ P "\<lambda>i. i\<lparr>im_status := I_TERMINATING\<rparr>"]) (simp_all add: capacity_ok_def)
next
  case False
  with assms(2) have "is = db_instances d" by (auto simp: remove_instance_def split: sum.split_asm option.split_asm)
  with assms(1) show ?thesis by simp
qed

section \<open>The server\<close>

text \<open>
  One transaction. Keys of new rows come from \<open>uid\<close> on, which is above every key in use. Beside the database
  the state has the ledger of blocks that were given back twice, an auxiliary variable that nothing reads.
  With the flag \<open>up\<close> the backends of terminating jobs can always be reached; without it they answer or
  not. What is assumed of the outside besides: the offers of a cloud are for one whole instance, and
  configurations have passed the validators of the client (at least one node; no negative number of
  blocks). Requests and tasks on volumes, pools and placement groups touch neither jobs nor instances and are
  one step that changes these tables at will. The deprecated requests that create an instance or add an
  SSH host outside of a fleet are not among the steps.
\<close>

inductive server_task :: "bool \<Rightarrow> nat \<Rightarrow> db \<times> (nat \<Rightarrow> int) \<Rightarrow> db \<times> (nat \<Rightarrow> int) \<Rightarrow> bool" for up uid where
  submitted: "process_next_submitted_job env lockset seen d = Inr d' \<Longrightarrow> sj_uid env = uid \<Longrightarrow> plain_offers (sj_backends env) \<Longrightarrow>
    server_task up uid (d, twice) (d', twice)"
| running: "process_next_running_job env lockset d = Inr d' \<Longrightarrow> server_task up uid (d, twice) (d', twice)"
| terminating: "process_next_terminating_job env jl il d = Inr (d', calls) \<Longrightarrow> up \<longrightarrow> (\<forall>b. te_backend env b) \<Longrightarrow>
    server_task up uid (d, twice) (d', next_ledger (te_now env) jl il d twice)"
| instances: "process_next_instance env lockset d = Inr d' \<Longrightarrow> plain_offers (ie_backends env) \<Longrightarrow> server_task up uid (d, twice) (d', twice)"
| runs: "process_next_run env rl jl (db_runs d, uid) = Inr (runs', uid') \<Longrightarrow> server_task up uid (d, twice) (d\<lparr>db_runs := runs'\<rparr>, twice)"
| fleets: "server_task up uid (d, twice) (process_next_fleet now lockset d, twice)"
| apply_run: "apply_plan env (db_volumes d) project usr spec expected force (db_runs d) uid = (runs', res) \<Longrightarrow>
    0 < conf_nodes (spec_configuration spec) \<Longrightarrow> server_task up uid (d, twice) (d\<lparr>db_runs := runs'\<rparr>, twice)"
| stop: "stop_runs key (db_instances d) now project names abort (db_runs d) = (runs', e) \<Longrightarrow>
    server_task up uid (d, twice) (d\<lparr>db_runs := runs'\<rparr>, twice)"
| delete: "delete_runs project names (db_runs d) = Inr runs' \<Longrightarrow> server_task up uid (d, twice) (d\<lparr>db_runs := runs'\<rparr>, twice)"
| create_fleet: "create_fleet fenv uid proj fspec d = Inr (Some (f, proj', d')) \<Longrightarrow> fleet_blocks_ok fspec \<Longrightarrow>
    server_task up uid (d, twice) (d', twice)"
| delete_fleets: "delete_fleets fenv project names nums d = Inr d' \<Longrightarrow> server_task up uid (d, twice) (d', twice)"
| remove_instance: "remove_instance (db_jobs d) pool name force \<lparr>ps_pools = db_pools d, ps_project = proj, ps_uid = uid\<rparr> (db_instances d)
    = (is, e) \<Longrightarrow> server_task up uid (d, twice) (d\<lparr>db_instances := is\<rparr>, twice)"
| rest: "server_task up uid (d, twice) (d\<lparr>db_volumes := volumes, db_pools := pools, db_placement_groups := groups\<rparr>, twice)"

text \<open>
  The server starts without jobs, on any idle instances and with nothing given back; keys that are drawn
  are never in use.
\<close>

inductive server_step :: "bool \<Rightarrow> db \<times> nat \<times> (nat \<Rightarrow> int) \<Rightarrow> db \<times> nat \<times> (nat \<Rightarrow> int) \<Rightarrow> bool" for up where
  task: "server_task up uid (d, twice) (d', twice') \<Longrightarrow> uid \<le> uid' \<Longrightarrow> keys_below uid' d' \<Longrightarrow>
    server_step up (d, uid, twice) (d', uid', twice')"

definition server_init :: "db \<times> nat \<times> (nat \<Rightarrow> int) \<Rightarrow> bool" where
  "server_init = (\<lambda>(d, uid, twice). db_runs d = [] \<and> distinct (map im_id (db_instances d)) \<and> keys_below uid d
     \<and> (\<forall>i \<in> set (db_instances d). im_busy_blocks i = 0 \<and> capacity_ok i) \<and> twice = (\<lambda>_. 0))"

lemma server_task_inv:
  assumes "server_task up uid (d, twice) (d', twice')" and "server_inv up twice d" and "keys_below uid d"
  shows "server_inv up twice' d'"
  using assms(1)
proof cases
  case (submitted env lockset seen)
  have "fresh_key (sj_uid env) d" using submitted(3) assms(3) by (simp add: keys_below_def)
  from submitted_inv [OF assms(2) submitted(2) this submitted(4)] submitted(1) show ?thesis by simp
next
  case (running env lockset)
  with assms(2,3) show ?thesis by (auto intro: running_inv)
next
  case (terminating env jl il calls)
  with assms(2,3) show ?thesis by (auto intro: terminating_inv)
next
  case (instances env lockset)
  with assms(2,3) show ?thesis by (auto intro: instance_inv)
next
  case (runs env rl jl runs' uid')
  with assms(2,3) show ?thesis by (auto intro: runs_inv)
next
  case (fleets now lockset)
  with assms(2,3) show ?thesis by (auto intro: process_fleet_inv)
next
  case (apply_run env project usr spec expected force runs' res)
  with assms(2,3) show ?thesis by (auto intro: apply_inv)
next
  case (stop key now project names abort runs' e)
  with assms(2,3) show ?thesis by (auto intro: stop_inv)
next
  case (delete project names runs')
  with assms(2,3) show ?thesis by (auto intro: delete_inv)
next
  case (create_fleet fenv proj fspec f proj')
  with assms(2,3) show ?thesis by (auto intro: create_fleet_inv)
next
  case (delete_fleets fenv project names nums)
  with assms(2,3) show ?thesis by (auto intro: delete_fleets_inv)
next
  case (remove_instance pool name force proj "is" e)
  with assms(2) show ?thesis by (auto intro: remove_instance_inv)
next
  case (rest volumes pools groups)
  with assms(2) show ?thesis by simp
qed

interpretation server: invariant_system server_init "server_step up" "\<lambda>(d, uid, twice). server_inv up twice d \<and> keys_below uid d" for up
proof
  fix s assume "server_init s"
  then show "case s of (d, uid, twice) \<Rightarrow> server_inv up twice d \<and> keys_below uid d"
    by (auto simp: server_init_def server_inv_def instances_ok_def keys_ok_def db_jobs_def blocks_inv_def instance_jobs_def pending_unused_def ledger_ok_def)
next
  fix s t assume "server_step up s t" "case s of (d, uid, twice) \<Rightarrow> server_inv up twice d \<and> keys_below uid d"
  then show "case t of (d, uid, twice) \<Rightarrow> server_inv up twice d \<and> keys_below uid d"
    by (auto elim!: server_step.cases intro: server_task_inv)
qed

text \<open>Keys that are not in use always exist, so that a transaction is never held up by them.\<close>

lemma fresh_keys_exist: "\<exists>uid' \<ge> uid. keys_below uid' d"
proof -
  let ?ks = "im_id ` set (db_instances d) \<union> (\<Union>j \<in> set (db_jobs d). insert (jm_id j) (set_option (jm_instance_id j))) \<union> rm_id ` set (db_runs d)"
  have "finite ?ks" by simp
  then obtain m where m: "\<forall>k \<in> ?ks. k < m" unfolding finite_nat_set_iff_bounded by blast
  then have "keys_below (max uid m) d" by (auto simp: keys_below_def fresh_key_def less_max_iff_disj)
  then show ?thesis by (intro exI [of _ "max uid m"]) simp
qed

lemma server_reach_task:
  assumes "reach server_init (server_step up) (d, uid, twice)" and "server_task up uid (d, twice) (d', twice')"
  shows "\<exists>uid'. reach server_init (server_step up) (d', uid', twice')"
  using fresh_keys_exist [of uid d'] assms by (blast intro: reach_step server_step.task)

lemma reachable_server:
  assumes "reach server_init (server_step up) (d, uid, twice)"
  shows "server_inv up twice d" "keys_below uid d"
  using server.reach_inv [OF assms] by simp_all

lemma server_jobs:
  assumes "server_inv up twice d" and "j \<in> set (db_jobs d)" and "jm_instance_id j = Some k"
  shows "\<not> job_is_finished (jm_status j)" "\<exists>i \<in> set (db_instances d). im_id i = k \<and> im_status i \<noteq> I_PENDING" "jm_used_instance_id j = Some k"
proof -
  have ok: "job_row_ok up (instance_keys d) j" using assms(1,2) by (simp add: server_inv_def)
  then show "\<not> job_is_finished (jm_status j)" and u: "jm_used_instance_id j = Some k"
    using assms(3) by (auto simp: job_row_ok_def assignment_ok_def split: if_split_asm)
  with ok obtain i where i: "i \<in> set (db_instances d)" "im_id i = k" by (auto simp: job_row_ok_def instance_keys_def)
  have "im_status i \<noteq> I_PENDING"
    using assms(1,2,3) i by (auto simp: server_inv_def pending_unused_def instance_jobs_def filter_empty_conv)
  with i show "\<exists>i \<in> set (db_instances d). im_id i = k \<and> im_status i \<noteq> I_PENDING" by blast
qed

lemma server_busy_sum:
  assumes "server_inv up twice d"
  shows "sum_list (map job_blocks (instance_jobs d k))
    = (\<Sum>j\<leftarrow>db_jobs d. if jm_instance_id j = Some k \<and> \<not> job_is_finished (jm_status j) then job_blocks j else 0)"
proof -
  have "sum_list (map job_blocks (instance_jobs d k)) = (\<Sum>j\<leftarrow>db_jobs d. if jm_instance_id j = Some k then job_blocks j else 0)"
    unfolding instance_jobs_def by (rule sum_list_map_filter')
  also have "\<dots> = (\<Sum>j\<leftarrow>db_jobs d. if jm_instance_id j = Some k \<and> \<not> job_is_finished (jm_status j) then job_blocks j else 0)"
    using server_jobs(1) [OF assms] by (intro arg_cong [where f = sum_list] map_cong) auto
  finally show ?thesis .
qed

end
