(* ===== verification/Volumes.thy ===== *)
theory Volumes
  imports Fleets Pagination
begin

text \<open>
  Network volumes: the requests of \<^verbatim>\<open>services/volumes.py\<close> and the task of
  \<^verbatim>\<open>process_volumes.py\<close> that creates the submitted volumes in the cloud. The compute interface of the
  backends and the texts of exceptions are parameters.
\<close>

section \<open>What the code reads from outside\<close>

record volume_compute =
  vcp_register :: "Volume \<Rightarrow> VolumeProvisioningData result"
  vcp_create :: "Volume \<Rightarrow> VolumeProvisioningData result"
  vcp_delete :: "Volume \<Rightarrow> unit result"

text \<open>
  \<open>ve_backend\<close> is the backend of a project by type, with overrides or not; \<open>ve_arg\<close> is the first argument
  of an exception as text.
\<close>

record volume_env =
  ve_now :: time
  ve_names :: "string list"
  ve_backend :: "nat \<Rightarrow> BackendType \<Rightarrow> bool \<Rightarrow> volume_compute option"
  ve_arg :: "error \<Rightarrow> string option"
  ve_repr :: "error \<Rightarrow> string"

datatype volume_call = RegisterVolume nat | CreateVolume nat | DeleteVolume nat

section \<open>Listing\<close>

definition list_projects_volume_models ::
    "VolumeModel list \<Rightarrow> nat set \<Rightarrow> bool \<Rightarrow> (time \<times> nat option) option \<Rightarrow> nat \<Rightarrow> bool \<Rightarrow> VolumeModel list" where
  "list_projects_volume_models volumes projects only_active prev limit ascending =
     take limit (order_by ascending vm_created_at vm_id
       (filter (\<lambda>v. vm_project_id v \<in> projects \<and> (only_active \<longrightarrow> \<not> vm_deleted v)
          \<and> after_prev ascending prev (vm_created_at v) (vm_id v)) volumes))"

interpretation volume_listing: keyset_listing
  "\<lambda>prev. list_projects_volume_models volumes projects only_active prev limit ascending"
  vm_created_at vm_id
  "filter (\<lambda>v. vm_project_id v \<in> projects \<and> (only_active \<longrightarrow> \<not> vm_deleted v)) volumes"
  ascending limit for volumes projects only_active limit ascending
  by unfold_locales (simp add: list_projects_volume_models_def conj_ac)

section \<open>Creating volumes\<close>

definition validate_volume_configuration :: "VolumeConfiguration \<Rightarrow> unit result" where
  "validate_volume_configuration conf =
     (if vc_volume_id conf = None \<and> vc_size conf = None
      then Inl (ServerClientError ''Volume must specify either volume_id or size'')
      else if vc_backend conf \<notin> set BACKENDS_WITH_VOLUMES_SUPPORT
      then Inl (ServerClientError (''Volumes are not supported for '' @ backend_value (vc_backend conf) @ '' backend. Supported backends: [''
        @ join '', '' (map (\<lambda>b. [CHR 0x27] @ backend_value b @ [CHR 0x27]) BACKENDS_WITH_VOLUMES_SUPPORT) @ ''].''))
      else case vc_name conf of None \<Rightarrow> Inr () | Some n \<Rightarrow> validate_dstack_resource_name n)"

definition generate_volume_name :: "VolumeModel list \<Rightarrow> nat \<Rightarrow> string list \<Rightarrow> string option" where
  "generate_volume_name volumes project_id names =
     first_free (vm_name ` set (list_project_volume_models volumes project_id None False)) names"

definition volume_name :: "volume_env \<Rightarrow> VolumeModel list \<Rightarrow> nat \<Rightarrow> VolumeConfiguration \<Rightarrow> string option result" where
  "volume_name env volumes project_id conf = (case vc_name conf of
      Some n \<Rightarrow> if get_project_volume_model_by_name volumes project_id n \<noteq> None then Inl ResourceExistsError else Inr (Some n)
    | None \<Rightarrow> Inr (generate_volume_name volumes project_id (ve_names env)))"

definition new_volume :: "volume_env \<Rightarrow> nat \<Rightarrow> nat \<Rightarrow> nat \<Rightarrow> VolumeConfiguration \<Rightarrow> string \<Rightarrow> VolumeModel" where
  "new_volume env uid project_id user_id conf name = \<lparr>vm_id = uid, vm_name = name, vm_user_id = user_id, vm_project_id = project_id, vm_created_at = ve_now env,
     vm_last_processed_at = ve_now env, vm_deleted = False, vm_deleted_at = None, vm_status = V_SUBMITTED,
     vm_status_message = None, vm_configuration = conf\<lparr>vc_name := Some name\<rparr>, vm_provisioning_data = None\<rparr>"

text \<open>
  \<^verbatim>\<open>create_volume\<close>: \<open>uid\<close> is the next fresh key. \<open>Inr None\<close> when the random names run
  out, which stands for not returning.
\<close>

definition create_volume ::
    "volume_env \<Rightarrow> nat \<Rightarrow> nat \<Rightarrow> nat \<Rightarrow> VolumeConfiguration \<Rightarrow> VolumeModel list \<Rightarrow> (Volume \<times> VolumeModel list) option result" where
  "create_volume env uid project_id user_id conf volumes =
     bindE (validate_volume_configuration conf) (\<lambda>_.
     fmapE (map_option (\<lambda>name. let v = new_volume env uid project_id user_id conf name in (volume_model_to_volume v, volumes @ [v])))
       (volume_name env volumes project_id conf))"

section \<open>Deleting volumes\<close>

text \<open>\<^verbatim>\<open>_delete_volume\<close>: the call of the cloud, and what it raises.\<close>

definition delete_volume :: "volume_env \<Rightarrow> VolumeModel \<Rightarrow> volume_call list \<times> unit result" where
  "delete_volume env v =
     (let volume = volume_model_to_volume v in
      if vol_external volume then ([], Inr ())
      else case vol_provisioning_data volume of
        None \<Rightarrow> ([], Inr ())
      | Some vpd \<Rightarrow> (case vpd_backend vpd of
          None \<Rightarrow> ([], Inr ())
        | Some b \<Rightarrow> (case ve_backend env (vm_project_id v) b False of
            None \<Rightarrow> ([], Inr ())
          | Some c \<Rightarrow> ([DeleteVolume (vm_id v)], vcp_delete c volume))))"

definition volume_attached :: "db \<Rightarrow> VolumeModel \<Rightarrow> bool" where
  "volume_attached d v \<longleftrightarrow> list_ex (\<lambda>i. vm_id v \<in> set (im_volume_attachments i)) (db_instances d)"

definition delete_row :: "time \<Rightarrow> VolumeModel \<Rightarrow> VolumeModel" where
  "delete_row now v = v\<lparr>vm_deleted := True, vm_deleted_at := Some now\<rparr>"

text \<open>
  \<^verbatim>\<open>delete_volumes\<close>: the keys are read from the database as \<open>seen\<close> before the wait for the locks,
  the volumes again after it. Exceptions of the cloud are logged and do not count.
\<close>

definition delete_volumes ::
    "volume_env \<Rightarrow> nat \<Rightarrow> string list \<Rightarrow> db \<Rightarrow> db \<Rightarrow> db \<times> volume_call list \<times> unit result" where
  "delete_volumes env project_id names seen d =
     (let ids = map vm_id (list_project_volume_models (db_volumes seen) project_id (Some names) False);
          volumes = list_project_volume_models (db_volumes d) project_id (Some names) False in
      case find (volume_attached d) volumes of
        Some v \<Rightarrow> (d, [], Inl (ServerClientError (''Failed to delete volume '' @ vm_name v @ ''. Volume is in use.'')))
      | None \<Rightarrow>
          (d\<lparr>db_volumes := map_rows (\<lambda>v. vm_project_id v = project_id \<and> vm_id v \<in> set ids) (delete_row (ve_now env)) (db_volumes d)\<rparr>,
           concat (map (\<lambda>v. fst (delete_volume env v)) volumes), Inr ()))"

section \<open>The task\<close>

definition next_submitted_volume :: "nat set \<Rightarrow> db \<Rightarrow> VolumeModel option" where
  "next_submitted_volume lockset d =
     (case sort_key vm_last_processed_at (filter (\<lambda>v. vm_status v = V_SUBMITTED \<and> vm_id v \<notin> lockset) (db_volumes d)) of
        [] \<Rightarrow> None | v # _ \<Rightarrow> Some v)"

definition fail_volume :: "volume_env \<Rightarrow> string \<Rightarrow> VolumeModel \<Rightarrow> VolumeModel" where
  "fail_volume env msg v = v\<lparr>vm_status := V_FAILED, vm_status_message := Some msg, vm_last_processed_at := ve_now env\<rparr>"

definition process_submitted_volume :: "volume_env \<Rightarrow> VolumeModel \<Rightarrow> VolumeModel \<times> volume_call list" where
  "process_submitted_volume env v =
     (let volume = volume_model_to_volume v; conf = vm_configuration v in
      case ve_backend env (vm_project_id v) (vc_backend conf) True of
        None \<Rightarrow> (fail_volume env ''Backend not available'' v, [])
      | Some c \<Rightarrow>
          let (call, res) = (if vc_volume_id conf \<noteq> None then (RegisterVolume (vm_id v), vcp_register c volume)
                             else (CreateVolume (vm_id v), vcp_create c volume)) in
          (case res of
             Inl e \<Rightarrow>
               (fail_volume env (if is_BackendError e
                  then (case ve_arg env e of Some a \<Rightarrow> a | None \<Rightarrow> ''Backend error: '' @ ve_repr env e)
                  else ''Unexpected error: '' @ ve_repr env e) v, [call])
           | Inr vpd \<Rightarrow>
               (v\<lparr>vm_provisioning_data := Some vpd, vm_status := V_ACTIVE, vm_last_processed_at := ve_now env\<rparr>, [call])))"

definition process_submitted_volumes :: "volume_env \<Rightarrow> nat set \<Rightarrow> db \<Rightarrow> db \<times> volume_call list" where
  "process_submitted_volumes env lockset d = (case next_submitted_volume lockset d of
      None \<Rightarrow> (d, [])
    | Some v \<Rightarrow> let (v', calls) = process_submitted_volume env v
               in (d\<lparr>db_volumes := put_row vm_id v' (db_volumes d)\<rparr>, calls))"

section \<open>The invariant\<close>

definition live_volumes :: "nat \<Rightarrow> VolumeModel list \<Rightarrow> VolumeModel list" where
  "live_volumes project_id volumes = filter (\<lambda>v. vm_project_id v = project_id \<and> \<not> vm_deleted v) volumes"

text \<open>
  A row: it has been validated, carries its name in the configuration, and knows its place in the cloud
  exactly when it is active. The status \<^verbatim>\<open>provisioning\<close> is never used.
\<close>

definition volume_row_ok :: "VolumeModel \<Rightarrow> bool" where
  "volume_row_ok v \<longleftrightarrow> vm_status v \<noteq> V_PROVISIONING \<and> (vm_status v = V_ACTIVE \<longleftrightarrow> vm_provisioning_data v \<noteq> None)
     \<and> vc_name (vm_configuration v) = Some (vm_name v) \<and> vc_backend (vm_configuration v) \<in> set BACKENDS_WITH_VOLUMES_SUPPORT
     \<and> (vc_volume_id (vm_configuration v) \<noteq> None \<or> vc_size (vm_configuration v) \<noteq> None)
     \<and> (vm_deleted v \<longleftrightarrow> vm_deleted_at v \<noteq> None)"

definition volumes_ok :: "db \<times> nat \<Rightarrow> bool" where
  "volumes_ok = (\<lambda>(d, uid). distinct (map vm_id (db_volumes d)) \<and> (\<forall>v \<in> set (db_volumes d). vm_id v < uid \<and> volume_row_ok v)
     \<and> (\<forall>p. distinct (map vm_name (live_volumes p (db_volumes d)))))"

text \<open>Requests and task, and whatever else happens to the database.\<close>

inductive volume_step :: "db \<times> nat \<Rightarrow> db \<times> nat \<Rightarrow> bool" where
  create: "create_volume env uid project usr conf (db_volumes d) = Inr (Some (vol, volumes)) \<Longrightarrow>
    volume_step (d, uid) (d\<lparr>db_volumes := volumes\<rparr>, Suc uid)"
| delete: "delete_volumes env project names seen d = (d', calls, res) \<Longrightarrow> volume_step (d, uid) (d', uid)"
| process: "process_submitted_volumes env lockset d = (d', calls) \<Longrightarrow> volume_step (d, uid) (d', uid)"
| other: "db_volumes d' = db_volumes d \<Longrightarrow> uid \<le> uid' \<Longrightarrow> volume_step (d, uid) (d', uid')"

definition volume_init :: "db \<times> nat \<Rightarrow> bool" where
  "volume_init s \<longleftrightarrow> db_volumes (fst s) = []"

lemma map_filter_put_row:
  assumes "distinct (map key rs)" and "r \<in> set rs" and "key r' = key r" and "f r' = f r" and "P r' = P r"
  shows "map f (filter P (put_row key r' rs)) = map f (filter P rs)"
  using assms
proof (induction rs)
  case (Cons x rs)
  show ?case
  proof (cases "x = r")
    case True
    then have "put_row key r' rs = rs" using Cons.prems by (intro put_row_absent) auto
    with True Cons.prems show ?thesis by simp
  next
    case False
    with Cons show ?thesis by auto
  qed
qed simp

lemma live_names_deleted:
  "map vm_name (live_volumes p (map_rows Q (delete_row now) vs)) = map vm_name (filter (\<lambda>v. \<not> Q v) (live_volumes p vs))"
  by (induction vs) (auto simp: live_volumes_def delete_row_def)

lemma first_free_fresh: "first_free used names = Some n \<Longrightarrow> n \<notin> used"
  by (induction names) (auto split: if_split_asm)

lemma volume_name_fresh:
  assumes "volume_name env volumes p conf = Inr (Some n)"
  shows "n \<notin> vm_name ` set (live_volumes p volumes)" and "vc_name conf = None \<or> vc_name conf = Some n"
proof -
  have "n \<notin> vm_name ` set (live_volumes p volumes) \<and> (vc_name conf = None \<or> vc_name conf = Some n)"
  proof (cases "vc_name conf")
    case None
    with assms have "n \<notin> vm_name ` set (list_project_volume_models volumes p None False)"
      by (auto simp: volume_name_def generate_volume_name_def dest: first_free_fresh)
    with None show ?thesis by (auto simp: list_project_volume_models_def live_volumes_def)
  next
    case (Some m)
    with assms show ?thesis
      by (auto simp: volume_name_def get_project_volume_model_by_name_def find_None_iff live_volumes_def split: if_split_asm)
  qed
  then show "n \<notin> vm_name ` set (live_volumes p volumes)" "vc_name conf = None \<or> vc_name conf = Some n" by simp_all
qed

lemma create_volume_Some:
  assumes "create_volume env uid p usr conf volumes = Inr (Some (vol, volumes'))"
  obtains v where "volumes' = volumes @ [v]" "vm_id v = uid" "vm_project_id v = p" "volume_row_ok v" "\<not> vm_deleted v"
    "vm_status v = V_SUBMITTED" "vm_name v \<notin> vm_name ` set (live_volumes p volumes)" "vol = volume_model_to_volume v"
    "vc_name conf = None \<or> vc_name conf = Some (vm_name v)"
proof -
  from assms obtain x where val: "validate_volume_configuration conf = Inr ()" and x: "volume_name env volumes p conf = Inr x"
    and r: "Some (vol, volumes') = map_option (\<lambda>n. let v = new_volume env uid p usr conf n in (volume_model_to_volume v, volumes @ [v])) x"
    by (auto simp: create_volume_def bindE_Inr_conv fmapE_Inr_conv)
  then obtain n where n: "volume_name env volumes p conf = Inr (Some n)"
    and vs: "volumes' = volumes @ [new_volume env uid p usr conf n]" "vol = volume_model_to_volume (new_volume env uid p usr conf n)"
    by (cases x) (auto simp: Let_def)
  from val have "vc_backend conf \<in> set BACKENDS_WITH_VOLUMES_SUPPORT" "vc_volume_id conf \<noteq> None \<or> vc_size conf \<noteq> None"
    by (auto simp: validate_volume_configuration_def split: if_split_asm)
  with vs volume_name_fresh [OF n] show thesis by (intro that) (auto simp: volume_row_ok_def new_volume_def)
qed

lemma processed_volume:
  "vm_id (fst (process_submitted_volume env v)) = vm_id v" "vm_name (fst (process_submitted_volume env v)) = vm_name v"
  "vm_project_id (fst (process_submitted_volume env v)) = vm_project_id v" "vm_deleted (fst (process_submitted_volume env v)) = vm_deleted v"
  "volume_row_ok v \<Longrightarrow> vm_status v = V_SUBMITTED \<Longrightarrow> volume_row_ok (fst (process_submitted_volume env v))"
  by (auto simp: process_submitted_volume_def fail_volume_def volume_row_ok_def Let_def split: option.split sum.split prod.split)

lemma next_submitted_volume_Some:
  assumes "next_submitted_volume lockset d = Some v"
  shows "v \<in> set (db_volumes d)" "vm_status v = V_SUBMITTED" "vm_id v \<notin> lockset"
proof -
  from assms have "v \<in> set (filter (\<lambda>v. vm_status v = V_SUBMITTED \<and> vm_id v \<notin> lockset) (db_volumes d))"
    unfolding next_submitted_volume_def by (auto split: list.split_asm dest: sort_filter_head)
  then show "v \<in> set (db_volumes d)" "vm_status v = V_SUBMITTED" "vm_id v \<notin> lockset" by auto
qed

lemma process_volumes_ok:
  assumes "volumes_ok (d, uid)" and "process_submitted_volumes env lockset d = (d', calls)"
  shows "volumes_ok (d', uid)"
proof (cases "next_submitted_volume lockset d")
  case None
  with assms show ?thesis by (simp add: process_submitted_volumes_def)
next
  case (Some v)
  note v = next_submitted_volume_Some [OF Some]
  let ?v = "fst (process_submitted_volume env v)"
  have d': "d' = d\<lparr>db_volumes := put_row vm_id ?v (db_volumes d)\<rparr>"
    using assms(2) Some by (cases "process_submitted_volume env v") (auto simp: process_submitted_volumes_def)
  have k: "distinct (map vm_id (db_volumes d))" and ok: "\<forall>v \<in> set (db_volumes d). vm_id v < uid \<and> volume_row_ok v"
    using assms(1) by (auto simp: volumes_ok_def)
  have "map vm_name (live_volumes p (put_row vm_id ?v (db_volumes d))) = map vm_name (live_volumes p (db_volumes d))" for p
    unfolding live_volumes_def by (rule map_filter_put_row [OF k v(1)]) (simp_all add: processed_volume)
  moreover have "\<forall>x \<in> set (put_row vm_id ?v (db_volumes d)). vm_id x < uid \<and> volume_row_ok x"
    using ok v processed_volume [where env = env and v = v] set_put_row [of vm_id ?v "db_volumes d"] by fastforce
  ultimately show ?thesis using assms(1) by (simp add: volumes_ok_def d')
qed

lemma delete_volumes_ok:
  assumes "volumes_ok (d, uid)" and "delete_volumes env p names seen d = (d', calls, res)"
  shows "volumes_ok (d', uid)"
proof -
  from assms(2) consider "d' = d" | Q where "d' = d\<lparr>db_volumes := map_rows Q (delete_row (ve_now env)) (db_volumes d)\<rparr>"
    by (auto simp: delete_volumes_def Let_def split: option.split_asm)
  then show ?thesis
  proof cases
    case 2
    have "map vm_id (map_rows Q (delete_row (ve_now env)) (db_volumes d)) = map vm_id (db_volumes d)"
      by (rule map_map_rows) (simp add: delete_row_def)
    moreover have "distinct (map vm_name (live_volumes q (map_rows Q (delete_row (ve_now env)) (db_volumes d))))" for q
      unfolding live_names_deleted using assms(1) by (simp add: volumes_ok_def distinct_map_filter)
    moreover have "\<forall>x \<in> set (map_rows Q (delete_row (ve_now env)) (db_volumes d)). vm_id x < uid \<and> volume_row_ok x"
      using assms(1) by (auto simp: volumes_ok_def set_map_rows delete_row_def volume_row_ok_def)
    ultimately show ?thesis using assms(1) by (simp add: volumes_ok_def 2)
  qed (use assms(1) in simp)
qed

lemma create_volumes_ok:
  assumes "volumes_ok (d, uid)" and "create_volume env uid p usr conf (db_volumes d) = Inr (Some (vol, vs))"
  shows "volumes_ok (d\<lparr>db_volumes := vs\<rparr>, Suc uid)"
  using assms(2)
proof (cases rule: create_volume_Some)
  case (1 v)
  have "distinct (map vm_name (live_volumes q vs))" for q
    using assms(1) 1 by (cases "q = p") (auto simp: volumes_ok_def live_volumes_def)
  with assms(1) 1 show ?thesis by (auto simp: volumes_ok_def less_Suc_eq)
qed

interpretation volume_system: invariant_system volume_init volume_step volumes_ok
proof
  fix s assume "volume_init s" then show "volumes_ok s" by (cases s) (simp add: volume_init_def volumes_ok_def live_volumes_def)
next
  fix s t assume "volume_step s t" "volumes_ok s"
  then show "volumes_ok t"
  proof cases
    case (create env uid project usr conf d vol volumes)
    with \<open>volumes_ok s\<close> show ?thesis by (simp add: create_volumes_ok)
  next
    case (delete env project names seen d d' calls res uid)
    with \<open>volumes_ok s\<close> show ?thesis by (simp add: delete_volumes_ok)
  next
    case (process env lockset d d' calls uid)
    with \<open>volumes_ok s\<close> show ?thesis by (simp add: process_volumes_ok)
  next
    case (other d' d uid uid')
    with \<open>volumes_ok s\<close> show ?thesis by (auto simp: volumes_ok_def)
  qed
qed

section \<open>Properties\<close>

text \<open>
  C38. Volumes in every state reached by creating, deleting and processing them, whatever happens to the rest
  of the database: names are unique among the live volumes of a project; every volume has a size or is an
  existing one, in a backend that supports volumes; it is active exactly when it has provisioning data.
\<close>

theorem reachable_volumes:
  assumes "reach volume_init volume_step (d, uid)"
  shows "distinct (map vm_name (filter (\<lambda>v. vm_project_id v = p \<and> \<not> vm_deleted v) (db_volumes d)))
    \<and> (\<forall>v \<in> set (db_volumes d). vm_status v \<in> {V_SUBMITTED, V_ACTIVE, V_FAILED} \<and> (vm_status v = V_ACTIVE \<longleftrightarrow> vm_provisioning_data v \<noteq> None)
         \<and> vc_backend (vm_configuration v) \<in> set BACKENDS_WITH_VOLUMES_SUPPORT
         \<and> (vc_volume_id (vm_configuration v) \<noteq> None \<or> vc_size (vm_configuration v) \<noteq> None))"
proof -
  have "volumes_ok (d, uid)" using assms by (rule volume_system.reach_inv)
  moreover have "s \<noteq> V_PROVISIONING \<Longrightarrow> s \<in> {V_SUBMITTED, V_ACTIVE, V_FAILED}" for s by (cases s) auto
  ultimately show ?thesis by (auto simp: volumes_ok_def volume_row_ok_def live_volumes_def)
qed

text \<open>Sample volumes, and a cloud that creates them.\<close>

definition sample_volume_conf :: VolumeConfiguration where
  "sample_volume_conf = \<lparr>vc_name = Some ''data'', vc_backend = AWS, vc_region = ''eu'', vc_availability_zone = None,
     vc_size = Some 100, vc_volume_id = None\<rparr>"

definition sample_vpd :: VolumeProvisioningData where
  "sample_vpd = \<lparr>vpd_backend = Some AWS, vpd_volume_id = ''vol-1'', vpd_size_gb = 100, vpd_availability_zone = None,
     vpd_attachable = True, vpd_detachable = True\<rparr>"

definition sample_volume_compute :: volume_compute where
  "sample_volume_compute = \<lparr>vcp_register = (\<lambda>v. Inl BackendError), vcp_create = (\<lambda>v. Inr sample_vpd), vcp_delete = (\<lambda>v. Inr ())\<rparr>"

definition sample_volume_env :: volume_env where
  "sample_volume_env = \<lparr>ve_now = 5, ve_names = [],
     ve_backend = (\<lambda>p b overrides. Some sample_volume_compute),
     ve_arg = (\<lambda>e. None), ve_repr = (\<lambda>e. ''error'')\<rparr>"

definition submitted_volume :: VolumeModel where
  "submitted_volume = new_volume sample_volume_env 1 1 1 sample_volume_conf ''data''"

lemma sample_volume_created:
  "create_volume sample_volume_env 1 1 1 sample_volume_conf [] = Inr (Some (volume_model_to_volume submitted_volume, [submitted_volume]))"
  by code_simp

lemma sample_volume_reached: "reach volume_init volume_step (empty_db\<lparr>db_volumes := [submitted_volume]\<rparr>, 2)"
proof -
  have "reach volume_init volume_step (empty_db, 1)" by (rule reach_init) (simp add: volume_init_def empty_db_def)
  moreover have "create_volume sample_volume_env 1 1 1 sample_volume_conf (db_volumes empty_db)
      = Inr (Some (volume_model_to_volume submitted_volume, [submitted_volume]))"
    using sample_volume_created by (simp add: empty_db_def)
  from volume_step.create [OF this] have "volume_step (empty_db, 1) (empty_db\<lparr>db_volumes := [submitted_volume]\<rparr>, 2)" by (simp add: numeral_2_eq_2)
  ultimately show ?thesis by (rule reach_step)
qed

theorem reachable_volumes_witness:
  "\<exists>d uid v. reach volume_init volume_step (d, uid) \<and> v \<in> set (db_volumes d) \<and> vm_status v \<in> {V_SUBMITTED, V_ACTIVE, V_FAILED}"
  using reachable_volumes [OF sample_volume_reached] sample_volume_reached by fastforce

text \<open>
  C39. Deleting volumes of a project by name, when nothing changed while waiting for the locks: with one of
  them attached to an instance nothing is done; otherwise exactly the live volumes of these names are marked
  deleted, and the cloud is asked to delete those the server had created there and whose backend is still
  configured, never the registered ones.
\<close>

theorem delete_volumes_correct:
  fixes env d project_id names
  defines "sel \<equiv> \<lambda>v. vm_project_id v = project_id \<and> vm_name v \<in> set names \<and> \<not> vm_deleted v"
  assumes "distinct (map vm_id (db_volumes d))" and "delete_volumes env project_id names d d = (d', calls, res)"
  shows "if \<exists>v \<in> set (db_volumes d). sel v \<and> (\<exists>i \<in> set (db_instances d). vm_id v \<in> set (im_volume_attachments i)) then d' = d \<and> calls = [] \<and> (\<exists>msg. res = Inl (ServerClientError msg))
    else res = Inr () \<and> d' = d\<lparr>db_volumes := map (\<lambda>v. if sel v then delete_row (ve_now env) v else v) (db_volumes d)\<rparr>
      \<and> set calls = {DeleteVolume (vm_id v) | v vpd. v \<in> set (db_volumes d) \<and> sel v \<and> vc_volume_id (vm_configuration v) = None
          \<and> vm_provisioning_data v = Some vpd
          \<and> ve_backend env project_id (case vpd_backend vpd of None \<Rightarrow> vc_backend (vm_configuration v) | Some b \<Rightarrow> b) False \<noteq> None}"
proof (cases "\<exists>v \<in> set (db_volumes d). sel v \<and> (\<exists>i \<in> set (db_instances d). vm_id v \<in> set (im_volume_attachments i))")
  case True
  then have "find (volume_attached d) (filter sel (db_volumes d)) \<noteq> None" by (auto simp: find_None_iff volume_attached_def list_ex_iff)
  with True assms(3) show ?thesis by (auto simp: delete_volumes_def list_project_volume_models_def Let_def sel_def)
next
  case False
  then have f: "find (volume_attached d) (filter sel (db_volumes d)) = None" by (auto simp: find_None_iff volume_attached_def list_ex_iff)
  have ids: "(vm_project_id v = project_id \<and> vm_id v \<in> vm_id ` {x \<in> set (db_volumes d). sel x}) = sel v" if "v \<in> set (db_volumes d)" for v
    using that assms(2) by (auto simp: distinct_map inj_on_def sel_def)
  have "map_rows (\<lambda>v. vm_project_id v = project_id \<and> vm_id v \<in> vm_id ` {x \<in> set (db_volumes d). sel x}) (delete_row (ve_now env)) (db_volumes d)
      = map (\<lambda>v. if sel v then delete_row (ve_now env) v else v) (db_volumes d)"
    unfolding map_rows_def using ids by (intro map_cong) auto
  moreover have "set (fst (delete_volume env v)) = {DeleteVolume (vm_id v) | vpd. vc_volume_id (vm_configuration v) = None
          \<and> vm_provisioning_data v = Some vpd
          \<and> ve_backend env (vm_project_id v) (case vpd_backend vpd of None \<Rightarrow> vc_backend (vm_configuration v) | Some b \<Rightarrow> b) False \<noteq> None}" for v
    by (auto simp: delete_volume_def volume_model_to_volume_def Let_def split: option.splits)
  ultimately show ?thesis using False f assms(3)
    by (auto simp: delete_volumes_def list_project_volume_models_def Let_def sel_def [symmetric])
      (auto simp: sel_def)
qed

lemma sample_volume_deleted:
  "(case delete_volumes sample_volume_env 1 [''data''] (empty_db\<lparr>db_volumes := [submitted_volume]\<rparr>) (empty_db\<lparr>db_volumes := [submitted_volume]\<rparr>) of
      (d', calls, res) \<Rightarrow> res = Inr ())"
  by code_simp

theorem delete_volumes_correct_witness:
  "\<exists>d' calls. delete_volumes sample_volume_env 1 [''data''] (empty_db\<lparr>db_volumes := [submitted_volume]\<rparr>) (empty_db\<lparr>db_volumes := [submitted_volume]\<rparr>)
     = (d', calls, Inr ()) \<and> map vm_deleted (db_volumes d') = [True] \<and> calls = []"
proof -
  let ?d = "empty_db\<lparr>db_volumes := [submitted_volume]\<rparr>"
  obtain d' calls where r: "delete_volumes sample_volume_env 1 [''data''] ?d ?d = (d', calls, Inr ())"
    using sample_volume_deleted by (auto split: prod.split_asm)
  have "distinct (map vm_id (db_volumes ?d))" by simp
  from delete_volumes_correct [OF this r] r show ?thesis
    by (auto simp: submitted_volume_def new_volume_def delete_row_def sample_volume_conf_def volume_attached_def empty_db_def)
qed

lemma delete_calls_live:
  assumes "delete_volumes env p names seen d = (d', calls, res)" and "DeleteVolume k \<in> set calls"
  shows "\<exists>v \<in> set (db_volumes d). vm_id v = k \<and> \<not> vm_deleted v"
  using assms
  by (fastforce simp: delete_volumes_def delete_volume_def list_project_volume_models_def Let_def split: option.split_asm if_split_asm)

text \<open>
  A volume that is deleted before the task has processed it is created in the cloud all the same: the
  task selects by status only. The row stays deleted and is active, and no request to delete volumes, by
  whatever names, asks the cloud then to delete it.
\<close>

theorem deleted_volume_created:
  assumes "distinct (map vm_id (db_volumes d))" and "next_submitted_volume lockset d = Some v" and "vm_deleted v"
    and "vc_volume_id (vm_configuration v) = None" and "ve_backend env (vm_project_id v) (vc_backend (vm_configuration v)) True = Some c"
    and "vcp_create c (volume_model_to_volume v) = Inr vpd"
  shows "\<exists>d'. process_submitted_volumes env lockset d = (d', [CreateVolume (vm_id v)])
    \<and> (\<exists>v' \<in> set (db_volumes d'). vm_id v' = vm_id v \<and> vm_deleted v' \<and> vm_status v' = V_ACTIVE \<and> vm_provisioning_data v' = Some vpd)
    \<and> (\<forall>env' p names seen d'' calls res. delete_volumes env' p names seen d' = (d'', calls, res) \<longrightarrow> DeleteVolume (vm_id v) \<notin> set calls)"
proof -
  note v = next_submitted_volume_Some [OF assms(2)]
  define w where "w = v\<lparr>vm_provisioning_data := Some vpd, vm_status := V_ACTIVE, vm_last_processed_at := ve_now env\<rparr>"
  define d' where "d' = d\<lparr>db_volumes := put_row vm_id w (db_volumes d)\<rparr>"
  have w: "vm_id w = vm_id v" "vm_deleted w" "vm_status w = V_ACTIVE" "vm_provisioning_data w = Some vpd" using assms(3) by (simp_all add: w_def)
  have rows: "set (db_volumes d') = insert w (set (db_volumes d) - {v})"
    using set_put_row_eq [OF assms(1) v(1) w(1)] by (simp add: d'_def)
  have p: "process_submitted_volumes env lockset d = (d', [CreateVolume (vm_id v)])"
    using assms(2,4,5,6) by (simp add: process_submitted_volumes_def process_submitted_volume_def Let_def d'_def w_def)
  have "DeleteVolume (vm_id v) \<notin> set calls" if "delete_volumes env' q names seen d' = (d'', calls, res)" for env' q names seen d'' calls res
  proof
    assume "DeleteVolume (vm_id v) \<in> set calls"
    from delete_calls_live [OF that this] obtain x where x: "x \<in> set (db_volumes d')" "vm_id x = vm_id v" "\<not> vm_deleted x" by blast
    then have "x \<in> set (db_volumes d)" "x \<noteq> v" using w(2) by (auto simp: rows)
    with assms(1) v(1) x(2) show False by (auto simp: distinct_map inj_on_def)
  qed
  with p w show ?thesis by (intro exI [of _ d']) (auto simp: rows)
qed

theorem deleted_volume_created_witness:
  "\<exists>d'. process_submitted_volumes sample_volume_env {} (empty_db\<lparr>db_volumes := [delete_row 5 submitted_volume]\<rparr>) = (d', [CreateVolume 1])
     \<and> (\<exists>v' \<in> set (db_volumes d'). vm_id v' = 1 \<and> vm_deleted v' \<and> vm_status v' = V_ACTIVE \<and> vm_provisioning_data v' = Some sample_vpd)"
proof -
  let ?v = "delete_row 5 submitted_volume"
  let ?d = "empty_db\<lparr>db_volumes := [?v]\<rparr>"
  have v: "vm_id ?v = 1" "vm_status ?v = V_SUBMITTED" "vm_deleted ?v" "vc_volume_id (vm_configuration ?v) = None"
    by (simp_all add: delete_row_def submitted_volume_def new_volume_def sample_volume_conf_def)
  have n: "next_submitted_volume {} ?d = Some ?v" using v(2) by (simp add: next_submitted_volume_def)
  have k: "distinct (map vm_id (db_volumes ?d))" by simp
  have b: "ve_backend sample_volume_env (vm_project_id ?v) (vc_backend (vm_configuration ?v)) True = Some sample_volume_compute"
    "vcp_create sample_volume_compute (volume_model_to_volume ?v) = Inr sample_vpd"
    by (simp_all add: sample_volume_env_def sample_volume_compute_def)
  from deleted_volume_created [OF k n v(3,4) b] show ?thesis unfolding v(1) by blast
qed

end
