(* ===== verification/Access.thy ===== *)
theory Access
  imports Fleets
begin

text \<open>
  Users, projects and access: \<^verbatim>\<open>services/users.py\<close>, \<^verbatim>\<open>services/projects.py\<close>,
  \<^verbatim>\<open>services/permissions.py\<close> and the dependencies of the routers in
  \<^verbatim>\<open>security/permissions.py\<close>. The hash of tokens and fresh tokens are parameters; deleting a user
  deletes what refers to it, as the foreign keys say. A request is one step: the source checks a name and
  inserts the row without a lock, so that what is shown holds for requests that do not overlap.
\<close>

section \<open>Rows\<close>

text \<open>A token that cannot be decrypted has no text.\<close>

record Account = UserModel +
  us_created_at :: time
  us_token :: "string option"
  us_token_hash :: string
  us_active :: bool
  us_email :: "string option"
  us_projects_quota :: int

record ProjectRow = ProjectModel +
  pj_created_at :: time
  pj_deleted :: bool
  pj_owner_id :: nat

record MemberModel =
  mb_project_id :: nat
  mb_user_id :: nat
  mb_project_role :: ProjectRole
  mb_member_num :: nat

record access =
  ac_users :: "Account list"
  ac_projects :: "ProjectRow list"
  ac_members :: "MemberModel list"

record access_env =
  ae_now :: time
  ae_hash :: "string \<Rightarrow> string"
  ae_new_token :: string
  ae_default_quota :: int
  ae_keys :: "string \<Rightarrow> string \<times> string"
  ae_allow_create_projects :: bool

datatype http_error = InvalidToken | AccessDenied | NotFound

section \<open>Users\<close>

definition get_user_model_by_name :: "access \<Rightarrow> string \<Rightarrow> bool \<Rightarrow> Account option" where
  "get_user_model_by_name a username ignore_case =
     find (\<lambda>u. if ignore_case then lower (us_name u) = lower username else us_name u = username) (ac_users a)"

definition create_user ::
    "access_env \<Rightarrow> nat \<Rightarrow> string \<Rightarrow> GlobalRole \<Rightarrow> string option \<Rightarrow> bool \<Rightarrow> string option \<Rightarrow> access \<Rightarrow> (Account \<times> access) result" where
  "create_user env uid username global_role email active token a =
     (if get_user_model_by_name a username True \<noteq> None then Inl ResourceExistsError
      else
        let t = (case token of None \<Rightarrow> ae_new_token env | Some t \<Rightarrow> t) in
        if list_ex (\<lambda>u. us_token_hash u = ae_hash env t \<or> us_token u = Some t) (ac_users a) then Inl IntegrityError
        else
          let u = \<lparr>us_id = uid, us_name = username, us_global_role = global_role, us_created_at = ae_now env, us_token = Some t,
                us_token_hash = ae_hash env t, us_active = active, us_email = email, us_projects_quota = ae_default_quota env\<rparr>
          in Inr (u, a\<lparr>ac_users := ac_users a @ [u]\<rparr>))"

definition get_or_create_admin_user :: "access_env \<Rightarrow> nat \<Rightarrow> string option \<Rightarrow> access \<Rightarrow> (Account \<times> bool \<times> access) result" where
  "get_or_create_admin_user env uid admin_token a = (case get_user_model_by_name a ''admin'' False of
      Some u \<Rightarrow> Inr (u, False, a)
    | None \<Rightarrow> fmapE (\<lambda>(u, a'). (u, True, a')) (create_user env uid ''admin'' GR_ADMIN None True admin_token a))"

definition update_user ::
    "string \<Rightarrow> GlobalRole \<Rightarrow> string option \<Rightarrow> bool \<Rightarrow> access \<Rightarrow> access \<times> Account result" where
  "update_user username global_role email active a =
     (let a' = a\<lparr>ac_users := map_rows (\<lambda>u. us_name u = username)
            (\<lambda>u. u\<lparr>us_global_role := global_role, us_email := email, us_active := active\<rparr>) (ac_users a)\<rparr>
      in (a', scalar_one (filter (\<lambda>u. us_name u = username) (ac_users a'))))"

definition refresh_user_token ::
    "access_env \<Rightarrow> Account \<Rightarrow> string \<Rightarrow> access \<Rightarrow> http_error + (Account option \<times> access)" where
  "refresh_user_token env user username a =
     (if us_global_role user \<noteq> GR_ADMIN \<and> us_name user \<noteq> username then Inl AccessDenied
      else
        let a' = a\<lparr>ac_users := map_rows (\<lambda>u. us_name u = username)
              (\<lambda>u. u\<lparr>us_token := Some (ae_new_token env), us_token_hash := ae_hash env (ae_new_token env)\<rparr>) (ac_users a)\<rparr>
        in Inr (get_user_model_by_name a' username False, a'))"

text \<open>The projects a deleted user owns go with the user, and the members of both.\<close>

definition delete_users :: "string list \<Rightarrow> access \<Rightarrow> access" where
  "delete_users usernames a =
     (let gone = us_id ` set (filter (\<lambda>u. us_name u \<in> set usernames) (ac_users a));
          lost = pj_id ` set (filter (\<lambda>p. pj_owner_id p \<in> gone) (ac_projects a)) in
      \<lparr>ac_users = filter (\<lambda>u. us_name u \<notin> set usernames) (ac_users a),
       ac_projects = filter (\<lambda>p. pj_owner_id p \<notin> gone) (ac_projects a),
       ac_members = filter (\<lambda>m. mb_user_id m \<notin> gone \<and> mb_project_id m \<notin> lost) (ac_members a)\<rparr>)"

definition list_users_for_user :: "Account \<Rightarrow> access \<Rightarrow> Account list" where
  "list_users_for_user user a = (if us_global_role user = GR_ADMIN then sort_key us_created_at (ac_users a) else [user])"

definition get_user_with_creds_by_name :: "Account \<Rightarrow> string \<Rightarrow> access \<Rightarrow> Account option" where
  "get_user_with_creds_by_name current_user username a = (case get_user_model_by_name a username False of
      None \<Rightarrow> None
    | Some u \<Rightarrow> if us_global_role current_user = GR_ADMIN \<or> us_id current_user = us_id u then Some u else None)"

definition log_in_with_token :: "(string \<Rightarrow> string) \<Rightarrow> access \<Rightarrow> string \<Rightarrow> Account option" where
  "log_in_with_token token_hash a token =
     (case find (\<lambda>u. us_token_hash u = token_hash token \<and> us_active u) (ac_users a) of
        None \<Rightarrow> None
      | Some u \<Rightarrow> (case us_token u of
          None \<Rightarrow> None
        | Some t \<Rightarrow> if t \<noteq> token then None else Some u))"

section \<open>Projects\<close>

definition project_members :: "access \<Rightarrow> nat \<Rightarrow> MemberModel list" where
  "project_members a project_id = sort_key mb_member_num (filter (\<lambda>m. mb_project_id m = project_id) (ac_members a))"

definition get_project_model_by_name :: "access \<Rightarrow> string \<Rightarrow> bool \<Rightarrow> ProjectRow option" where
  "get_project_model_by_name a project_name ignore_case =
     find (\<lambda>p. \<not> pj_deleted p \<and> (if ignore_case then lower (pj_name p) = lower project_name else pj_name p = project_name)) (ac_projects a)"

definition get_project_model_by_name_or_error :: "access \<Rightarrow> string \<Rightarrow> ProjectRow result" where
  "get_project_model_by_name_or_error a project_name =
     scalar_one (filter (\<lambda>p. pj_name p = project_name \<and> \<not> pj_deleted p) (ac_projects a))"

definition get_user_project_role :: "access \<Rightarrow> Account \<Rightarrow> nat \<Rightarrow> ProjectRole option" where
  "get_user_project_role a user project_id =
     map_option mb_project_role (find (\<lambda>m. mb_user_id m = us_id user) (project_members a project_id))"

definition is_project_admin :: "access \<Rightarrow> Account \<Rightarrow> nat \<Rightarrow> bool" where
  "is_project_admin a user project_id =
     list_ex (\<lambda>m. us_id user = mb_user_id m \<and> mb_project_role m = PR_ADMIN) (project_members a project_id)"

definition list_project_models :: "access \<Rightarrow> ProjectRow list" where
  "list_project_models a = filter (\<lambda>p. \<not> pj_deleted p) (ac_projects a)"

definition list_user_project_models :: "access \<Rightarrow> Account \<Rightarrow> ProjectRow list" where
  "list_user_project_models a user =
     filter (\<lambda>p. list_ex (\<lambda>m. mb_project_id m = pj_id p \<and> mb_user_id m = us_id user) (ac_members a) \<and> \<not> pj_deleted p) (ac_projects a)"

definition list_user_projects :: "access \<Rightarrow> Account \<Rightarrow> ProjectRow list" where
  "list_user_projects a user =
     sort_key pj_created_at (if us_global_role user = GR_ADMIN then list_project_models a else list_user_project_models a user)"

definition list_user_owned_project_models :: "access \<Rightarrow> Account \<Rightarrow> ProjectRow list" where
  "list_user_owned_project_models a user = filter (\<lambda>p. pj_owner_id p = us_id user \<and> \<not> pj_deleted p) (ac_projects a)"

definition can_create_projects :: "access_env \<Rightarrow> Account \<Rightarrow> bool" where
  "can_create_projects env user \<longleftrightarrow> ae_allow_create_projects env \<or> us_global_role user = GR_ADMIN"

definition check_projects_quota :: "access \<Rightarrow> Account \<Rightarrow> unit result" where
  "check_projects_quota a user =
     (if us_global_role user = GR_ADMIN then Inr ()
      else if int (length (list_user_owned_project_models a user)) \<ge> us_projects_quota user
      then Inl (ServerClientError ''User project quota exceeded'') else Inr ())"

definition create_project_model :: "access_env \<Rightarrow> nat \<Rightarrow> Account \<Rightarrow> string \<Rightarrow> access \<Rightarrow> (ProjectRow \<times> access) result" where
  "create_project_model env uid owner project_name a =
     (if list_ex (\<lambda>p. pj_name p = project_name) (ac_projects a) then Inl IntegrityError
      else
        let (private_key, public_key) = ae_keys env project_name;
            p = \<lparr>pj_id = uid, pj_name = project_name, pj_default_pool_id = None, pj_ssh_public_key = public_key,
              pj_ssh_private_key = private_key, pj_created_at = ae_now env, pj_deleted = False, pj_owner_id = us_id owner\<rparr>
        in Inr (p, a\<lparr>ac_projects := ac_projects a @ [p]\<rparr>))"

definition add_project_member :: "nat \<Rightarrow> nat \<Rightarrow> ProjectRole \<Rightarrow> nat \<Rightarrow> access \<Rightarrow> access" where
  "add_project_member project_id user_id role num a =
     a\<lparr>ac_members := ac_members a @ [\<lparr>mb_project_id = project_id, mb_user_id = user_id, mb_project_role = role, mb_member_num = num\<rparr>]\<rparr>"

definition create_project :: "access_env \<Rightarrow> nat \<Rightarrow> Account \<Rightarrow> string \<Rightarrow> access \<Rightarrow> (ProjectRow \<times> access) result" where
  "create_project env uid user project_name a =
     (if \<not> can_create_projects env user then Inl ForbiddenError
      else if get_project_model_by_name a project_name True \<noteq> None then Inl ResourceExistsError
      else
        bindE (check_projects_quota a user) (\<lambda>_.
        bindE (create_project_model env uid user project_name a) (\<lambda>(p, a1).
        let a2 = add_project_member (pj_id p) (us_id user) PR_ADMIN 0 a1 in
        fmapE (\<lambda>p'. (p', a2)) (get_project_model_by_name_or_error a2 project_name))))"

definition get_or_create_default_project :: "access_env \<Rightarrow> nat \<Rightarrow> string \<Rightarrow> Account \<Rightarrow> access \<Rightarrow> (ProjectRow \<times> bool \<times> access) result" where
  "get_or_create_default_project env uid default_name user a = (case get_project_model_by_name a default_name True of
      Some p \<Rightarrow> Inr (p, False, a)
    | None \<Rightarrow> fmapE (\<lambda>(p, a'). (p, True, a')) (create_project env uid user default_name a))"

text \<open>The new name of a deleted project, from the time in seconds.\<close>

definition deleted_name :: "time \<Rightarrow> string \<Rightarrow> string" where
  "deleted_name now name = ''_deleted_'' @ show_int (now div 1000000) @ name"

definition check_can_delete_projects :: "Account \<Rightarrow> string list \<Rightarrow> access \<Rightarrow> unit result" where
  "check_can_delete_projects user names a =
     (let user_projects = list_user_project_models a user in
      if us_global_role user = GR_ADMIN then Inr ()
      else if list_ex (\<lambda>n. n \<notin> pj_name ` set user_projects) names then Inl ForbiddenError
      else if list_ex (\<lambda>p. \<not> is_project_admin a user (pj_id p)) user_projects then Inl ForbiddenError
      else if list_all (\<lambda>p. pj_name p \<in> set names) user_projects then Inl (ServerClientError ''Cannot delete the only project'')
      else Inr ())"

definition delete_projects :: "time \<Rightarrow> Account \<Rightarrow> string list \<Rightarrow> access \<Rightarrow> access result" where
  "delete_projects now user names a =
     bindE (check_can_delete_projects user names a) (\<lambda>_.
     let ps = map_rows (\<lambda>p. pj_name p \<in> set names) (\<lambda>p. p\<lparr>pj_deleted := True, pj_name := deleted_name now (pj_name p)\<rparr>) (ac_projects a) in
     if distinct (map pj_name ps) then Inr (a\<lparr>ac_projects := ps\<rparr>) else Inl IntegrityError)"

text \<open>The members to set: pairs of a user name and a role. Names without a user are skipped.\<close>

definition user_names :: "access \<Rightarrow> nat \<Rightarrow> string option" where
  "user_names a uid = map_option us_name (find (\<lambda>u. us_id u = uid) (ac_users a))"

definition changes_admins :: "access \<Rightarrow> nat \<Rightarrow> (string \<times> ProjectRole) list \<Rightarrow> bool" where
  "changes_admins a project_id members \<longleftrightarrow>
     set (map fst (filter (\<lambda>m. snd m = PR_ADMIN) members))
     \<noteq> set (List.map_filter (\<lambda>m. user_names a (mb_user_id m)) (filter (\<lambda>m. mb_project_role m = PR_ADMIN) (project_members a project_id)))"

definition member_rows :: "access \<Rightarrow> nat \<Rightarrow> (string \<times> ProjectRole) list \<Rightarrow> MemberModel list" where
  "member_rows a project_id members = List.map_filter (\<lambda>(i, name, role).
     map_option (\<lambda>u. \<lparr>mb_project_id = project_id, mb_user_id = us_id u, mb_project_role = role, mb_member_num = i\<rparr>)
       (get_user_model_by_name a name False)) (zip [0..<length members] members)"

definition set_project_members :: "Account \<Rightarrow> string \<Rightarrow> (string \<times> ProjectRole) list \<Rightarrow> access \<Rightarrow> access result" where
  "set_project_members user project_name members a =
     bindE (get_project_model_by_name_or_error a project_name) (\<lambda>p.
     if us_global_role user \<noteq> GR_ADMIN \<and> get_user_project_role a user (pj_id p) = Some PR_MANAGER \<and> changes_admins a (pj_id p) members
     then Inl ForbiddenError
     else Inr (a\<lparr>ac_members := filter (\<lambda>m. mb_project_id m \<noteq> pj_id p) (ac_members a) @ member_rows a (pj_id p) members\<rparr>))"

section \<open>Access to the routers\<close>

definition Authenticated :: "(string \<Rightarrow> string) \<Rightarrow> access \<Rightarrow> string \<Rightarrow> http_error + Account" where
  "Authenticated token_hash a token = (case log_in_with_token token_hash a token of None \<Rightarrow> Inl InvalidToken | Some u \<Rightarrow> Inr u)"

definition GlobalAdmin :: "(string \<Rightarrow> string) \<Rightarrow> access \<Rightarrow> string \<Rightarrow> http_error + Account" where
  "GlobalAdmin token_hash a token = (case log_in_with_token token_hash a token of
      None \<Rightarrow> Inl InvalidToken
    | Some u \<Rightarrow> if us_global_role u = GR_ADMIN then Inr u else Inl AccessDenied)"

definition ProjectAdmin :: "(string \<Rightarrow> string) \<Rightarrow> access \<Rightarrow> string \<Rightarrow> string \<Rightarrow> http_error + (Account \<times> ProjectRow)" where
  "ProjectAdmin token_hash a project_name token = (case log_in_with_token token_hash a token of
      None \<Rightarrow> Inl InvalidToken
    | Some u \<Rightarrow> (case get_project_model_by_name a project_name True of
        None \<Rightarrow> Inl AccessDenied
      | Some p \<Rightarrow>
          if us_global_role u = GR_ADMIN then Inr (u, p)
          else if get_user_project_role a u (pj_id p) = Some PR_ADMIN then Inr (u, p)
          else Inl AccessDenied))"

text \<open>
  The manager check asks whether the text of the user's role is a part of the text \<^verbatim>\<open>admin\<close>.
\<close>

fun global_role_value :: "GlobalRole \<Rightarrow> string" where
  "global_role_value GR_ADMIN = ''admin''"
| "global_role_value GR_USER = ''user''"

definition text_in :: "string \<Rightarrow> string \<Rightarrow> bool" where
  "text_in part text = list_ex (\<lambda>n. startswith (drop n text) part) [0..<Suc (length text)]"

definition ProjectManager :: "(string \<Rightarrow> string) \<Rightarrow> access \<Rightarrow> string \<Rightarrow> string \<Rightarrow> http_error + (Account \<times> ProjectRow)" where
  "ProjectManager token_hash a project_name token = (case log_in_with_token token_hash a token of
      None \<Rightarrow> Inl InvalidToken
    | Some u \<Rightarrow> (case get_project_model_by_name a project_name True of
        None \<Rightarrow> Inl AccessDenied
      | Some p \<Rightarrow>
          if text_in (global_role_value (us_global_role u)) (global_role_value GR_ADMIN) then Inr (u, p)
          else if get_user_project_role a u (pj_id p) \<in> {Some PR_ADMIN, Some PR_MANAGER} then Inr (u, p)
          else Inl AccessDenied))"

definition get_project_member :: "(string \<Rightarrow> string) \<Rightarrow> access \<Rightarrow> string \<Rightarrow> string \<Rightarrow> http_error + (Account \<times> ProjectRow)" where
  "get_project_member token_hash a project_name token = (case log_in_with_token token_hash a token of
      None \<Rightarrow> Inl InvalidToken
    | Some u \<Rightarrow> (case get_project_model_by_name a project_name True of
        None \<Rightarrow> Inl NotFound
      | Some p \<Rightarrow>
          if us_global_role u = GR_ADMIN then Inr (u, p)
          else if get_user_project_role a u (pj_id p) \<noteq> None then Inr (u, p)
          else Inl AccessDenied))"

definition is_project_member :: "(string \<Rightarrow> string) \<Rightarrow> access \<Rightarrow> string \<Rightarrow> string \<Rightarrow> bool" where
  "is_project_member token_hash a project_name token =
     (case get_project_member token_hash a project_name token of Inl _ \<Rightarrow> False | Inr _ \<Rightarrow> True)"

section \<open>The invariant\<close>

text \<open>
  Keys are unique and below the next one; the names of users and of live projects are unique without
  regard to case; tokens identify users; what refers to a user or project refers to an existing one.
\<close>

definition access_ok :: "(string \<Rightarrow> string) \<Rightarrow> access \<times> nat \<Rightarrow> bool" where
  "access_ok token_hash = (\<lambda>(a, uid).
     distinct (map us_id (ac_users a)) \<and> (\<forall>u \<in> set (ac_users a). us_id u < uid)
     \<and> distinct (map (\<lambda>u. lower (us_name u)) (ac_users a))
     \<and> distinct (map us_token_hash (ac_users a))
     \<and> (\<forall>u \<in> set (ac_users a). \<forall>t. us_token u = Some t \<longrightarrow> us_token_hash u = token_hash t)
     \<and> distinct (map pj_id (ac_projects a)) \<and> (\<forall>p \<in> set (ac_projects a). pj_id p < uid)
     \<and> distinct (map pj_name (ac_projects a))
     \<and> distinct (map (\<lambda>p. lower (pj_name p)) (list_project_models a))
     \<and> (\<forall>p \<in> set (ac_projects a). pj_owner_id p \<in> us_id ` set (ac_users a))
     \<and> (\<forall>m \<in> set (ac_members a). mb_user_id m \<in> us_id ` set (ac_users a) \<and> mb_project_id m \<in> pj_id ` set (ac_projects a)))"

inductive access_step :: "(string \<Rightarrow> string) \<Rightarrow> access \<times> nat \<Rightarrow> access \<times> nat \<Rightarrow> bool" for token_hash where
  create_user: "create_user env uid username role email active token a = Inr (u, a') \<Longrightarrow> ae_hash env = token_hash \<Longrightarrow>
    access_step token_hash (a, uid) (a', Suc uid)"
| update_user: "update_user username role email active a = (a', res) \<Longrightarrow> access_step token_hash (a, uid) (a', uid)"
| refresh_token: "refresh_user_token env user username a = Inr (res, a') \<Longrightarrow> ae_hash env = token_hash \<Longrightarrow>
    ae_hash env (ae_new_token env) \<notin> us_token_hash ` set (ac_users a) \<Longrightarrow> access_step token_hash (a, uid) (a', uid)"
| delete_users: "access_step token_hash (a, uid) (delete_users usernames a, uid)"
| create_project: "create_project env uid user name a = Inr (p, a') \<Longrightarrow> user \<in> set (ac_users a) \<Longrightarrow> access_step token_hash (a, uid) (a', Suc uid)"
| delete_projects: "delete_projects now user names a = Inr a' \<Longrightarrow> access_step token_hash (a, uid) (a', uid)"
| set_members: "set_project_members user name members a = Inr a' \<Longrightarrow> access_step token_hash (a, uid) (a', uid)"

definition access_init :: "access \<times> nat \<Rightarrow> bool" where
  "access_init s \<longleftrightarrow> fst s = \<lparr>ac_users = [], ac_projects = [], ac_members = []\<rparr>"

lemma access_okI [intro?]:
  assumes "distinct (map us_id (ac_users a))" "\<forall>u \<in> set (ac_users a). us_id u < uid"
    "distinct (map (\<lambda>u. lower (us_name u)) (ac_users a))" "distinct (map us_token_hash (ac_users a))"
    "\<forall>u \<in> set (ac_users a). \<forall>t. us_token u = Some t \<longrightarrow> us_token_hash u = token_hash t"
    "distinct (map pj_id (ac_projects a))" "\<forall>p \<in> set (ac_projects a). pj_id p < uid"
    "distinct (map pj_name (ac_projects a))" "distinct (map (\<lambda>p. lower (pj_name p)) (list_project_models a))"
    "\<forall>p \<in> set (ac_projects a). pj_owner_id p \<in> us_id ` set (ac_users a)"
    "\<forall>m \<in> set (ac_members a). mb_user_id m \<in> us_id ` set (ac_users a) \<and> mb_project_id m \<in> pj_id ` set (ac_projects a)"
  shows "access_ok token_hash (a, uid)"
  using assms by (simp add: access_ok_def)

lemma access_okD:
  assumes "access_ok token_hash (a, uid)"
  shows "distinct (map us_id (ac_users a))" "\<forall>u \<in> set (ac_users a). us_id u < uid"
    "distinct (map (\<lambda>u. lower (us_name u)) (ac_users a))" "distinct (map us_token_hash (ac_users a))"
    "\<forall>u \<in> set (ac_users a). \<forall>t. us_token u = Some t \<longrightarrow> us_token_hash u = token_hash t"
    "distinct (map pj_id (ac_projects a))" "\<forall>p \<in> set (ac_projects a). pj_id p < uid"
    "distinct (map pj_name (ac_projects a))" "distinct (map (\<lambda>p. lower (pj_name p)) (list_project_models a))"
    "\<forall>p \<in> set (ac_projects a). pj_owner_id p \<in> us_id ` set (ac_users a)"
    "\<forall>m \<in> set (ac_members a). mb_user_id m \<in> us_id ` set (ac_users a) \<and> mb_project_id m \<in> pj_id ` set (ac_projects a)"
  using assms by (simp_all add: access_ok_def)

lemma create_user_Inr:
  assumes "create_user env uid name role email active token a = Inr (u, a')"
  shows "a' = a\<lparr>ac_users := ac_users a @ [u]\<rparr>" "us_id u = uid" "us_name u = name" "us_global_role u = role"
    "lower name \<notin> (\<lambda>u. lower (us_name u)) ` set (ac_users a)" "us_token_hash u \<notin> us_token_hash ` set (ac_users a)"
    "\<exists>t. us_token u = Some t \<and> us_token_hash u = ae_hash env t"
  using assms
  by (auto simp: create_user_def get_user_model_by_name_def find_None_iff list_ex_iff Let_def split: if_split_asm)

lemma create_user_ok:
  assumes "access_ok token_hash (a, uid)" and "create_user env uid name role email active token a = Inr (u, a')" and "ae_hash env = token_hash"
  shows "access_ok token_hash (a', Suc uid)"
proof -
  note k = access_okD [OF assms(1)] and c = create_user_Inr [OF assms(2)]
  show ?thesis unfolding c(1)
    by (rule access_okI) (use k c(2-7) assms(3) in \<open>auto simp: less_Suc_eq list_project_models_def\<close>)
qed

text \<open>Changing fields of users that the invariant does not mention.\<close>

lemma update_user_ok:
  assumes "access_ok token_hash (a, uid)" and "update_user name role email active a = (a', res)"
  shows "access_ok token_hash (a', uid)"
proof -
  let ?f = "\<lambda>u. u\<lparr>us_global_role := role, us_email := email, us_active := active\<rparr>"
  let ?us = "map_rows (\<lambda>u. us_name u = name) ?f (ac_users a)"
  have m: "map g ?us = map g (ac_users a)" if "\<And>u. g (?f u) = g u" for g :: "Account \<Rightarrow> 'b"
    using that by (intro map_map_rows) simp
  have "map us_id ?us = map us_id (ac_users a)" "map (\<lambda>u. lower (us_name u)) ?us = map (\<lambda>u. lower (us_name u)) (ac_users a)"
    "map us_token_hash ?us = map us_token_hash (ac_users a)" by (rule map_map_rows; simp)+
  moreover from this(1) have "us_id ` set ?us = us_id ` set (ac_users a)" by (metis set_map)
  moreover have "\<forall>u \<in> set ?us. us_id u < uid \<and> (\<forall>t. us_token u = Some t \<longrightarrow> us_token_hash u = token_hash t)"
    using access_okD(2,5) [OF assms(1)] by (auto simp: set_map_rows)
  ultimately show ?thesis using assms by (auto simp: access_ok_def update_user_def Let_def list_project_models_def)
qed

lemma distinct_map_rows_one:
  assumes "distinct (map key rs)" and "distinct (map h rs)" and "\<And>r. h (f r) = c" and "c \<notin> h ` set rs"
  shows "distinct (map h (map_rows (\<lambda>r. key r = k) f rs))"
  using assms
proof (induction rs)
  case (Cons r rs)
  show ?case
  proof (cases "key r = k")
    case True
    then have "map_rows (\<lambda>r. key r = k) f rs = rs" using Cons.prems(1) by (intro map_rows_id) (auto simp: image_iff)
    with True Cons.prems show ?thesis by auto
  next
    case False
    then have "h r \<notin> h ` set (map_rows (\<lambda>r. key r = k) f rs)" using Cons.prems by (auto simp: set_map_rows)
    with False Cons show ?thesis by auto
  qed
qed simp

lemma users_names_distinct: "access_ok token_hash (a, uid) \<Longrightarrow> distinct (map us_name (ac_users a))"
  using access_okD(3) [of token_hash a uid] by (auto simp: distinct_map inj_on_def)

lemma refresh_token_ok:
  assumes "access_ok token_hash (a, uid)" and "refresh_user_token env user name a = Inr (res, a')" and "ae_hash env = token_hash"
    and "ae_hash env (ae_new_token env) \<notin> us_token_hash ` set (ac_users a)"
  shows "access_ok token_hash (a', uid)"
proof -
  let ?f = "\<lambda>u. u\<lparr>us_token := Some (ae_new_token env), us_token_hash := ae_hash env (ae_new_token env)\<rparr>"
  let ?us = "map_rows (\<lambda>u. us_name u = name) ?f (ac_users a)"
  have "map us_id ?us = map us_id (ac_users a)" "map (\<lambda>u. lower (us_name u)) ?us = map (\<lambda>u. lower (us_name u)) (ac_users a)"
    by (rule map_map_rows; simp)+
  moreover from this(1) have "us_id ` set ?us = us_id ` set (ac_users a)" by (metis set_map)
  moreover have "distinct (map us_token_hash ?us)"
    using assms(4) by (intro distinct_map_rows_one [where c = "ae_hash env (ae_new_token env)"] users_names_distinct [OF assms(1)] access_okD(4) [OF assms(1)]) simp_all
  moreover have "\<forall>u \<in> set ?us. us_id u < uid \<and> (\<forall>t. us_token u = Some t \<longrightarrow> us_token_hash u = token_hash t)"
    using access_okD(2,5) [OF assms(1)] assms(3) by (auto simp: set_map_rows)
  ultimately show ?thesis using assms(1,2)
    by (auto simp: access_ok_def refresh_user_token_def Let_def list_project_models_def split: if_split_asm)
qed

lemma delete_users_ok:
  assumes "access_ok token_hash (a, uid)"
  shows "access_ok token_hash (delete_users names a, uid)"
proof -
  note k = access_okD [OF assms]
  let ?gone = "us_id ` {u \<in> set (ac_users a). us_name u \<in> set names}"
  have users: "us_id ` {u \<in> set (ac_users a). us_name u \<notin> set names} = us_id ` set (ac_users a) - ?gone"
    using k(1) by (auto simp: distinct_map inj_on_def)
  have live: "list_project_models (delete_users names a) = filter (\<lambda>p. pj_owner_id p \<notin> ?gone) (list_project_models a)"
    by (simp add: list_project_models_def delete_users_def Let_def conj_commute)
  have "distinct (map (\<lambda>p. lower (pj_name p)) (list_project_models (delete_users names a)))"
    unfolding live using k(9) by (rule distinct_map_filter)
  moreover have "mb_project_id m \<in> pj_id ` {p \<in> set (ac_projects a). pj_owner_id p \<notin> ?gone}"
    if "m \<in> set (ac_members a)" "mb_project_id m \<notin> pj_id ` {p \<in> set (ac_projects a). pj_owner_id p \<in> ?gone}" for m
  proof -
    from k(11) that(1) obtain p where "p \<in> set (ac_projects a)" "mb_project_id m = pj_id p" by auto
    with that(2) show ?thesis by blast
  qed
  ultimately show ?thesis using k users
    by (intro access_okI) (auto simp: delete_users_def Let_def distinct_map_filter)
qed

lemma create_project_Inr:
  assumes "create_project env uid user name a = Inr (p, a')"
  obtains q where "a' = add_project_member uid (us_id user) PR_ADMIN 0 (a\<lparr>ac_projects := ac_projects a @ [q]\<rparr>)"
    "pj_id q = uid" "pj_name q = name" "\<not> pj_deleted q" "pj_owner_id q = us_id user"
    "lower name \<notin> (\<lambda>p. lower (pj_name p)) ` set (list_project_models a)" "name \<notin> pj_name ` set (ac_projects a)"
    "can_create_projects env user" "check_projects_quota a user = Inr ()"
proof -
  obtain pr pu where keys: "ae_keys env name = (pr, pu)" by (cases "ae_keys env name")
  let ?q = "\<lparr>pj_id = uid, pj_name = name, pj_default_pool_id = None, pj_ssh_public_key = pu,
              pj_ssh_private_key = pr, pj_created_at = ae_now env, pj_deleted = False, pj_owner_id = us_id user\<rparr>"
  from assms have "a' = add_project_member uid (us_id user) PR_ADMIN 0 (a\<lparr>ac_projects := ac_projects a @ [?q]\<rparr>)"
    "lower name \<notin> (\<lambda>p. lower (pj_name p)) ` set (list_project_models a)" "name \<notin> pj_name ` set (ac_projects a)"
    "can_create_projects env user" "check_projects_quota a user = Inr ()"
    by (auto simp: create_project_def create_project_model_def get_project_model_by_name_def find_None_iff list_project_models_def list_ex_iff
        bindE_Inr_conv fmapE_Inr_conv keys Let_def split: if_split_asm)
  then show thesis by (intro that [of ?q]) simp_all
qed

lemma create_project_ok:
  assumes "access_ok token_hash (a, uid)" and "create_project env uid user name a = Inr (p, a')" and "user \<in> set (ac_users a)"
  shows "access_ok token_hash (a', Suc uid)"
  using assms(2)
proof (cases rule: create_project_Inr)
  case (1 q)
  note k = access_okD [OF assms(1)]
  have "list_project_models a' = list_project_models a @ [q]" using 1 by (simp add: list_project_models_def add_project_member_def)
  then show ?thesis using k 1 assms(3)
    by (intro access_okI) (auto simp: add_project_member_def less_Suc_eq)
qed

lemma delete_projects_Inr:
  assumes "delete_projects now user names a = Inr a'"
  shows "a' = a\<lparr>ac_projects := map_rows (\<lambda>p. pj_name p \<in> set names) (\<lambda>p. p\<lparr>pj_deleted := True, pj_name := deleted_name now (pj_name p)\<rparr>) (ac_projects a)\<rparr>"
    and "distinct (map pj_name (ac_projects a'))" and "check_can_delete_projects user names a = Inr ()"
  using assms by (auto simp: delete_projects_def bindE_Inr_conv Let_def split: if_split_asm)

lemma live_map_rows_deleted:
  "filter (\<lambda>p. \<not> pj_deleted p) (map_rows Q (\<lambda>p. p\<lparr>pj_deleted := True, pj_name := f p\<rparr>) ps) = filter (\<lambda>p. \<not> Q p) (filter (\<lambda>p. \<not> pj_deleted p) ps)"
  by (induction ps) auto

lemma delete_projects_ok:
  assumes "access_ok token_hash (a, uid)" and "delete_projects now user names a = Inr a'"
  shows "access_ok token_hash (a', uid)"
proof -
  note k = access_okD [OF assms(1)] and d = delete_projects_Inr [OF assms(2)]
  have ids: "map pj_id (ac_projects a') = map pj_id (ac_projects a)" unfolding d(1) by (simp, rule map_map_rows) simp
  then have "pj_id ` set (ac_projects a') = pj_id ` set (ac_projects a)" by (metis set_map)
  moreover have "distinct (map (\<lambda>p. lower (pj_name p)) (list_project_models a'))"
    using distinct_map_filter [OF k(9), of "\<lambda>p. pj_name p \<notin> set names"]
    by (simp add: d(1) list_project_models_def live_map_rows_deleted)
  moreover have "\<forall>p \<in> set (ac_projects a'). pj_id p < uid \<and> pj_owner_id p \<in> us_id ` set (ac_users a)"
    using k(7,10) unfolding d(1) by (auto simp: set_map_rows)
  moreover have "ac_users a' = ac_users a" "ac_members a' = ac_members a" by (simp_all add: d(1))
  ultimately show ?thesis using k d(2) ids by (intro access_okI) simp_all
qed

lemma member_rows_mem:
  assumes "m \<in> set (member_rows a pid members)"
  shows "mb_project_id m = pid" "\<exists>u \<in> set (ac_users a). mb_user_id m = us_id u \<and> (us_name u, mb_project_role m) \<in> set members"
proof -
  from assms obtain i name role u where m: "m = \<lparr>mb_project_id = pid, mb_user_id = us_id u, mb_project_role = role, mb_member_num = i\<rparr>"
    and u: "get_user_model_by_name a name False = Some u" and "(i, name, role) \<in> set (zip [0..<length members] members)"
    by (auto simp: member_rows_def map_filter_def split: prod.split_asm)
  then have "(name, role) \<in> set members" by (blast dest: set_zip_rightD)
  with u m show "mb_project_id m = pid" "\<exists>u \<in> set (ac_users a). mb_user_id m = us_id u \<and> (us_name u, mb_project_role m) \<in> set members"
    by (auto simp: get_user_model_by_name_def find_Some_iff)
qed

lemma set_project_members_Inr:
  assumes "set_project_members user name members a = Inr a'"
  obtains p where "p \<in> set (ac_projects a)" "pj_name p = name" "\<not> pj_deleted p"
    "us_global_role user = GR_ADMIN \<or> get_user_project_role a user (pj_id p) \<noteq> Some PR_MANAGER \<or> \<not> changes_admins a (pj_id p) members"
    "a' = a\<lparr>ac_members := filter (\<lambda>m. mb_project_id m \<noteq> pj_id p) (ac_members a) @ member_rows a (pj_id p) members\<rparr>"
proof -
  from assms obtain p where p: "get_project_model_by_name_or_error a name = Inr p"
    and r: "us_global_role user = GR_ADMIN \<or> get_user_project_role a user (pj_id p) \<noteq> Some PR_MANAGER \<or> \<not> changes_admins a (pj_id p) members"
      "a' = a\<lparr>ac_members := filter (\<lambda>m. mb_project_id m \<noteq> pj_id p) (ac_members a) @ member_rows a (pj_id p) members\<rparr>"
    by (auto simp: set_project_members_def bindE_Inr_conv split: if_split_asm)
  from p have "filter (\<lambda>p. pj_name p = name \<and> \<not> pj_deleted p) (ac_projects a) = [p]"
    by (simp add: get_project_model_by_name_or_error_def scalar_one_def split: list.split_asm)
  then have "set (filter (\<lambda>p. pj_name p = name \<and> \<not> pj_deleted p) (ac_projects a)) = {p}" by (simp only:) simp
  then have "p \<in> {x \<in> set (ac_projects a). pj_name x = name \<and> \<not> pj_deleted x}" by simp
  with r show thesis by (intro that) auto
qed

lemma set_members_ok:
  assumes "access_ok token_hash (a, uid)" and "set_project_members user name members a = Inr a'"
  shows "access_ok token_hash (a', uid)"
  using assms(2)
proof (cases rule: set_project_members_Inr)
  case (1 p)
  note k = access_okD [OF assms(1)]
  have "mb_user_id m \<in> us_id ` set (ac_users a) \<and> mb_project_id m \<in> pj_id ` set (ac_projects a)" if "m \<in> set (member_rows a (pj_id p) members)" for m
    using member_rows_mem [OF that] 1(1) by auto
  with k 1(5) show ?thesis by (intro access_okI) (auto simp: list_project_models_def)
qed

interpretation access_system: invariant_system access_init "access_step token_hash" "access_ok token_hash" for token_hash
proof
  fix s assume "access_init s"
  then show "access_ok token_hash s" by (cases s) (simp add: access_init_def access_ok_def list_project_models_def)
next
  fix s t assume "access_step token_hash s t" "access_ok token_hash s"
  then show "access_ok token_hash t"
    by cases (auto intro: create_user_ok update_user_ok refresh_token_ok delete_users_ok create_project_ok delete_projects_ok set_members_ok)
qed

section \<open>Properties\<close>

lemma log_in_sound:
  "log_in_with_token token_hash a t = Some u \<Longrightarrow> u \<in> set (ac_users a) \<and> us_active u \<and> us_token u = Some t"
  by (auto simp: log_in_with_token_def find_Some_iff split: option.split_asm if_split_asm)

lemma find_unique:
  assumes "x \<in> set xs" and "P x" and "\<And>y. y \<in> set xs \<Longrightarrow> P y \<Longrightarrow> y = x"
  shows "find P xs = Some x"
proof (cases "find P xs")
  case None
  with assms(1,2) show ?thesis by (auto simp: find_None_iff)
next
  case (Some y)
  then have "y \<in> set xs" "P y" by (auto simp: find_Some_iff)
  with assms(3) Some show ?thesis by simp
qed

lemma log_in_complete:
  assumes "access_ok token_hash (a, uid)" and "u \<in> set (ac_users a)" and "us_active u" and "us_token u = Some t"
  shows "log_in_with_token token_hash a t = Some u"
proof -
  have h: "us_token_hash u = token_hash t" using access_okD(5) [OF assms(1)] assms(2,4) by blast
  have "find (\<lambda>u. us_token_hash u = token_hash t \<and> us_active u) (ac_users a) = Some u"
    using assms(2,3) h access_okD(4) [OF assms(1)] by (intro find_unique) (auto simp: distinct_map inj_on_def)
  with assms(4) show ?thesis by (simp add: log_in_with_token_def)
qed

text \<open>
  C35. Users and projects in every state that requests, handled one after another, lead to: the names of users, and of projects that are not
  deleted, are unique without regard to case; members and owners exist; and a token logs in exactly
  the active user it was given to.
\<close>

theorem reachable_access:
  assumes "reach access_init (access_step token_hash) (a, uid)"
  shows "distinct (map (\<lambda>u. lower (us_name u)) (ac_users a)) \<and> distinct (map (\<lambda>p. lower (pj_name p)) (list_project_models a))
    \<and> (\<forall>p \<in> set (ac_projects a). \<exists>u \<in> set (ac_users a). us_id u = pj_owner_id p)
    \<and> (\<forall>m \<in> set (ac_members a). (\<exists>u \<in> set (ac_users a). us_id u = mb_user_id m) \<and> (\<exists>p \<in> set (ac_projects a). pj_id p = mb_project_id m))
    \<and> (\<forall>t u. log_in_with_token token_hash a t = Some u \<longleftrightarrow> u \<in> set (ac_users a) \<and> us_active u \<and> us_token u = Some t)"
proof -
  have ok: "access_ok token_hash (a, uid)" using assms by (rule access_system.reach_inv)
  have "log_in_with_token token_hash a t = Some u \<longleftrightarrow> u \<in> set (ac_users a) \<and> us_active u \<and> us_token u = Some t" for t u
    using log_in_sound log_in_complete [OF ok] by blast
  moreover have "\<exists>u \<in> set (ac_users a). us_id u = pj_owner_id p" if "p \<in> set (ac_projects a)" for p
    using access_okD(10) [OF ok] that by force
  moreover have "(\<exists>u \<in> set (ac_users a). us_id u = mb_user_id m) \<and> (\<exists>p \<in> set (ac_projects a). pj_id p = mb_project_id m)"
    if "m \<in> set (ac_members a)" for m
    using access_okD(11) [OF ok] that by force
  ultimately show ?thesis using access_okD(3,9) [OF ok] by blast
qed

text \<open>What the routers grant, by the roles of the user.\<close>

lemma text_in_values: "text_in ''admin'' ''admin''" "\<not> text_in ''user'' ''admin''"
  by code_simp+

lemma text_in_admin [simp]: "text_in (global_role_value r) ''admin'' \<longleftrightarrow> r = GR_ADMIN"
  by (cases r) (simp_all add: text_in_values)

lemma get_project_ignore_case:
  assumes "access_ok token_hash (a, uid)"
  shows "get_project_model_by_name a name True = Some p \<longleftrightarrow> p \<in> set (list_project_models a) \<and> lower (pj_name p) = lower name"
proof
  assume "get_project_model_by_name a name True = Some p"
  then show "p \<in> set (list_project_models a) \<and> lower (pj_name p) = lower name"
    by (auto simp: get_project_model_by_name_def find_Some_iff list_project_models_def)
next
  assume p: "p \<in> set (list_project_models a) \<and> lower (pj_name p) = lower name"
  then show "get_project_model_by_name a name True = Some p"
    using access_okD(9) [OF assms] unfolding get_project_model_by_name_def list_project_models_def
    by (intro find_unique) (auto simp: distinct_map inj_on_def)
qed

definition may_use :: "(string \<Rightarrow> string) \<Rightarrow> access \<Rightarrow> string \<Rightarrow> string \<Rightarrow> ProjectRole option set \<Rightarrow> Account \<times> ProjectRow \<Rightarrow> bool" where
  "may_use token_hash a name token roles = (\<lambda>(u, p). u \<in> set (ac_users a) \<and> us_active u \<and> us_token u = Some token
     \<and> p \<in> set (ac_projects a) \<and> \<not> pj_deleted p \<and> lower (pj_name p) = lower name
     \<and> (us_global_role u = GR_ADMIN \<or> get_user_project_role a u (pj_id p) \<in> roles))"

text \<open>
  C34. Access to the routers of a project in every state that requests lead to: it is granted exactly to the
  active users with the token, for the live project of that name without regard to case, when they are
  administrators of the server or have one of the roles the router asks for. What an administrator of the
  project may use a manager check grants too, and what a manager may use a member check.
\<close>

theorem project_access_correct:
  assumes "reach access_init (access_step token_hash) (a, uid)"
  shows "(ProjectAdmin token_hash a name token = Inr up \<longleftrightarrow> may_use token_hash a name token {Some PR_ADMIN} up)
    \<and> (ProjectManager token_hash a name token = Inr up \<longleftrightarrow> may_use token_hash a name token {Some PR_ADMIN, Some PR_MANAGER} up)
    \<and> (get_project_member token_hash a name token = Inr up \<longleftrightarrow> may_use token_hash a name token (UNIV - {None}) up)
    \<and> (ProjectAdmin token_hash a name token = Inr up \<longrightarrow> ProjectManager token_hash a name token = Inr up)
    \<and> (ProjectManager token_hash a name token = Inr up \<longrightarrow> get_project_member token_hash a name token = Inr up)"
proof -
  have ok: "access_ok token_hash (a, uid)" using assms by (rule access_system.reach_inv)
  obtain u p where up: "up = (u, p)" by (cases up)
  have l: "log_in_with_token token_hash a token = Some u \<longleftrightarrow> u \<in> set (ac_users a) \<and> us_active u \<and> us_token u = Some token" for u
    using log_in_sound log_in_complete [OF ok] by blast
  have g: "get_project_model_by_name a name True = Some p \<longleftrightarrow> p \<in> set (ac_projects a) \<and> \<not> pj_deleted p \<and> lower (pj_name p) = lower name" for p
    using get_project_ignore_case [OF ok] by (auto simp: list_project_models_def)
  have "ProjectAdmin token_hash a name token = Inr up \<longleftrightarrow> may_use token_hash a name token {Some PR_ADMIN} up"
    unfolding up may_use_def using l [of u] g [of p] by (auto simp: ProjectAdmin_def split: option.splits if_splits)
  moreover have "ProjectManager token_hash a name token = Inr up \<longleftrightarrow> may_use token_hash a name token {Some PR_ADMIN, Some PR_MANAGER} up"
    unfolding up may_use_def using l [of u] g [of p] by (auto simp: ProjectManager_def text_in_values split: option.splits if_splits)
  moreover have "get_project_member token_hash a name token = Inr up \<longleftrightarrow> may_use token_hash a name token (UNIV - {None}) up"
    unfolding up may_use_def using l [of u] g [of p] by (auto simp: get_project_member_def split: option.splits if_splits)
  ultimately show ?thesis by (auto simp: may_use_def up)
qed

subsection \<open>Sample users\<close>

definition demo_access_env :: access_env where
  "demo_access_env = \<lparr>ae_now = 7, ae_hash = (\<lambda>t. t), ae_new_token = ''new'', ae_default_quota = 3, ae_keys = (\<lambda>n. (''private'', ''public'')),
     ae_allow_create_projects = True\<rparr>"

definition demo_account :: "nat \<Rightarrow> string \<Rightarrow> string \<Rightarrow> Account" where
  "demo_account i name token = \<lparr>us_id = i, us_name = name, us_global_role = GR_USER, us_created_at = 7, us_token = Some token,
     us_token_hash = token, us_active = True, us_email = None, us_projects_quota = 3\<rparr>"

definition alice :: Account where "alice = demo_account 1 ''alice'' ''ta''"
definition bob :: Account where "bob = demo_account 2 ''bob'' ''tb''"

definition demo_project :: "nat \<Rightarrow> string \<Rightarrow> ProjectRow" where
  "demo_project i name = \<lparr>pj_id = i, pj_name = name, pj_default_pool_id = None, pj_ssh_public_key = ''public'', pj_ssh_private_key = ''private'',
     pj_created_at = 7, pj_deleted = False, pj_owner_id = 1\<rparr>"

definition demo_access :: "ProjectRow list \<Rightarrow> MemberModel list \<Rightarrow> access" where
  "demo_access projects members = \<lparr>ac_users = [alice, bob], ac_projects = projects, ac_members = members\<rparr>"

definition demo_member :: "nat \<Rightarrow> nat \<Rightarrow> ProjectRole \<Rightarrow> nat \<Rightarrow> MemberModel" where
  "demo_member project usr role num = \<lparr>mb_project_id = project, mb_user_id = usr, mb_project_role = role, mb_member_num = num\<rparr>"

text \<open>Alice administers the project, Bob manages it.\<close>

definition shared_access :: access where
  "shared_access = demo_access [demo_project 3 ''main''] [demo_member 3 1 PR_ADMIN 0, demo_member 3 2 PR_MANAGER 1]"

lemma shared_access_steps:
  "create_user demo_access_env 1 ''alice'' GR_USER None True (Some ''ta'') \<lparr>ac_users = [], ac_projects = [], ac_members = []\<rparr>
     = Inr (alice, \<lparr>ac_users = [alice], ac_projects = [], ac_members = []\<rparr>)"
  "create_user demo_access_env 2 ''bob'' GR_USER None True (Some ''tb'') \<lparr>ac_users = [alice], ac_projects = [], ac_members = []\<rparr>
     = Inr (bob, demo_access [] [])"
  "create_project demo_access_env 3 alice ''main'' (demo_access [] [])
     = Inr (demo_project 3 ''main'', demo_access [demo_project 3 ''main''] [demo_member 3 1 PR_ADMIN 0])"
  "set_project_members alice ''main'' [(''alice'', PR_ADMIN), (''bob'', PR_MANAGER)]
     (demo_access [demo_project 3 ''main''] [demo_member 3 1 PR_ADMIN 0]) = Inr shared_access"
  by code_simp+

lemma shared_access_reached: "reach access_init (access_step (ae_hash demo_access_env)) (shared_access, 4)"
proof -
  let ?h = "ae_hash demo_access_env"
  have "reach access_init (access_step ?h) (\<lparr>ac_users = [], ac_projects = [], ac_members = []\<rparr>, 1)"
    by (rule reach_init) (simp add: access_init_def)
  then have r1: "reach access_init (access_step ?h) (\<lparr>ac_users = [alice], ac_projects = [], ac_members = []\<rparr>, Suc 1)"
    by (rule reach_step) (rule access_step.create_user [OF shared_access_steps(1) refl])
  have "access_step ?h (\<lparr>ac_users = [alice], ac_projects = [], ac_members = []\<rparr>, 2) (demo_access [] [], Suc 2)"
    by (rule access_step.create_user [OF shared_access_steps(2) refl])
  then have r2: "reach access_init (access_step ?h) (demo_access [] [], Suc 2)" using r1 unfolding Suc_1 by (rule reach_step [rotated])
  have "alice \<in> set (ac_users (demo_access [] []))" by (simp add: demo_access_def)
  then have s3: "access_step ?h (demo_access [] [], 3) (demo_access [demo_project 3 ''main''] [demo_member 3 1 PR_ADMIN 0], Suc 3)"
    by (rule access_step.create_project [OF shared_access_steps(3)])
  have n: "Suc 2 = (3::nat)" "Suc 3 = (4::nat)" by simp_all
  have r3: "reach access_init (access_step ?h) (demo_access [demo_project 3 ''main''] [demo_member 3 1 PR_ADMIN 0], 4)"
    using r2 s3 unfolding n by (rule reach_step)
  have "access_step ?h (demo_access [demo_project 3 ''main''] [demo_member 3 1 PR_ADMIN 0], 4) (shared_access, 4)"
    by (rule access_step.set_members [OF shared_access_steps(4)])
  with r3 show ?thesis by (rule reach_step)
qed

theorem reachable_access_witness:
  "log_in_with_token (ae_hash demo_access_env) shared_access ''tb'' = Some bob"
proof -
  have "bob \<in> set (ac_users shared_access)" "us_active bob" "us_token bob = Some ''tb''"
    by (simp_all add: shared_access_def demo_access_def bob_def demo_account_def)
  with reachable_access [OF shared_access_reached] show ?thesis by blast
qed

theorem project_access_correct_witness:
  "ProjectManager (ae_hash demo_access_env) shared_access ''MAIN'' ''tb'' = Inr (bob, demo_project 3 ''main'')
   \<and> ProjectAdmin (ae_hash demo_access_env) shared_access ''MAIN'' ''tb'' \<noteq> Inr (bob, demo_project 3 ''main'')"
proof -
  have "may_use (ae_hash demo_access_env) shared_access ''MAIN'' ''tb'' {Some PR_ADMIN, Some PR_MANAGER} (bob, demo_project 3 ''main'')"
    "\<not> may_use (ae_hash demo_access_env) shared_access ''MAIN'' ''tb'' {Some PR_ADMIN} (bob, demo_project 3 ''main'')"
    by code_simp+
  with project_access_correct [OF shared_access_reached] show ?thesis by blast
qed

subsection \<open>Managers\<close>

lemma set_project_members_rows [simp]: "set (project_members a k) = {m \<in> set (ac_members a). mb_project_id m = k}"
  by (simp add: project_members_def)

lemma admin_names:
  assumes "access_ok token_hash (a, uid)" and "v \<in> set (ac_users a)"
  shows "us_name v \<in> set (List.map_filter (\<lambda>m. user_names a (mb_user_id m)) (filter (\<lambda>m. mb_project_role m = PR_ADMIN) (project_members a k)))
    \<longleftrightarrow> is_project_admin a v k"
proof -
  have ids: "user_names a (us_id u) = Some (us_name u)" if "u \<in> set (ac_users a)" for u
    using find_unique [of u "ac_users a" "\<lambda>x. us_id x = us_id u"] access_okD(1) [OF assms(1)] that
    by (auto simp: user_names_def distinct_map inj_on_def)
  have "us_id v = mb_user_id m" if "user_names a (mb_user_id m) = Some (us_name v)" for m
  proof -
    from that obtain u where "u \<in> set (ac_users a)" "us_id u = mb_user_id m" "us_name u = us_name v"
      by (auto simp: user_names_def find_Some_iff) (metis nth_mem)
    with users_names_distinct [OF assms(1)] assms(2) show ?thesis by (auto simp: distinct_map inj_on_def)
  qed
  then have name: "user_names a (mb_user_id m) = Some (us_name v) \<longleftrightarrow> us_id v = mb_user_id m" for m
    using ids [OF assms(2)] by metis
  have names: "us_name v \<in> set (List.map_filter (\<lambda>m. user_names a (mb_user_id m)) ms) \<longleftrightarrow> (\<exists>m \<in> set ms. us_id v = mb_user_id m)" for ms
    unfolding name [symmetric] by (induction ms) (auto simp: map_filter_simps split: option.splits)
  show ?thesis unfolding names by (auto simp: is_project_admin_def list_ex_iff)
qed

lemma member_rows_admin:
  assumes "access_ok token_hash (a, uid)" and "v \<in> set (ac_users a)"
  shows "(\<exists>m \<in> set (member_rows a k members). mb_user_id m = us_id v \<and> mb_project_role m = PR_ADMIN) \<longleftrightarrow> (us_name v, PR_ADMIN) \<in> set members"
proof
  assume "\<exists>m \<in> set (member_rows a k members). mb_user_id m = us_id v \<and> mb_project_role m = PR_ADMIN"
  then obtain m u where "u \<in> set (ac_users a)" "us_id v = us_id u" "(us_name u, PR_ADMIN) \<in> set members"
    using member_rows_mem(2) by metis
  with access_okD(1) [OF assms(1)] assms(2) show "(us_name v, PR_ADMIN) \<in> set members" by (auto simp: distinct_map inj_on_def)
next
  assume "(us_name v, PR_ADMIN) \<in> set members"
  then obtain i where i: "i < length members" "members ! i = (us_name v, PR_ADMIN)" by (auto simp: in_set_conv_nth)
  have g: "get_user_model_by_name a (us_name v) False = Some v"
    using find_unique [of v "ac_users a" "\<lambda>x. us_name x = us_name v"] users_names_distinct [OF assms(1)] assms(2)
    by (auto simp: get_user_model_by_name_def distinct_map inj_on_def)
  have "(i, us_name v, PR_ADMIN) \<in> set (zip [0..<length members] members)" using i by (auto simp: set_zip intro!: exI [of _ i])
  with g have "\<lparr>mb_project_id = k, mb_user_id = us_id v, mb_project_role = PR_ADMIN, mb_member_num = i\<rparr> \<in> set (member_rows a k members)"
    by (force simp: member_rows_def map_filter_def)
  then show "\<exists>m \<in> set (member_rows a k members). mb_user_id m = us_id v \<and> mb_project_role m = PR_ADMIN" by force
qed

text \<open>
  C36. A manager who is not an administrator of the server cannot change who administers the project: after
  setting the members every user is listed as administrator exactly when it was before, and the members
  of other projects are the same.
\<close>

theorem manager_keeps_admins:
  assumes "reach access_init (access_step token_hash) (a, uid)" and "set_project_members user (pj_name p) members a = Inr a'"
    and "p \<in> set (list_project_models a)" and "us_global_role user \<noteq> GR_ADMIN" and "get_user_project_role a user (pj_id p) = Some PR_MANAGER"
    and "v \<in> set (ac_users a)"
  shows "is_project_admin a' v (pj_id p) = is_project_admin a v (pj_id p) \<and> (\<forall>k. k \<noteq> pj_id p \<longrightarrow> project_members a' k = project_members a k)"
  using assms(2)
proof (cases rule: set_project_members_Inr)
  case (1 q)
  have ok: "access_ok token_hash (a, uid)" using assms(1) by (rule access_system.reach_inv)
  have q: "q = p" using 1(1,2) assms(3) access_okD(8) [OF ok] by (auto simp: list_project_models_def distinct_map inj_on_def)
  then have c: "\<not> changes_admins a (pj_id p) members" using 1(4) assms(4,5) by simp
  have "is_project_admin a' v (pj_id p) \<longleftrightarrow> (us_name v, PR_ADMIN) \<in> set members"
    using member_rows_admin [OF ok assms(6), of "pj_id p" members] member_rows_mem(1) [of _ a "pj_id p" members]
    by (fastforce simp: is_project_admin_def list_ex_iff 1(5) q)
  also have "\<dots> \<longleftrightarrow> us_name v \<in> set (map fst (filter (\<lambda>m. snd m = PR_ADMIN) members))" by force
  also have "\<dots> \<longleftrightarrow> is_project_admin a v (pj_id p)"
    using c admin_names [OF ok assms(6), of "pj_id p"] unfolding changes_admins_def by simp
  finally have "is_project_admin a' v (pj_id p) = is_project_admin a v (pj_id p)" .
  moreover have "filter (\<lambda>m. mb_project_id m = k) (ac_members a') = filter (\<lambda>m. mb_project_id m = k) (ac_members a)" if "k \<noteq> pj_id p" for k
  proof -
    have "filter (\<lambda>m. mb_project_id m = k) (member_rows a (pj_id p) members) = []"
      using member_rows_mem(1) [of _ a "pj_id p" members] that by (auto simp: filter_empty_conv)
    moreover have "filter (\<lambda>m. mb_project_id m = k) (filter (\<lambda>m. mb_project_id m \<noteq> pj_id p) (ac_members a)) = filter (\<lambda>m. mb_project_id m = k) (ac_members a)"
      using that by (auto intro!: filter_cong)
    ultimately show ?thesis by (simp add: 1(5) q)
  qed
  ultimately show ?thesis by (simp add: project_members_def)
qed

theorem manager_keeps_admins_witness:
  "set_project_members bob ''main'' [(''alice'', PR_ADMIN)] shared_access
     = Inr (demo_access [demo_project 3 ''main''] [demo_member 3 1 PR_ADMIN 0])
   \<and> is_project_admin (demo_access [demo_project 3 ''main''] [demo_member 3 1 PR_ADMIN 0]) alice 3
     = is_project_admin shared_access alice 3"
proof -
  have s: "set_project_members bob (pj_name (demo_project 3 ''main'')) [(''alice'', PR_ADMIN)] shared_access
      = Inr (demo_access [demo_project 3 ''main''] [demo_member 3 1 PR_ADMIN 0])"
    and h: "demo_project 3 ''main'' \<in> set (list_project_models shared_access)" "us_global_role bob \<noteq> GR_ADMIN"
      "get_user_project_role shared_access bob (pj_id (demo_project 3 ''main'')) = Some PR_MANAGER" "alice \<in> set (ac_users shared_access)"
    and n: "pj_name (demo_project 3 ''main'') = ''main''" "pj_id (demo_project 3 ''main'') = 3"
    by code_simp+
  from manager_keeps_admins [OF shared_access_reached s h] s show ?thesis unfolding n by blast
qed

text \<open>
  The check of a manager compares sets of names, and a role is read from the first row of a user: a manager
  who lists an administrator twice, with another role first, takes the access of an administrator away.
\<close>

theorem manager_demotes_admin:
  "ProjectAdmin (ae_hash demo_access_env) shared_access ''main'' ''ta'' = Inr (alice, demo_project 3 ''main'')
   \<and> get_user_project_role shared_access bob 3 = Some PR_MANAGER
   \<and> (case set_project_members bob ''main'' [(''alice'', PR_USER), (''alice'', PR_ADMIN), (''bob'', PR_MANAGER)] shared_access of
        Inl _ \<Rightarrow> False
      | Inr a' \<Rightarrow> ProjectAdmin (ae_hash demo_access_env) a' ''main'' ''ta'' = Inl AccessDenied)"
  by (intro conjI) code_simp+

subsection \<open>Deleting projects\<close>

text \<open>
  C37. A user who is not an administrator of the server deletes only projects it administers, and not all of its
  projects; exactly the named projects are gone, and users and members are the same.
\<close>

theorem delete_projects_safe:
  assumes "reach access_init (access_step token_hash) (a, uid)" and "delete_projects now user names a = Inr a'" and "us_global_role user \<noteq> GR_ADMIN"
  shows "list_project_models a' = filter (\<lambda>p. pj_name p \<notin> set names) (list_project_models a)
    \<and> (\<forall>p \<in> set (list_project_models a). pj_name p \<in> set names \<longrightarrow> is_project_admin a user (pj_id p))
    \<and> list_user_project_models a' user \<noteq> [] \<and> ac_users a' = ac_users a \<and> ac_members a' = ac_members a"
proof -
  have ok: "access_ok token_hash (a, uid)" using assms(1) by (rule access_system.reach_inv)
  note d = delete_projects_Inr [OF assms(2)]
  have c: "\<forall>n \<in> set names. n \<in> pj_name ` set (list_user_project_models a user)"
    "\<forall>p \<in> set (list_user_project_models a user). is_project_admin a user (pj_id p)"
    "\<exists>p \<in> set (list_user_project_models a user). pj_name p \<notin> set names"
    using d(3) assms(3) by (auto simp: check_can_delete_projects_def Let_def list_ex_iff list_all_iff split: if_splits)
  have "is_project_admin a user (pj_id p)" if "p \<in> set (list_project_models a)" "pj_name p \<in> set names" for p
  proof -
    from c(1) that(2) obtain q where q: "q \<in> set (list_user_project_models a user)" "pj_name q = pj_name p" by fastforce
    then have "q = p" using access_okD(8) [OF ok] that(1)
      by (auto simp: list_project_models_def list_user_project_models_def distinct_map inj_on_def)
    with q(1) c(2) show ?thesis by blast
  qed
  moreover have "list_project_models a' = filter (\<lambda>p. pj_name p \<notin> set names) (list_project_models a)"
    by (simp add: d(1) list_project_models_def live_map_rows_deleted)
  moreover have "p \<in> set (list_user_project_models a' user)" if "p \<in> set (list_user_project_models a user)" "pj_name p \<notin> set names" for p
    using that by (auto simp: d(1) list_user_project_models_def set_map_rows)
  moreover have "ac_users a' = ac_users a" "ac_members a' = ac_members a" by (simp_all add: d(1))
  ultimately show ?thesis using c(3) by (metis empty_iff list.set(1))
qed

text \<open>Alice creates a second project.\<close>

definition two_projects :: access where
  "two_projects = demo_access [demo_project 3 ''main'', demo_project 4 ''side'']
     [demo_member 3 1 PR_ADMIN 0, demo_member 3 2 PR_MANAGER 1, demo_member 4 1 PR_ADMIN 0]"

lemma two_projects_reached: "reach access_init (access_step (ae_hash demo_access_env)) (two_projects, Suc 4)"
proof -
  have s: "create_project demo_access_env 4 alice ''side'' shared_access = Inr (demo_project 4 ''side'', two_projects)"
    and m: "alice \<in> set (ac_users shared_access)" by code_simp+
  show ?thesis using shared_access_reached access_step.create_project [OF s m] by (rule reach_step)
qed

theorem delete_projects_safe_witness:
  "\<exists>a'. delete_projects 7000000 alice [''side''] two_projects = Inr a' \<and> list_project_models a' = [demo_project 3 ''main'']"
proof -
  obtain a' where d: "delete_projects 7000000 alice [''side''] two_projects = Inr a'"
  proof -
    have "case delete_projects 7000000 alice [''side''] two_projects of Inl _ \<Rightarrow> False | Inr _ \<Rightarrow> True" by code_simp
    then show ?thesis using that by (simp split: sum.splits)
  qed
  have "us_global_role alice \<noteq> GR_ADMIN" by code_simp
  with delete_projects_safe [OF two_projects_reached d]
  have "list_project_models a' = filter (\<lambda>p. pj_name p \<notin> set [''side'']) (list_project_models two_projects)" by blast
  also have "\<dots> = [demo_project 3 ''main'']" by code_simp
  finally show ?thesis using d by blast
qed

text \<open>
  The check goes over all projects of the user, not only the named ones: who is only a member of one project
  can delete no project, not even one it owns.
\<close>

theorem member_deletes_nothing:
  assumes "us_global_role user \<noteq> GR_ADMIN" and "p \<in> set (list_user_project_models a user)" and "\<not> is_project_admin a user (pj_id p)"
  shows "delete_projects now user names a = Inl ForbiddenError"
  using assms by (auto simp: delete_projects_def check_can_delete_projects_def Let_def list_ex_iff bindE_def)

end
