(* ===== verification/Spec2Isabelle.thy ===== *)
theory Spec2Isabelle
  imports Locking Autoscalers Services Jobs Terminating_Jobs Job_Configurators Pagination Run_System
    Job_Provisioning Network Fleets Instance_Lifecycle Job_Running Server_Tasks Volumes Access
begin

text \<open>
  \<^bold>\<open>The dstack server.\<close> dstack runs development environments, tasks and services on cloud instances
  and SSH hosts. A user submits a \<^emph>\<open>run\<close>; the server turns its configuration into \<^emph>\<open>jobs\<close> (one for each
  node of each replica), places each job on an \<^emph>\<open>instance\<close> of a pool or fleet, follows it through the agents
  on the instance (the \<^emph>\<open>shim\<close> on the host, the \<^emph>\<open>runner\<close> in the container) and releases the instance at the
  end. The state is a database; the requests of users and six background tasks change its rows, each in
  a transaction of its own. This development models that core of \<^verbatim>\<open>src/dstack/_internal\<close>: the data
  model, the services behind the requests and the background tasks. Paths below are relative to it.

  \<^bold>\<open>How the parts interact.\<close> \<^verbatim>\<open>services/runs.py\<close> creates a run with submitted jobs. The task of
  submitted jobs assigns each an instance with free blocks, or creates one from the offers of the clouds;
  the task of instances creates the pending instances of fleets, adds SSH hosts, checks the health of
  instances and terminates them; the task of running jobs hands a job to shim and runner and follows it;
  the task of terminating jobs detaches volumes and gives the instance back; the task of runs computes
  the status of the run from its jobs, resubmits failed ones and scales services; the tasks of fleets and
  placement groups delete what is no longer used. Tasks and requests exclude each other by locks on rows
  (\<^verbatim>\<open>services/locking.py\<close>).

  \<^bold>\<open>Conventions.\<close> A row or a pydantic model is a \<^theory_text>\<open>record\<close> with the fields the modelled code
  uses, an enumeration or a union is a \<^theory_text>\<open>datatype\<close>; a JSON column holds the value it encodes. A
  handler is a function from the rows it loads to the rows it stores. Exceptions are values of the type
  \<open>error\<close> and a computation that may raise has the type \<open>'a result = error + 'a\<close>; a handler whose
  exception undoes the transaction returns \<open>Inl\<close>, one that keeps changes made before the exception returns
  the state together with the result. Integers of Python are \<open>int\<close>, floats of prices and rates exact
  rationals, times integers of microseconds; IPv4 addresses are 32-bit words. Strings are byte strings.
  The clock is read once in each step of a task. What is not in the repository, or only reached through
  the network, is a parameter: the compute interface of the backends, the catalogue of instance types, the
  gateway, the agents on an instance as a function from HTTP requests to responses, the version library,
  the storages of code and logs, the deployment over SSH, and random names, which are lists of choices.

  \<^bold>\<open>Theories.\<close>
  \<^item> \<open>Prelude\<close>: errors and results, time, stable sorting, \<^verbatim>\<open>itertools.groupby\<close>, rows replaced in
    place, and the locale \<open>invariant_system\<close> of transition systems with an invariant. \<open>Py_Strings\<close>: the
    string operations of Python that the code uses.
  \<^item> \<open>Locking\<close> (\<^verbatim>\<open>services/locking.py\<close>): any number of tasks that acquire sets of keys. Mutual
    exclusion, also for keys held while waiting, freedom from deadlock for sorted keys, and how a wait that is
    cancelled while others hold its keys breaks the exclusion.
  \<^item> \<open>Common_Utils\<close>, \<open>Resources\<close>, \<open>Interpolator\<close>, \<open>Network\<close> (\<^verbatim>\<open>utils/\<close>,
    \<^verbatim>\<open>core/models/resources.py\<close>): durations, chunks, ranges, GPU texts, references in texts, internal
    addresses. Round trips and the boundaries of the parsers.
  \<^item> \<open>Instance_Models\<close>, \<open>Configurations\<close>, \<open>Run_Models\<close>, \<open>Fleet_Models\<close>, \<open>Database\<close>
    (\<^verbatim>\<open>core/models/\<close>, \<^verbatim>\<open>server/models.py\<close>): the data and its validators, the tables, and
    the accounting of the blocks of an instance.
  \<^item> \<open>Job_Configurators\<close> (\<^verbatim>\<open>services/jobs/configurators/\<close>): job specifications from a
    configuration. \<open>Autoscalers\<close>, \<open>Services\<close> (\<^verbatim>\<open>services/services/\<close>): scaling decisions, with
    the locale \<open>service_scaler\<close> for both scalers, and registration of services.
  \<^item> \<open>Jobs\<close>, \<open>Terminating_Jobs\<close> (\<^verbatim>\<open>services/jobs/__init__.py\<close>,
    \<^verbatim>\<open>process_terminating_jobs.py\<close>): grouping of rows, volumes of a job, termination and detaching.
  \<^item> \<open>Pagination\<close>: keyset pagination, as the locale \<open>keyset_listing\<close>, for runs and instances.
  \<^item> \<open>Runs\<close>, \<open>Process_Runs\<close> (\<^verbatim>\<open>services/runs.py\<close>, \<^verbatim>\<open>process_runs.py\<close>): the requests
    on runs and the step of the runs task. \<open>Latest_View\<close> is their specification, a map from replica and job
    number to the latest row; \<open>Run_Scaling\<close>, \<open>Run_Requests\<close>, \<open>Run_Lifecycle\<close> prove what the
    operations do to it, and \<open>Run_System\<close> combines requests, task and changes of jobs into a transition
    system with an invariant and an abstract life cycle that every step refines.
  \<^item> \<open>Offers\<close>, \<open>Pools\<close>, \<open>Submitted_Jobs\<close>, \<open>Job_Provisioning\<close>
    (\<^verbatim>\<open>core/backends/base/offers.py\<close>, \<^verbatim>\<open>services/offers.py\<close>, \<^verbatim>\<open>services/pools.py\<close>,
    \<^verbatim>\<open>process_submitted_jobs.py\<close>): offers for requirements, shared instances, pools and their
    default, the two steps of a submitted job. The accounting of blocks, the choice of instance and offer.
  \<^item> \<open>Fleets\<close> (\<^verbatim>\<open>services/fleets.py\<close>, \<^verbatim>\<open>process_fleets.py\<close>,
    \<^verbatim>\<open>process_placement_groups.py\<close>): creation and deletion of fleets and their placement groups.
  \<^item> \<open>Instances\<close>, \<open>Instance_Lifecycle\<close> (\<^verbatim>\<open>process_instances.py\<close>): the step on an instance and
    its refinement of a life cycle; instances in use are kept, clusters stay together, termination ends.
  \<^item> \<open>Runner_Client\<close>, \<open>Running_Jobs\<close>, \<open>Job_Running\<close> (\<^verbatim>\<open>services/runner/\<close>,
    \<^verbatim>\<open>schemas/runner.py\<close>, \<^verbatim>\<open>process_running_jobs.py\<close>): the clients of shim and runner, the
    tunnel with its retries, and the step on an active job; jobs only move forward, replicas start
    together, agents that do not answer are given up in time.
  \<^item> \<open>Volumes\<close> (\<^verbatim>\<open>services/volumes.py\<close>, \<^verbatim>\<open>process_volumes.py\<close>): creation and deletion of
    volumes and their task; names are unique, volumes in use are kept, and a deletion can overtake the task.
  \<^item> \<open>Access\<close> (\<^verbatim>\<open>services/users.py\<close>, \<^verbatim>\<open>services/projects.py\<close>,
    \<^verbatim>\<open>security/permissions.py\<close>): users, projects, members, and who may use the routers. The requests
    form a transition system, an interpretation of \<open>invariant_system\<close>; tokens identify users, the checks of the
    routers grant exactly the roles they name, managers keep the listed administrators.
  \<^item> \<open>Server_System\<close>, \<open>Run_Rows\<close>, \<open>Server_Tasks\<close>: the server as one transition system
    \<open>server_step\<close> on the database, with the tasks of submitted, running and terminating jobs, of
    instances, runs and fleets and the requests on runs, fleets and instances as its steps, in any order and
    with any answers from outside. \<open>Server_System\<close> shows that the tasks on jobs and instances keep its
    invariant, \<open>Run_Rows\<close> that operations on runs place nothing, \<open>Server_Tasks\<close> interprets
    \<open>invariant_system\<close>. The properties of all reachable states are in this theory: instances are accounted
    for and finished jobs hold none. Where the backend of a terminating job cannot be reached, blocks are given
    back twice (\<open>unavailable_backend_releases_twice\<close> in \<open>Terminating_Jobs\<close>); the state has a ledger of them as
    auxiliary variable, with which the accounting is exact in every state, and which is shown to stay empty
    when the backends can always be reached. The deprecated requests that create instances outside of
    fleets are not steps of the system.

  \<^bold>\<open>Bounds and fuel.\<close> The search for a free run name gets as fuel one more than the number of runs, and
    is proved to end with it. Fifteen offers are tried for a job, as in the code. The tunnel makes one or
    three attempts, as in the code, by recursion on the number left. The termination of an instance is
    proved to end within thirty attempts thirty seconds apart, the fifteen minutes the code allows. All
    other loops are recursions on lists or have termination proofs.

  \<^bold>\<open>Not modelled.\<close> The backends' calls of cloud SDKs and the deployment of agents over SSH are glue to code
  outside of the repository; the command line client, the Python API, the HTTP routers and the gateway
  and proxy applications are clients of the modelled services. Repositories, gateways (beyond the rows that
  services use), logs, metrics, encryption of columns, database migrations, the configuration of backends and
  the hooks that extensions add to the creation of users and projects are not modelled.
  Waiting for locks inside a step is modelled where rows are read again after it (submitted jobs).
\<close>

section \<open>The server as a whole\<close>

text \<open>
  A state that the server reaches: it starts with an idle instance, a task is submitted, and its job is
  assigned to the instance.
\<close>

lemma keys_below_code:
  "keys_below u d \<longleftrightarrow> list_all (\<lambda>i. im_id i < u) (db_instances d) \<and> list_all (\<lambda>r. rm_id r < u) (db_runs d)
     \<and> list_all (\<lambda>j. jm_id j < u \<and> (case jm_instance_id j of None \<Rightarrow> True | Some k \<Rightarrow> k < u)) (db_jobs d)"
  by (auto simp: keys_below_def fresh_key_def list_all_iff split: option.splits)

definition demo_task :: RunConfiguration where
  "demo_task = TaskConfiguration sample_base \<lparr>tk_commands = [''train''], tk_ports = [], tk_nodes = 1\<rparr>"

definition demo_start :: db where
  "demo_start = \<lparr>db_runs = [], db_instances = [idle_instance 5 2], db_volumes = [], db_fleets = [], db_pools = [sample_pool 1],
     db_placement_groups = []\<rparr>"

definition demo_submitted :: db where
  "demo_submitted = demo_start\<lparr>db_runs := fst (apply_plan demo_submit_env [] 1 1 (sample_run_spec demo_task) None True [] 10)\<rparr>"

definition demo_assigned :: db where
  "demo_assigned = (case process_next_submitted_job (sample_sj_env []) {} demo_submitted demo_submitted of Inl _ \<Rightarrow> demo_start | Inr d \<Rightarrow> d)"

lemma demo_assigned_rows:
  "(case process_next_submitted_job (sample_sj_env []) {} demo_submitted demo_submitted of Inl _ \<Rightarrow> False | Inr _ \<Rightarrow> True)"
  "map (\<lambda>j. (jm_id j, jm_status j, jm_instance_id j, job_blocks j)) (db_jobs demo_assigned) = [(11, J_SUBMITTED, Some 5, 1)]"
  "map (\<lambda>i. (im_id i, im_busy_blocks i)) (db_instances demo_assigned) = [(5, 1)]"
  by code_simp+

lemma demo_keys: "keys_below 10 demo_start" "keys_below 100 demo_submitted" "keys_below 100 demo_assigned"
  unfolding keys_below_code by code_simp+

lemma demo_reached: "reach server_init (server_step up) (demo_assigned, 100, \<lambda>_. 0)"
proof -
  have "server_init (demo_start, 10, \<lambda>_. 0)"
    using demo_keys(1) by (simp add: server_init_def demo_start_def idle_instance_def sample_instance_def sample_offer_def capacity_ok_def)
  then have r0: "reach server_init (server_step up) (demo_start, 10, \<lambda>_. 0)" by (rule reach_init)
  obtain runs res where a: "apply_plan demo_submit_env [] 1 1 (sample_run_spec demo_task) None True [] 10 = (runs, res)" by fastforce
  have e: "db_volumes demo_start = []" "db_runs demo_start = []" by (simp_all add: demo_start_def)
  have s: "demo_submitted = demo_start\<lparr>db_runs := runs\<rparr>" unfolding demo_submitted_def a by simp
  have "server_task up 10 (demo_start, \<lambda>_. 0) (demo_submitted, \<lambda>_. 0)"
    unfolding s by (rule server_task.apply_run [where env = demo_submit_env and project = 1 and usr = 1 and expected = None and force = True and spec = "sample_run_spec demo_task"]) (use a e in \<open>simp_all add: sample_run_spec_def demo_task_def\<close>)
  then have "server_step up (demo_start, 10, \<lambda>_. 0) (demo_submitted, 100, \<lambda>_. 0)"
    using demo_keys(2) by (intro server_step.task) simp_all
  with r0 have r1: "reach server_init (server_step up) (demo_submitted, 100, \<lambda>_. 0)" by (rule reach_step)
  have "process_next_submitted_job (sample_sj_env []) {} demo_submitted demo_submitted = Inr demo_assigned"
    using demo_assigned_rows(1) by (auto simp: demo_assigned_def split: sum.splits)
  then have "server_task up 100 (demo_submitted, \<lambda>_. 0) (demo_assigned, \<lambda>_. 0)"
    by (rule server_task.submitted) (simp_all add: sample_sj_env_def plain_offers_def offered_def)
  then have "server_step up (demo_submitted, 100, \<lambda>_. 0) (demo_assigned, 100, \<lambda>_. 0)"
    using demo_keys(3) by (intro server_step.task) simp_all
  with r1 show ?thesis by (rule reach_step)
qed

text \<open>
  C1. The accounting of instances in every state that the modelled tasks and requests lead to, in any order:
  the busy blocks of an instance are those of the unfinished jobs placed on it, less the blocks that the
  task of terminating jobs has given back twice, and not more than the instance has. Blocks are given back
  twice only where the backend of a terminating job could not be reached; if that never happens the busy
  blocks are exactly those of the jobs, they are not negative, and a pending instance has none.
\<close>

theorem server_accounting:
  assumes "reach server_init (server_step up) (d, uid, twice)" and "i \<in> set (db_instances d)"
  shows "im_busy_blocks i
      = (\<Sum>j\<leftarrow>db_jobs d. if jm_instance_id j = Some (im_id i) \<and> \<not> job_is_finished (jm_status j) then job_blocks j else 0) - twice (im_id i)
    \<and> 0 \<le> twice (im_id i) \<and> (\<forall>n. im_total_blocks i = Some n \<longrightarrow> im_busy_blocks i \<le> n) \<and> (im_status i = I_PENDING \<longrightarrow> im_busy_blocks i \<le> 0)
    \<and> (up \<longrightarrow> twice (im_id i) = 0 \<and> 0 \<le> im_busy_blocks i \<and> (im_status i = I_PENDING \<longrightarrow> im_busy_blocks i = 0))"
proof -
  have inv: "server_inv up twice d" using reachable_server [OF assms(1)] by blast
  have b: "im_busy_blocks i = sum_list (map job_blocks (instance_jobs d (im_id i))) - twice (im_id i)"
    using server_invD(3) [OF inv] assms(2) by (simp add: blocks_inv_def)
  have "0 \<le> job_blocks j" if "j \<in> set (db_jobs d)" for j using server_invD(6) [OF inv that] by (simp add: job_row_ok_def)
  then have "0 \<le> sum_list (map job_blocks (instance_jobs d (im_id i)))" by (intro sum_list_nonneg) (auto simp: instance_jobs_def)
  moreover have "im_busy_blocks i = - twice (im_id i)" if "im_status i = I_PENDING"
    unfolding b using server_invD(4) [OF inv] assms(2) that by (simp add: pending_unused_def)
  moreover have "0 \<le> twice (im_id i)" "up \<longrightarrow> twice (im_id i) = 0" using server_invD(8) [OF inv] by (simp_all add: ledger_ok_def)
  moreover have "capacity_ok i" using server_invD(5) [OF inv] assms(2) by blast
  ultimately show ?thesis using b server_busy_sum [OF inv, of "im_id i"] by (auto simp: capacity_ok_def)
qed

text \<open>An instance with a job on it.\<close>

theorem server_accounting_witness:
  "\<exists>i. db_instances demo_assigned = [i] \<and> im_busy_blocks i = 1
     \<and> im_busy_blocks i = (\<Sum>j\<leftarrow>db_jobs demo_assigned. if jm_instance_id j = Some (im_id i) \<and> \<not> job_is_finished (jm_status j) then job_blocks j else 0)"
proof -
  from demo_assigned_rows(3) obtain i where i: "db_instances demo_assigned = [i]" "im_busy_blocks i = 1" by auto
  have "i \<in> set (db_instances demo_assigned)" using i by simp
  from server_accounting [OF demo_reached this] i show ?thesis by auto
qed

text \<open>
  C3. Placement in every state that the modelled tasks and requests lead to: a job that holds an instance has
  not finished (a finished job leaks none), the instance exists and is not waiting to be created, and it is
  the one the job was placed on. A job that has given its instance back is finished or terminating; if the
  backends of terminating jobs can always be reached, the latter only while it waits for its volumes.
\<close>

theorem server_placement:
  assumes "reach server_init (server_step up) (d, uid, twice)" and "j \<in> set (db_jobs d)"
  shows "case jm_instance_id j of
      Some k \<Rightarrow> \<not> job_is_finished (jm_status j) \<and> jm_used_instance_id j = Some k
        \<and> (\<exists>i \<in> set (db_instances d). im_id i = k \<and> im_status i \<noteq> I_PENDING)
    | None \<Rightarrow> job_is_finished (jm_status j) \<or> jm_used_instance_id j = None
        \<or> jm_status j = J_TERMINATING \<and> (up \<longrightarrow> jm_volumes_detached_at j \<noteq> None)"
proof (cases "jm_instance_id j")
  case None
  have "job_row_ok up (instance_keys d) j" using server_invD(6) [OF reachable_server(1) [OF assms(1)] assms(2)] .
  with None show ?thesis by (auto simp: job_row_ok_def assignment_ok_def job_stopped_def split: if_split_asm)
next
  case (Some k)
  with server_jobs [OF reachable_server(1) [OF assms(1)] assms(2) Some] show ?thesis by auto
qed

text \<open>A job that holds an instance.\<close>

theorem server_placement_witness:
  "\<exists>j. db_jobs demo_assigned = [j] \<and> jm_instance_id j = Some 5 \<and> jm_used_instance_id j = Some 5
     \<and> (\<exists>i \<in> set (db_instances demo_assigned). im_id i = 5 \<and> im_status i \<noteq> I_PENDING)"
proof -
  from demo_assigned_rows(2) obtain j where j: "db_jobs demo_assigned = [j]" "jm_instance_id j = Some 5" by auto
  have "j \<in> set (db_jobs demo_assigned)" using j by simp
  from server_placement [OF demo_reached this] j show ?thesis by auto
qed

end
